(* ===== verification/C_Base.thy ===== *)
theory C_Base
  imports Main "HOL-Library.Word"
begin

text \<open>
  Prelude of the development: the pieces of C that every component uses.

  Machine integers are words of their width. Memory objects (structures on the wire, line
  buffers, heap blocks) are lists of bytes of the object's size; \<open>put_at\<close> and \<open>get_at\<close> write and
  read a slice. The target is little endian and LP64 (the arm64 phones this device tree is for),
  so \<open>le_bytes\<close> and \<open>le_word\<close> are the memory images of the integer types.
  A C string is the byte list up to its first zero byte (\<open>cstr\<close>). The conversions of the C
  library that the sources call (\<open>strlcpy\<close>, \<open>strtol\<close>, \<open>strtoul\<close>, \<open>sscanf\<close>, \<open>printf\<close>) are
  defined here once.
\<close>

unbundle bit_operations_syntax

section \<open>Types and theorem collections\<close>

type_synonym u8 = "8 word"
type_synonym u16 = "16 word"
type_synonym u32 = "32 word"
type_synonym u64 = "64 word"
type_synonym bytes = "8 word list"

named_theorems layout \<open>lengths and slices of memory objects\<close>

section \<open>Slices of a memory object\<close>

definition put_at :: "nat \<Rightarrow> 'a list \<Rightarrow> 'a list \<Rightarrow> 'a list" where
  "put_at off xs buf = take off buf @ xs @ drop (off + length xs) buf"

definition get_at :: "nat \<Rightarrow> nat \<Rightarrow> 'a list \<Rightarrow> 'a list" where
  "get_at off n buf = take n (drop off buf)"

lemma length_put_at [simp, layout]:
  "off + length xs \<le> length buf \<Longrightarrow> length (put_at off xs buf) = length buf"
  by (simp add: put_at_def)

lemma length_get_at [simp, layout]:
  "off + n \<le> length buf \<Longrightarrow> length (get_at off n buf) = n"
  by (simp add: get_at_def)

lemma get_put_same [simp, layout]:
  "off + length xs \<le> length buf \<Longrightarrow> n = length xs \<Longrightarrow> get_at off n (put_at off xs buf) = xs"
  by (simp add: get_at_def put_at_def)

lemma nth_put_at:
  "off + length xs \<le> length buf \<Longrightarrow> i < length buf \<Longrightarrow>
    put_at off xs buf ! i = (if off \<le> i \<and> i < off + length xs then xs ! (i - off) else buf ! i)"
  by (auto simp: put_at_def nth_append)

lemma get_put_other [simp, layout]:
  assumes "off + length xs \<le> length buf" "p + n \<le> length buf"
    and "p + n \<le> off \<or> off + length xs \<le> p"
  shows "get_at p n (put_at off xs buf) = get_at p n buf"
  using assms by (intro nth_equalityI) (auto simp: get_at_def nth_put_at)

lemma get_at_append_left:
  "off + n \<le> length xs \<Longrightarrow> get_at off n (xs @ ys) = get_at off n xs"
  by (simp add: get_at_def)

lemma get_at_append_right:
  "length xs \<le> off \<Longrightarrow> get_at off n (xs @ ys) = get_at (off - length xs) n ys"
  by (simp add: get_at_def)

lemma get_at_zero_full [simp]: "n = length xs \<Longrightarrow> get_at 0 n xs = xs"
  by (simp add: get_at_def)

section \<open>Little-endian images of integers\<close>

fun nat_le :: "nat \<Rightarrow> nat \<Rightarrow> bytes" where
  "nat_le 0 k = []"
| "nat_le (Suc n) k = of_nat (k mod 256) # nat_le n (k div 256)"

fun le_nat :: "bytes \<Rightarrow> nat" where
  "le_nat [] = 0"
| "le_nat (b # bs) = unat b + 256 * le_nat bs"

definition le_bytes :: "nat \<Rightarrow> 'a::len word \<Rightarrow> bytes" where
  "le_bytes n w = nat_le n (unat w)"

definition le_word :: "bytes \<Rightarrow> 'a::len word" where
  "le_word bs = of_nat (le_nat bs)"

lemma length_nat_le [simp, layout]: "length (nat_le n k) = n"
  by (induction n arbitrary: k) auto

lemma length_le_bytes [simp, layout]: "length (le_bytes n w) = n"
  by (simp add: le_bytes_def)

lemma unat_of_nat_byte [simp]: "unat (of_nat (k mod 256) :: u8) = k mod 256"
  by (simp add: unat_of_nat)

lemma le_nat_nat_le: "le_nat (nat_le n k) = k mod 256 ^ n"
proof (induction n arbitrary: k)
  case (Suc n)
  then show ?case by (simp add: mod_mult2_eq)
qed simp

lemma le_nat_bound: "le_nat bs < 256 ^ length bs"
proof (induction bs)
  case (Cons b bs)
  have "unat b < 256" using unsigned_less[of b] by simp
  with Cons show ?case by simp
qed simp

lemma nat_le_le_nat: "n = length bs \<Longrightarrow> nat_le n (le_nat bs) = bs"
proof (induction bs arbitrary: n)
  case (Cons b bs)
  have "unat b < 256" using unsigned_less[of b] by simp
  with Cons show ?case by simp
qed simp

lemma le_word_le_bytes [simp]:
  assumes "LENGTH('a) \<le> 8 * n"
  shows "le_word (le_bytes n (w :: 'a::len word)) = w"
proof -
  have "unat w < 2 ^ LENGTH('a)" by (rule unsigned_less)
  also have "\<dots> \<le> 2 ^ (8 * n)" using assms by (intro power_increasing) auto
  also have "\<dots> = (256::nat) ^ n" by (simp add: power_mult)
  finally show ?thesis by (simp add: le_word_def le_bytes_def le_nat_nat_le)
qed

lemma le_bytes_le_word [simp]:
  assumes "length bs = n" "8 * n \<le> LENGTH('a)"
  shows "le_bytes n (le_word bs :: 'a::len word) = bs"
proof -
  have "le_nat bs < 256 ^ n" using le_nat_bound[of bs] assms(1) by simp
  also have "(256::nat) ^ n = 2 ^ (8 * n)" by (simp add: power_mult)
  also have "\<dots> \<le> 2 ^ LENGTH('a)" using assms(2) by (intro power_increasing) auto
  finally have "unat (of_nat (le_nat bs) :: 'a word) = le_nat bs"
    by (simp add: unat_of_nat take_bit_nat_eq_self)
  then show ?thesis using assms(1) by (simp add: le_word_def le_bytes_def nat_le_le_nat)
qed

lemma unat_of_nat_lt: "n < 2 ^ LENGTH('a) \<Longrightarrow> unat (of_nat n :: 'a::len word) = n"
  by (simp add: unat_of_nat take_bit_nat_eq_self)

definition rd16 :: "nat \<Rightarrow> bytes \<Rightarrow> u16" where
  "rd16 off buf = le_word (get_at off 2 buf)"

definition rd32 :: "nat \<Rightarrow> bytes \<Rightarrow> u32" where
  "rd32 off buf = le_word (get_at off 4 buf)"

end
