(* ===== verification/C_Lib.thy ===== *)
theory C_Lib
  imports C_Base
begin

text \<open>
  The C library calls the sources make on strings and numbers. Text is a \<open>string\<close> (one \<open>char\<close> per
  byte, \<open>NUL\<close> is the zero byte); a C string that a \<open>char *\<close> points to is the text up to the first
  \<open>NUL\<close> (\<open>c_str\<close>). \<open>strtol\<close> and \<open>strtoul\<close> are the 64-bit conversions of an LP64 target:
  white space, a sign, the base prefix, the longest run of digits, saturation.
\<close>

section \<open>Strings\<close>

abbreviation NUL :: char where "NUL \<equiv> CHR 0x00"
abbreviation NL :: char where "NL \<equiv> CHR 0x0A"
abbreviation TAB :: char where "TAB \<equiv> CHR 0x09"
abbreviation SPC :: char where "SPC \<equiv> CHR 0x20"

definition c_str :: "string \<Rightarrow> string" where
  "c_str s = takeWhile (\<lambda>c. c \<noteq> NUL) s"

definition strlen :: "string \<Rightarrow> nat" where
  "strlen s = length (c_str s)"

definition byte_of :: "char \<Rightarrow> u8" where
  "byte_of c = word_of_nat (of_char c)"

definition char_of_byte :: "u8 \<Rightarrow> char" where
  "char_of_byte b = char_of (unat b)"

definition to_bytes :: "string \<Rightarrow> bytes" where
  "to_bytes s = map byte_of s"

definition of_bytes :: "bytes \<Rightarrow> string" where
  "of_bytes bs = map char_of_byte bs"

text \<open>\<open>strlcpy(dst, src, size)\<close> stores \<open>strlcpy_image n src\<close> at \<open>dst\<close> and returns \<open>strlen src\<close>.\<close>

definition strlcpy_image :: "nat \<Rightarrow> string \<Rightarrow> string" where
  "strlcpy_image n src = (if n = 0 then [] else take (n - 1) (c_str src) @ [NUL])"

lemma char_of_byte_of [simp]: "char_of_byte (byte_of c) = c"
proof -
  have "(of_char c :: nat) < 256" by (rule nat_of_char_less_256)
  then have "unat (word_of_nat (of_char c) :: u8) = (of_char c :: nat)"
    by (simp add: unat_of_nat take_bit_nat_eq_self)
  then show ?thesis by (simp add: char_of_byte_def byte_of_def)
qed

lemma byte_of_char_of [simp]: "byte_of (char_of_byte b) = b"
proof -
  have "unat b < 256" using unsigned_less[of b] by simp
  then show ?thesis by (simp add: char_of_byte_def byte_of_def)
qed

lemma of_bytes_to_bytes [simp]: "of_bytes (to_bytes s) = s"
  by (induction s) (auto simp: of_bytes_def to_bytes_def)

lemma to_bytes_of_bytes [simp]: "to_bytes (of_bytes bs) = bs"
  by (induction bs) (auto simp: of_bytes_def to_bytes_def)

lemma length_to_bytes [simp, layout]: "length (to_bytes s) = length s"
  by (simp add: to_bytes_def)

lemma length_of_bytes [simp, layout]: "length (of_bytes bs) = length bs"
  by (simp add: of_bytes_def)

lemma of_bytes_append [simp]: "of_bytes (xs @ ys) = of_bytes xs @ of_bytes ys"
  by (simp add: of_bytes_def)

lemma c_str_idem [simp]: "c_str (c_str s) = c_str s"
  by (simp add: c_str_def)

lemma NUL_not_in_c_str [simp]: "NUL \<notin> set (c_str s)"
  by (auto simp: c_str_def dest: set_takeWhileD)

lemma c_str_no_NUL: "NUL \<notin> set s \<Longrightarrow> c_str s = s"
  by (auto simp: c_str_def takeWhile_eq_all_conv)

lemma c_str_terminated [simp]: "NUL \<notin> set s \<Longrightarrow> c_str (s @ NUL # rest) = s"
proof -
  assume "NUL \<notin> set s"
  then have "\<And>c. c \<in> set s \<Longrightarrow> c \<noteq> NUL" by auto
  then show ?thesis by (simp add: c_str_def takeWhile_append2)
qed

lemma length_strlcpy_image:
  "length (strlcpy_image n src) = (if n = 0 then 0 else min (n - 1) (strlen src) + 1)"
  by (simp add: strlcpy_image_def strlen_def min.commute)

lemma length_strlcpy_image_le [simp, layout]: "length (strlcpy_image n src) \<le> n"
  by (auto simp: length_strlcpy_image)

lemma NUL_notin_take_c_str [simp]: "NUL \<notin> set (take n (c_str s))"
  using NUL_not_in_c_str in_set_takeD by metis

lemma c_str_strlcpy_image:
  "0 < n \<Longrightarrow> c_str (strlcpy_image n src @ rest) = take (n - 1) (c_str src)"
  by (simp add: strlcpy_image_def)

lemma c_str_strlcpy_image_fits:
  "strlen src < n \<Longrightarrow> c_str (strlcpy_image n src @ rest) = c_str src"
  by (simp add: c_str_strlcpy_image strlen_def)

section \<open>Reading numbers\<close>

definition isspace :: "char \<Rightarrow> bool" where
  "isspace c \<longleftrightarrow> c = SPC \<or> (9 \<le> (of_char c :: nat) \<and> (of_char c :: nat) \<le> 13)"

definition isdigit :: "char \<Rightarrow> bool" where
  "isdigit c \<longleftrightarrow> 48 \<le> (of_char c :: nat) \<and> (of_char c :: nat) \<le> 57"

definition digit_val :: "char \<Rightarrow> nat" where
  "digit_val c = (let n = (of_char c :: nat) in
     if 48 \<le> n \<and> n \<le> 57 then n - 48
     else if 97 \<le> n \<and> n \<le> 122 then n - 87
     else if 65 \<le> n \<and> n \<le> 90 then n - 55
     else 36)"

fun digits_value :: "nat \<Rightarrow> nat \<Rightarrow> string \<Rightarrow> nat" where
  "digits_value base acc [] = acc"
| "digits_value base acc (c # cs) = digits_value base (acc * base + digit_val c) cs"

definition take_digits :: "nat \<Rightarrow> string \<Rightarrow> string" where
  "take_digits base s = takeWhile (\<lambda>c. digit_val c < base) s"

definition split_sign :: "string \<Rightarrow> bool \<times> string" where
  "split_sign s = (case s of
      c # cs \<Rightarrow> if c = CHR ''-'' then (True, cs) else if c = CHR ''+'' then (False, cs) else (False, s)
    | [] \<Rightarrow> (False, []))"

definition has_hex_prefix :: "string \<Rightarrow> bool" where
  "has_hex_prefix s = (case s of
      z # x # d # _ \<Rightarrow> z = CHR ''0'' \<and> (x = CHR ''x'' \<or> x = CHR ''X'') \<and> digit_val d < 16
    | _ \<Rightarrow> False)"

text \<open>Sign and magnitude of the subject sequence; \<open>None\<close> when there is no digit. Base 0 selects by prefix.\<close>

definition parse_int :: "nat \<Rightarrow> string \<Rightarrow> (bool \<times> nat) option" where
  "parse_int base s =
    (let (neg, s1) = split_sign (dropWhile isspace (c_str s));
         hex = (base = 0 \<or> base = 16) \<and> has_hex_prefix s1;
         b = (if base \<noteq> 0 then base
              else if hex then 16
              else if s1 \<noteq> [] \<and> hd s1 = CHR ''0'' then 8 else 10);
         ds = take_digits b (if hex then drop 2 s1 else s1)
     in if ds = [] then None else Some (neg, digits_value b 0 ds))"

definition strtol :: "nat \<Rightarrow> string \<Rightarrow> int" where
  "strtol base s = (case parse_int base s of
      None \<Rightarrow> 0
    | Some (neg, v) \<Rightarrow>
        if neg then (if v > 2 ^ 63 then - (2 ^ 63) else - int v)
        else (if v > 2 ^ 63 - 1 then 2 ^ 63 - 1 else int v))"

definition strtoul :: "nat \<Rightarrow> string \<Rightarrow> u64" where
  "strtoul base s = (case parse_int base s of
      None \<Rightarrow> 0
    | Some (neg, v) \<Rightarrow>
        if v > 2 ^ 64 - 1 then - 1
        else if neg then - of_nat v else of_nat v)"

text \<open>\<open>sscanf\<close> conversions: \<open>None\<close> is a matching failure, which leaves the destination as it was.\<close>

definition sscanf_lu :: "string \<Rightarrow> u64 option" where
  "sscanf_lu s = (if parse_int 10 s = None then None else Some (strtoul 10 s))"

definition sscanf_ld :: "string \<Rightarrow> u64 option" where
  "sscanf_ld s = (if parse_int 10 s = None then None else Some (word_of_int (strtol 10 s)))"

definition sscanf_u :: "string \<Rightarrow> u32 option" where
  "sscanf_u s = (if parse_int 10 s = None then None else Some (ucast (strtoul 10 s)))"

definition sscanf_d :: "string \<Rightarrow> u32 option" where
  "sscanf_d s = (if parse_int 10 s = None then None else Some (word_of_int (strtol 10 s)))"

definition sscanf_c :: "string \<Rightarrow> char option" where
  "sscanf_c s = (case c_str s of [] \<Rightarrow> None | c # _ \<Rightarrow> Some c)"

definition sscanf_s :: "string \<Rightarrow> string option" where
  "sscanf_s s =
    (let t = takeWhile (\<lambda>c. \<not> isspace c) (dropWhile isspace (c_str s))
     in if t = [] then None else Some t)"

section \<open>Printing numbers\<close>

definition digit_char :: "nat \<Rightarrow> char" where
  "digit_char d = char_of (if d < 10 then 48 + d else 55 + d)"

fun show_nat :: "nat \<Rightarrow> nat \<Rightarrow> string" where
  "show_nat base n =
    (if n < base \<or> base < 2 then [digit_char n]
     else show_nat base (n div base) @ [digit_char (n mod base)])"

declare show_nat.simps [simp del]

definition show_u :: "'a::len word \<Rightarrow> string" where
  "show_u w = show_nat 10 (unat w)"

definition show_int :: "int \<Rightarrow> string" where
  "show_int i = (if i < 0 then CHR ''-'' # show_nat 10 (nat (- i)) else show_nat 10 (nat i))"

definition pad0 :: "nat \<Rightarrow> string \<Rightarrow> string" where
  "pad0 n s = replicate (n - length s) (CHR ''0'') @ s"

lemma digit_val_digit_char [simp]: "d < 36 \<Longrightarrow> digit_val (digit_char d) = d"
  by (auto simp: digit_val_def digit_char_def Let_def of_char_of)

lemma digits_value_append:
  "digits_value base acc (xs @ ys) = digits_value base (digits_value base acc xs) ys"
  by (induction xs arbitrary: acc) auto

lemma digits_value_show_nat:
  "2 \<le> base \<Longrightarrow> base \<le> 36 \<Longrightarrow> digits_value base 0 (show_nat base n) = n"
proof (induction base n rule: show_nat.induct)
  case (1 base n)
  then show ?case
    by (cases "n < base")
      (simp_all add: show_nat.simps[of base n] digits_value_append less_le_trans[of _ base])
qed

lemma show_nat_digits:
  "2 \<le> base \<Longrightarrow> base \<le> 36 \<Longrightarrow> c \<in> set (show_nat base n) \<Longrightarrow> digit_val c < base"
proof (induction base n rule: show_nat.induct)
  case (1 base n)
  have "n mod base < base" using 1 by simp
  moreover have "n mod base < 36" using 1 \<open>n mod base < base\<close> by linarith
  ultimately show ?case
    using 1 by (cases "n < base") (auto simp: show_nat.simps[of base n])
qed

lemma show_nat_not_Nil [simp]: "show_nat base n \<noteq> []"
  by (simp add: show_nat.simps)

section \<open>Numbers printed and read back\<close>

lemma not_digit_facts:
  "\<not> digit_val NUL < 10" "\<not> digit_val (CHR ''-'') < 10" "\<not> digit_val (CHR ''+'') < 10"
  by (simp_all add: digit_val_def Let_def)

lemma isspace_not_digit: "isspace c \<Longrightarrow> \<not> digit_val c < 10"
  by (auto simp: isspace_def digit_val_def Let_def)

lemma show_nat_in_digits: "c \<in> set (show_nat 10 n) \<Longrightarrow> digit_val c < 10"
  using show_nat_digits[of 10 c n] by simp

lemma show_nat_no_NUL [simp]: "NUL \<notin> set (show_nat 10 n)"
  using show_nat_in_digits not_digit_facts(1) by blast

lemma show_nat_hd:
  obtains c cs where "show_nat 10 n = c # cs" "digit_val c < 10" "c \<noteq> CHR ''-''" "c \<noteq> CHR ''+''" "\<not> isspace c"
proof -
  obtain c cs where s: "show_nat 10 n = c # cs" by (cases "show_nat 10 n") auto
  then have "digit_val c < 10" using show_nat_in_digits[of c n] by simp
  then show thesis using that[OF s] not_digit_facts isspace_not_digit by blast
qed

lemma take_digits_show_nat: "take_digits 10 (show_nat 10 n) = show_nat 10 n"
  using show_nat_in_digits by (auto simp: take_digits_def intro: takeWhile_eq_all_conv[THEN iffD2])

lemma parse_int_show_nat [simp]: "parse_int 10 (show_nat 10 n) = Some (False, n)"
proof -
  obtain c cs where s: "show_nat 10 n = c # cs" "c \<noteq> CHR ''-''" "c \<noteq> CHR ''+''" "\<not> isspace c" by (rule show_nat_hd)
  have "split_sign (dropWhile isspace (c_str (show_nat 10 n))) = (False, show_nat 10 n)"
    using s c_str_no_NUL[OF show_nat_no_NUL, of n] by (simp add: split_sign_def)
  then show ?thesis using digits_value_show_nat[of 10 n] by (simp add: parse_int_def take_digits_show_nat)
qed

lemma parse_int_show_neg: "parse_int 10 (CHR ''-'' # show_nat 10 n) = Some (True, n)"
proof -
  have "\<not> isspace (CHR ''-'')" by (simp add: isspace_def)
  then have "split_sign (dropWhile isspace (c_str (CHR ''-'' # show_nat 10 n))) = (True, show_nat 10 n)"
    by (simp add: c_str_no_NUL split_sign_def)
  then show ?thesis using digits_value_show_nat[of 10 n] by (simp add: parse_int_def take_digits_show_nat)
qed

lemma sscanf_lu_show: "v < 2 ^ 64 \<Longrightarrow> sscanf_lu (show_nat 10 v) = Some (of_nat v)"
  by (simp add: sscanf_lu_def strtoul_def)

lemma sscanf_ld_show:
  assumes "- (2 ^ 63) \<le> i" "i < 2 ^ 63"
  shows "sscanf_ld (show_int i) = Some (word_of_int i)"
proof (cases "i < 0")
  case True
  then have "nat (- i) \<le> 2 ^ 63" using assms by simp
  then show ?thesis using True by (simp add: sscanf_ld_def strtol_def show_int_def parse_int_show_neg)
next
  case False
  then have "nat i \<le> 2 ^ 63 - 1" using assms by simp
  then show ?thesis using False by (simp add: sscanf_ld_def strtol_def show_int_def)
qed

lemma sscanf_u_show: "v < 2 ^ 32 \<Longrightarrow> sscanf_u (show_nat 10 v) = Some (of_nat v)"
  by (simp add: sscanf_u_def strtoul_def unsigned_of_nat take_bit_nat_eq_self)

lemma sscanf_d_show:
  assumes "- (2 ^ 31) \<le> i" "i < 2 ^ 31"
  shows "sscanf_d (show_int i) = Some (word_of_int i)"
proof (cases "i < 0")
  case True
  then have "nat (- i) \<le> 2 ^ 63" using assms by simp
  then show ?thesis using True by (simp add: sscanf_d_def strtol_def show_int_def parse_int_show_neg)
next
  case False
  then have "nat i \<le> 2 ^ 63 - 1" using assms by simp
  then show ?thesis using False by (simp add: sscanf_d_def strtol_def show_int_def)
qed

end
