(* ===== verification/Rmnet_Msg.thy ===== *)
theory Rmnet_Msg
  imports C_Lib
begin

text \<open>
  The message \<open>struct rmnet_nl_msg_s\<close> that librmnetctl exchanges with the kernel driver
  (sdm845/kernel-headers/linux/rmnet_data.h), its memory image, and the constants of that header
  and of rmnetctl/inc/librmnetctl.h.

  The anonymous union is the 64 bytes \<open>payload\<close>; the members of its structures are slices of it
  at their C offsets, so writing one view is visible through the others, as in C. The bit fields
  \<open>reserved2 : 14\<close> and \<open>crd : 2\<close> share one 16-bit unit, low bits first.
\<close>

section \<open>Constants\<close>

abbreviation (input) RMNETCTL_SUCCESS :: int where "RMNETCTL_SUCCESS \<equiv> 0"
abbreviation (input) RMNETCTL_LIB_ERR :: int where "RMNETCTL_LIB_ERR \<equiv> 1"
abbreviation (input) RMNETCTL_KERNEL_ERR :: int where "RMNETCTL_KERNEL_ERR \<equiv> 2"
abbreviation (input) RMNETCTL_INVALID_ARG :: int where "RMNETCTL_INVALID_ARG \<equiv> 3"

abbreviation (input) RMNETCTL_DEVICE_ASSOCIATE :: u8 where "RMNETCTL_DEVICE_ASSOCIATE \<equiv> 1"
abbreviation (input) RMNETCTL_DEVICE_UNASSOCIATE :: u8 where "RMNETCTL_DEVICE_UNASSOCIATE \<equiv> 0"
abbreviation (input) RMNETCTL_NEW_VND :: u8 where "RMNETCTL_NEW_VND \<equiv> 1"
abbreviation (input) RMNETCTL_FREE_VND :: u8 where "RMNETCTL_FREE_VND \<equiv> 0"
abbreviation (input) RMNETCTL_ADD_FLOW :: u8 where "RMNETCTL_ADD_FLOW \<equiv> 1"
abbreviation (input) RMNETCTL_DEL_FLOW :: u8 where "RMNETCTL_DEL_FLOW \<equiv> 0"

abbreviation (input) RMNETCTL_API_SUCCESS :: u16 where "RMNETCTL_API_SUCCESS \<equiv> 0"
abbreviation (input) RMNETCTL_API_ERR_MESSAGE_SEND :: u16 where "RMNETCTL_API_ERR_MESSAGE_SEND \<equiv> 3"
abbreviation (input) RMNETCTL_API_ERR_MESSAGE_RECEIVE :: u16 where "RMNETCTL_API_ERR_MESSAGE_RECEIVE \<equiv> 4"
abbreviation (input) RMNETCTL_INIT_ERR_PROCESS_ID :: u16 where "RMNETCTL_INIT_ERR_PROCESS_ID \<equiv> 5"
abbreviation (input) RMNETCTL_INIT_ERR_NETLINK_FD :: u16 where "RMNETCTL_INIT_ERR_NETLINK_FD \<equiv> 6"
abbreviation (input) RMNETCTL_INIT_ERR_BIND :: u16 where "RMNETCTL_INIT_ERR_BIND \<equiv> 7"
abbreviation (input) RMNETCTL_API_ERR_HNDL_INVALID :: u16 where "RMNETCTL_API_ERR_HNDL_INVALID \<equiv> 9"
abbreviation (input) RMNETCTL_API_ERR_REQUEST_NULL :: u16 where "RMNETCTL_API_ERR_REQUEST_NULL \<equiv> 10"
abbreviation (input) RMNETCTL_API_ERR_RESPONSE_NULL :: u16 where "RMNETCTL_API_ERR_RESPONSE_NULL \<equiv> 11"
abbreviation (input) RMNETCTL_API_ERR_MESSAGE_TYPE :: u16 where "RMNETCTL_API_ERR_MESSAGE_TYPE \<equiv> 12"
abbreviation (input) RMNETCTL_API_ERR_RETURN_TYPE :: u16 where "RMNETCTL_API_ERR_RETURN_TYPE \<equiv> 13"
abbreviation (input) RMNETCTL_API_ERR_STRING_TRUNCATION :: u16 where "RMNETCTL_API_ERR_STRING_TRUNCATION \<equiv> 14"
abbreviation (input) RMNETCTL_KERNEL_FIRST_ERR :: u16 where "RMNETCTL_KERNEL_FIRST_ERR \<equiv> 15"
abbreviation (input) RMNETCTL_API_ERR_RTA_FAILURE :: u16 where "RMNETCTL_API_ERR_RTA_FAILURE \<equiv> 25"
abbreviation (input) RMNETCTL_API_ERR_ENUM_LENGTH :: u16 where "RMNETCTL_API_ERR_ENUM_LENGTH \<equiv> 26"

abbreviation (input) RMNET_MAX_STR_LEN :: nat where "RMNET_MAX_STR_LEN \<equiv> 16"
abbreviation (input) RMNET_NL_DATA_MAX_LEN :: nat where "RMNET_NL_DATA_MAX_LEN \<equiv> 64"
abbreviation (input) RMNET_NETLINK_PROTO :: int where "RMNET_NETLINK_PROTO \<equiv> 31"
abbreviation (input) RMNET_NETLINK_MSG_COMMAND :: u16 where "RMNET_NETLINK_MSG_COMMAND \<equiv> 0"
abbreviation (input) RMNET_NETLINK_MSG_RETURNCODE :: u16 where "RMNET_NETLINK_MSG_RETURNCODE \<equiv> 1"
abbreviation (input) RMNET_NETLINK_MSG_RETURNDATA :: u16 where "RMNET_NETLINK_MSG_RETURNDATA \<equiv> 2"
abbreviation (input) RMNET_CONFIG_OK :: u16 where "RMNET_CONFIG_OK \<equiv> 0"
abbreviation (input) RMNET_EPMODE_LENGTH :: u8 where "RMNET_EPMODE_LENGTH \<equiv> 3"

abbreviation (input) RMNET_NETLINK_ASSOCIATE_NETWORK_DEVICE :: u16 where "RMNET_NETLINK_ASSOCIATE_NETWORK_DEVICE \<equiv> 0"
abbreviation (input) RMNET_NETLINK_UNASSOCIATE_NETWORK_DEVICE :: u16 where "RMNET_NETLINK_UNASSOCIATE_NETWORK_DEVICE \<equiv> 1"
abbreviation (input) RMNET_NETLINK_GET_NETWORK_DEVICE_ASSOCIATED :: u16 where "RMNET_NETLINK_GET_NETWORK_DEVICE_ASSOCIATED \<equiv> 2"
abbreviation (input) RMNET_NETLINK_SET_LINK_EGRESS_DATA_FORMAT :: u16 where "RMNET_NETLINK_SET_LINK_EGRESS_DATA_FORMAT \<equiv> 3"
abbreviation (input) RMNET_NETLINK_GET_LINK_EGRESS_DATA_FORMAT :: u16 where "RMNET_NETLINK_GET_LINK_EGRESS_DATA_FORMAT \<equiv> 4"
abbreviation (input) RMNET_NETLINK_SET_LINK_INGRESS_DATA_FORMAT :: u16 where "RMNET_NETLINK_SET_LINK_INGRESS_DATA_FORMAT \<equiv> 5"
abbreviation (input) RMNET_NETLINK_GET_LINK_INGRESS_DATA_FORMAT :: u16 where "RMNET_NETLINK_GET_LINK_INGRESS_DATA_FORMAT \<equiv> 6"
abbreviation (input) RMNET_NETLINK_SET_LOGICAL_EP_CONFIG :: u16 where "RMNET_NETLINK_SET_LOGICAL_EP_CONFIG \<equiv> 7"
abbreviation (input) RMNET_NETLINK_UNSET_LOGICAL_EP_CONFIG :: u16 where "RMNET_NETLINK_UNSET_LOGICAL_EP_CONFIG \<equiv> 8"
abbreviation (input) RMNET_NETLINK_GET_LOGICAL_EP_CONFIG :: u16 where "RMNET_NETLINK_GET_LOGICAL_EP_CONFIG \<equiv> 9"
abbreviation (input) RMNET_NETLINK_NEW_VND :: u16 where "RMNET_NETLINK_NEW_VND \<equiv> 10"
abbreviation (input) RMNET_NETLINK_NEW_VND_WITH_PREFIX :: u16 where "RMNET_NETLINK_NEW_VND_WITH_PREFIX \<equiv> 11"
abbreviation (input) RMNET_NETLINK_GET_VND_NAME :: u16 where "RMNET_NETLINK_GET_VND_NAME \<equiv> 12"
abbreviation (input) RMNET_NETLINK_FREE_VND :: u16 where "RMNET_NETLINK_FREE_VND \<equiv> 13"
abbreviation (input) RMNET_NETLINK_ADD_VND_TC_FLOW :: u16 where "RMNET_NETLINK_ADD_VND_TC_FLOW \<equiv> 14"
abbreviation (input) RMNET_NETLINK_DEL_VND_TC_FLOW :: u16 where "RMNET_NETLINK_DEL_VND_TC_FLOW \<equiv> 15"
abbreviation (input) RMNET_NETLINK_NEW_VND_WITH_NAME :: u16 where "RMNET_NETLINK_NEW_VND_WITH_NAME \<equiv> 16"

text \<open>\<open>INGRESS_FLAGS_MASK\<close> is bits 0 to 6, \<open>EGRESS_FLAGS_MASK\<close> bits 0 to 5 (librmnetctl.c).\<close>

definition INGRESS_FLAGS_MASK :: u32 where
  "INGRESS_FLAGS_MASK = 1 OR 2 OR 4 OR 8 OR 16 OR 32 OR 64"

definition EGRESS_FLAGS_MASK :: u32 where
  "EGRESS_FLAGS_MASK = 1 OR 2 OR 4 OR 8 OR 16 OR 32"

section \<open>The message\<close>

record rmnet_nl_msg_s =
  reserved :: u16
  message_type :: u16
  crd_unit :: u16
  arg_length :: u16
  payload :: bytes

definition wf_msg :: "rmnet_nl_msg_s \<Rightarrow> bool" where
  "wf_msg m \<longleftrightarrow> length (payload m) = RMNET_NL_DATA_MAX_LEN"

definition crd :: "rmnet_nl_msg_s \<Rightarrow> u16" where
  "crd m = drop_bit 14 (crd_unit m)"

definition set_crd :: "u16 \<Rightarrow> rmnet_nl_msg_s \<Rightarrow> rmnet_nl_msg_s" where
  "set_crd c m = m\<lparr>crd_unit := (crd_unit m AND 0x3FFF) OR push_bit 14 c\<rparr>"

text \<open>\<open>return_code\<close> is the other member of the union that holds \<open>arg_length\<close>.\<close>

definition return_code :: "rmnet_nl_msg_s \<Rightarrow> u16" where
  "return_code m = arg_length m"

definition store :: "nat \<Rightarrow> bytes \<Rightarrow> rmnet_nl_msg_s \<Rightarrow> rmnet_nl_msg_s" where
  "store off bs m = m\<lparr>payload := put_at off bs (payload m)\<rparr>"

definition load16 :: "nat \<Rightarrow> rmnet_nl_msg_s \<Rightarrow> u16" where
  "load16 off m = rd16 off (payload m)"

definition load32 :: "nat \<Rightarrow> rmnet_nl_msg_s \<Rightarrow> u32" where
  "load32 off m = rd32 off (payload m)"

definition load8 :: "nat \<Rightarrow> rmnet_nl_msg_s \<Rightarrow> u8" where
  "load8 off m = le_word (get_at off 1 (payload m))"

text \<open>The text of a 16-byte name member, as a reader of the structure finds it.\<close>

definition load_name :: "nat \<Rightarrow> rmnet_nl_msg_s \<Rightarrow> string" where
  "load_name off m = c_str (of_bytes (get_at off RMNET_MAX_STR_LEN (payload m)))"

text \<open>\<open>strlcpy\<close> into a 16-byte name member; the second component is the returned length.\<close>

definition store_name :: "nat \<Rightarrow> string \<Rightarrow> rmnet_nl_msg_s \<Rightarrow> rmnet_nl_msg_s \<times> nat" where
  "store_name off s m =
    (store off (to_bytes (strlcpy_image RMNET_MAX_STR_LEN s)) m, strlen s)"

text \<open>Offsets inside the union.\<close>

abbreviation (input) OFF_data :: nat where "OFF_data \<equiv> 0"
abbreviation (input) OFF_df_dev :: nat where "OFF_df_dev \<equiv> 0"
abbreviation (input) OFF_df_flags :: nat where "OFF_df_flags \<equiv> 16"
abbreviation (input) OFF_df_agg_size :: nat where "OFF_df_agg_size \<equiv> 20"
abbreviation (input) OFF_df_agg_count :: nat where "OFF_df_agg_count \<equiv> 22"
abbreviation (input) OFF_df_tail_spacing :: nat where "OFF_df_tail_spacing \<equiv> 24"
abbreviation (input) OFF_ep_dev :: nat where "OFF_ep_dev \<equiv> 0"
abbreviation (input) OFF_ep_id :: nat where "OFF_ep_id \<equiv> 16"
abbreviation (input) OFF_ep_mode :: nat where "OFF_ep_mode \<equiv> 20"
abbreviation (input) OFF_ep_next :: nat where "OFF_ep_next \<equiv> 21"
abbreviation (input) OFF_vnd_id :: nat where "OFF_vnd_id \<equiv> 0"
abbreviation (input) OFF_vnd_name :: nat where "OFF_vnd_name \<equiv> 4"
abbreviation (input) OFF_fc_id :: nat where "OFF_fc_id \<equiv> 0"
abbreviation (input) OFF_fc_map :: nat where "OFF_fc_map \<equiv> 4"
abbreviation (input) OFF_fc_tc :: nat where "OFF_fc_tc \<equiv> 8"

section \<open>Memory image\<close>

definition encode_msg :: "rmnet_nl_msg_s \<Rightarrow> bytes" where
  "encode_msg m = le_bytes 2 (reserved m) @ le_bytes 2 (message_type m) @
     le_bytes 2 (crd_unit m) @ le_bytes 2 (arg_length m) @ payload m"

definition decode_msg :: "bytes \<Rightarrow> rmnet_nl_msg_s" where
  "decode_msg bs = \<lparr>reserved = rd16 0 bs, message_type = rd16 2 bs, crd_unit = rd16 4 bs,
     arg_length = rd16 6 bs, payload = get_at 8 RMNET_NL_DATA_MAX_LEN bs\<rparr>"

lemma length_encode_msg [simp, layout]: "wf_msg m \<Longrightarrow> length (encode_msg m) = 72"
  by (simp add: encode_msg_def wf_msg_def)

lemma decode_encode_msg [simp]: "wf_msg m \<Longrightarrow> decode_msg (encode_msg m) = m"
  by (simp add: decode_msg_def encode_msg_def wf_msg_def rd16_def get_at_append_right get_at_def)

lemma get_at_join:
  "p = a + m \<Longrightarrow> k = m + n \<Longrightarrow> get_at a m xs @ get_at p n xs = get_at a k xs"
  by (simp add: get_at_def take_add add.commute)

lemma encode_decode_msg:
  assumes "length bs = 72"
  shows "encode_msg (decode_msg bs) = bs"
proof -
  have "encode_msg (decode_msg bs) =
      get_at 0 2 bs @ get_at 2 2 bs @ get_at 4 2 bs @ get_at 6 2 bs @ get_at 8 64 bs"
    using assms by (simp add: encode_msg_def decode_msg_def rd16_def)
  moreover have "get_at 6 2 bs @ get_at 8 64 bs = get_at 6 66 bs" by (rule get_at_join) simp_all
  moreover have "get_at 4 2 bs @ get_at 6 66 bs = get_at 4 68 bs" by (rule get_at_join) simp_all
  moreover have "get_at 2 2 bs @ get_at 4 68 bs = get_at 2 70 bs" by (rule get_at_join) simp_all
  moreover have "get_at 0 2 bs @ get_at 2 70 bs = get_at 0 72 bs" by (rule get_at_join) simp_all
  ultimately show ?thesis using assms by simp
qed

lemma wf_decode_msg: "length bs = 72 \<Longrightarrow> wf_msg (decode_msg bs)"
  by (simp add: decode_msg_def wf_msg_def)

lemma crd_set_crd [simp]:
  assumes "c < 4"
  shows "crd (set_crd c m) = c"
proof -
  have "unat c < 2 ^ 2" using assms by (simp add: word_less_nat_alt)
  then have "unat (take_bit 2 c) = unat c"
    by (simp only: unsigned_take_bit_eq take_bit_nat_eq_self)
  then have "take_bit 2 c = c" by (rule unsigned_word_eqI)
  then have high: "\<not> bit c n" if "2 \<le> n" for n
    using that by (metis bit_take_bit_iff not_le)
  show ?thesis
  proof (rule bit_word_eqI)
    fix n assume "n < LENGTH(16)"
    have "bit (0x3FFF :: u16) (14 + n) \<longleftrightarrow> bit (mask 14 :: u16) (14 + n)"
      by (simp add: mask_eq_exp_minus_1)
    then show "bit (crd (set_crd c m)) n \<longleftrightarrow> bit c n"
      using high[of n]
      by (cases "n < 2")
        (auto simp: crd_def set_crd_def bit_drop_bit_eq bit_or_iff bit_and_iff bit_mask_iff bit_push_bit_iff)
  qed
qed

lemma wf_msg_simps [simp]:
  "wf_msg (m\<lparr>reserved := a\<rparr>) = wf_msg m"
  "wf_msg (m\<lparr>message_type := a\<rparr>) = wf_msg m"
  "wf_msg (m\<lparr>crd_unit := a\<rparr>) = wf_msg m"
  "wf_msg (m\<lparr>arg_length := a\<rparr>) = wf_msg m"
  "wf_msg (set_crd c m) = wf_msg m"
  by (simp_all add: wf_msg_def set_crd_def)

lemma wf_store [simp]: "wf_msg m \<Longrightarrow> off + length bs \<le> 64 \<Longrightarrow> wf_msg (store off bs m)"
  by (simp add: wf_msg_def store_def)

lemma store_fields [simp]:
  "reserved (store off bs m) = reserved m"
  "message_type (store off bs m) = message_type m"
  "crd_unit (store off bs m) = crd_unit m"
  "arg_length (store off bs m) = arg_length m"
  by (simp_all add: store_def)

lemma load_store_same [simp]:
  "wf_msg m \<Longrightarrow> off + 4 \<le> 64 \<Longrightarrow> load32 off (store off (le_bytes 4 w) m) = w"
  "wf_msg m \<Longrightarrow> off + 2 \<le> 64 \<Longrightarrow> load16 off (store off (le_bytes 2 v) m) = v"
  "wf_msg m \<Longrightarrow> off + 1 \<le> 64 \<Longrightarrow> load8 off (store off (le_bytes 1 u) m) = u"
  by (simp_all add: load32_def load16_def load8_def rd32_def rd16_def store_def wf_msg_def)

lemmas load8_store_same [simp] = load_store_same(3) [simplified]

lemma load_store_other [simp]:
  "wf_msg m \<Longrightarrow> off + length bs \<le> 64 \<Longrightarrow> p + 4 \<le> 64 \<Longrightarrow> p + 4 \<le> off \<or> off + length bs \<le> p \<Longrightarrow>
     load32 p (store off bs m) = load32 p m"
  "wf_msg m \<Longrightarrow> off + length bs \<le> 64 \<Longrightarrow> p + 2 \<le> 64 \<Longrightarrow> p + 2 \<le> off \<or> off + length bs \<le> p \<Longrightarrow>
     load16 p (store off bs m) = load16 p m"
  "wf_msg m \<Longrightarrow> off + length bs \<le> 64 \<Longrightarrow> p + 1 \<le> 64 \<Longrightarrow> p + 1 \<le> off \<or> off + length bs \<le> p \<Longrightarrow>
     load8 p (store off bs m) = load8 p m"
  "wf_msg m \<Longrightarrow> off + length bs \<le> 64 \<Longrightarrow> p + 16 \<le> 64 \<Longrightarrow> p + 16 \<le> off \<or> off + length bs \<le> p \<Longrightarrow>
     load_name p (store off bs m) = load_name p m"
  by (simp_all add: load32_def load16_def load8_def rd32_def rd16_def load_name_def store_def wf_msg_def)

lemma load_simps [simp]:
  "load32 p (m\<lparr>message_type := a\<rparr>) = load32 p m" "load32 p (m\<lparr>arg_length := b\<rparr>) = load32 p m"
  "load16 p (m\<lparr>message_type := a\<rparr>) = load16 p m" "load16 p (m\<lparr>arg_length := b\<rparr>) = load16 p m"
  "load8 p (m\<lparr>message_type := a\<rparr>) = load8 p m" "load8 p (m\<lparr>arg_length := b\<rparr>) = load8 p m"
  "load_name p (m\<lparr>message_type := a\<rparr>) = load_name p m" "load_name p (m\<lparr>arg_length := b\<rparr>) = load_name p m"
  "load32 p (set_crd c m) = load32 p m" "load16 p (set_crd c m) = load16 p m"
  "load8 p (set_crd c m) = load8 p m" "load_name p (set_crd c m) = load_name p m"
  by (simp_all add: load32_def load16_def load8_def load_name_def set_crd_def)

text \<open>A name that fits is read back; a longer one is cut to 15 characters.\<close>

lemma load_store_name [simp]:
  assumes "wf_msg m" "off + 16 \<le> 64"
  shows "load_name off (fst (store_name off s m)) = take 15 (c_str s)"
proof -
  let ?img = "to_bytes (strlcpy_image RMNET_MAX_STR_LEN s)"
  have len: "length ?img \<le> 16" by simp
  have "get_at off 16 (put_at off ?img (payload m)) = ?img @ drop (off + length ?img) (take (off + 16) (payload m))"
    using assms len by (simp add: get_at_def put_at_def wf_msg_def drop_take)
  then show ?thesis
    by (simp add: load_name_def store_name_def store_def c_str_strlcpy_image)
qed

lemma wf_store_name [simp]:
  "wf_msg m \<Longrightarrow> off + 16 \<le> 64 \<Longrightarrow> wf_msg (fst (store_name off s m))"
  by (simp add: store_name_def wf_store le_trans[OF add_left_mono[OF length_strlcpy_image_le]])

lemma store_name_fields [simp]:
  "message_type (fst (store_name off s m)) = message_type m"
  "arg_length (fst (store_name off s m)) = arg_length m"
  "snd (store_name off s m) = strlen s"
  by (simp_all add: store_name_def)

end
