(* ===== verification/Rmnet_Sys.thy ===== *)
theory Rmnet_Sys
  imports Rmnet_Msg
begin

text \<open>
  The operating system under librmnetctl and the state of a caller.

  The C library and the kernel answer the library's calls; they are not part of the repository.
  An environment \<open>env\<close> is any function from the sequence of calls made so far (the last one is the
  call being answered) to an answer, so it stands for every behaviour a real system may show,
  including failures and answers that depend on earlier requests. A run appends its calls to the
  \<open>trace\<close>, which is what the theorems on messages, resources and ordering speak about.

  \<open>rctx\<close> is what the caller's pointers lead to: the handle (\<open>None\<close> for a null pointer) and the
  \<open>uint16_t\<close> behind \<open>error_code\<close> (\<open>None\<close> for a null pointer).
\<close>

record sockaddr_nl =
  nl_family :: u16
  nl_pid :: u32
  nl_groups :: u32

text \<open>\<open>struct rmnetctl_hndl_s\<close> of librmnetctl_hndl.h; \<open>h_addr\<close> is the address \<open>malloc\<close> gave it.\<close>

record rmnetctl_hndl =
  h_addr :: int
  pid :: u32
  transaction_id :: u32
  netlink_fd :: int
  src_addr :: sockaddr_nl
  dest_addr :: sockaddr_nl

datatype sysev =
    SysMalloc nat
  | SysFree int
  | SysGetpid
  | SysSocket int int int
  | SysBind int sockaddr_nl
  | SysClose int
  | SysSendto int bytes sockaddr_nl
  | SysRecvfrom int nat
  | SysSend int bytes
  | SysRecv int nat bool
  | SysIfIndex string

text \<open>An answer: the return value (an address for \<open>malloc\<close>), \<open>errno\<close>, the bytes and sender received.\<close>

record sysans =
  ret :: int
  errno :: int
  data :: bytes
  sender :: sockaddr_nl

type_synonym env = "sysev list \<Rightarrow> sysans"

record rctx =
  hndl :: "rmnetctl_hndl option"
  ecode :: "u16 option"
  trace :: "sysev list"

definition sys :: "env \<Rightarrow> sysev \<Rightarrow> sysev list \<Rightarrow> sysans \<times> sysev list" where
  "sys K e tr = (K (tr @ [e]), tr @ [e])"

text \<open>\<open>free(NULL)\<close> does nothing.\<close>

definition sys_free :: "int \<Rightarrow> sysev list \<Rightarrow> sysev list" where
  "sys_free p tr = (if p = 0 then tr else tr @ [SysFree p])"

text \<open>What a receive call stores: at most the buffer's size and at most what arrived.\<close>

definition recv_into :: "int \<Rightarrow> bytes \<Rightarrow> bytes \<Rightarrow> bytes" where
  "recv_into n d buf = put_at 0 (take (min (nat n) (length buf)) d) buf"

definition set_ecode :: "u16 \<Rightarrow> rctx \<Rightarrow> rctx" where
  "set_ecode e st = st\<lparr>ecode := map_option (\<lambda>_. e) (ecode st)\<rparr>"

lemma length_recv_into [simp, layout]: "length (recv_into n d buf) = length buf"
  by (simp add: recv_into_def)

lemma set_ecode_simps [simp]:
  "hndl (set_ecode e st) = hndl st"
  "trace (set_ecode e st) = trace st"
  "ecode st = Some e' \<Longrightarrow> ecode (set_ecode e st) = Some e"
  "ecode (set_ecode e st) = None \<longleftrightarrow> ecode st = None"
  by (simp_all add: set_ecode_def)

text \<open>Addresses an environment gave and the run released: the balance of a trace.\<close>

fun freed :: "sysev list \<Rightarrow> int list" where
  "freed [] = []"
| "freed (SysFree p # tr) = p # freed tr"
| "freed (_ # tr) = freed tr"

definition allocated :: "env \<Rightarrow> sysev list \<Rightarrow> int list" where
  "allocated K tr = (case last tr of
      SysMalloc _ \<Rightarrow> if ret (K tr) = 0 then [] else [ret (K tr)]
    | _ \<Rightarrow> [])"

definition mallocs :: "env \<Rightarrow> sysev list \<Rightarrow> int list" where
  "mallocs K tr = concat (map (\<lambda>i. allocated K (take (Suc i) tr)) [0..<length tr])"

lemma freed_append [simp]: "freed (xs @ ys) = freed xs @ freed ys"
  by (induction xs rule: freed.induct) auto

lemma mallocs_Nil [simp]: "mallocs K [] = []"
  by (simp add: mallocs_def)

lemma mallocs_snoc [simp]: "mallocs K (tr @ [e]) = mallocs K tr @ allocated K (tr @ [e])"
  by (auto simp: mallocs_def intro!: arg_cong[where f = concat])

lemma allocated_snoc [simp]:
  "allocated K (tr @ [SysMalloc n]) = (if ret (K (tr @ [SysMalloc n])) = 0 then [] else [ret (K (tr @ [SysMalloc n]))])"
  "(\<And>n. e \<noteq> SysMalloc n) \<Longrightarrow> allocated K (tr @ [e]) = []"
  by (auto simp: allocated_def split: sysev.split)

lemma sys_simps [simp]: "fst (sys K e tr) = K (tr @ [e])" "snd (sys K e tr) = tr @ [e]"
  by (simp_all add: sys_def)

end
