(* ===== verification/Rmnet_Legacy.thy ===== *)
theory Rmnet_Legacy
  imports Rmnet_Sys
begin

text \<open>
  The message API of librmnetctl (rmnetctl/src/librmnetctl.c, the part up to "NEW DRIVER API"):
  \<open>rmnetctl_transact\<close>, the helpers that check names, lengths and replies, \<open>rmnetctl_init\<close>,
  \<open>rmnetctl_cleanup\<close> and the functions that each send one message to the driver.

  The local \<open>request\<close> is not initialised in C: the parameter \<open>req0\<close> is whatever the stack held, and
  the theorems hold for all of it. Result pointers are options, \<open>None\<close> being a null pointer.
\<close>

section \<open>Sizes\<close>

abbreviation (input) SIZEOF_nlmsghdr :: nat where "SIZEOF_nlmsghdr \<equiv> 16"
abbreviation (input) SIZEOF_rmnet_nl_msg_s :: nat where "SIZEOF_rmnet_nl_msg_s \<equiv> 72"
abbreviation (input) MAX_BUF_SIZE :: nat where "MAX_BUF_SIZE \<equiv> 88"
abbreviation (input) MIN_VALID_PROCESS_ID :: int where "MIN_VALID_PROCESS_ID \<equiv> 0"
abbreviation (input) MIN_VALID_SOCKET_FD :: int where "MIN_VALID_SOCKET_FD \<equiv> 0"
abbreviation (input) KERNEL_PROCESS_ID :: u32 where "KERNEL_PROCESS_ID \<equiv> 0"
abbreviation (input) UNICAST :: u32 where "UNICAST \<equiv> 0"
abbreviation (input) AF_NETLINK :: u16 where "AF_NETLINK \<equiv> 16"
abbreviation (input) PF_NETLINK :: int where "PF_NETLINK \<equiv> 16"
abbreviation (input) SOCK_RAW_CLOEXEC :: int where "SOCK_RAW_CLOEXEC \<equiv> 524291"

section \<open>The transaction\<close>

definition memscpy :: "nat \<Rightarrow> nat \<Rightarrow> bytes \<Rightarrow> nat \<Rightarrow> bytes \<Rightarrow> bytes" where
  "memscpy off dst_size src src_size dst = put_at off (take (min dst_size src_size) src) dst"

text \<open>The buffer handed to \<open>sendto\<close>: header, then the request with its \<open>crd\<close> set to COMMAND.\<close>

definition request_image :: "rmnetctl_hndl \<Rightarrow> rmnet_nl_msg_s \<Rightarrow> bytes" where
  "request_image h request =
    (let hdr = le_bytes 4 (of_nat MAX_BUF_SIZE :: u32) @ le_bytes 2 (0 :: u16) @ le_bytes 2 (0 :: u16) @
               le_bytes 4 (transaction_id h) @ le_bytes 4 (pid h);
         buf = put_at 0 hdr (replicate MAX_BUF_SIZE 0);
         buf = memscpy SIZEOF_nlmsghdr (MAX_BUF_SIZE - SIZEOF_nlmsghdr) (encode_msg request)
                 SIZEOF_rmnet_nl_msg_s buf;
         m = decode_msg (get_at SIZEOF_nlmsghdr SIZEOF_rmnet_nl_msg_s buf)
     in put_at SIZEOF_nlmsghdr (encode_msg (set_crd RMNET_NETLINK_MSG_COMMAND m)) buf)"

definition rmnetctl_transact ::
  "env \<Rightarrow> rmnet_nl_msg_s option \<Rightarrow> rmnet_nl_msg_s option \<Rightarrow> rctx \<Rightarrow> u16 \<times> rmnet_nl_msg_s option \<times> rctx" where
  "rmnetctl_transact K request response st =
    (case hndl st of None \<Rightarrow> (RMNETCTL_API_ERR_HNDL_INVALID, response, st)
     | Some h \<Rightarrow>
    (case request of None \<Rightarrow> (RMNETCTL_API_ERR_REQUEST_NULL, response, st)
     | Some rq \<Rightarrow>
    (case response of None \<Rightarrow> (RMNETCTL_API_ERR_RESPONSE_NULL, response, st)
     | Some rs \<Rightarrow>
       let (a1, tr) = sys K (SysMalloc MAX_BUF_SIZE) (trace st); request_buf = ret a1 in
       if request_buf = 0 then (RMNETCTL_API_ERR_REQUEST_NULL, response, st\<lparr>trace := tr\<rparr>) else
       let (a2, tr) = sys K (SysMalloc MAX_BUF_SIZE) tr; response_buf = ret a2;
           done = (\<lambda>tr. sys_free response_buf (sys_free request_buf tr)) in
       if response_buf = 0 then (RMNETCTL_API_ERR_RESPONSE_NULL, response, st\<lparr>trace := done tr\<rparr>) else
       let img = request_image h rq;
           h = h\<lparr>transaction_id := transaction_id h + 1\<rparr>;
           (a3, tr) = sys K (SysSendto (netlink_fd h) img (dest_addr h)) tr in
       if ret a3 < 0
       then (RMNETCTL_API_ERR_MESSAGE_SEND, response, st\<lparr>hndl := Some h, trace := done tr\<rparr>) else
       let (a4, tr) = sys K (SysRecvfrom (netlink_fd h) MAX_BUF_SIZE) tr in
       if ret a4 < 0
       then (RMNETCTL_API_ERR_MESSAGE_RECEIVE, response, st\<lparr>hndl := Some h, trace := done tr\<rparr>) else
       let h = h\<lparr>src_addr := sender a4\<rparr>;
           rbuf = recv_into (ret a4) (data a4) (replicate MAX_BUF_SIZE 0);
           rs = decode_msg (take (min (MAX_BUF_SIZE - SIZEOF_nlmsghdr) SIZEOF_rmnet_nl_msg_s)
                  (drop SIZEOF_nlmsghdr rbuf));
           st = st\<lparr>hndl := Some h, trace := done tr\<rparr> in
       if SIZEOF_rmnet_nl_msg_s < SIZEOF_rmnet_nl_msg_s
       then (RMNETCTL_API_ERR_RESPONSE_NULL, Some rs, st) else
       if message_type rq \<noteq> message_type rs then (RMNETCTL_API_ERR_MESSAGE_TYPE, Some rs, st)
       else (0, Some rs, st))))"

section \<open>Checks on names, lengths and replies\<close>

definition rmnetctl_check_dev_name :: "string option \<Rightarrow> int" where
  "rmnetctl_check_dev_name dev_name = (case dev_name of
      None \<Rightarrow> RMNETCTL_INVALID_ARG
    | Some s \<Rightarrow> if strlen s \<ge> RMNET_MAX_STR_LEN then RMNETCTL_INVALID_ARG else RMNETCTL_SUCCESS)"

definition rmnetctl_check_len :: "nat \<Rightarrow> rctx \<Rightarrow> int \<times> rctx" where
  "rmnetctl_check_len str_len st =
    (if str_len > RMNET_MAX_STR_LEN
     then (RMNETCTL_LIB_ERR, set_ecode RMNETCTL_API_ERR_STRING_TRUNCATION st)
     else (RMNETCTL_SUCCESS, st))"

definition rmnetctl_check_code :: "u16 \<Rightarrow> rctx \<Rightarrow> int \<times> rctx" where
  "rmnetctl_check_code c st =
    (if c \<noteq> RMNET_NETLINK_MSG_RETURNCODE
     then (RMNETCTL_LIB_ERR, set_ecode RMNETCTL_API_ERR_RETURN_TYPE st)
     else (RMNETCTL_SUCCESS, st))"

definition rmnetctl_check_data :: "u16 \<Rightarrow> rctx \<Rightarrow> int \<times> rctx" where
  "rmnetctl_check_data c st =
    (if c \<noteq> RMNET_NETLINK_MSG_RETURNDATA
     then (RMNETCTL_LIB_ERR, set_ecode RMNETCTL_API_ERR_RETURN_TYPE st)
     else (RMNETCTL_SUCCESS, st))"

definition rmnetctl_set_codes :: "u16 \<Rightarrow> rctx \<Rightarrow> int \<times> rctx" where
  "rmnetctl_set_codes error_val st =
    (if error_val = RMNET_CONFIG_OK then (RMNETCTL_SUCCESS, st)
     else (RMNETCTL_KERNEL_ERR, set_ecode (error_val + RMNETCTL_KERNEL_FIRST_ERR) st))"

text \<open>The common ends of the API functions: transact, store the code, and check a return code ...\<close>

definition finish_code :: "env \<Rightarrow> rmnet_nl_msg_s \<Rightarrow> rctx \<Rightarrow> int \<times> rctx" where
  "finish_code K request st =
    (let (ec, response, st) = rmnetctl_transact K (Some request) (Some request) st;
         st = set_ecode ec st in
     if ec \<noteq> RMNETCTL_API_SUCCESS then (RMNETCTL_LIB_ERR, st) else
     let (rc, st) = rmnetctl_check_code (crd (the response)) st in
     if rc \<noteq> RMNETCTL_SUCCESS then (RMNETCTL_LIB_ERR, st)
     else rmnetctl_set_codes (return_code (the response)) st)"

text \<open>... or check that the reply is data, else the return code it carries. \<open>Some\<close> is the data reply.\<close>

definition finish_data :: "env \<Rightarrow> rmnet_nl_msg_s \<Rightarrow> rctx \<Rightarrow> int \<times> rmnet_nl_msg_s option \<times> rctx" where
  "finish_data K request st =
    (let (ec, response, st) = rmnetctl_transact K (Some request) (Some request) st;
         st = set_ecode ec st in
     if ec \<noteq> RMNETCTL_API_SUCCESS then (RMNETCTL_LIB_ERR, None, st) else
     let (rd, st) = rmnetctl_check_data (crd (the response)) st in
     if rd \<noteq> RMNETCTL_SUCCESS then
       let (rc, st) = rmnetctl_check_code (crd (the response)) st in
       if rc = RMNETCTL_SUCCESS
       then let (r, st) = rmnetctl_set_codes (return_code (the response)) st in (r, None, st)
       else (RMNETCTL_LIB_ERR, None, st)
     else (RMNETCTL_SUCCESS, response, st))"

section \<open>Opening and closing a handle\<close>

abbreviation (input) zero_addr :: sockaddr_nl where
  "zero_addr \<equiv> \<lparr>nl_family = 0, nl_pid = 0, nl_groups = 0\<rparr>"

text \<open>\<open>pp\<close> says whether the \<open>hndl\<close> argument (a pointer to a pointer) is not null.\<close>

definition rmnetctl_init :: "env \<Rightarrow> bool \<Rightarrow> rctx \<Rightarrow> int \<times> rctx" where
  "rmnetctl_init K pp st =
    (if \<not> pp \<or> ecode st = None then (RMNETCTL_INVALID_ARG, st) else
     let (a, tr) = sys K (SysMalloc 36) (trace st) in
     if ret a = 0
     then (RMNETCTL_LIB_ERR, set_ecode RMNETCTL_API_ERR_HNDL_INVALID (st\<lparr>hndl := None, trace := tr\<rparr>)) else
     let h = \<lparr>h_addr = ret a, pid = 0, transaction_id = 0, netlink_fd = 0,
              src_addr = zero_addr, dest_addr = zero_addr\<rparr>;
         (a, tr) = sys K SysGetpid tr; p = ret a in
     if p < MIN_VALID_PROCESS_ID
     then (RMNETCTL_LIB_ERR, set_ecode RMNETCTL_INIT_ERR_PROCESS_ID
             (st\<lparr>hndl := Some h, trace := sys_free (h_addr h) tr\<rparr>)) else
     let h = h\<lparr>pid := word_of_int p\<rparr>;
         (a, tr) = sys K (SysSocket PF_NETLINK SOCK_RAW_CLOEXEC RMNET_NETLINK_PROTO) tr; fd = ret a in
     if fd < MIN_VALID_SOCKET_FD
     then (RMNETCTL_LIB_ERR, set_ecode RMNETCTL_INIT_ERR_NETLINK_FD
             (st\<lparr>hndl := Some h, trace := sys_free (h_addr h) tr\<rparr>)) else
     let h = h\<lparr>netlink_fd := fd, src_addr := \<lparr>nl_family = AF_NETLINK, nl_pid = pid h, nl_groups = 0\<rparr>\<rparr>;
         (a, tr) = sys K (SysBind fd (src_addr h)) tr in
     if ret a < 0
     then let (_, tr) = sys K (SysClose fd) tr in
          (RMNETCTL_LIB_ERR, set_ecode RMNETCTL_INIT_ERR_BIND
             (st\<lparr>hndl := Some h, trace := sys_free (h_addr h) tr\<rparr>))
     else let h = h\<lparr>dest_addr := \<lparr>nl_family = AF_NETLINK, nl_pid = KERNEL_PROCESS_ID, nl_groups = UNICAST\<rparr>\<rparr>
          in (RMNETCTL_SUCCESS, st\<lparr>hndl := Some h, trace := tr\<rparr>))"

text \<open>The caller's pointer is not cleared: it dangles after the call.\<close>

definition rmnetctl_cleanup :: "env \<Rightarrow> rctx \<Rightarrow> rctx" where
  "rmnetctl_cleanup K st = (case hndl st of None \<Rightarrow> st
     | Some h \<Rightarrow> let (_, tr) = sys K (SysClose (netlink_fd h)) (trace st)
                in st\<lparr>trace := sys_free (h_addr h) tr\<rparr>)"

section \<open>The API functions\<close>

definition rmnet_associate_network_device ::
  "env \<Rightarrow> rmnet_nl_msg_s \<Rightarrow> string option \<Rightarrow> u8 \<Rightarrow> rctx \<Rightarrow> int \<times> rctx" where
  "rmnet_associate_network_device K req0 dev_name assoc_dev st =
    (if hndl st = None \<or> ecode st = None \<or> rmnetctl_check_dev_name dev_name \<noteq> RMNETCTL_SUCCESS \<or>
        (assoc_dev \<noteq> RMNETCTL_DEVICE_ASSOCIATE \<and> assoc_dev \<noteq> RMNETCTL_DEVICE_UNASSOCIATE)
     then (RMNETCTL_INVALID_ARG, st) else
     let req = req0\<lparr>message_type := (if assoc_dev = RMNETCTL_DEVICE_ASSOCIATE
                      then RMNET_NETLINK_ASSOCIATE_NETWORK_DEVICE
                      else RMNET_NETLINK_UNASSOCIATE_NETWORK_DEVICE),
                    arg_length := of_nat RMNET_MAX_STR_LEN\<rparr>;
         (req, str_len) = store_name OFF_data (the dev_name) req;
         (rc, st) = rmnetctl_check_len str_len st in
     if rc \<noteq> RMNETCTL_SUCCESS then (RMNETCTL_LIB_ERR, st) else finish_code K req st)"

definition rmnet_get_network_device_associated ::
  "env \<Rightarrow> rmnet_nl_msg_s \<Rightarrow> string option \<Rightarrow> int option \<Rightarrow> rctx \<Rightarrow> int \<times> int option \<times> rctx" where
  "rmnet_get_network_device_associated K req0 dev_name register_status st =
    (if hndl st = None \<or> register_status = None \<or> ecode st = None \<or>
        rmnetctl_check_dev_name dev_name \<noteq> RMNETCTL_SUCCESS
     then (RMNETCTL_INVALID_ARG, register_status, st) else
     let req = req0\<lparr>message_type := RMNET_NETLINK_GET_NETWORK_DEVICE_ASSOCIATED,
                    arg_length := of_nat RMNET_MAX_STR_LEN\<rparr>;
         (req, str_len) = store_name OFF_data (the dev_name) req;
         (rc, st) = rmnetctl_check_len str_len st in
     if rc \<noteq> RMNETCTL_SUCCESS then (RMNETCTL_LIB_ERR, register_status, st) else
     let (rc, resp, st) = finish_data K req st in
     (case resp of None \<Rightarrow> (rc, register_status, st)
      | Some m \<Rightarrow> (RMNETCTL_SUCCESS, Some (uint (return_code m)), st)))"

definition rmnet_set_link_egress_data_format ::
  "env \<Rightarrow> rmnet_nl_msg_s \<Rightarrow> u32 \<Rightarrow> u16 \<Rightarrow> u16 \<Rightarrow> string option \<Rightarrow> rctx \<Rightarrow> int \<times> rctx" where
  "rmnet_set_link_egress_data_format K req0 egress_flags agg_size agg_count dev_name st =
    (if hndl st = None \<or> ecode st = None \<or> rmnetctl_check_dev_name dev_name \<noteq> RMNETCTL_SUCCESS \<or>
        NOT EGRESS_FLAGS_MASK AND egress_flags \<noteq> 0
     then (RMNETCTL_INVALID_ARG, st) else
     let req = req0\<lparr>message_type := RMNET_NETLINK_SET_LINK_EGRESS_DATA_FORMAT,
                    arg_length := of_nat (RMNET_MAX_STR_LEN + 4 + 2 + 2)\<rparr>;
         (req, str_len) = store_name OFF_df_dev (the dev_name) req;
         (rc, st) = rmnetctl_check_len str_len st in
     if rc \<noteq> RMNETCTL_SUCCESS then (RMNETCTL_LIB_ERR, st) else
     let req = store OFF_df_flags (le_bytes 4 egress_flags) req;
         req = store OFF_df_agg_size (le_bytes 2 agg_size) req;
         req = store OFF_df_agg_count (le_bytes 2 agg_count) req in
     finish_code K req st)"

definition rmnet_get_link_egress_data_format ::
  "env \<Rightarrow> rmnet_nl_msg_s \<Rightarrow> string option \<Rightarrow> u32 option \<Rightarrow> u16 option \<Rightarrow> u16 option \<Rightarrow> rctx \<Rightarrow>
     int \<times> (u32 option \<times> u16 option \<times> u16 option) \<times> rctx" where
  "rmnet_get_link_egress_data_format K req0 dev_name egress_flags agg_size agg_count st =
    (let out = (egress_flags, agg_size, agg_count) in
     if hndl st = None \<or> egress_flags = None \<or> agg_size = None \<or> agg_count = None \<or> ecode st = None \<or>
        rmnetctl_check_dev_name dev_name \<noteq> RMNETCTL_SUCCESS
     then (RMNETCTL_INVALID_ARG, out, st) else
     let req = req0\<lparr>message_type := RMNET_NETLINK_GET_LINK_EGRESS_DATA_FORMAT,
                    arg_length := of_nat RMNET_MAX_STR_LEN\<rparr>;
         (req, str_len) = store_name OFF_df_dev (the dev_name) req;
         (rc, st) = rmnetctl_check_len str_len st in
     if rc \<noteq> RMNETCTL_SUCCESS then (RMNETCTL_LIB_ERR, out, st) else
     let (rc, resp, st) = finish_data K req st in
     (case resp of None \<Rightarrow> (rc, out, st)
      | Some m \<Rightarrow> (RMNETCTL_SUCCESS,
          (Some (load32 OFF_df_flags m), Some (load16 OFF_df_agg_size m), Some (load16 OFF_df_agg_count m)), st)))"

definition rmnet_set_link_ingress_data_format_tailspace ::
  "env \<Rightarrow> rmnet_nl_msg_s \<Rightarrow> u32 \<Rightarrow> u8 \<Rightarrow> string option \<Rightarrow> rctx \<Rightarrow> int \<times> rctx" where
  "rmnet_set_link_ingress_data_format_tailspace K req0 ingress_flags tail_spacing dev_name st =
    (if hndl st = None \<or> ecode st = None \<or> rmnetctl_check_dev_name dev_name \<noteq> RMNETCTL_SUCCESS \<or>
        NOT INGRESS_FLAGS_MASK AND ingress_flags \<noteq> 0
     then (RMNETCTL_INVALID_ARG, st) else
     let req = req0\<lparr>message_type := RMNET_NETLINK_SET_LINK_INGRESS_DATA_FORMAT,
                    arg_length := of_nat (RMNET_MAX_STR_LEN + 4 + 2 + 2)\<rparr>;
         (req, str_len) = store_name OFF_df_dev (the dev_name) req;
         (rc, st) = rmnetctl_check_len str_len st in
     if rc \<noteq> RMNETCTL_SUCCESS then (RMNETCTL_LIB_ERR, st) else
     let req = store OFF_df_flags (le_bytes 4 ingress_flags) req;
         req = store OFF_df_tail_spacing (le_bytes 1 tail_spacing) req in
     finish_code K req st)"

definition rmnet_get_link_ingress_data_format_tailspace ::
  "env \<Rightarrow> rmnet_nl_msg_s \<Rightarrow> string option \<Rightarrow> u32 option \<Rightarrow> u8 option \<Rightarrow> rctx \<Rightarrow>
     int \<times> (u32 option \<times> u8 option) \<times> rctx" where
  "rmnet_get_link_ingress_data_format_tailspace K req0 dev_name ingress_flags tail_spacing st =
    (let out = (ingress_flags, tail_spacing) in
     if hndl st = None \<or> ecode st = None \<or> rmnetctl_check_dev_name dev_name \<noteq> RMNETCTL_SUCCESS
     then (RMNETCTL_INVALID_ARG, out, st) else
     let req = req0\<lparr>message_type := RMNET_NETLINK_GET_LINK_INGRESS_DATA_FORMAT,
                    arg_length := of_nat RMNET_MAX_STR_LEN\<rparr>;
         (req, str_len) = store_name OFF_df_dev (the dev_name) req;
         (rc, st) = rmnetctl_check_len str_len st in
     if rc \<noteq> RMNETCTL_SUCCESS then (RMNETCTL_LIB_ERR, out, st) else
     let (rc, resp, st) = finish_data K req st in
     (case resp of None \<Rightarrow> (rc, out, st)
      | Some m \<Rightarrow> (RMNETCTL_SUCCESS,
          (map_option (\<lambda>_. load32 OFF_df_flags m) ingress_flags,
           map_option (\<lambda>_. load8 OFF_df_tail_spacing m) tail_spacing), st)))"

definition rmnet_set_logical_ep_config ::
  "env \<Rightarrow> rmnet_nl_msg_s \<Rightarrow> u32 \<Rightarrow> u8 \<Rightarrow> string option \<Rightarrow> string option \<Rightarrow> rctx \<Rightarrow> int \<times> rctx" where
  "rmnet_set_logical_ep_config K req0 ep_id operating_mode dev_name next_dev st =
    (if hndl st = None \<or> (sint ep_id < -1 \<or> sint ep_id > 31) \<or> ecode st = None \<or>
        rmnetctl_check_dev_name dev_name \<noteq> RMNETCTL_SUCCESS \<or>
        rmnetctl_check_dev_name next_dev \<noteq> RMNETCTL_SUCCESS \<or> operating_mode \<ge> RMNET_EPMODE_LENGTH
     then (RMNETCTL_INVALID_ARG, st) else
     let req = req0\<lparr>message_type := RMNET_NETLINK_SET_LOGICAL_EP_CONFIG,
                    arg_length := of_nat (RMNET_MAX_STR_LEN + RMNET_MAX_STR_LEN + 4 + 1)\<rparr>;
         (req, str_len) = store_name OFF_ep_dev (the dev_name) req;
         (rc, st) = rmnetctl_check_len str_len st in
     if rc \<noteq> RMNETCTL_SUCCESS then (RMNETCTL_LIB_ERR, st) else
     let (req, str_len) = store_name OFF_ep_next (the next_dev) req;
         (rc, st) = rmnetctl_check_len str_len st in
     if rc \<noteq> RMNETCTL_SUCCESS then (RMNETCTL_LIB_ERR, st) else
     let req = store OFF_ep_id (le_bytes 4 ep_id) req;
         req = store OFF_ep_mode (le_bytes 1 operating_mode) req in
     finish_code K req st)"

definition rmnet_unset_logical_ep_config ::
  "env \<Rightarrow> rmnet_nl_msg_s \<Rightarrow> u32 \<Rightarrow> string option \<Rightarrow> rctx \<Rightarrow> int \<times> rctx" where
  "rmnet_unset_logical_ep_config K req0 ep_id dev_name st =
    (if hndl st = None \<or> (sint ep_id < -1 \<or> sint ep_id > 31) \<or> ecode st = None \<or>
        rmnetctl_check_dev_name dev_name \<noteq> RMNETCTL_SUCCESS
     then (RMNETCTL_INVALID_ARG, st) else
     let req = req0\<lparr>message_type := RMNET_NETLINK_UNSET_LOGICAL_EP_CONFIG,
                    arg_length := of_nat (RMNET_MAX_STR_LEN + 4)\<rparr>;
         (req, str_len) = store_name OFF_ep_dev (the dev_name) req;
         (rc, st) = rmnetctl_check_len str_len st in
     if rc \<noteq> RMNETCTL_SUCCESS then (RMNETCTL_LIB_ERR, st) else
     let req = store OFF_ep_id (le_bytes 4 ep_id) req in
     finish_code K req st)"

text \<open>
  The name in the reply is copied to the caller's buffer of \<open>next_dev_len\<close> bytes. \<open>strlcpy\<close> walks
  the source up to its terminator: a reply without one inside the structure makes it read past the
  object, which is the outer \<open>None\<close>.
\<close>

definition rmnet_get_logical_ep_config ::
  "env \<Rightarrow> rmnet_nl_msg_s \<Rightarrow> u32 \<Rightarrow> string option \<Rightarrow> u8 option \<Rightarrow> string option \<Rightarrow> u32 \<Rightarrow> rctx \<Rightarrow>
     (int \<times> (u8 option \<times> string option) \<times> rctx) option" where
  "rmnet_get_logical_ep_config K req0 ep_id dev_name operating_mode next_dev next_dev_len st =
    (let out = (operating_mode, next_dev) in
     if hndl st = None \<or> operating_mode = None \<or> ecode st = None \<or> (sint ep_id < -1 \<or> sint ep_id > 31) \<or>
        rmnetctl_check_dev_name dev_name \<noteq> RMNETCTL_SUCCESS \<or> next_dev = None \<or> next_dev_len = 0
     then Some (RMNETCTL_INVALID_ARG, out, st) else
     let req = req0\<lparr>message_type := RMNET_NETLINK_GET_LOGICAL_EP_CONFIG,
                    arg_length := of_nat (RMNET_MAX_STR_LEN + 4)\<rparr>;
         (req, str_len) = store_name OFF_ep_dev (the dev_name) req;
         (rc, st) = rmnetctl_check_len str_len st in
     if rc \<noteq> RMNETCTL_SUCCESS then Some (RMNETCTL_LIB_ERR, out, st) else
     let req = store OFF_ep_id (le_bytes 4 ep_id) req;
         (rc, resp, st) = finish_data K req st in
     (case resp of None \<Rightarrow> Some (rc, out, st)
      | Some m \<Rightarrow>
        let src = of_bytes (drop OFF_ep_next (payload m)) in
        if NUL \<notin> set src then None else
        let next_dev = Some (put_at 0 (strlcpy_image (min RMNET_MAX_STR_LEN (unat next_dev_len)) src) (the next_dev));
            (rc, st) = rmnetctl_check_len (strlen src) st in
        if rc \<noteq> RMNETCTL_SUCCESS then Some (RMNETCTL_LIB_ERR, (operating_mode, next_dev), st)
        else Some (RMNETCTL_SUCCESS, (Some (load8 OFF_ep_mode m), next_dev), st)))"

definition rmnet_new_vnd_prefix ::
  "env \<Rightarrow> rmnet_nl_msg_s \<Rightarrow> u32 \<Rightarrow> u8 \<Rightarrow> string option \<Rightarrow> rctx \<Rightarrow> int \<times> rctx" where
  "rmnet_new_vnd_prefix K req0 dev_id new_vnd prefix st =
    (if hndl st = None \<or> ecode st = None \<or> (new_vnd \<noteq> RMNETCTL_NEW_VND \<and> new_vnd \<noteq> RMNETCTL_FREE_VND)
     then (RMNETCTL_INVALID_ARG, st) else
     let req = store OFF_vnd_name (replicate RMNET_MAX_STR_LEN 0) req0;
         (req, rc, st) =
           (if new_vnd = RMNETCTL_NEW_VND then
              (case prefix of
                 Some p \<Rightarrow>
                   let req = req\<lparr>message_type := RMNET_NETLINK_NEW_VND_WITH_PREFIX\<rparr>;
                       (req, str_len) = store_name OFF_vnd_name p req;
                       (rc, st) = rmnetctl_check_len str_len st in (req, rc, st)
               | None \<Rightarrow> (req\<lparr>message_type := RMNET_NETLINK_NEW_VND\<rparr>, RMNETCTL_SUCCESS, st))
            else (req\<lparr>message_type := RMNET_NETLINK_FREE_VND\<rparr>, RMNETCTL_SUCCESS, st)) in
     if rc \<noteq> RMNETCTL_SUCCESS then (RMNETCTL_LIB_ERR, st) else
     let req = store OFF_vnd_id (le_bytes 4 dev_id) (req\<lparr>arg_length := 4\<rparr>) in
     finish_code K req st)"

definition rmnet_new_vnd_name ::
  "env \<Rightarrow> rmnet_nl_msg_s \<Rightarrow> u32 \<Rightarrow> string option \<Rightarrow> rctx \<Rightarrow> int \<times> rctx" where
  "rmnet_new_vnd_name K req0 dev_id prefix st =
    (if hndl st = None \<or> ecode st = None then (RMNETCTL_INVALID_ARG, st) else
     let req = store OFF_vnd_name (replicate RMNET_MAX_STR_LEN 0) req0;
         (req, rc, st) =
           (case prefix of
              Some p \<Rightarrow>
                let req = req\<lparr>message_type := RMNET_NETLINK_NEW_VND_WITH_NAME\<rparr>;
                    (req, str_len) = store_name OFF_vnd_name p req;
                    (rc, st) = rmnetctl_check_len str_len st in (req, rc, st)
            | None \<Rightarrow> (req\<lparr>message_type := RMNET_NETLINK_NEW_VND\<rparr>, RMNETCTL_SUCCESS, st)) in
     if rc \<noteq> RMNETCTL_SUCCESS then (RMNETCTL_LIB_ERR, st) else
     let req = store OFF_vnd_id (le_bytes 4 dev_id) (req\<lparr>arg_length := 4\<rparr>) in
     finish_code K req st)"

definition rmnet_new_vnd :: "env \<Rightarrow> rmnet_nl_msg_s \<Rightarrow> u32 \<Rightarrow> u8 \<Rightarrow> rctx \<Rightarrow> int \<times> rctx" where
  "rmnet_new_vnd K req0 dev_id new_vnd st = rmnet_new_vnd_prefix K req0 dev_id new_vnd None st"

text \<open>Here, too, a reply without a terminator in the rest of the structure is \<open>None\<close>.\<close>

definition rmnet_get_vnd_name ::
  "env \<Rightarrow> rmnet_nl_msg_s \<Rightarrow> u32 \<Rightarrow> string option \<Rightarrow> u32 \<Rightarrow> rctx \<Rightarrow> (int \<times> string option \<times> rctx) option" where
  "rmnet_get_vnd_name K req0 dev_id buf buflen st =
    (if hndl st = None \<or> ecode st = None \<or> buf = None \<or> buflen = 0
     then Some (RMNETCTL_INVALID_ARG, buf, st) else
     let req = req0\<lparr>message_type := RMNET_NETLINK_GET_VND_NAME, arg_length := 4\<rparr>;
         req = store OFF_vnd_id (le_bytes 4 dev_id) req;
         (rc, resp, st) = finish_data K req st in
     (case resp of None \<Rightarrow> Some (rc, buf, st)
      | Some m \<Rightarrow>
        let src = of_bytes (drop OFF_vnd_name (payload m)) in
        if NUL \<notin> set src then None else
        let buf = Some (put_at 0 (strlcpy_image (unat buflen) src) (the buf)) in
        if strlen src \<ge> unat buflen
        then Some (RMNETCTL_LIB_ERR, buf, set_ecode RMNETCTL_API_ERR_STRING_TRUNCATION st)
        else Some (RMNETCTL_SUCCESS, buf, st)))"

definition rmnet_add_del_vnd_tc_flow ::
  "env \<Rightarrow> rmnet_nl_msg_s \<Rightarrow> u32 \<Rightarrow> u32 \<Rightarrow> u32 \<Rightarrow> u8 \<Rightarrow> rctx \<Rightarrow> int \<times> rctx" where
  "rmnet_add_del_vnd_tc_flow K req0 dev_id map_flow_id tc_flow_id set_flow st =
    (if hndl st = None \<or> ecode st = None \<or> (set_flow \<noteq> RMNETCTL_ADD_FLOW \<and> set_flow \<noteq> RMNETCTL_DEL_FLOW)
     then (RMNETCTL_INVALID_ARG, st) else
     let req = req0\<lparr>message_type := (if set_flow = RMNETCTL_ADD_FLOW then RMNET_NETLINK_ADD_VND_TC_FLOW
                                     else RMNET_NETLINK_DEL_VND_TC_FLOW),
                    arg_length := 12\<rparr>;
         req = store OFF_fc_id (le_bytes 4 dev_id) req;
         req = store OFF_fc_map (le_bytes 4 map_flow_id) req;
         req = store OFF_fc_tc (le_bytes 4 tc_flow_id) req in
     finish_code K req st)"

end
