(* ===== verification/Rmnet_Contract.thy ===== *)
theory Rmnet_Contract
  imports Rmnet_Legacy "HOL-Library.Multiset"
begin

text \<open>
  What the message API promises. \<open>code_call\<close> is the interface of an API function that sends one
  message and reports a return code: it states which arguments are rejected and which request is
  sent, and its lemmas give, for every environment, the range of results, the balance of heap
  blocks, the transaction counter, the messages sent, and the outcome under a driver that answers.
  Every function of the API is an interpretation. \<open>rmnet_cmd\<close> is the abstract command set;
  \<open>cmd_of\<close> is how a driver that follows the header reads a message.
\<close>

section \<open>Messages on the wire\<close>

fun sent :: "sysev list \<Rightarrow> bytes list" where
  "sent [] = []"
| "sent (SysSendto _ b _ # tr) = b # sent tr"
| "sent (SysSend _ b # tr) = b # sent tr"
| "sent (_ # tr) = sent tr"

lemma sent_append [simp]: "sent (xs @ ys) = sent xs @ sent ys"
  by (induction xs rule: sent.induct) auto

definition wire_msg :: "bytes \<Rightarrow> rmnet_nl_msg_s" where
  "wire_msg b = decode_msg (get_at SIZEOF_nlmsghdr SIZEOF_rmnet_nl_msg_s b)"

lemma put_at_image:
  assumes "length hdr = 16" "length body = 72"
  shows "put_at 16 body (put_at 0 hdr (replicate 88 0)) = hdr @ body"
  using assms by (simp add: put_at_def)

lemma request_image_eq:
  assumes "wf_msg rq"
  shows "request_image h rq =
    le_bytes 4 (88 :: u32) @ le_bytes 2 (0 :: u16) @ le_bytes 2 (0 :: u16) @
    le_bytes 4 (transaction_id h) @ le_bytes 4 (pid h) @ encode_msg (set_crd RMNET_NETLINK_MSG_COMMAND rq)"
proof -
  let ?hdr = "le_bytes 4 (88 :: u32) @ le_bytes 2 (0 :: u16) @ le_bytes 2 (0 :: u16) @
    le_bytes 4 (transaction_id h) @ le_bytes 4 (pid h)"
  have hdr: "length ?hdr = 16" by simp
  have "memscpy 16 72 (encode_msg rq) 72 (put_at 0 ?hdr (replicate 88 0)) = ?hdr @ encode_msg rq"
    using assms hdr by (simp only: memscpy_def) (simp add: put_at_def)
  moreover have "get_at 16 72 (?hdr @ encode_msg rq) = encode_msg rq"
    using assms hdr by (simp add: get_at_def)
  moreover have "put_at 16 (encode_msg (set_crd 0 rq)) (?hdr @ encode_msg rq) = ?hdr @ encode_msg (set_crd 0 rq)"
    using assms hdr by (simp add: put_at_def)
  ultimately show ?thesis
    using assms by (simp add: request_image_def Let_def del: append_assoc)
qed

lemma wire_msg_image [simp]:
  "wf_msg rq \<Longrightarrow> wire_msg (request_image h rq) = set_crd RMNET_NETLINK_MSG_COMMAND rq"
  by (simp add: request_image_eq wire_msg_def get_at_def)

lemma length_request_image [simp, layout]: "wf_msg rq \<Longrightarrow> length (request_image h rq) = 88"
  by (simp add: request_image_eq)

lemma request_image_seq [simp]: "wf_msg rq \<Longrightarrow> rd32 8 (request_image h rq) = transaction_id h"
  by (simp add: request_image_eq rd32_def get_at_def)

section \<open>The transaction\<close>

lemma transact_null [simp]: "hndl st = None \<Longrightarrow> rmnetctl_transact K rq rs st = (9, rs, st)"
  by (simp add: rmnetctl_transact_def)

lemmas transact_unfold = rmnetctl_transact_def sys_def Let_def

lemma transact_keeps:
  "rmnetctl_transact K rq rs st = (ec, r, st') \<Longrightarrow> ecode st' = ecode st \<and> (hndl st' = None \<longleftrightarrow> hndl st = None)"
  by (auto simp: transact_unfold split: option.splits if_splits)

lemma transact_balance:
  assumes "rmnetctl_transact K rq rs st = (ec, r, st')"
  shows "\<exists>xs. mallocs K (trace st') = mallocs K (trace st) @ xs \<and>
              mset (freed (trace st')) = mset (freed (trace st)) + mset xs"
proof (rule exI[of _ "drop (length (mallocs K (trace st))) (mallocs K (trace st'))"])
  show "mallocs K (trace st') = mallocs K (trace st) @ drop (length (mallocs K (trace st))) (mallocs K (trace st')) \<and>
     mset (freed (trace st')) = mset (freed (trace st)) + mset (drop (length (mallocs K (trace st))) (mallocs K (trace st')))"
    using assms
    by (auto simp: transact_unfold sys_free_def simp flip: append_assoc split: option.splits if_splits)
qed

text \<open>The handle after a transaction: only the counter and the peer address may change.\<close>

definition same_handle :: "rmnetctl_hndl \<Rightarrow> rmnetctl_hndl \<Rightarrow> bool" where
  "same_handle h h' \<longleftrightarrow> h_addr h' = h_addr h \<and> pid h' = pid h \<and> netlink_fd h' = netlink_fd h \<and>
     dest_addr h' = dest_addr h"

lemma same_handle_simps [simp]:
  "same_handle h h"
  "same_handle h (h\<lparr>transaction_id := t\<rparr>)" "same_handle h (h\<lparr>transaction_id := t, src_addr := a\<rparr>)"
  by (simp_all add: same_handle_def)

lemma transact_sends:
  assumes "rmnetctl_transact K (Some rq) (Some rs) st = (ec, r, st')" "hndl st = Some h"
  shows "\<exists>h' bs. hndl st' = Some h' \<and> same_handle h h' \<and> sent (trace st') = sent (trace st) @ bs \<and>
    (bs = [] \<or> bs = [request_image h rq]) \<and> transaction_id h' = transaction_id h + of_nat (length bs) \<and>
    (ec \<in> {0, 3, 4, 12} \<longleftrightarrow> bs \<noteq> []) \<and> ec \<in> {0, 3, 4, 10, 11, 12}"
  using assms
  by (auto simp: transact_unfold sys_free_def split: option.splits if_splits)

lemma transact_reply:
  assumes "rmnetctl_transact K (Some rq) rs st = (0, r, st')"
  shows "\<exists>m. r = Some m \<and> wf_msg m \<and> message_type m = message_type rq"
  using assms
  by (auto simp: transact_unfold wf_decode_msg split: option.splits if_splits)

section \<open>A driver that answers\<close>

text \<open>
  The kernel's side of the protocol, for a driver \<open>drv\<close> from requests to replies: memory is
  available, the message is accepted, and the next receive returns the reply to it behind a
  netlink header. A driver answers with the type it was asked for.
\<close>

definition rmnet_driver :: "(rmnet_nl_msg_s \<Rightarrow> rmnet_nl_msg_s) \<Rightarrow> bool" where
  "rmnet_driver drv \<longleftrightarrow> (\<forall>m. wf_msg (drv m) \<and> message_type (drv m) = message_type m)"

definition rmnet_kernel :: "env \<Rightarrow> (rmnet_nl_msg_s \<Rightarrow> rmnet_nl_msg_s) \<Rightarrow> bool" where
  "rmnet_kernel K drv \<longleftrightarrow> rmnet_driver drv \<and>
     (\<forall>tr n. 0 < ret (K (tr @ [SysMalloc n]))) \<and>
     (\<forall>tr fd b a. 0 \<le> ret (K (tr @ [SysSendto fd b a]))) \<and>
     (\<forall>tr fd b a n. ret (K (tr @ [SysSendto fd b a, SysRecvfrom fd n])) = 88 \<and>
        data (K (tr @ [SysSendto fd b a, SysRecvfrom fd n])) = replicate 16 0 @ encode_msg (drv (wire_msg b)))"

lemma transact_kernel:
  assumes K: "rmnet_kernel K drv" and rq: "wf_msg rq" and h: "hndl st = Some h"
  shows "\<exists>st'. rmnetctl_transact K (Some rq) (Some rs) st =
      (0, Some (drv (set_crd RMNET_NETLINK_MSG_COMMAND rq)), st') \<and>
    sent (trace st') = sent (trace st) @ [request_image h rq] \<and> ecode st' = ecode st"
proof -
  let ?a = "ret (K (trace st @ [SysMalloc 88]))"
  let ?b = "ret (K (trace st @ [SysMalloc 88, SysMalloc 88]))"
  let ?h = "h\<lparr>transaction_id := transaction_id h + 1\<rparr>"
  let ?s = "SysSendto (netlink_fd h) (request_image h rq) (dest_addr h)"
  let ?tr = "trace st @ [SysMalloc 88, SysMalloc 88]"
  let ?k = "K (?tr @ [?s, SysRecvfrom (netlink_fd h) 88])"
  have "?a \<noteq> 0" "?b \<noteq> 0" "\<not> ret (K (?tr @ [?s])) < 0"
    using K unfolding rmnet_kernel_def
    by (auto simp: not_less dest: spec[of _ "trace st"] spec[of _ "trace st @ [SysMalloc 88]"])
      (metis append.assoc append_Cons append_Nil less_irrefl)+
  moreover have "ret ?k = 88" "data ?k = replicate 16 0 @ encode_msg (drv (wire_msg (request_image h rq)))"
    using K unfolding rmnet_kernel_def by (blast, blast)
  moreover have "wf_msg (drv (set_crd 0 rq))" "message_type (drv (set_crd 0 rq)) = message_type rq"
    using K unfolding rmnet_kernel_def rmnet_driver_def by (auto simp: set_crd_def)
  moreover have "decode_msg (take 72 (drop 16 (recv_into 88 (replicate 16 0 @ encode_msg (drv (set_crd 0 rq)))
      (replicate 88 0)))) = drv (set_crd 0 rq)"
    using calculation by (simp add: recv_into_def put_at_def)
  ultimately show ?thesis
    using h rq by (simp add: transact_unfold sys_free_def)
qed

text \<open>What the caller is told about a reply to a command.\<close>

definition code_result :: "rmnet_nl_msg_s \<Rightarrow> int" where
  "code_result r = (if crd r \<noteq> RMNET_NETLINK_MSG_RETURNCODE then RMNETCTL_LIB_ERR
     else if return_code r = RMNET_CONFIG_OK then RMNETCTL_SUCCESS else RMNETCTL_KERNEL_ERR)"

definition code_error :: "rmnet_nl_msg_s \<Rightarrow> u16" where
  "code_error r = (if crd r \<noteq> RMNET_NETLINK_MSG_RETURNCODE then RMNETCTL_API_ERR_RETURN_TYPE
     else if return_code r = RMNET_CONFIG_OK then RMNETCTL_API_SUCCESS
     else return_code r + RMNETCTL_KERNEL_FIRST_ERR)"

lemmas reply_checks = rmnetctl_check_code_def rmnetctl_check_data_def rmnetctl_set_codes_def

section \<open>The end of a command\<close>

lemma set_ecode_twice [simp]: "set_ecode e (set_ecode e' st) = set_ecode e st"
  by (cases "ecode st") (simp_all add: set_ecode_def)

lemma finish_code_state:
  assumes "finish_code K rq st = (rc, st')" "rmnetctl_transact K (Some rq) (Some rq) st = (ec, r, st1)"
  shows "\<exists>e. st' = set_ecode e st1 \<and> (rc = RMNETCTL_SUCCESS \<longrightarrow> e = RMNETCTL_API_SUCCESS) \<and>
    rc \<in> {RMNETCTL_SUCCESS, RMNETCTL_LIB_ERR, RMNETCTL_KERNEL_ERR} \<and>
    (rc \<in> {RMNETCTL_SUCCESS, RMNETCTL_KERNEL_ERR} \<longrightarrow> ec = 0)"
  using assms
  by (auto simp: finish_code_def reply_checks Let_def split: prod.splits if_splits)

lemma finish_data_state:
  assumes "finish_data K rq st = (rc, m, st')" "rmnetctl_transact K (Some rq) (Some rq) st = (ec, r, st1)"
  shows "\<exists>e. st' = set_ecode e st1 \<and>
    rc \<in> {RMNETCTL_SUCCESS, RMNETCTL_LIB_ERR, RMNETCTL_KERNEL_ERR} \<and>
    (m \<noteq> None \<longrightarrow> rc = RMNETCTL_SUCCESS \<and> e = RMNETCTL_API_SUCCESS \<and> m = r \<and> ec = 0)"
  using assms
  by (auto simp: finish_data_def reply_checks Let_def split: prod.splits if_splits)

lemma finish_code_kernel:
  assumes "rmnet_kernel K drv" "wf_msg rq" "hndl st = Some h" "ecode st = Some e"
  shows "\<exists>st'. finish_code K rq st = (code_result (drv (set_crd 0 rq)), st') \<and>
    sent (trace st') = sent (trace st) @ [request_image h rq] \<and>
    ecode st' = Some (code_error (drv (set_crd 0 rq)))"
proof -
  obtain st1 where t: "rmnetctl_transact K (Some rq) (Some rq) st = (0, Some (drv (set_crd 0 rq)), st1)"
    and tr: "sent (trace st1) = sent (trace st) @ [request_image h rq]" and e: "ecode st1 = Some e"
    using transact_kernel[OF assms(1-3), of "rq"] assms(4) by auto
  show ?thesis using tr e
    by (auto simp: finish_code_def t Let_def reply_checks code_result_def code_error_def)
qed

lemma finish_data_kernel:
  assumes "rmnet_kernel K drv" "wf_msg rq" "hndl st = Some h" "ecode st = Some e"
    and "crd (drv (set_crd 0 rq)) = RMNET_NETLINK_MSG_RETURNDATA"
  shows "\<exists>st'. finish_data K rq st = (RMNETCTL_SUCCESS, Some (drv (set_crd 0 rq)), st') \<and>
    sent (trace st') = sent (trace st) @ [request_image h rq] \<and> ecode st' = Some RMNETCTL_API_SUCCESS"
proof -
  obtain st1 where t: "rmnetctl_transact K (Some rq) (Some rq) st = (0, Some (drv (set_crd 0 rq)), st1)"
    and tr: "sent (trace st1) = sent (trace st) @ [request_image h rq]" and e: "ecode st1 = Some e"
    using transact_kernel[OF assms(1-3), of "rq"] assms(4) by auto
  show ?thesis using tr e assms(5)
    by (auto simp: finish_data_def t Let_def reply_checks)
qed

section \<open>The interface of a command\<close>

text \<open>
  \<open>ok\<close> is the argument check, \<open>request\<close> the message the arguments stand for, \<open>None\<close> when a name
  does not fit and the call stops before the transaction.
\<close>

locale code_call =
  fixes call :: "env \<Rightarrow> rctx \<Rightarrow> int \<times> rctx"
    and ok :: bool
    and request :: "rmnet_nl_msg_s option"
  assumes reject: "hndl st = None \<or> ecode st = None \<or> \<not> ok \<Longrightarrow> call K st = (RMNETCTL_INVALID_ARG, st)"
    and too_long: "hndl st \<noteq> None \<Longrightarrow> ecode st \<noteq> None \<Longrightarrow> ok \<Longrightarrow> request = None \<Longrightarrow>
      call K st = (RMNETCTL_LIB_ERR, set_ecode RMNETCTL_API_ERR_STRING_TRUNCATION st)"
    and accept: "hndl st \<noteq> None \<Longrightarrow> ecode st \<noteq> None \<Longrightarrow> ok \<Longrightarrow> request = Some rq \<Longrightarrow>
      call K st = finish_code K rq st"
begin

lemma cases:
  assumes "call K st = (rc, st')"
  obtains (rejected) "hndl st = None \<or> ecode st = None \<or> \<not> ok" "rc = RMNETCTL_INVALID_ARG" "st' = st"
  | (truncated) "hndl st \<noteq> None" "ecode st \<noteq> None" "ok" "request = None" "rc = RMNETCTL_LIB_ERR"
      "st' = set_ecode RMNETCTL_API_ERR_STRING_TRUNCATION st"
  | (sent) rq ec r st1 e where "hndl st \<noteq> None" "ecode st \<noteq> None" "ok" "request = Some rq"
      "rmnetctl_transact K (Some rq) (Some rq) st = (ec, r, st1)" "st' = set_ecode e st1"
      "rc \<in> {RMNETCTL_SUCCESS, RMNETCTL_LIB_ERR, RMNETCTL_KERNEL_ERR}"
      "rc = RMNETCTL_SUCCESS \<Longrightarrow> e = RMNETCTL_API_SUCCESS"
      "rc \<in> {RMNETCTL_SUCCESS, RMNETCTL_KERNEL_ERR} \<Longrightarrow> ec = 0"
proof (cases "hndl st = None \<or> ecode st = None \<or> \<not> ok")
  case True
  with assms reject[OF True, of K] show thesis by (intro rejected[OF True]) simp_all
next
  case False
  then have ok: "hndl st \<noteq> None" "ecode st \<noteq> None" "ok" by auto
  show thesis
  proof (cases request)
    case None
    with assms too_long[OF ok None, of K] show thesis by (intro truncated[OF ok None]) simp_all
  next
    case (Some rq)
    obtain ec r st1 where t: "rmnetctl_transact K (Some rq) (Some rq) st = (ec, r, st1)"
      by (metis prod_cases3)
    have "finish_code K rq st = (rc, st')" using accept[OF ok Some, of K] assms by simp
    from finish_code_state[OF this t] obtain e where e: "st' = set_ecode e st1"
      "rc = RMNETCTL_SUCCESS \<longrightarrow> e = RMNETCTL_API_SUCCESS"
      "rc \<in> {RMNETCTL_SUCCESS, RMNETCTL_LIB_ERR, RMNETCTL_KERNEL_ERR}"
      "rc \<in> {RMNETCTL_SUCCESS, RMNETCTL_KERNEL_ERR} \<longrightarrow> ec = 0" by blast
    show thesis by (rule sent[OF ok Some t e(1)]) (use e in blast)+
  qed
qed

lemma result_codes:
  "call K st = (rc, st') \<Longrightarrow>
     rc \<in> {RMNETCTL_SUCCESS, RMNETCTL_LIB_ERR, RMNETCTL_KERNEL_ERR, RMNETCTL_INVALID_ARG} \<and>
     (rc = RMNETCTL_INVALID_ARG \<longleftrightarrow> hndl st = None \<or> ecode st = None \<or> \<not> ok)"
  by (erule cases) auto

lemma balance:
  assumes "call K st = (rc, st')"
  shows "\<exists>xs. mallocs K (trace st') = mallocs K (trace st) @ xs \<and>
              mset (freed (trace st')) = mset (freed (trace st)) + mset xs"
  using assms by (rule cases) (auto dest: transact_balance)

lemma one_message:
  assumes "call K st = (rc, st')" "hndl st = Some h" "\<And>rq. request = Some rq \<Longrightarrow> wf_msg rq"
  shows "\<exists>h' bs. hndl st' = Some h' \<and> same_handle h h' \<and> sent (trace st') = sent (trace st) @ bs \<and>
     length bs \<le> 1 \<and> transaction_id h' = transaction_id h + of_nat (length bs) \<and>
     (\<forall>b\<in>set bs. rd32 8 b = transaction_id h) \<and> (ecode st' = None \<longleftrightarrow> ecode st = None)"
  using assms(1)
proof (rule cases)
  fix rq ec r st1 e
  assume *: "request = Some rq" "rmnetctl_transact K (Some rq) (Some rq) st = (ec, r, st1)"
    "st' = set_ecode e st1"
  have "rd32 8 (request_image h rq) = transaction_id h" using assms(3)[OF *(1)] by simp
  then show ?thesis
    using transact_sends[OF *(2) assms(2)] transact_keeps[OF *(2)] *(3) by fastforce
qed (use assms(2) in auto)

lemma success_code:
  assumes "call K st = (RMNETCTL_SUCCESS, st')"
  shows "ecode st' = Some RMNETCTL_API_SUCCESS"
  using assms by (rule cases) (auto dest: transact_keeps)

lemma under_driver:
  assumes "rmnet_kernel K drv" "hndl st = Some h" "ecode st = Some e" "ok" "request = Some rq" "wf_msg rq"
  shows "\<exists>st'. call K st = (code_result (drv (set_crd 0 rq)), st') \<and>
     sent (trace st') = sent (trace st) @ [request_image h rq] \<and>
     ecode st' = Some (code_error (drv (set_crd 0 rq)))"
  using finish_code_kernel[OF assms(1,6,2,3)] accept[of st rq K] assms by simp

end

section \<open>The interface of a query\<close>

text \<open>
  A query hands the data of the reply to \<open>deliver\<close> and everything else to \<open>fail\<close>, which leaves the
  caller's result variables as they were.
\<close>

locale query_call =
  fixes call :: "env \<Rightarrow> rctx \<Rightarrow> 'r"
    and ok :: bool
    and request :: rmnet_nl_msg_s
    and fail :: "int \<Rightarrow> rctx \<Rightarrow> 'r"
    and deliver :: "rmnet_nl_msg_s \<Rightarrow> rctx \<Rightarrow> 'r"
  assumes reject: "hndl st = None \<or> ecode st = None \<or> \<not> ok \<Longrightarrow> call K st = fail RMNETCTL_INVALID_ARG st"
    and accept: "hndl st \<noteq> None \<Longrightarrow> ecode st \<noteq> None \<Longrightarrow> ok \<Longrightarrow>
      call K st = (case finish_data K request st of
          (rc, None, st') \<Rightarrow> fail rc st' | (rc, Some m, st') \<Rightarrow> deliver m st')"
begin

lemma data_reply:
  assumes "rmnet_kernel K drv" "wf_msg request" "hndl st = Some h" "ecode st = Some e" "ok"
    and "crd (drv (set_crd 0 request)) = RMNET_NETLINK_MSG_RETURNDATA"
  shows "\<exists>st'. call K st = deliver (drv (set_crd 0 request)) st' \<and>
     sent (trace st') = sent (trace st) @ [request_image h request] \<and> ecode st' = Some RMNETCTL_API_SUCCESS"
proof -
  have "call K st = (case finish_data K request st of
      (rc, None, st') \<Rightarrow> fail rc st' | (rc, Some m, st') \<Rightarrow> deliver m st')"
    using accept[of st K] assms(3-5) by simp
  then show ?thesis using finish_data_kernel[OF assms(1-4,6)] by auto
qed

text \<open>A driver that answers a query with the return code OK makes it succeed without data.\<close>

lemma code_reply:
  assumes "rmnet_kernel K drv" "wf_msg request" "hndl st = Some h" "ecode st = Some e" "ok"
    and "crd (drv (set_crd 0 request)) = RMNET_NETLINK_MSG_RETURNCODE"
  shows "\<exists>st'. call K st = fail (code_result (drv (set_crd 0 request))) st' \<and>
     sent (trace st') = sent (trace st) @ [request_image h request] \<and>
     ecode st' = Some (if return_code (drv (set_crd 0 request)) = RMNET_CONFIG_OK
       then RMNETCTL_API_ERR_RETURN_TYPE else code_error (drv (set_crd 0 request)))"
proof -
  obtain st1 where t: "rmnetctl_transact K (Some request) (Some request) st = (0, Some (drv (set_crd 0 request)), st1)"
    and tr: "sent (trace st1) = sent (trace st) @ [request_image h request]" and e: "ecode st1 = Some e"
    using transact_kernel[OF assms(1-3), of "request"] assms(4) by auto
  have "call K st = (case finish_data K request st of
      (rc, None, st') \<Rightarrow> fail rc st' | (rc, Some m, st') \<Rightarrow> deliver m st')"
    using accept[of st K] assms(3-5) by simp
  then show ?thesis using tr e assms(6)
    by (auto simp: finish_data_def t Let_def reply_checks code_result_def code_error_def)
qed

end

section \<open>An environment that satisfies the protocol\<close>

definition driver_env :: "(rmnet_nl_msg_s \<Rightarrow> rmnet_nl_msg_s) \<Rightarrow> env" where
  "driver_env drv tr = (case rev tr of
      SysRecvfrom _ _ # SysSendto _ b _ # _ \<Rightarrow>
        \<lparr>ret = 88, errno = 0, data = replicate 16 0 @ encode_msg (drv (wire_msg b)), sender = zero_addr\<rparr>
    | SysMalloc n # _ \<Rightarrow> \<lparr>ret = int (length tr), errno = 0, data = [], sender = zero_addr\<rparr>
    | _ \<Rightarrow> \<lparr>ret = 0, errno = 0, data = [], sender = zero_addr\<rparr>)"

lemma driver_env_kernel: "rmnet_driver drv \<Longrightarrow> rmnet_kernel (driver_env drv) drv"
  by (simp add: rmnet_kernel_def driver_env_def)

text \<open>A driver that acknowledges everything, and one that fails everything with code \<open>c\<close>.\<close>

definition code_driver :: "u16 \<Rightarrow> rmnet_nl_msg_s \<Rightarrow> rmnet_nl_msg_s" where
  "code_driver c m = \<lparr>reserved = 0, message_type = message_type m, crd_unit = 0x4000,
     arg_length = c, payload = replicate 64 0\<rparr>"

lemma code_driver_simps [simp]:
  "rmnet_driver (code_driver c)" "crd (code_driver c m) = RMNET_NETLINK_MSG_RETURNCODE"
  "return_code (code_driver c m) = c"
  by (simp_all add: rmnet_driver_def code_driver_def wf_msg_def crd_def return_code_def)

end
