(* ===== verification/Rmnet_Commands.thy ===== *)
theory Rmnet_Commands
  imports Rmnet_Contract
begin

text \<open>
  The abstract command set of the rmnet data driver and the proof that every function of the
  message API sends exactly the command its arguments stand for. \<open>rmnet_call\<close> is a C call with
  its arguments, \<open>perform\<close> runs it, \<open>call_ok\<close> and \<open>call_cmd\<close> are its specification, and \<open>cmd_of\<close>
  reads a received message the way the layout of rmnet_data.h says.
\<close>

section \<open>Commands\<close>

datatype rmnet_cmd =
    CAssoc string | CUnassoc string | CGetAssoc string
  | CSetEgress string u32 u16 u16 | CGetEgress string
  | CSetIngress string u32 u8 | CGetIngress string
  | CSetEp string u32 u8 string | CUnsetEp string u32 | CGetEp string u32
  | CNewVnd u32 | CNewVndPrefix u32 string | CNewVndName u32 string | CFreeVnd u32 | CGetVndName u32
  | CAddFlow u32 u32 u32 | CDelFlow u32 u32 u32

definition cmd_of :: "rmnet_nl_msg_s \<Rightarrow> rmnet_cmd option" where
  "cmd_of m = (let t = message_type m in
     if t = RMNET_NETLINK_ASSOCIATE_NETWORK_DEVICE then Some (CAssoc (load_name OFF_data m))
     else if t = RMNET_NETLINK_UNASSOCIATE_NETWORK_DEVICE then Some (CUnassoc (load_name OFF_data m))
     else if t = RMNET_NETLINK_GET_NETWORK_DEVICE_ASSOCIATED then Some (CGetAssoc (load_name OFF_data m))
     else if t = RMNET_NETLINK_SET_LINK_EGRESS_DATA_FORMAT then
       Some (CSetEgress (load_name OFF_df_dev m) (load32 OFF_df_flags m) (load16 OFF_df_agg_size m) (load16 OFF_df_agg_count m))
     else if t = RMNET_NETLINK_GET_LINK_EGRESS_DATA_FORMAT then Some (CGetEgress (load_name OFF_df_dev m))
     else if t = RMNET_NETLINK_SET_LINK_INGRESS_DATA_FORMAT then
       Some (CSetIngress (load_name OFF_df_dev m) (load32 OFF_df_flags m) (load8 OFF_df_tail_spacing m))
     else if t = RMNET_NETLINK_GET_LINK_INGRESS_DATA_FORMAT then Some (CGetIngress (load_name OFF_df_dev m))
     else if t = RMNET_NETLINK_SET_LOGICAL_EP_CONFIG then
       Some (CSetEp (load_name OFF_ep_dev m) (load32 OFF_ep_id m) (load8 OFF_ep_mode m) (load_name OFF_ep_next m))
     else if t = RMNET_NETLINK_UNSET_LOGICAL_EP_CONFIG then Some (CUnsetEp (load_name OFF_ep_dev m) (load32 OFF_ep_id m))
     else if t = RMNET_NETLINK_GET_LOGICAL_EP_CONFIG then Some (CGetEp (load_name OFF_ep_dev m) (load32 OFF_ep_id m))
     else if t = RMNET_NETLINK_NEW_VND then Some (CNewVnd (load32 OFF_vnd_id m))
     else if t = RMNET_NETLINK_NEW_VND_WITH_PREFIX then Some (CNewVndPrefix (load32 OFF_vnd_id m) (load_name OFF_vnd_name m))
     else if t = RMNET_NETLINK_GET_VND_NAME then Some (CGetVndName (load32 OFF_vnd_id m))
     else if t = RMNET_NETLINK_FREE_VND then Some (CFreeVnd (load32 OFF_vnd_id m))
     else if t = RMNET_NETLINK_ADD_VND_TC_FLOW then Some (CAddFlow (load32 OFF_fc_id m) (load32 OFF_fc_map m) (load32 OFF_fc_tc m))
     else if t = RMNET_NETLINK_DEL_VND_TC_FLOW then Some (CDelFlow (load32 OFF_fc_id m) (load32 OFF_fc_map m) (load32 OFF_fc_tc m))
     else if t = RMNET_NETLINK_NEW_VND_WITH_NAME then Some (CNewVndName (load32 OFF_vnd_id m) (load_name OFF_vnd_name m))
     else None)"

lemma cmd_of_set_crd [simp]: "cmd_of (set_crd c m) = cmd_of m"
proof -
  have "message_type (set_crd c m) = message_type m" by (simp add: set_crd_def)
  then show ?thesis by (simp only: cmd_of_def load_simps)
qed

section \<open>Calls\<close>

datatype rmnet_call =
    Associate "string option" u8
  | SetEgress u32 u16 u16 "string option"
  | SetIngress u32 u8 "string option"
  | SetEp u32 u8 "string option" "string option"
  | UnsetEp u32 "string option"
  | NewVndPrefix u32 u8 "string option"
  | NewVndName u32 "string option"
  | NewVnd u32 u8
  | TcFlow u32 u32 u32 u8

fun perform :: "env \<Rightarrow> rmnet_nl_msg_s \<Rightarrow> rmnet_call \<Rightarrow> rctx \<Rightarrow> int \<times> rctx" where
  "perform K req0 (Associate dev a) st = rmnet_associate_network_device K req0 dev a st"
| "perform K req0 (SetEgress f s c dev) st = rmnet_set_link_egress_data_format K req0 f s c dev st"
| "perform K req0 (SetIngress f t dev) st = rmnet_set_link_ingress_data_format_tailspace K req0 f t dev st"
| "perform K req0 (SetEp e m dev next) st = rmnet_set_logical_ep_config K req0 e m dev next st"
| "perform K req0 (UnsetEp e dev) st = rmnet_unset_logical_ep_config K req0 e dev st"
| "perform K req0 (NewVndPrefix i n p) st = rmnet_new_vnd_prefix K req0 i n p st"
| "perform K req0 (NewVndName i p) st = rmnet_new_vnd_name K req0 i p st"
| "perform K req0 (NewVnd i n) st = rmnet_new_vnd K req0 i n st"
| "perform K req0 (TcFlow i m t s) st = rmnet_add_del_vnd_tc_flow K req0 i m t s st"

text \<open>A name that passes the check: not null, shorter than the 16-byte member.\<close>

definition good_name :: "string option \<Rightarrow> bool" where
  "good_name dev \<longleftrightarrow> (\<exists>s. dev = Some s \<and> strlen s < RMNET_MAX_STR_LEN)"

definition good_ep :: "u32 \<Rightarrow> bool" where
  "good_ep e \<longleftrightarrow> -1 \<le> sint e \<and> sint e \<le> 31"

fun call_ok :: "rmnet_call \<Rightarrow> bool" where
  "call_ok (Associate dev a) = (good_name dev \<and> (a = 0 \<or> a = 1))"
| "call_ok (SetEgress f s c dev) = (good_name dev \<and> NOT EGRESS_FLAGS_MASK AND f = 0)"
| "call_ok (SetIngress f t dev) = (good_name dev \<and> NOT INGRESS_FLAGS_MASK AND f = 0)"
| "call_ok (SetEp e m dev next) = (good_name dev \<and> good_name next \<and> good_ep e \<and> m < RMNET_EPMODE_LENGTH)"
| "call_ok (UnsetEp e dev) = (good_name dev \<and> good_ep e)"
| "call_ok (NewVndPrefix i n p) = (n = 0 \<or> n = 1)"
| "call_ok (NewVndName i p) = True"
| "call_ok (NewVnd i n) = (n = 0 \<or> n = 1)"
| "call_ok (TcFlow i m t s) = (s = 0 \<or> s = 1)"

text \<open>The name argument of the two calls that do not check it beforehand.\<close>

fun vnd_name_arg :: "rmnet_call \<Rightarrow> string option" where
  "vnd_name_arg (NewVndPrefix i n p) = (if n = RMNETCTL_NEW_VND then p else None)"
| "vnd_name_arg (NewVndName i p) = p"
| "vnd_name_arg _ = None"

fun call_cmd :: "rmnet_call \<Rightarrow> rmnet_cmd" where
  "call_cmd (Associate dev a) = (if a = 1 then CAssoc (c_str (the dev)) else CUnassoc (c_str (the dev)))"
| "call_cmd (SetEgress f s c dev) = CSetEgress (c_str (the dev)) f s c"
| "call_cmd (SetIngress f t dev) = CSetIngress (c_str (the dev)) f t"
| "call_cmd (SetEp e m dev next) = CSetEp (c_str (the dev)) e m (c_str (the next))"
| "call_cmd (UnsetEp e dev) = CUnsetEp (c_str (the dev)) e"
| "call_cmd (NewVndPrefix i n p) = (if n = 0 then CFreeVnd i
     else case p of None \<Rightarrow> CNewVnd i | Some s \<Rightarrow> CNewVndPrefix i (c_str s))"
| "call_cmd (NewVndName i p) = (case p of None \<Rightarrow> CNewVnd i | Some s \<Rightarrow> CNewVndName i (c_str s))"
| "call_cmd (NewVnd i n) = (if n = 0 then CFreeVnd i else CNewVnd i)"
| "call_cmd (TcFlow i m t s) = (if s = 1 then CAddFlow i m t else CDelFlow i m t)"

section \<open>The request each call builds\<close>

definition named :: "nat \<Rightarrow> string \<Rightarrow> rmnet_nl_msg_s \<Rightarrow> rmnet_nl_msg_s" where
  "named off s m = fst (store_name off s m)"

definition vnd_request :: "rmnet_nl_msg_s \<Rightarrow> u32 \<Rightarrow> u16 \<Rightarrow> string option \<Rightarrow> rmnet_nl_msg_s option" where
  "vnd_request req0 i ty p =
    (let req = (store OFF_vnd_name (replicate RMNET_MAX_STR_LEN 0) req0)\<lparr>message_type := ty\<rparr>;
         fin = (\<lambda>req. store OFF_vnd_id (le_bytes 4 i) (req\<lparr>arg_length := 4\<rparr>)) in
     case p of None \<Rightarrow> Some (fin req)
     | Some s \<Rightarrow> if strlen s > RMNET_MAX_STR_LEN then None else Some (fin (named OFF_vnd_name s req)))"

fun call_request :: "rmnet_nl_msg_s \<Rightarrow> rmnet_call \<Rightarrow> rmnet_nl_msg_s option" where
  "call_request req0 (Associate dev a) =
     Some (named OFF_data (the dev) (req0\<lparr>message_type := if a = 1 then 0 else 1, arg_length := 16\<rparr>))"
| "call_request req0 (SetEgress f s c dev) =
     Some (store OFF_df_agg_count (le_bytes 2 c) (store OFF_df_agg_size (le_bytes 2 s)
       (store OFF_df_flags (le_bytes 4 f) (named OFF_df_dev (the dev) (req0\<lparr>message_type := 3, arg_length := 24\<rparr>)))))"
| "call_request req0 (SetIngress f t dev) =
     Some (store OFF_df_tail_spacing (le_bytes 1 t) (store OFF_df_flags (le_bytes 4 f)
       (named OFF_df_dev (the dev) (req0\<lparr>message_type := 5, arg_length := 24\<rparr>))))"
| "call_request req0 (SetEp e m dev next) =
     Some (store OFF_ep_mode (le_bytes 1 m) (store OFF_ep_id (le_bytes 4 e)
       (named OFF_ep_next (the next) (named OFF_ep_dev (the dev) (req0\<lparr>message_type := 7, arg_length := 37\<rparr>)))))"
| "call_request req0 (UnsetEp e dev) =
     Some (store OFF_ep_id (le_bytes 4 e) (named OFF_ep_dev (the dev) (req0\<lparr>message_type := 8, arg_length := 20\<rparr>)))"
| "call_request req0 (NewVndPrefix i n p) =
     (if n = 1 then vnd_request req0 i (if p = None then 10 else 11) p else vnd_request req0 i 13 None)"
| "call_request req0 (NewVndName i p) = vnd_request req0 i (if p = None then 10 else 16) p"
| "call_request req0 (NewVnd i n) = vnd_request req0 i (if n = 1 then 10 else 13) None"
| "call_request req0 (TcFlow i m t s) =
     Some (store OFF_fc_tc (le_bytes 4 t) (store OFF_fc_map (le_bytes 4 m) (store OFF_fc_id (le_bytes 4 i)
       (req0\<lparr>message_type := if s = 1 then 14 else 15, arg_length := 12\<rparr>))))"

lemma check_dev_name_good: "rmnetctl_check_dev_name dev = RMNETCTL_SUCCESS \<longleftrightarrow> good_name dev"
  by (auto simp: rmnetctl_check_dev_name_def good_name_def split: option.splits)

lemma good_ep_neg: "(sint e < -1 \<or> sint e > 31) \<longleftrightarrow> \<not> good_ep e"
  by (auto simp: good_ep_def)

lemma store_name_named: "store_name off s m = (named off s m, strlen s)"
  by (simp add: named_def store_name_def)

lemma wf_named [simp]: "wf_msg m \<Longrightarrow> off + 16 \<le> 64 \<Longrightarrow> wf_msg (named off s m)"
  by (simp add: named_def)

lemma named_fields [simp]:
  "message_type (named off s m) = message_type m" "arg_length (named off s m) = arg_length m"
  by (simp_all add: named_def)

lemma load_named [simp]: "wf_msg m \<Longrightarrow> off + 16 \<le> 64 \<Longrightarrow> load_name off (named off s m) = take 15 (c_str s)"
  by (simp add: named_def)

lemma load_name_named_other [simp]:
  assumes "wf_msg m" "off + 16 \<le> 64" "p + 16 \<le> 64" "p + 16 \<le> off \<or> off + 16 \<le> p"
  shows "load_name p (named off s m) = load_name p m"
proof -
  have "length (strlcpy_image 16 s) \<le> 16" by simp
  then have "off + length (to_bytes (strlcpy_image 16 s)) \<le> 64"
    "p + 16 \<le> off \<or> off + length (to_bytes (strlcpy_image 16 s)) \<le> p"
    using assms(2,4) unfolding length_to_bytes by linarith+
  with assms show ?thesis by (simp add: named_def store_name_def)
qed

lemma take15_good: "strlen s < 16 \<Longrightarrow> take 15 (c_str s) = c_str s"
  by (simp add: strlen_def)

lemma check_len_good: "strlen s < 16 \<Longrightarrow> rmnetctl_check_len (strlen s) st = (RMNETCTL_SUCCESS, st)"
  by (simp add: rmnetctl_check_len_def)

section \<open>Every call is a command\<close>

lemmas call_unfold = Let_def store_name_named check_dev_name_good good_ep_neg

interpretation assoc: code_call "\<lambda>K. rmnet_associate_network_device K req0 dev a"
  "call_ok (Associate dev a)" "call_request req0 (Associate dev a)" for req0 dev a
  by unfold_locales
    (auto simp: rmnet_associate_network_device_def call_unfold good_name_def check_len_good)

interpretation egress: code_call "\<lambda>K. rmnet_set_link_egress_data_format K req0 f s c dev"
  "call_ok (SetEgress f s c dev)" "call_request req0 (SetEgress f s c dev)" for req0 f s c dev
  by unfold_locales
    (auto simp: rmnet_set_link_egress_data_format_def call_unfold good_name_def check_len_good)

interpretation ingress: code_call "\<lambda>K. rmnet_set_link_ingress_data_format_tailspace K req0 f t dev"
  "call_ok (SetIngress f t dev)" "call_request req0 (SetIngress f t dev)" for req0 f t dev
  by unfold_locales
    (auto simp: rmnet_set_link_ingress_data_format_tailspace_def call_unfold good_name_def check_len_good)

interpretation set_ep: code_call "\<lambda>K. rmnet_set_logical_ep_config K req0 e m dev next"
  "call_ok (SetEp e m dev next)" "call_request req0 (SetEp e m dev next)" for req0 e m dev "next"
  by unfold_locales
    (auto simp: rmnet_set_logical_ep_config_def call_unfold good_name_def check_len_good not_le)

interpretation unset_ep: code_call "\<lambda>K. rmnet_unset_logical_ep_config K req0 e dev"
  "call_ok (UnsetEp e dev)" "call_request req0 (UnsetEp e dev)" for req0 e dev
  by unfold_locales
    (auto simp: rmnet_unset_logical_ep_config_def call_unfold good_name_def check_len_good)

interpretation new_prefix: code_call "\<lambda>K. rmnet_new_vnd_prefix K req0 i n p"
  "call_ok (NewVndPrefix i n p)" "call_request req0 (NewVndPrefix i n p)" for req0 i n p
  by unfold_locales
    (auto simp: rmnet_new_vnd_prefix_def call_unfold vnd_request_def rmnetctl_check_len_def split: option.splits if_splits)

interpretation new_name: code_call "\<lambda>K. rmnet_new_vnd_name K req0 i p"
  "call_ok (NewVndName i p)" "call_request req0 (NewVndName i p)" for req0 i p
  by unfold_locales
    (auto simp: rmnet_new_vnd_name_def call_unfold vnd_request_def rmnetctl_check_len_def split: option.splits if_splits)

interpretation new_vnd: code_call "\<lambda>K. rmnet_new_vnd K req0 i n"
  "call_ok (NewVnd i n)" "call_request req0 (NewVnd i n)" for req0 i n
  by unfold_locales
    (auto simp: rmnet_new_vnd_def rmnet_new_vnd_prefix_def call_unfold vnd_request_def)

interpretation tc_flow: code_call "\<lambda>K. rmnet_add_del_vnd_tc_flow K req0 i m t s"
  "call_ok (TcFlow i m t s)" "call_request req0 (TcFlow i m t s)" for req0 i m t s
  by unfold_locales (auto simp: rmnet_add_del_vnd_tc_flow_def call_unfold)

text \<open>The contract for a call given as data.\<close>

lemma perform_eqs:
  "perform K req0 (Associate dev a) = rmnet_associate_network_device K req0 dev a"
  "perform K req0 (SetEgress f s n dev) = rmnet_set_link_egress_data_format K req0 f s n dev"
  "perform K req0 (SetIngress f tsp dev) = rmnet_set_link_ingress_data_format_tailspace K req0 f tsp dev"
  "perform K req0 (SetEp e m dev nx) = rmnet_set_logical_ep_config K req0 e m dev nx"
  "perform K req0 (UnsetEp e dev) = rmnet_unset_logical_ep_config K req0 e dev"
  "perform K req0 (NewVndPrefix i v p) = rmnet_new_vnd_prefix K req0 i v p"
  "perform K req0 (NewVndName i p) = rmnet_new_vnd_name K req0 i p"
  "perform K req0 (NewVnd i v) = rmnet_new_vnd K req0 i v"
  "perform K req0 (TcFlow i fm ft sf) = rmnet_add_del_vnd_tc_flow K req0 i fm ft sf"
  by (rule ext; simp)+

interpretation api: code_call "\<lambda>K. perform K req0 c" "call_ok c" "call_request req0 c" for req0 c
  by (cases c; simp only: perform_eqs)
    (rule assoc.code_call_axioms egress.code_call_axioms ingress.code_call_axioms set_ep.code_call_axioms
       unset_ep.code_call_axioms new_prefix.code_call_axioms new_name.code_call_axioms
       new_vnd.code_call_axioms tc_flow.code_call_axioms)+

end
