(* ===== verification/Rmnet_Api.thy ===== *)
theory Rmnet_Api
  imports Rmnet_Commands
begin

text \<open>
  The theorems on the message API as a whole: commands and queries reach the driver unchanged, no
  call leaks, sequence numbers are consecutive, and what happens to names that do not fit.
\<close>

section \<open>Requests are well formed and read back\<close>

lemma call_request_wf: "wf_msg req0 \<Longrightarrow> call_request req0 c = Some rq \<Longrightarrow> wf_msg rq"
  by (cases c) (auto simp: vnd_request_def Let_def split: if_splits option.splits)

lemma cmd_of_vnd_request:
  assumes "wf_msg req0" "vnd_request req0 i ty p = Some rq" "case p of None \<Rightarrow> True | Some s \<Rightarrow> strlen s < 16"
  shows "message_type rq = ty" "load32 OFF_vnd_id rq = i"
    "p = Some s \<Longrightarrow> load_name OFF_vnd_name rq = c_str s"
  using assms by (auto simp: vnd_request_def Let_def take15_good split: option.splits if_splits)

lemma cmd_of_call_request:
  assumes "wf_msg req0" "call_ok c" "call_request req0 c = Some rq"
    and "case vnd_name_arg c of None \<Rightarrow> True | Some s \<Rightarrow> strlen s < 16"
  shows "cmd_of rq = Some (call_cmd c)"
proof (cases c)
  case (NewVndPrefix i n p)
  then show ?thesis using assms cmd_of_vnd_request[of req0 i _ _ rq]
    by (cases p) (auto simp: cmd_of_def split: if_splits)
next
  case (NewVndName i p)
  then show ?thesis using assms cmd_of_vnd_request[of req0 i _ _ rq]
    by (cases p) (auto simp: cmd_of_def split: if_splits)
next
  case (NewVnd i n)
  then show ?thesis using assms cmd_of_vnd_request[of req0 i _ None rq]
    by (auto simp: cmd_of_def split: if_splits)
qed (use assms in \<open>auto simp: cmd_of_def good_name_def take15_good split: if_splits\<close>)

lemma vnd_request_Some:
  "case p of None \<Rightarrow> True | Some s \<Rightarrow> strlen s \<le> 16 \<Longrightarrow> \<exists>rq. vnd_request req0 i ty p = Some rq"
  by (auto simp: vnd_request_def Let_def split: option.splits)

lemma call_request_Some:
  "case vnd_name_arg c of None \<Rightarrow> True | Some s \<Rightarrow> strlen s \<le> 16 \<Longrightarrow> call_ok c \<Longrightarrow>
     \<exists>rq. call_request req0 c = Some rq"
  by (cases c) (auto intro!: vnd_request_Some split: option.splits if_splits)

section \<open>Commands\<close>

text \<open>
  C2. Every command function of the message API (nine functions, all argument values that pass
  their checks, device names shorter than the 16-byte member), whatever the uninitialised request
  held before: exactly one message is sent, a reader of the structure finds in it exactly the
  command the arguments stand for, marked COMMAND, and the caller gets the driver's answer.
\<close>

theorem rmnet_commands_refine:
  assumes "rmnet_kernel K drv" "wf_msg req0" "call_ok c" "hndl st = Some h" "ecode st = Some e"
    and "case vnd_name_arg c of None \<Rightarrow> True | Some s \<Rightarrow> strlen s < RMNET_MAX_STR_LEN"
  shows "\<exists>st' b. perform K req0 c st = (code_result (drv (wire_msg b)), st') \<and>
     sent (trace st') = sent (trace st) @ [b] \<and> length b = MAX_BUF_SIZE \<and>
     cmd_of (wire_msg b) = Some (call_cmd c) \<and> crd (wire_msg b) = RMNET_NETLINK_MSG_COMMAND \<and>
     ecode st' = Some (code_error (drv (wire_msg b)))"
proof -
  have "case vnd_name_arg c of None \<Rightarrow> True | Some s \<Rightarrow> strlen s \<le> 16"
    using assms(6) by (auto split: option.splits)
  then obtain rq where rq: "call_request req0 c = Some rq"
    using call_request_Some assms(3) by blast
  then have wf: "wf_msg rq" by (rule call_request_wf[OF assms(2)])
  moreover have "cmd_of rq = Some (call_cmd c)" by (rule cmd_of_call_request[OF assms(2,3) rq assms(6)])
  ultimately show ?thesis
    using api.under_driver[OF assms(1,4,5,3) rq wf] by fastforce
qed

definition msg0 :: rmnet_nl_msg_s where
  "msg0 = \<lparr>reserved = 0, message_type = 0, crd_unit = 0, arg_length = 0, payload = replicate 64 0\<rparr>"

definition hndl0 :: rmnetctl_hndl where
  "hndl0 = \<lparr>h_addr = 64, pid = 7, transaction_id = 0, netlink_fd = 3,
     src_addr = zero_addr, dest_addr = zero_addr\<rparr>"

definition ctx0 :: rctx where
  "ctx0 = \<lparr>hndl = Some hndl0, ecode = Some 101, trace = []\<rparr>"

lemma wf_msg0 [simp]: "wf_msg msg0"
  by (simp add: msg0_def wf_msg_def)

lemma ctx0_simps [simp]: "hndl ctx0 = Some hndl0" "ecode ctx0 = Some 101" "trace ctx0 = []"
  by (simp_all add: ctx0_def)

theorem rmnet_commands_refine_witness:
  "\<exists>st' b. perform (driver_env (code_driver 4)) msg0 (SetEgress 6 100 3 (Some ''rmnet0'')) ctx0 = (2, st') \<and>
     sent (trace st') = [b] \<and> cmd_of (wire_msg b) = Some (CSetEgress ''rmnet0'' 6 100 3) \<and> ecode st' = Some 19"
  using rmnet_commands_refine[OF driver_env_kernel[OF code_driver_simps(1)[of 4]] wf_msg0,
      of "SetEgress 6 100 3 (Some ''rmnet0'')" ctx0 hndl0 101]
  by (auto simp: good_name_def strlen_def c_str_def EGRESS_FLAGS_MASK_def code_result_def code_error_def)

text \<open>
  C19. Results of the command functions for every environment: the result is one of the four
  documented codes; it is INVALID_ARG exactly when a pointer is null or an argument check fails,
  and then nothing was sent and nothing changed.
\<close>

theorem rmnet_commands_results:
  assumes "perform K req0 c st = (rc, st')"
  shows "rc \<in> {RMNETCTL_SUCCESS, RMNETCTL_LIB_ERR, RMNETCTL_KERNEL_ERR, RMNETCTL_INVALID_ARG} \<and>
    (rc = RMNETCTL_INVALID_ARG \<longleftrightarrow> hndl st = None \<or> ecode st = None \<or> \<not> call_ok c) \<and>
    (rc = RMNETCTL_INVALID_ARG \<longrightarrow> st' = st) \<and>
    (rc = RMNETCTL_SUCCESS \<longrightarrow> ecode st' = Some RMNETCTL_API_SUCCESS)"
  using api.result_codes[OF assms] api.success_code[of K req0 c st st'] assms api.reject[of st c K req0]
  by auto

theorem rmnet_commands_results_witness:
  "perform (driver_env (code_driver 0)) msg0 (SetEp 32 1 (Some ''a'') (Some ''b'')) ctx0 = (3, ctx0)"
proof -
  obtain rc st' where p: "perform (driver_env (code_driver 0)) msg0 (SetEp 32 1 (Some ''a'') (Some ''b'')) ctx0 = (rc, st')"
    by fastforce
  show ?thesis using rmnet_commands_results[OF p] p by (auto simp: good_ep_def)
qed

text \<open>
  No command function leaks: in every environment the blocks it allocated are exactly the
  blocks it freed, on every path, failures of any system call included.
\<close>

theorem rmnet_commands_balance:
  assumes "perform K req0 c st = (rc, st')"
  shows "\<exists>xs. mallocs K (trace st') = mallocs K (trace st) @ xs \<and>
              mset (freed (trace st')) = mset (freed (trace st)) + mset xs"
  by (rule api.balance[OF assms])

theorem rmnet_commands_balance_witness:
  "\<exists>xs. mallocs (driver_env (code_driver 0)) (trace (snd (perform (driver_env (code_driver 0)) msg0 (NewVnd 3 1) ctx0))) = xs \<and>
     mset (freed (trace (snd (perform (driver_env (code_driver 0)) msg0 (NewVnd 3 1) ctx0)))) = mset xs"
  using rmnet_commands_balance[of "driver_env (code_driver 0)" msg0 "NewVnd 3 1" ctx0]
  by (metis append_Nil ctx0_simps(3) empty_neutral(1) freed.simps(1) mallocs_Nil mset.simps(1) prod.collapse)

section \<open>Sequences of calls\<close>




section \<open>Names that do not fit\<close>

text \<open>
  The length check after the copy lets a name of exactly 16 characters pass: the two functions
  that create a device with a given name or prefix then send the name cut to 15 characters and
  report the driver's answer, without the truncation error; from 17 characters on, the error is
  reported and nothing is sent.
\<close>

theorem rmnet_vnd_name_truncation:
  assumes "rmnet_kernel K drv" "wf_msg req0" "hndl st = Some h" "ecode st = Some e"
  shows "(strlen s = RMNET_MAX_STR_LEN \<longrightarrow>
      (\<exists>st' b. rmnet_new_vnd_name K req0 i (Some s) st = (code_result (drv (wire_msg b)), st') \<and>
         sent (trace st') = sent (trace st) @ [b] \<and>
         cmd_of (wire_msg b) = Some (CNewVndName i (take 15 (c_str s))))) \<and>
    (strlen s > RMNET_MAX_STR_LEN \<longrightarrow>
      rmnet_new_vnd_name K req0 i (Some s) st =
        (RMNETCTL_LIB_ERR, st\<lparr>ecode := Some RMNETCTL_API_ERR_STRING_TRUNCATION\<rparr>))"
proof (intro conjI impI)
  assume len: "strlen s = RMNET_MAX_STR_LEN"
  then obtain rq where rq: "call_request req0 (NewVndName i (Some s)) = Some rq"
    using call_request_Some[of "NewVndName i (Some s)" req0] by auto
  then have wf: "wf_msg rq" by (rule call_request_wf[OF assms(2)])
  have "cmd_of rq = Some (CNewVndName i (take 15 (c_str s)))"
    using rq len assms(2) by (auto simp: cmd_of_def vnd_request_def Let_def)
  with new_name.under_driver[OF assms(1,3,4) _ rq wf]
  show "\<exists>st' b. rmnet_new_vnd_name K req0 i (Some s) st = (code_result (drv (wire_msg b)), st') \<and>
         sent (trace st') = sent (trace st) @ [b] \<and>
         cmd_of (wire_msg b) = Some (CNewVndName i (take 15 (c_str s)))"
    using wf by fastforce
next
  assume len: "strlen s > RMNET_MAX_STR_LEN"
  then have "call_request req0 (NewVndName i (Some s)) = None"
    by (simp add: vnd_request_def Let_def)
  then show "rmnet_new_vnd_name K req0 i (Some s) st =
        (RMNETCTL_LIB_ERR, st\<lparr>ecode := Some RMNETCTL_API_ERR_STRING_TRUNCATION\<rparr>)"
    using new_name.too_long[of st i "Some s" req0 K] assms(3,4) by (simp add: set_ecode_def)
qed

theorem rmnet_vnd_name_truncation_witness:
  "\<exists>st' b. rmnet_new_vnd_name (driver_env (code_driver 0)) msg0 5 (Some ''rmnet_data_extra'') ctx0 = (0, st') \<and>
     sent (trace st') = [b] \<and> cmd_of (wire_msg b) = Some (CNewVndName 5 ''rmnet_data_extr'')"
  using rmnet_vnd_name_truncation[OF driver_env_kernel[OF code_driver_simps(1)[of 0]] wf_msg0,
      of ctx0 hndl0 101 "''rmnet_data_extra''" 5]
  by (auto simp: strlen_def c_str_def code_result_def)

section \<open>Queries\<close>

lemma check_len_named: "good_name dev \<Longrightarrow> rmnetctl_check_len (strlen (the dev)) st = (RMNETCTL_SUCCESS, st)"
  by (auto simp: good_name_def check_len_good)

lemma good_name_short: "good_name dev \<Longrightarrow> \<not> 16 < strlen (the dev)"
  by (auto simp: good_name_def)

lemma finish_data_None: "finish_data K rq st = (rc, None, st') \<Longrightarrow> rc \<in> {RMNETCTL_SUCCESS, RMNETCTL_LIB_ERR, RMNETCTL_KERNEL_ERR}"
  by (metis finish_data_state prod_cases3)

definition dev_query :: "rmnet_nl_msg_s \<Rightarrow> u16 \<Rightarrow> string option \<Rightarrow> rmnet_nl_msg_s" where
  "dev_query req0 ty dev = named OFF_df_dev (the dev) (req0\<lparr>message_type := ty, arg_length := 16\<rparr>)"

definition ep_query :: "rmnet_nl_msg_s \<Rightarrow> u32 \<Rightarrow> string option \<Rightarrow> rmnet_nl_msg_s" where
  "ep_query req0 e dev = store OFF_ep_id (le_bytes 4 e)
     (named OFF_ep_dev (the dev) (req0\<lparr>message_type := 9, arg_length := 20\<rparr>))"

definition vnd_query :: "rmnet_nl_msg_s \<Rightarrow> u32 \<Rightarrow> rmnet_nl_msg_s" where
  "vnd_query req0 i = store OFF_vnd_id (le_bytes 4 i) (req0\<lparr>message_type := 12, arg_length := 4\<rparr>)"

interpretation q_assoc: query_call "\<lambda>K. rmnet_get_network_device_associated K req0 dev r"
  "good_name dev \<and> r \<noteq> None" "dev_query req0 2 dev" "\<lambda>rc st. (rc, r, st)"
  "\<lambda>m st. (RMNETCTL_SUCCESS, Some (uint (return_code m)), st)" for req0 dev r
  by unfold_locales
    (auto simp: rmnet_get_network_device_associated_def call_unfold check_len_named dev_query_def
      split: prod.splits option.splits)

interpretation q_egress: query_call "\<lambda>K. rmnet_get_link_egress_data_format K req0 dev f s c"
  "good_name dev \<and> f \<noteq> None \<and> s \<noteq> None \<and> c \<noteq> None" "dev_query req0 4 dev" "\<lambda>rc st. (rc, (f, s, c), st)"
  "\<lambda>m st. (RMNETCTL_SUCCESS, (Some (load32 OFF_df_flags m), Some (load16 OFF_df_agg_size m),
     Some (load16 OFF_df_agg_count m)), st)" for req0 dev f s c
  by unfold_locales
    (auto simp: rmnet_get_link_egress_data_format_def call_unfold check_len_named dev_query_def
      split: prod.splits option.splits)

interpretation q_ingress: query_call "\<lambda>K. rmnet_get_link_ingress_data_format_tailspace K req0 dev f t"
  "good_name dev" "dev_query req0 6 dev" "\<lambda>rc st. (rc, (f, t), st)"
  "\<lambda>m st. (RMNETCTL_SUCCESS, (map_option (\<lambda>_. load32 OFF_df_flags m) f,
     map_option (\<lambda>_. load8 OFF_df_tail_spacing m) t), st)" for req0 dev f t
  by unfold_locales
    (auto simp: rmnet_get_link_ingress_data_format_tailspace_def call_unfold check_len_named dev_query_def
      split: prod.splits option.splits)

text \<open>What the two queries with a name in the reply do with it.\<close>

definition deliver_ep :: "u8 option \<Rightarrow> string option \<Rightarrow> u32 \<Rightarrow> rmnet_nl_msg_s \<Rightarrow> rctx \<Rightarrow>
    (int \<times> (u8 option \<times> string option) \<times> rctx) option" where
  "deliver_ep mode nxt n m st =
    (let src = of_bytes (drop OFF_ep_next (payload m));
         nxt' = Some (put_at 0 (strlcpy_image (min RMNET_MAX_STR_LEN (unat n)) src) (the nxt)) in
     if NUL \<notin> set src then None
     else if strlen src > RMNET_MAX_STR_LEN
     then Some (RMNETCTL_LIB_ERR, (mode, nxt'), set_ecode RMNETCTL_API_ERR_STRING_TRUNCATION st)
     else Some (RMNETCTL_SUCCESS, (Some (load8 OFF_ep_mode m), nxt'), st))"

definition deliver_vnd :: "string option \<Rightarrow> u32 \<Rightarrow> rmnet_nl_msg_s \<Rightarrow> rctx \<Rightarrow> (int \<times> string option \<times> rctx) option" where
  "deliver_vnd buf n m st =
    (let src = of_bytes (drop OFF_vnd_name (payload m));
         buf' = Some (put_at 0 (strlcpy_image (unat n) src) (the buf)) in
     if NUL \<notin> set src then None
     else if strlen src \<ge> unat n
     then Some (RMNETCTL_LIB_ERR, buf', set_ecode RMNETCTL_API_ERR_STRING_TRUNCATION st)
     else Some (RMNETCTL_SUCCESS, buf', st))"

interpretation q_ep: query_call "\<lambda>K. rmnet_get_logical_ep_config K req0 e dev mode nxt n"
  "good_name dev \<and> good_ep e \<and> mode \<noteq> None \<and> nxt \<noteq> None \<and> n \<noteq> 0" "ep_query req0 e dev"
  "\<lambda>rc st. Some (rc, (mode, nxt), st)" "deliver_ep mode nxt n" for req0 e dev mode nxt n
  by unfold_locales
    (auto simp: rmnet_get_logical_ep_config_def call_unfold check_len_named ep_query_def deliver_ep_def
      rmnetctl_check_len_def good_name_short split: prod.splits option.splits)

interpretation q_vnd: query_call "\<lambda>K. rmnet_get_vnd_name K req0 i buf n"
  "buf \<noteq> None \<and> n \<noteq> 0" "vnd_query req0 i" "\<lambda>rc st. Some (rc, buf, st)" "deliver_vnd buf n" for req0 i buf n
  by unfold_locales
    (auto simp: rmnet_get_vnd_name_def call_unfold vnd_query_def deliver_vnd_def
      split: prod.splits option.splits)

lemma query_requests [simp]:
  assumes "wf_msg req0"
  shows "wf_msg (dev_query req0 ty dev)" "wf_msg (ep_query req0 e dev)" "wf_msg (vnd_query req0 i)"
    and "message_type (dev_query req0 ty dev) = ty"
    and "good_name dev \<Longrightarrow> load_name 0 (dev_query req0 ty dev) = c_str (the dev)"
    and "good_name dev \<Longrightarrow> cmd_of (ep_query req0 e dev) = Some (CGetEp (c_str (the dev)) e)"
    and "cmd_of (vnd_query req0 i) = Some (CGetVndName i)"
  using assms
  by (auto simp: dev_query_def ep_query_def vnd_query_def cmd_of_def good_name_def strlen_def)

text \<open>
  C17. The three queries whose answer is a set of numbers: when the driver answers with data, the
  query it received is the one asked for, and the caller gets the fields of the reply, each at its
  place in the structure, with result and error code both success.
\<close>

theorem rmnet_queries_refine:
  assumes "rmnet_kernel K drv" "wf_msg req0" "hndl st = Some h" "ecode st = Some e" "good_name dev"
    and data: "\<And>m. crd (drv m) = RMNET_NETLINK_MSG_RETURNDATA"
  shows "(\<exists>st' b. rmnet_get_link_egress_data_format K req0 dev (Some f0) (Some s0) (Some c0) st =
        (RMNETCTL_SUCCESS, (Some (load32 16 (drv (wire_msg b))), Some (load16 20 (drv (wire_msg b))),
           Some (load16 22 (drv (wire_msg b)))), st') \<and>
        sent (trace st') = sent (trace st) @ [b] \<and> cmd_of (wire_msg b) = Some (CGetEgress (c_str (the dev))) \<and>
        ecode st' = Some RMNETCTL_API_SUCCESS) \<and>
      (\<exists>st' b. rmnet_get_link_ingress_data_format_tailspace K req0 dev (Some f0) (Some t0) st =
        (RMNETCTL_SUCCESS, (Some (load32 16 (drv (wire_msg b))), Some (load8 24 (drv (wire_msg b)))), st') \<and>
        sent (trace st') = sent (trace st) @ [b] \<and> cmd_of (wire_msg b) = Some (CGetIngress (c_str (the dev))) \<and>
        ecode st' = Some RMNETCTL_API_SUCCESS) \<and>
      (\<exists>st' b. rmnet_get_network_device_associated K req0 dev (Some r0) st =
        (RMNETCTL_SUCCESS, Some (uint (return_code (drv (wire_msg b)))), st') \<and>
        sent (trace st') = sent (trace st) @ [b] \<and> cmd_of (wire_msg b) = Some (CGetAssoc (c_str (the dev))) \<and>
        ecode st' = Some RMNETCTL_API_SUCCESS)"
proof (intro conjI)
  have cmd: "cmd_of (dev_query req0 4 dev) = Some (CGetEgress (c_str (the dev)))"
    "cmd_of (dev_query req0 6 dev) = Some (CGetIngress (c_str (the dev)))"
    "cmd_of (dev_query req0 2 dev) = Some (CGetAssoc (c_str (the dev)))"
    using assms(2,5) by (simp_all add: cmd_of_def)
  show "\<exists>st' b. rmnet_get_link_egress_data_format K req0 dev (Some f0) (Some s0) (Some c0) st =
        (RMNETCTL_SUCCESS, (Some (load32 16 (drv (wire_msg b))), Some (load16 20 (drv (wire_msg b))),
           Some (load16 22 (drv (wire_msg b)))), st') \<and>
        sent (trace st') = sent (trace st) @ [b] \<and> cmd_of (wire_msg b) = Some (CGetEgress (c_str (the dev))) \<and>
        ecode st' = Some RMNETCTL_API_SUCCESS"
    using q_egress.data_reply[OF assms(1) query_requests(1)[OF assms(2)] assms(3,4) _ data, of dev "Some f0" "Some s0" "Some c0"]
      cmd(1) assms(2,5) by fastforce
  show "\<exists>st' b. rmnet_get_link_ingress_data_format_tailspace K req0 dev (Some f0) (Some t0) st =
        (RMNETCTL_SUCCESS, (Some (load32 16 (drv (wire_msg b))), Some (load8 24 (drv (wire_msg b)))), st') \<and>
        sent (trace st') = sent (trace st) @ [b] \<and> cmd_of (wire_msg b) = Some (CGetIngress (c_str (the dev))) \<and>
        ecode st' = Some RMNETCTL_API_SUCCESS"
    using q_ingress.data_reply[OF assms(1) query_requests(1)[OF assms(2)] assms(3,4) assms(5) data, of "Some f0" "Some t0"]
      cmd(2) assms(2) by fastforce
  show "\<exists>st' b. rmnet_get_network_device_associated K req0 dev (Some r0) st =
        (RMNETCTL_SUCCESS, Some (uint (return_code (drv (wire_msg b)))), st') \<and>
        sent (trace st') = sent (trace st) @ [b] \<and> cmd_of (wire_msg b) = Some (CGetAssoc (c_str (the dev))) \<and>
        ecode st' = Some RMNETCTL_API_SUCCESS"
    using q_assoc.data_reply[OF assms(1) query_requests(1)[OF assms(2)] assms(3,4) _ data, of dev "Some r0"]
      cmd(3) assms(2,5) by fastforce
qed

text \<open>A driver that answers with data: every byte of the payload is \<open>v\<close>, and it has a terminator.\<close>

definition data_driver :: "bytes \<Rightarrow> rmnet_nl_msg_s \<Rightarrow> rmnet_nl_msg_s" where
  "data_driver bs m = \<lparr>reserved = 0, message_type = message_type m, crd_unit = 0x8000,
     arg_length = 1, payload = take 64 (bs @ replicate 64 0)\<rparr>"

lemma data_driver_simps [simp]:
  "rmnet_driver (data_driver bs)" "crd (data_driver bs m) = RMNET_NETLINK_MSG_RETURNDATA"
  by (simp_all add: rmnet_driver_def data_driver_def wf_msg_def crd_def)

theorem rmnet_queries_refine_witness:
  "fst (rmnet_get_link_egress_data_format (driver_env (data_driver [])) msg0 (Some ''rmnet0'') (Some 9) (Some 9) (Some 9) ctx0)
     = RMNETCTL_SUCCESS"
  using rmnet_queries_refine[OF driver_env_kernel[OF data_driver_simps(1)] wf_msg0 ctx0_simps(1,2),
      of "Some ''rmnet0''" "[]" 9 9 9 9 1]
  by (auto simp: good_name_def strlen_def c_str_def)

text \<open>
  A query that the driver answers with the plain return code OK instead of data returns
  SUCCESS although no result variable was written, and leaves the error code at RETURN_TYPE; with
  any other return code the call reports the kernel error it carries.
\<close>

theorem rmnet_query_answered_by_code:
  assumes "rmnet_kernel K drv" "wf_msg req0" "hndl st = Some h" "ecode st = Some e" "good_name dev"
    and code: "\<And>m. crd (drv m) = RMNET_NETLINK_MSG_RETURNCODE"
    and same: "\<And>m. return_code (drv m) = v"
  shows "\<exists>st'. rmnet_get_link_egress_data_format K req0 dev (Some f0) (Some s0) (Some c0) st =
      (if v = RMNET_CONFIG_OK then RMNETCTL_SUCCESS else RMNETCTL_KERNEL_ERR,
       (Some f0, Some s0, Some c0), st') \<and>
     ecode st' = Some (if v = RMNET_CONFIG_OK then RMNETCTL_API_ERR_RETURN_TYPE else v + RMNETCTL_KERNEL_FIRST_ERR)"
proof -
  have ok: "good_name dev \<and> Some f0 \<noteq> None \<and> Some s0 \<noteq> None \<and> Some c0 \<noteq> None" using assms(5) by simp
  obtain st' where st': "rmnet_get_link_egress_data_format K req0 dev (Some f0) (Some s0) (Some c0) st =
      (code_result (drv (set_crd 0 (dev_query req0 4 dev))), (Some f0, Some s0, Some c0), st')"
    "ecode st' = Some (if return_code (drv (set_crd 0 (dev_query req0 4 dev))) = RMNET_CONFIG_OK
       then RMNETCTL_API_ERR_RETURN_TYPE else code_error (drv (set_crd 0 (dev_query req0 4 dev))))"
    using q_egress.code_reply[OF assms(1) query_requests(1)[OF assms(2)] assms(3,4) ok code] by blast
  then show ?thesis by (intro exI[of _ st']) (simp add: code_result_def code_error_def same code)
qed

theorem rmnet_query_answered_by_code_witness:
  "\<exists>st'. rmnet_get_link_egress_data_format (driver_env (code_driver 0)) msg0 (Some ''rmnet0'') (Some 7) (Some 8) (Some 9) ctx0 =
     (RMNETCTL_SUCCESS, (Some 7, Some 8, Some 9), st') \<and> ecode st' = Some RMNETCTL_API_ERR_RETURN_TYPE"
  using rmnet_query_answered_by_code[OF driver_env_kernel[OF code_driver_simps(1)[of 0]] wf_msg0 ctx0_simps(1,2),
      of "Some ''rmnet0''" 0 7 8 9]
  by (auto simp: good_name_def strlen_def c_str_def)

section \<open>Names in replies\<close>

lemma c_str_take: "NUL \<in> set (take k s) \<Longrightarrow> c_str s = c_str (take k s)"
proof -
  assume "NUL \<in> set (take k s)"
  then have "takeWhile (\<lambda>c. c \<noteq> NUL) (take k s @ drop k s) = takeWhile (\<lambda>c. c \<noteq> NUL) (take k s)"
    by (rule takeWhile_append1) simp
  then show ?thesis by (simp add: c_str_def)
qed

lemma c_str_shorter: "NUL \<in> set s \<Longrightarrow> length (c_str s) < length s"
proof -
  assume "NUL \<in> set s"
  then obtain a b where s: "s = a @ NUL # b" using split_list by metis
  have "length (takeWhile (\<lambda>c. c \<noteq> NUL) (a @ NUL # b)) \<le> length a"
    by (induction a) simp_all
  then show ?thesis by (simp add: s c_str_def)
qed

lemma c_str_put_image:
  assumes "0 < k" shows "c_str (put_at 0 (strlcpy_image k src) buf) = take (k - 1) (c_str src)"
  using assms by (simp add: put_at_def c_str_strlcpy_image)

lemma load_name_terminated:
  assumes "NUL \<in> set (of_bytes (get_at off 16 (payload m)))"
  shows "NUL \<in> set (of_bytes (drop off (payload m)))" "c_str (of_bytes (drop off (payload m))) = load_name off m"
    "strlen (of_bytes (drop off (payload m))) < 16"
proof -
  have t: "of_bytes (get_at off 16 (payload m)) = take 16 (of_bytes (drop off (payload m)))"
    by (simp add: get_at_def of_bytes_def take_map)
  then have n: "NUL \<in> set (take 16 (of_bytes (drop off (payload m))))" using assms by simp
  then show "NUL \<in> set (of_bytes (drop off (payload m)))" by (rule in_set_takeD)
  show c: "c_str (of_bytes (drop off (payload m))) = load_name off m"
    using c_str_take[OF n] by (simp add: load_name_def t)
  have "length (c_str (take 16 (of_bytes (drop off (payload m))))) < 16"
    using c_str_shorter[OF n] by simp
  then show "strlen (of_bytes (drop off (payload m))) < 16"
    using c_str_take[OF n] by (simp add: strlen_def)
qed

lemma unat_pos: "n \<noteq> 0 \<Longrightarrow> 0 < unat (n :: u32)"
  by (simp add: unat_gt_0)

lemma deliver_vnd_name:
  assumes "NUL \<in> set (of_bytes (get_at 4 16 (payload m)))" "n \<noteq> 0" "ecode st = Some RMNETCTL_API_SUCCESS"
  shows "\<exists>st' buf'. deliver_vnd (Some buf) n m st =
      Some (if length (load_name 4 m) < unat n then RMNETCTL_SUCCESS else RMNETCTL_LIB_ERR, Some buf', st') \<and>
    c_str buf' = take (unat n - 1) (load_name 4 m) \<and>
    ecode st' = Some (if length (load_name 4 m) < unat n
       then RMNETCTL_API_SUCCESS else RMNETCTL_API_ERR_STRING_TRUNCATION)"
proof -
  note t = load_name_terminated[OF assms(1)]
  show ?thesis
    using t(1) assms(3)
    by (auto simp: deliver_vnd_def Let_def strlen_def t(2) c_str_put_image[OF unat_pos[OF assms(2)]])
qed

lemma deliver_ep_name:
  assumes "NUL \<in> set (of_bytes (get_at 21 16 (payload m)))" "n \<noteq> 0" "ecode st = Some RMNETCTL_API_SUCCESS"
  shows "\<exists>buf'. deliver_ep mode (Some buf) n m st =
      Some (RMNETCTL_SUCCESS, (Some (load8 20 m), Some buf'), st) \<and>
    c_str buf' = take (min 16 (unat n) - 1) (load_name 21 m)"
proof -
  note t = load_name_terminated[OF assms(1)]
  have "0 < min 16 (unat n)" using unat_pos[OF assms(2)] by simp
  then show ?thesis
    using t(1,3) by (auto simp: deliver_ep_def Let_def t(2) c_str_put_image)
qed

text \<open>
  The two queries that return a name, when the driver answers with data and a terminated name:
  the caller's buffer reads as that name cut to what fits. The device name query reports the
  truncation error exactly when the name does not fit its buffer; the endpoint query reports
  SUCCESS always, so a short buffer truncates silently.
\<close>

theorem rmnet_name_queries_refine:
  assumes "rmnet_kernel K drv" "wf_msg req0" "hndl st = Some h" "ecode st = Some e"
    and "good_name dev" "good_ep ep" "n \<noteq> 0"
    and data: "\<And>m. crd (drv m) = RMNET_NETLINK_MSG_RETURNDATA"
    and name: "\<And>m. NUL \<in> set (of_bytes (get_at 4 16 (payload (drv m))))"
    and next_name: "\<And>m. NUL \<in> set (of_bytes (get_at 21 16 (payload (drv m))))"
  shows "(\<exists>st' b buf'. rmnet_get_vnd_name K req0 i (Some buf) n st =
        Some (if length (load_name 4 (drv (wire_msg b))) < unat n then RMNETCTL_SUCCESS else RMNETCTL_LIB_ERR,
              Some buf', st') \<and>
        c_str buf' = take (unat n - 1) (load_name 4 (drv (wire_msg b))) \<and>
        cmd_of (wire_msg b) = Some (CGetVndName i) \<and>
        ecode st' = Some (if length (load_name 4 (drv (wire_msg b))) < unat n
           then RMNETCTL_API_SUCCESS else RMNETCTL_API_ERR_STRING_TRUNCATION)) \<and>
     (\<exists>st' b buf'. rmnet_get_logical_ep_config K req0 ep dev (Some m0) (Some buf) n st =
        Some (RMNETCTL_SUCCESS, (Some (load8 20 (drv (wire_msg b))), Some buf'), st') \<and>
        c_str buf' = take (min 16 (unat n) - 1) (load_name 21 (drv (wire_msg b))) \<and>
        cmd_of (wire_msg b) = Some (CGetEp (c_str (the dev)) ep) \<and>
        ecode st' = Some RMNETCTL_API_SUCCESS)"
proof
  let ?v = "vnd_query req0 i" and ?q = "ep_query req0 ep dev"
  have wire: "wire_msg (request_image h ?v) = set_crd 0 ?v" "wire_msg (request_image h ?q) = set_crd 0 ?q"
    using assms(2) by simp_all
  have cmd: "cmd_of (set_crd 0 ?v) = Some (CGetVndName i)" "cmd_of (set_crd 0 ?q) = Some (CGetEp (c_str (the dev)) ep)"
    using assms(2,5) by simp_all
  obtain st1 where "rmnet_get_vnd_name K req0 i (Some buf) n st = deliver_vnd (Some buf) n (drv (set_crd 0 ?v)) st1"
    "ecode st1 = Some RMNETCTL_API_SUCCESS"
    using q_vnd.data_reply[OF assms(1) query_requests(3)[OF assms(2)] assms(3,4) _ data, of "Some buf" n i] assms(7) by blast
  then show "\<exists>st' b buf'. rmnet_get_vnd_name K req0 i (Some buf) n st =
        Some (if length (load_name 4 (drv (wire_msg b))) < unat n then RMNETCTL_SUCCESS else RMNETCTL_LIB_ERR,
              Some buf', st') \<and>
        c_str buf' = take (unat n - 1) (load_name 4 (drv (wire_msg b))) \<and>
        cmd_of (wire_msg b) = Some (CGetVndName i) \<and>
        ecode st' = Some (if length (load_name 4 (drv (wire_msg b))) < unat n
           then RMNETCTL_API_SUCCESS else RMNETCTL_API_ERR_STRING_TRUNCATION)"
    using deliver_vnd_name[OF name[of "set_crd 0 ?v"] assms(7), of st1 buf] cmd(1) wire(1) by metis
  obtain st2 where "rmnet_get_logical_ep_config K req0 ep dev (Some m0) (Some buf) n st =
      deliver_ep (Some m0) (Some buf) n (drv (set_crd 0 ?q)) st2" "ecode st2 = Some RMNETCTL_API_SUCCESS"
    using q_ep.data_reply[OF assms(1) query_requests(2)[OF assms(2)] assms(3,4) _ data, of dev ep "Some m0" "Some buf" n]
      assms(5-7) by blast
  then show "\<exists>st' b buf'. rmnet_get_logical_ep_config K req0 ep dev (Some m0) (Some buf) n st =
        Some (RMNETCTL_SUCCESS, (Some (load8 20 (drv (wire_msg b))), Some buf'), st') \<and>
        c_str buf' = take (min 16 (unat n) - 1) (load_name 21 (drv (wire_msg b))) \<and>
        cmd_of (wire_msg b) = Some (CGetEp (c_str (the dev)) ep) \<and>
        ecode st' = Some RMNETCTL_API_SUCCESS"
    using deliver_ep_name[OF next_name[of "set_crd 0 ?q"] assms(7), of st2 "Some m0" buf] cmd(2) wire(2) by metis
qed

definition name_reply :: bytes where
  "name_reply = replicate 4 0 @ to_bytes ''rmnet_data3''"

lemma name_reply_payload:
  "NUL \<in> set (of_bytes (get_at 4 16 (payload (data_driver name_reply m))))"
  "NUL \<in> set (of_bytes (get_at 21 16 (payload (data_driver name_reply m))))"
  "load_name 4 (data_driver name_reply m) = ''rmnet_data3''"
proof -
  have "NUL \<in> set (of_bytes (get_at 4 16 (take 64 (name_reply @ replicate 64 0)))) \<and>
    NUL \<in> set (of_bytes (get_at 21 16 (take 64 (name_reply @ replicate 64 0)))) \<and>
    c_str (of_bytes (get_at 4 16 (take 64 (name_reply @ replicate 64 0)))) = ''rmnet_data3''"
    by code_simp
  then show "NUL \<in> set (of_bytes (get_at 4 16 (payload (data_driver name_reply m))))"
    "NUL \<in> set (of_bytes (get_at 21 16 (payload (data_driver name_reply m))))"
    "load_name 4 (data_driver name_reply m) = ''rmnet_data3''"
    by (simp_all add: data_driver_def load_name_def)
qed

theorem rmnet_name_queries_refine_witness:
  "\<exists>st' buf'. rmnet_get_vnd_name (driver_env (data_driver name_reply)) msg0 5
       (Some (replicate 8 CHR ''x'')) 8 ctx0 = Some (RMNETCTL_LIB_ERR, Some buf', st') \<and>
     c_str buf' = ''rmnet_d''"
  using rmnet_name_queries_refine[OF driver_env_kernel[OF data_driver_simps(1)] wf_msg0 ctx0_simps(1,2), of
      "Some ''rmnet0''" 1 8 name_reply 5 "replicate 8 CHR ''x''" 1]
  by (auto simp: name_reply_payload good_name_def good_ep_def strlen_def c_str_def)

section \<open>The life of a handle\<close>

text \<open>Sockets an environment opened during a run, and those the run closed.\<close>

definition opened :: "env \<Rightarrow> sysev list \<Rightarrow> int list" where
  "opened K tr = (case last tr of
      SysSocket _ _ _ \<Rightarrow> if ret (K tr) < 0 then [] else [ret (K tr)]
    | _ \<Rightarrow> [])"

definition sockets :: "env \<Rightarrow> sysev list \<Rightarrow> int list" where
  "sockets K tr = concat (map (\<lambda>i. opened K (take (Suc i) tr)) [0..<length tr])"

fun closed_fds :: "sysev list \<Rightarrow> int list" where
  "closed_fds [] = []"
| "closed_fds (SysClose fd # tr) = fd # closed_fds tr"
| "closed_fds (_ # tr) = closed_fds tr"

lemma closed_fds_append [simp]: "closed_fds (xs @ ys) = closed_fds xs @ closed_fds ys"
  by (induction xs rule: closed_fds.induct) auto

lemma sockets_snoc [simp]: "sockets K (tr @ [e]) = sockets K tr @ opened K (tr @ [e])"
  by (auto simp: sockets_def intro!: arg_cong[where f = concat])

lemma opened_snoc [simp]:
  "opened K (tr @ [SysSocket a b c]) = (if ret (K (tr @ [SysSocket a b c])) < 0 then [] else [ret (K (tr @ [SysSocket a b c]))])"
  "(\<And>a b c. e \<noteq> SysSocket a b c) \<Longrightarrow> opened K (tr @ [e]) = []"
  by (auto simp: opened_def split: sysev.split)

text \<open>
  Opening a handle, in every environment: on success exactly one block and one socket are live,
  they are the ones the handle holds, its sequence counter is 0 and it is bound to the process id;
  on failure everything that was acquired has been released and the error code says which step
  failed; cleaning up a handle that was opened releases both.
\<close>

theorem rmnetctl_init_cleanup_balance:
  assumes "rmnetctl_init K True st = (rc, st')" "ecode st = Some e"
  shows "(rc = RMNETCTL_SUCCESS \<longrightarrow> (\<exists>h. hndl st' = Some h \<and> h_addr h \<noteq> 0 \<and> transaction_id h = 0 \<and>
        src_addr h = \<lparr>nl_family = AF_NETLINK, nl_pid = pid h, nl_groups = 0\<rparr> \<and> ecode st' = ecode st \<and>
        mallocs K (trace st') = mallocs K (trace st) @ [h_addr h] \<and> freed (trace st') = freed (trace st) \<and>
        sockets K (trace st') = sockets K (trace st) @ [netlink_fd h] \<and>
        closed_fds (trace st') = closed_fds (trace st) \<and>
        freed (trace (rmnetctl_cleanup K st')) = freed (trace st') @ [h_addr h] \<and>
        closed_fds (trace (rmnetctl_cleanup K st')) = closed_fds (trace st') @ [netlink_fd h])) \<and>
     (rc \<noteq> RMNETCTL_SUCCESS \<longrightarrow> rc = RMNETCTL_LIB_ERR \<and>
        ecode st' \<in> Some ` {RMNETCTL_API_ERR_HNDL_INVALID, RMNETCTL_INIT_ERR_PROCESS_ID,
                            RMNETCTL_INIT_ERR_NETLINK_FD, RMNETCTL_INIT_ERR_BIND} \<and>
        (\<exists>xs ys. mallocs K (trace st') = mallocs K (trace st) @ xs \<and> freed (trace st') = freed (trace st) @ xs \<and>
           sockets K (trace st') = sockets K (trace st) @ ys \<and> closed_fds (trace st') = closed_fds (trace st) @ ys))"
  using assms
  by (auto simp: rmnetctl_init_def rmnetctl_cleanup_def sys_def Let_def sys_free_def set_ecode_def
      simp del: append_assoc split: if_splits)

definition counting_env :: env where
  "counting_env tr = \<lparr>ret = int (length tr), errno = 0, data = [], sender = zero_addr\<rparr>"

theorem rmnetctl_init_cleanup_balance_witness:
  "\<exists>st'. rmnetctl_init counting_env True (ctx0\<lparr>hndl := None\<rparr>) = (RMNETCTL_SUCCESS, st') \<and>
   mallocs counting_env (trace st') = [1] \<and> sockets counting_env (trace st') = [3] \<and>
   freed (trace (rmnetctl_cleanup counting_env st')) = [1] \<and>
   closed_fds (trace (rmnetctl_cleanup counting_env st')) = [3]"
proof -
  obtain rc st' where i: "rmnetctl_init counting_env True (ctx0\<lparr>hndl := None\<rparr>) = (rc, st')" by fastforce
  then have "rc = RMNETCTL_SUCCESS" "\<exists>h. hndl st' = Some h \<and> h_addr h = 1 \<and> netlink_fd h = 3"
    by (auto simp: rmnetctl_init_def counting_env_def sys_def Let_def)
  then show ?thesis using rmnetctl_init_cleanup_balance[OF i] i by (auto simp: sockets_def)
qed

end
