(* ===== verification/Rta.thy ===== *)
theory Rta
  imports Rmnet_Legacy "HOL-Library.Monad_Syntax"
begin

text \<open>
  Routing attributes (rmnetctl/src/librmnetctl.c, the static functions of the new driver API):
  \<open>rta_put\<close> and its variants, nested attributes, \<open>rta_find\<close>, \<open>rta_parse\<close>, and the two functions
  that fill a whole message, \<open>rmnet_fill_newlink_msg\<close> and \<open>rmnet_fill_flow_msg\<close>.

  \<open>struct nlmsg\<close> is the list of its 532 bytes: \<open>nlmsghdr\<close> (16), \<open>ifinfomsg\<close> (16) and \<open>data\<close> (500).
  A pointer into it is an offset. An access outside the object is undefined in C and is \<open>None\<close> here;
  a result is \<open>Some (rc, message, reqsize)\<close>.
\<close>

unbundle bit_operations_syntax

section \<open>Constants of the netlink headers\<close>

abbreviation (input) NLMSG_DATA_SIZE :: nat where "NLMSG_DATA_SIZE \<equiv> 500"
abbreviation (input) SIZEOF_nlmsg :: nat where "SIZEOF_nlmsg \<equiv> 532"
abbreviation (input) SIZEOF_rtattr :: nat where "SIZEOF_rtattr \<equiv> 4"

abbreviation (input) IFLA_IFNAME :: u16 where "IFLA_IFNAME \<equiv> 3"
abbreviation (input) IFLA_LINK :: u16 where "IFLA_LINK \<equiv> 5"
abbreviation (input) IFLA_MASTER :: u16 where "IFLA_MASTER \<equiv> 10"
abbreviation (input) IFLA_LINKINFO :: u16 where "IFLA_LINKINFO \<equiv> 18"
abbreviation (input) RMNET_IFLA_NUM_TX_QUEUES :: u16 where "RMNET_IFLA_NUM_TX_QUEUES \<equiv> 31"
abbreviation (input) IFLA_INFO_KIND :: u16 where "IFLA_INFO_KIND \<equiv> 1"
abbreviation (input) IFLA_INFO_DATA :: u16 where "IFLA_INFO_DATA \<equiv> 2"
abbreviation (input) RMNETCTL_IFLA_MUX_ID :: u16 where "RMNETCTL_IFLA_MUX_ID \<equiv> 1"
abbreviation (input) RMNETCTL_IFLA_FLAGS :: u16 where "RMNETCTL_IFLA_FLAGS \<equiv> 2"
abbreviation (input) RMNETCTL_IFLA_DFC_QOS :: u16 where "RMNETCTL_IFLA_DFC_QOS \<equiv> 3"
abbreviation (input) RMNETCTL_IFLA_UPLINK_PARAMS :: u16 where "RMNETCTL_IFLA_UPLINK_PARAMS \<equiv> 4"
abbreviation (input) RMNETCTL_IFLA_MAX :: nat where "RMNETCTL_IFLA_MAX \<equiv> 5"
abbreviation (input) NLA_TYPE_MASK :: u16 where "NLA_TYPE_MASK \<equiv> 0x3FFF"

section \<open>Writing attributes\<close>

text \<open>
  \<open>RTA_ALIGN\<close> and \<open>NLMSG_ALIGN\<close> round up to a multiple of four, the first on the small lengths of
  attributes, the second on the 32-bit length of a message.
\<close>

definition align4 :: "nat \<Rightarrow> nat" where
  "align4 n = (n + 3) div 4 * 4"

definition nlmsg_align :: "u32 \<Rightarrow> u32" where
  "nlmsg_align len = (len + 3) AND NOT 3"

definition nlmsg_tail :: "bytes \<Rightarrow> nat" where
  "nlmsg_tail req = unat (nlmsg_align (rd32 0 req))"

definition mem_write :: "nat \<Rightarrow> bytes \<Rightarrow> bytes \<Rightarrow> bytes option" where
  "mem_write off xs buf = (if off + length xs \<le> length buf then Some (put_at off xs buf) else None)"

text \<open>
  \<open>memscpy_repeat\<close>: the result is the space left, converted to \<open>int\<close>, or the error code, which is
  positive. The first component of the value is that result.
\<close>

definition memscpy_repeat :: "nat \<Rightarrow> nat \<Rightarrow> bytes option \<Rightarrow> nat \<Rightarrow> bytes \<Rightarrow> (int \<times> nat \<times> bytes) option" where
  "memscpy_repeat dst dst_size src src_size buf =
    (if dst_size \<le> src_size \<or> src = None then Some (RMNETCTL_LIB_ERR, dst_size, buf)
     else do {
       buf \<leftarrow> mem_write dst (take (min dst_size src_size) (the src)) buf;
       let dst_size = dst_size - min dst_size src_size;
       Some (sint (of_nat dst_size :: u32), dst_size, buf)
     })"

definition rta_put :: "bytes \<Rightarrow> nat \<Rightarrow> u16 \<Rightarrow> nat \<Rightarrow> bytes option \<Rightarrow> (int \<times> bytes \<times> nat) option" where
  "rta_put req reqsize type len dat =
    (let attr = nlmsg_tail req; rta_len = of_nat (SIZEOF_rtattr + len) :: u16 in do {
       req \<leftarrow> mem_write (attr + 2) (le_bytes 2 type) req;
       req \<leftarrow> mem_write attr (le_bytes 2 rta_len) req;
       (x, reqsize, req) \<leftarrow> memscpy_repeat (attr + SIZEOF_rtattr) reqsize dat len req;
       if x < 0 then Some (RMNETCTL_LIB_ERR, req, reqsize) else do {
         req \<leftarrow> mem_write 0 (le_bytes 4 (nlmsg_align (rd32 0 req) + of_nat (align4 (unat rta_len)))) req;
         Some (RMNETCTL_SUCCESS, req, reqsize)
       }
     })"

definition rta_put_u16 :: "bytes \<Rightarrow> nat \<Rightarrow> u16 \<Rightarrow> u16 \<Rightarrow> (int \<times> bytes \<times> nat) option" where
  "rta_put_u16 req reqsize type dat = rta_put req reqsize type 2 (Some (le_bytes 2 dat))"

definition rta_put_u32 :: "bytes \<Rightarrow> nat \<Rightarrow> u16 \<Rightarrow> u32 \<Rightarrow> (int \<times> bytes \<times> nat) option" where
  "rta_put_u32 req reqsize type dat = rta_put req reqsize type 4 (Some (le_bytes 4 dat))"

definition rta_put_string :: "bytes \<Rightarrow> nat \<Rightarrow> u16 \<Rightarrow> string \<Rightarrow> (int \<times> bytes \<times> nat) option" where
  "rta_put_string req reqsize type dat =
    rta_put req reqsize type (strlen dat + 1) (Some (to_bytes (c_str dat) @ [0]))"

definition rta_nested_start :: "bytes \<Rightarrow> nat \<Rightarrow> u16 \<Rightarrow> (int \<times> nat \<times> bytes \<times> nat) option" where
  "rta_nested_start req reqsize type =
    (let start = nlmsg_tail req in do {
       (rc, req, reqsize) \<leftarrow> rta_put req reqsize type 0 None;
       Some (rc, start, req, reqsize)
     })"

definition rta_nested_end :: "bytes \<Rightarrow> nat \<Rightarrow> bytes option" where
  "rta_nested_end req start =
    mem_write start (le_bytes 2 (of_int (int (nlmsg_tail req) - int start) :: u16)) req"

section \<open>Reading attributes\<close>

text \<open>
  \<open>RTA_OK\<close> reads the length at \<open>off\<close> when at least four bytes are announced; the buffer may hold
  fewer than announced.
\<close>

definition rta_ok :: "bytes \<Rightarrow> nat \<Rightarrow> int \<Rightarrow> bool option" where
  "rta_ok buf off len =
    (if len < int SIZEOF_rtattr then Some False
     else if off + SIZEOF_rtattr > length buf then None
     else Some (unat (rd16 off buf) \<ge> SIZEOF_rtattr \<and> int (unat (rd16 off buf)) \<le> len))"

definition rta_type :: "bytes \<Rightarrow> nat \<Rightarrow> u16" where
  "rta_type buf off = rd16 (off + 2) buf"

definition rta_payload :: "bytes \<Rightarrow> nat \<Rightarrow> int" where
  "rta_payload buf off = int (unat (rd16 off buf)) - int SIZEOF_rtattr"

lemma align4_ge: "n \<le> align4 n"
  by (simp add: align4_def)

lemma rta_ok_True: "rta_ok buf off len = Some True \<Longrightarrow> off + 4 \<le> length buf \<and> 4 \<le> unat (rd16 off buf)"
  by (auto simp: rta_ok_def split: if_splits)

function rta_find :: "bytes \<Rightarrow> nat \<Rightarrow> int \<Rightarrow> u16 \<Rightarrow> nat option option" where
  "rta_find buf rta attrlen type =
    (case rta_ok buf rta attrlen of
       None \<Rightarrow> None
     | Some False \<Rightarrow> Some None
     | Some True \<Rightarrow>
         if rta_type buf rta = (type AND NLA_TYPE_MASK) then Some (Some rta)
         else let n = align4 (unat (rd16 rta buf)) in rta_find buf (rta + n) (attrlen - int n) type)"
  by pat_completeness auto
termination
proof (relation "measure (\<lambda>(buf, rta, attrlen, type). length buf - rta)", goal_cases)
  case (2 buf rta attrlen type ok n)
  then have "rta + 4 \<le> length buf" "4 \<le> unat (rd16 rta buf)" using rta_ok_True by auto
  then show ?case using align4_ge[of "unat (rd16 rta buf)"] 2 by simp
qed simp

text \<open>
  \<open>rta_parse\<close> fills a table of \<open>maxtype\<close> pointers, indexed by type; a type equal to \<open>maxtype\<close> passes
  the check and writes one place past the table.
\<close>

function rta_parse_loop :: "nat option list \<Rightarrow> nat \<Rightarrow> bytes \<Rightarrow> nat \<Rightarrow> int \<Rightarrow> nat option list option" where
  "rta_parse_loop tb maxtype buf rta len =
    (case rta_ok buf rta len of
       None \<Rightarrow> None
     | Some False \<Rightarrow> Some tb
     | Some True \<Rightarrow>
         let type = unat (rta_type buf rta AND NLA_TYPE_MASK);
             n = align4 (unat (rd16 rta buf)) in
         if 0 < type \<and> type \<le> maxtype
         then if type < length tb
              then rta_parse_loop (tb[type := Some rta]) maxtype buf (rta + n) (len - int n)
              else None
         else rta_parse_loop tb maxtype buf (rta + n) (len - int n))"
  by pat_completeness auto
termination
proof (relation "measure (\<lambda>(tb, maxtype, buf, rta, len). length buf - rta)", goal_cases)
  case (2 tb maxtype buf rta len ok t n)
  then have "rta + 4 \<le> length buf" "4 \<le> unat (rd16 rta buf)" using rta_ok_True by auto
  then show ?case using align4_ge[of "unat (rd16 rta buf)"] 2 by simp
next
  case (3 tb maxtype buf rta len ok t n)
  then have "rta + 4 \<le> length buf" "4 \<le> unat (rd16 rta buf)" using rta_ok_True by auto
  then show ?case using align4_ge[of "unat (rd16 rta buf)"] 3 by simp
qed simp

declare rta_find.simps [simp del] rta_parse_loop.simps [simp del]

definition rta_parse :: "nat \<Rightarrow> bytes \<Rightarrow> nat \<Rightarrow> int \<Rightarrow> nat option list option" where
  "rta_parse maxtype buf head len = rta_parse_loop (replicate maxtype None) maxtype buf head len"

section \<open>Whole messages\<close>

text \<open>Each step returns the first result code that is not SUCCESS, as the C code does.\<close>

definition rmnet_fill_newlink_msg ::
  "bytes \<Rightarrow> nat \<Rightarrow> u32 \<Rightarrow> string \<Rightarrow> u8 \<Rightarrow> u32 \<Rightarrow> (int \<times> bytes \<times> nat) option" where
  "rmnet_fill_newlink_msg req reqsize devindex vndname index flagconfig = do {
     (rc, req, reqsize) \<leftarrow> rta_put_u32 req reqsize IFLA_LINK devindex;
     if rc \<noteq> RMNETCTL_SUCCESS then Some (rc, req, reqsize) else do {
     (rc, req, reqsize) \<leftarrow> rta_put_string req reqsize IFLA_IFNAME vndname;
     if rc \<noteq> RMNETCTL_SUCCESS then Some (rc, req, reqsize) else do {
     (rc, linkinfo, req, reqsize) \<leftarrow> rta_nested_start req reqsize IFLA_LINKINFO;
     if rc \<noteq> RMNETCTL_SUCCESS then Some (rc, req, reqsize) else do {
     (rc, req, reqsize) \<leftarrow> rta_put_string req reqsize IFLA_INFO_KIND ''rmnet'';
     if rc \<noteq> RMNETCTL_SUCCESS then Some (rc, req, reqsize) else do {
     (rc, datainfo, req, reqsize) \<leftarrow> rta_nested_start req reqsize IFLA_INFO_DATA;
     if rc \<noteq> RMNETCTL_SUCCESS then Some (rc, req, reqsize) else do {
     (rc, req, reqsize) \<leftarrow> rta_put_u16 req reqsize RMNETCTL_IFLA_MUX_ID (ucast index);
     if rc \<noteq> RMNETCTL_SUCCESS then Some (rc, req, reqsize) else do {
     (rc, req, reqsize) \<leftarrow> (if flagconfig \<noteq> 0
        then rta_put req reqsize RMNETCTL_IFLA_FLAGS 8 (Some (le_bytes 4 flagconfig @ le_bytes 4 flagconfig))
        else Some (RMNETCTL_SUCCESS, req, reqsize));
     if rc \<noteq> RMNETCTL_SUCCESS then Some (rc, req, reqsize) else do {
     req \<leftarrow> rta_nested_end req datainfo;
     req \<leftarrow> rta_nested_end req linkinfo;
     Some (RMNETCTL_SUCCESS, req, reqsize) }}}}}}}}"

text \<open>\<open>struct tcmsg\<close> of the kernel headers and its 20 bytes.\<close>

record tcmsg =
  tcm_family :: u8
  tcm_pad1 :: u8
  tcm_pad2 :: u16
  tcm_ifindex :: u32
  tcm_handle :: u32
  tcm_parent :: u32
  tcm_info :: u32

definition tcmsg_bytes :: "tcmsg \<Rightarrow> bytes" where
  "tcmsg_bytes t = le_bytes 1 (tcm_family t) @ le_bytes 1 (tcm_pad1 t) @ le_bytes 2 (tcm_pad2 t) @
     le_bytes 4 (tcm_ifindex t) @ le_bytes 4 (tcm_handle t) @ le_bytes 4 (tcm_parent t) @ le_bytes 4 (tcm_info t)"

definition rmnet_fill_flow_msg ::
  "bytes \<Rightarrow> nat \<Rightarrow> u32 \<Rightarrow> string \<Rightarrow> tcmsg \<Rightarrow> (int \<times> bytes \<times> nat) option" where
  "rmnet_fill_flow_msg req reqsize devindex vndname flowinfo = do {
     (rc, req, reqsize) \<leftarrow> rta_put_u32 req reqsize IFLA_LINK devindex;
     if rc \<noteq> RMNETCTL_SUCCESS then Some (rc, req, reqsize) else do {
     (rc, req, reqsize) \<leftarrow> rta_put_string req reqsize IFLA_IFNAME vndname;
     if rc \<noteq> RMNETCTL_SUCCESS then Some (rc, req, reqsize) else do {
     (rc, linkinfo, req, reqsize) \<leftarrow> rta_nested_start req reqsize IFLA_LINKINFO;
     if rc \<noteq> RMNETCTL_SUCCESS then Some (rc, req, reqsize) else do {
     (rc, req, reqsize) \<leftarrow> rta_put_string req reqsize IFLA_INFO_KIND ''rmnet'';
     if rc \<noteq> RMNETCTL_SUCCESS then Some (rc, req, reqsize) else do {
     (rc, datainfo, req, reqsize) \<leftarrow> rta_nested_start req reqsize IFLA_INFO_DATA;
     if rc \<noteq> RMNETCTL_SUCCESS then Some (rc, req, reqsize) else do {
     (rc, req, reqsize) \<leftarrow> rta_put req reqsize RMNETCTL_IFLA_DFC_QOS 20 (Some (tcmsg_bytes flowinfo));
     if rc \<noteq> RMNETCTL_SUCCESS then Some (rc, req, reqsize) else do {
     req \<leftarrow> rta_nested_end req datainfo;
     req \<leftarrow> rta_nested_end req linkinfo;
     Some (RMNETCTL_SUCCESS, req, reqsize) }}}}}}}"

end
