(* ===== verification/Rmnet_Rt.thy ===== *)
theory Rmnet_Rt
  imports Rta
begin

text \<open>
  The routing-netlink API of librmnetctl (rmnetctl/src/librmnetctl.c from "EXPOSED NEW DRIVER API"
  on, and \<open>rmnet_get_ack\<close>): handles on a NETLINK_ROUTE socket, and one function per request of the
  rmnet and DFC drivers.

  Results are options, \<open>None\<close> meaning that the code accessed memory outside an object. What C leaves
  uninitialised is a parameter: \<open>ack0\<close> is the stack space of the acknowledgement, \<open>junk\<close> the
  content of a block from \<open>malloc\<close>. A null result pointer is \<open>None\<close>.
\<close>

section \<open>Constants\<close>

abbreviation (input) RTM_NEWLINK :: u16 where "RTM_NEWLINK \<equiv> 16"
abbreviation (input) RTM_DELLINK :: u16 where "RTM_DELLINK \<equiv> 17"
abbreviation (input) RTM_GETLINK :: u16 where "RTM_GETLINK \<equiv> 18"
abbreviation (input) NLM_F_REQUEST :: u16 where "NLM_F_REQUEST \<equiv> 1"
abbreviation (input) NLM_F_REQUEST_ACK :: u16 where "NLM_F_REQUEST_ACK \<equiv> 5"
abbreviation (input) NLM_F_REQUEST_CREATE_EXCL_ACK :: u16 where "NLM_F_REQUEST_CREATE_EXCL_ACK \<equiv> 0x605"
abbreviation (input) NLMSG_ERROR :: u16 where "NLMSG_ERROR \<equiv> 2"
abbreviation (input) NETLINK_ROUTE :: int where "NETLINK_ROUTE \<equiv> 0"
abbreviation (input) RMNETCTL_API_ERR_MESSAGE_RECEIVE_rc :: int where "RMNETCTL_API_ERR_MESSAGE_RECEIVE_rc \<equiv> 4"
abbreviation (input) RMNETCTL_API_FIRST_ERR :: int where "RMNETCTL_API_FIRST_ERR \<equiv> 1"
abbreviation (input) SIZEOF_nlack :: nat where "SIZEOF_nlack \<equiv> 292"
abbreviation (input) RTA_SPACE :: nat where "RTA_SPACE \<equiv> 496"

abbreviation (input) RMNET_FLOW_MSG_ACTIVATE :: u8 where "RMNET_FLOW_MSG_ACTIVATE \<equiv> 1"
abbreviation (input) RMNET_FLOW_MSG_DEACTIVATE :: u8 where "RMNET_FLOW_MSG_DEACTIVATE \<equiv> 2"
abbreviation (input) RMNET_FLOW_MSG_CONTROL :: u8 where "RMNET_FLOW_MSG_CONTROL \<equiv> 3"
abbreviation (input) RMNET_FLOW_MSG_UP :: u8 where "RMNET_FLOW_MSG_UP \<equiv> 4"
abbreviation (input) RMNET_FLOW_MSG_DOWN :: u8 where "RMNET_FLOW_MSG_DOWN \<equiv> 5"
abbreviation (input) RMNET_FLOW_MSG_QMI_SCALE :: u8 where "RMNET_FLOW_MSG_QMI_SCALE \<equiv> 6"
abbreviation (input) RMNET_FLOW_MSG_WDA_FREQ :: u8 where "RMNET_FLOW_MSG_WDA_FREQ \<equiv> 7"

section \<open>The handle\<close>

definition rtrmnet_ctl_init :: "env \<Rightarrow> bool \<Rightarrow> rctx \<Rightarrow> int \<times> rctx" where
  "rtrmnet_ctl_init K pp st =
    (if \<not> pp \<or> ecode st = None then (RMNETCTL_INVALID_ARG, st) else
     let (a, tr) = sys K (SysMalloc 36) (trace st) in
     if ret a = 0
     then (RMNETCTL_LIB_ERR, set_ecode RMNETCTL_API_ERR_HNDL_INVALID (st\<lparr>hndl := None, trace := tr\<rparr>)) else
     let h = \<lparr>h_addr = ret a, pid = 0, transaction_id = 0, netlink_fd = 0,
              src_addr = zero_addr, dest_addr = zero_addr\<rparr>;
         (a, tr) = sys K SysGetpid tr in
     if ret a < MIN_VALID_PROCESS_ID
     then (RMNETCTL_LIB_ERR, set_ecode RMNETCTL_INIT_ERR_PROCESS_ID
             (st\<lparr>hndl := Some h, trace := sys_free (h_addr h) tr\<rparr>)) else
     let h = h\<lparr>pid := KERNEL_PROCESS_ID\<rparr>;
         (a, tr) = sys K (SysSocket PF_NETLINK SOCK_RAW_CLOEXEC NETLINK_ROUTE) tr; fd = ret a in
     if fd < MIN_VALID_SOCKET_FD
     then (RMNETCTL_LIB_ERR, set_ecode RMNETCTL_INIT_ERR_NETLINK_FD
             (st\<lparr>hndl := Some h, trace := sys_free (h_addr h) tr\<rparr>)) else
     let h = h\<lparr>netlink_fd := fd, src_addr := \<lparr>nl_family = AF_NETLINK, nl_pid = pid h, nl_groups = 0\<rparr>\<rparr>;
         (a, tr) = sys K (SysBind fd (src_addr h)) tr in
     if ret a < 0
     then let (_, tr) = sys K (SysClose fd) tr in
          (RMNETCTL_LIB_ERR, set_ecode RMNETCTL_INIT_ERR_BIND
             (st\<lparr>hndl := Some h, trace := sys_free (h_addr h) tr\<rparr>))
     else let h = h\<lparr>dest_addr := \<lparr>nl_family = AF_NETLINK, nl_pid = KERNEL_PROCESS_ID, nl_groups = UNICAST\<rparr>\<rparr>
          in (RMNETCTL_SUCCESS, st\<lparr>hndl := Some h, trace := tr\<rparr>))"

definition rtrmnet_ctl_deinit :: "env \<Rightarrow> rctx \<Rightarrow> int \<times> rctx" where
  "rtrmnet_ctl_deinit K st = (case hndl st of None \<Rightarrow> (RMNETCTL_SUCCESS, st)
     | Some h \<Rightarrow> let (_, tr) = sys K (SysClose (netlink_fd h)) (trace st)
                in (RMNETCTL_SUCCESS, st\<lparr>trace := sys_free (h_addr h) tr\<rparr>))"

section \<open>The acknowledgement\<close>

text \<open>\<open>struct nlack\<close>: \<open>nlmsghdr\<close> (type at 4), then \<open>nlmsgerr\<close> with \<open>error\<close> at 16.\<close>

definition rmnet_get_ack :: "env \<Rightarrow> bytes \<Rightarrow> rctx \<Rightarrow> int \<times> rctx" where
  "rmnet_get_ack K ack0 st = (case hndl st of None \<Rightarrow> (RMNETCTL_INVALID_ARG, st)
    | Some h \<Rightarrow>
      if ecode st = None then (RMNETCTL_INVALID_ARG, st) else
      let (a, tr) = sys K (SysRecv (netlink_fd h) SIZEOF_nlack False) (trace st);
          st = st\<lparr>trace := tr\<rparr> in
      if ret a < 0 then (RMNETCTL_API_ERR_MESSAGE_RECEIVE_rc, set_ecode (of_int (errno a)) st) else
      let ack = recv_into (ret a) (data a) ack0 in
      if rd16 4 ack = NLMSG_ERROR
      then if rd32 16 ack = 0 then (RMNETCTL_SUCCESS, set_ecode RMNETCTL_API_SUCCESS st)
           else (RMNETCTL_KERNEL_ERR, set_ecode (ucast (- rd32 16 ack)) st)
      else (RMNETCTL_API_FIRST_ERR, set_ecode RMNETCTL_API_ERR_RETURN_TYPE st))"

section \<open>The parts every request function has\<close>

text \<open>The zeroed \<open>struct nlmsg\<close> with its header fields set.\<close>

definition nlmsg_init :: "u16 \<Rightarrow> u16 \<Rightarrow> u32 \<Rightarrow> bytes" where
  "nlmsg_init type flags seq =
    put_at 8 (le_bytes 4 seq) (put_at 6 (le_bytes 2 flags) (put_at 0 (le_bytes 4 (32 :: u32))
      (put_at 4 (le_bytes 2 type) (replicate SIZEOF_nlmsg 0))))"

definition set_ifi_index :: "u32 \<Rightarrow> bytes \<Rightarrow> bytes" where
  "set_ifi_index i req = put_at 20 (le_bytes 4 i) req"

definition next_id :: "rctx \<Rightarrow> rctx" where
  "next_id st = st\<lparr>hndl := map_option (\<lambda>h. h\<lparr>transaction_id := transaction_id h + 1\<rparr>) (hndl st)\<rparr>"

definition seq_of :: "rctx \<Rightarrow> u32" where
  "seq_of st = transaction_id (the (hndl st))"

definition if_nametoindex :: "env \<Rightarrow> string \<Rightarrow> rctx \<Rightarrow> u32 \<times> int \<times> rctx" where
  "if_nametoindex K name st =
    (let (a, tr) = sys K (SysIfIndex (c_str name)) (trace st) in (of_int (ret a), errno a, st\<lparr>trace := tr\<rparr>))"

text \<open>The end of a request: \<open>send\<close> reads \<open>nlmsg_len\<close> bytes of the message, then the answer.\<close>

definition rt_send :: "env \<Rightarrow> bytes \<Rightarrow> bytes \<Rightarrow> rctx \<Rightarrow> (int \<times> rctx) option" where
  "rt_send K ack0 req st =
    (let len = unat (rd32 0 req) in
     if len > length req then None else
     let (a, tr) = sys K (SysSend (netlink_fd (the (hndl st))) (take len req)) (trace st);
         st = st\<lparr>trace := tr\<rparr> in
     if ret a < 0 then Some (RMNETCTL_LIB_ERR, set_ecode RMNETCTL_API_ERR_MESSAGE_SEND st)
     else Some (rmnet_get_ack K ack0 st))"

definition bad_name :: "string option \<Rightarrow> bool" where
  "bad_name s \<longleftrightarrow> rmnetctl_check_dev_name s \<noteq> RMNETCTL_SUCCESS"

section \<open>Devices\<close>

definition rtrmnet_ctl_newvnd ::
  "env \<Rightarrow> bytes \<Rightarrow> string option \<Rightarrow> string option \<Rightarrow> u8 \<Rightarrow> u32 \<Rightarrow> rctx \<Rightarrow> (int \<times> rctx) option" where
  "rtrmnet_ctl_newvnd K ack0 devname vndname index flagconfig st =
    (if hndl st = None \<or> devname = None \<or> vndname = None \<or> ecode st = None \<or> bad_name vndname \<or> bad_name devname
     then Some (RMNETCTL_INVALID_ARG, st) else
     let req = nlmsg_init RTM_NEWLINK NLM_F_REQUEST_CREATE_EXCL_ACK (seq_of st);
         reqsize = RTA_SPACE;
         (devindex, err, st) = if_nametoindex K (the devname) (next_id st) in
     if devindex = 0 then Some (RMNETCTL_KERNEL_ERR, set_ecode (of_int err) st) else
     let st = set_ecode RMNETCTL_API_ERR_RTA_FAILURE st in do {
       (rc, req, reqsize) \<leftarrow> rta_put_u32 req reqsize RMNET_IFLA_NUM_TX_QUEUES 10;
       if rc \<noteq> RMNETCTL_SUCCESS then Some (rc, st) else do {
       (rc, req, reqsize) \<leftarrow> rmnet_fill_newlink_msg req reqsize devindex (the vndname) index flagconfig;
       if rc \<noteq> RMNETCTL_SUCCESS then Some (rc, st) else rt_send K ack0 req st }})"

definition rtrmnet_ctl_delvnd ::
  "env \<Rightarrow> bytes \<Rightarrow> string option \<Rightarrow> rctx \<Rightarrow> (int \<times> rctx) option" where
  "rtrmnet_ctl_delvnd K ack0 vndname st =
    (if hndl st = None \<or> vndname = None \<or> ecode st = None then Some (RMNETCTL_INVALID_ARG, st) else
     let req = nlmsg_init RTM_DELLINK NLM_F_REQUEST_ACK (seq_of st);
         (devindex, err, st) = if_nametoindex K (the vndname) (next_id st) in
     if devindex = 0 then Some (RMNETCTL_KERNEL_ERR, set_ecode (of_int err) st)
     else rt_send K ack0 (set_ifi_index devindex req) st)"

definition rtrmnet_ctl_changevnd ::
  "env \<Rightarrow> bytes \<Rightarrow> string option \<Rightarrow> string option \<Rightarrow> u8 \<Rightarrow> u32 \<Rightarrow> rctx \<Rightarrow> (int \<times> rctx) option" where
  "rtrmnet_ctl_changevnd K ack0 devname vndname index flagconfig st =
    (if hndl st = None \<or> devname = None \<or> vndname = None \<or> ecode st = None \<or> bad_name vndname \<or> bad_name devname
     then Some (RMNETCTL_INVALID_ARG, st) else
     let req = nlmsg_init RTM_NEWLINK NLM_F_REQUEST_ACK (seq_of st);
         reqsize = RTA_SPACE;
         (devindex, err, st) = if_nametoindex K (the devname) (next_id st) in
     if devindex = 0 then Some (RMNETCTL_KERNEL_ERR, set_ecode (of_int err) st) else do {
       (rc, req, reqsize) \<leftarrow> rmnet_fill_newlink_msg req reqsize devindex (the vndname) index flagconfig;
       if rc \<noteq> RMNETCTL_SUCCESS then Some (rc, set_ecode RMNETCTL_API_ERR_RTA_FAILURE st)
       else rt_send K ack0 req st })"

text \<open>The results \<open>rtrmnet_ctl_getvnd\<close> writes through its pointers.\<close>

record vnd_info =
  o_mux_id :: "u16 option"
  o_flagconfig :: "u32 option"
  o_agg_count :: "u8 option"
  o_agg_size :: "u16 option"
  o_agg_time :: "u32 option"
  o_features :: "u8 option"

definition mem_read :: "nat \<Rightarrow> nat \<Rightarrow> bytes \<Rightarrow> bytes option" where
  "mem_read off n buf = (if off + n \<le> length buf then Some (get_at off n buf) else None)"

definition put_ptr :: "'a \<Rightarrow> 'a option \<Rightarrow> 'a option" where
  "put_ptr v p = map_option (\<lambda>_. v) p"

text \<open>The part of \<open>rtrmnet_ctl_getvnd\<close> that reads the attributes of the rmnet driver.\<close>

definition read_mux :: "bytes \<Rightarrow> nat option \<Rightarrow> vnd_info \<Rightarrow> vnd_info option" where
  "read_mux resp attr info = (case (attr, o_mux_id info) of
      (Some p, Some _) \<Rightarrow> do { d \<leftarrow> mem_read (p + 4) 2 resp; Some (info\<lparr>o_mux_id := Some (le_word d)\<rparr>) }
    | _ \<Rightarrow> Some info)"

definition read_flags :: "bytes \<Rightarrow> nat option \<Rightarrow> vnd_info \<Rightarrow> vnd_info option" where
  "read_flags resp attr info = (case (attr, o_flagconfig info) of
      (Some p, Some _) \<Rightarrow> do { d \<leftarrow> mem_read (p + 4) 4 resp; Some (info\<lparr>o_flagconfig := Some (le_word d)\<rparr>) }
    | _ \<Rightarrow> Some info)"

definition read_uplink :: "bytes \<Rightarrow> nat option \<Rightarrow> vnd_info \<Rightarrow> vnd_info option" where
  "read_uplink resp attr info = (case attr of None \<Rightarrow> Some info
     | Some p \<Rightarrow> do {
         info \<leftarrow> (case o_agg_size info of None \<Rightarrow> Some info
           | Some _ \<Rightarrow> do { d \<leftarrow> mem_read (p + 4) 2 resp; Some (info\<lparr>o_agg_size := Some (le_word d)\<rparr>) });
         info \<leftarrow> (case o_agg_count info of None \<Rightarrow> Some info
           | Some _ \<Rightarrow> do { d \<leftarrow> mem_read (p + 6) 1 resp; Some (info\<lparr>o_agg_count := Some (le_word d)\<rparr>) });
         info \<leftarrow> (case o_features info of None \<Rightarrow> Some info
           | Some _ \<Rightarrow> do { d \<leftarrow> mem_read (p + 7) 1 resp; Some (info\<lparr>o_features := Some (le_word d)\<rparr>) });
         (case o_agg_time info of None \<Rightarrow> Some info
           | Some _ \<Rightarrow> do { d \<leftarrow> mem_read (p + 8) 4 resp; Some (info\<lparr>o_agg_time := Some (le_word d)\<rparr>) }) })"

definition read_vnd_info :: "bytes \<Rightarrow> nat option list \<Rightarrow> vnd_info \<Rightarrow> vnd_info option" where
  "read_vnd_info resp tb info = do {
     info \<leftarrow> read_mux resp (tb ! unat RMNETCTL_IFLA_MUX_ID) info;
     info \<leftarrow> read_flags resp (tb ! unat RMNETCTL_IFLA_FLAGS) info;
     read_uplink resp (tb ! unat RMNETCTL_IFLA_UPLINK_PARAMS) info }"

text \<open>
  \<open>NLMSG_PAYLOAD\<close> takes the length the message announces, not the length received, and the type of
  the message is not looked at.
\<close>

definition parse_getlink :: "bytes \<Rightarrow> vnd_info \<Rightarrow> (int \<times> u16 option \<times> vnd_info) option" where
  "parse_getlink resp info = do {
     hdr \<leftarrow> mem_read 0 4 resp;
     linkinfo \<leftarrow> rta_find resp 32 (sint (le_word hdr - 32 :: u32)) IFLA_LINKINFO;
     (case linkinfo of None \<Rightarrow> Some (RMNETCTL_KERNEL_ERR, Some RMNETCTL_API_ERR_RTA_FAILURE, info)
      | Some li \<Rightarrow> do {
        datainfo \<leftarrow> rta_find resp (li + 4) (rta_payload resp li) IFLA_INFO_DATA;
        (case datainfo of None \<Rightarrow> Some (RMNETCTL_KERNEL_ERR, Some RMNETCTL_API_ERR_RTA_FAILURE, info)
         | Some di \<Rightarrow> do {
           tb \<leftarrow> rta_parse RMNETCTL_IFLA_MAX resp (di + 4) (rta_payload resp di);
           info \<leftarrow> read_vnd_info resp tb info;
           Some (0, None, info) }) })
   }"

definition rtrmnet_ctl_getvnd ::
  "env \<Rightarrow> (nat \<Rightarrow> u8) \<Rightarrow> string option \<Rightarrow> vnd_info \<Rightarrow> rctx \<Rightarrow> (int \<times> vnd_info \<times> rctx) option" where
  "rtrmnet_ctl_getvnd K junk vndname info st =
    (if hndl st = None \<or> vndname = None \<or> ecode st = None \<or> (o_mux_id info = None \<and> o_flagconfig info = None) \<or>
        bad_name vndname
     then Some (RMNETCTL_INVALID_ARG, info, st) else
     let fd = netlink_fd (the (hndl st));
         req = nlmsg_init RTM_GETLINK NLM_F_REQUEST (seq_of st);
         (devindex, err, st) = if_nametoindex K (the vndname) (next_id st) in
     if devindex = 0 then Some (RMNETCTL_KERNEL_ERR, info, set_ecode (of_int err) st) else
     let req = set_ifi_index devindex req;
         (a, tr) = sys K (SysSend fd (take 32 req)) (trace st); st = st\<lparr>trace := tr\<rparr> in
     if ret a < 0 then Some (RMNETCTL_LIB_ERR, info, set_ecode RMNETCTL_API_ERR_MESSAGE_SEND st) else
     let (a, tr) = sys K (SysRecv fd 0 True) (trace st); st = st\<lparr>trace := tr\<rparr>; resp_len = ret a in
     if resp_len < 0 then Some (RMNETCTL_API_ERR_MESSAGE_RECEIVE_rc, info, set_ecode (of_int (errno a)) st) else
     let (m, tr) = sys K (SysMalloc (nat resp_len)) (trace st); st = st\<lparr>trace := tr\<rparr> in
     if ret m = 0 then Some (RMNETCTL_LIB_ERR, info, set_ecode (of_int (errno m)) st) else
     let resp = map junk [0..<nat resp_len];
         (a, tr) = sys K (SysRecv fd (nat resp_len) False) (trace st); st = st\<lparr>trace := tr\<rparr> in
     if ret a < 0
     then Some (RMNETCTL_API_ERR_MESSAGE_RECEIVE_rc, info,
            set_ecode (of_int (errno a)) (st\<lparr>trace := sys_free (ret m) (trace st)\<rparr>))
     else do {
       (rc, err, info) \<leftarrow> parse_getlink (recv_into (ret a) (data a) resp) info;
       let st = st\<lparr>trace := sys_free (ret m) (trace st)\<rparr>;
       Some (rc, info, case err of None \<Rightarrow> st | Some e \<Rightarrow> set_ecode e st)
     })"

definition rtrmnet_ctl_bridgevnd ::
  "env \<Rightarrow> bytes \<Rightarrow> string option \<Rightarrow> string option \<Rightarrow> rctx \<Rightarrow> (int \<times> rctx) option" where
  "rtrmnet_ctl_bridgevnd K ack0 devname vndname st =
    (if hndl st = None \<or> vndname = None \<or> devname = None \<or> ecode st = None \<or> bad_name vndname
     then Some (RMNETCTL_INVALID_ARG, st) else
     let req = nlmsg_init RTM_NEWLINK NLM_F_REQUEST_ACK (seq_of st);
         reqsize = RTA_SPACE;
         (devindex, err, st) = if_nametoindex K (the devname) (next_id st) in
     if devindex = 0 then Some (RMNETCTL_KERNEL_ERR, set_ecode (of_int err) st) else
     let (vndindex, err, st) = if_nametoindex K (the vndname) st in
     if vndindex = 0 then Some (RMNETCTL_KERNEL_ERR, set_ecode (of_int err) st) else do {
       (rc, req, reqsize) \<leftarrow> rta_put_u32 (set_ifi_index devindex req) reqsize IFLA_MASTER vndindex;
       if rc \<noteq> RMNETCTL_SUCCESS then Some (rc, set_ecode RMNETCTL_API_ERR_RTA_FAILURE st)
       else rt_send K ack0 req st })"

section \<open>Uplink aggregation and flows\<close>

text \<open>\<open>struct rmnetctl_uplink_params\<close> with the \<open>features\<close> member (NO_UPLINK_FEATURES is not defined).\<close>

definition uplink_params_bytes :: "u16 \<Rightarrow> u8 \<Rightarrow> u8 \<Rightarrow> u32 \<Rightarrow> bytes" where
  "uplink_params_bytes byte_count packet_count features time_limit =
    le_bytes 2 byte_count @ le_bytes 1 packet_count @ le_bytes 1 features @ le_bytes 4 time_limit"

definition rtrmnet_set_uplink_aggregation_params ::
  "env \<Rightarrow> bytes \<Rightarrow> string option \<Rightarrow> string option \<Rightarrow> u8 \<Rightarrow> u16 \<Rightarrow> u32 \<Rightarrow> u8 \<Rightarrow> rctx \<Rightarrow> (int \<times> rctx) option" where
  "rtrmnet_set_uplink_aggregation_params K ack0 devname vndname packet_count byte_count time_limit features st =
    (if hndl st = None \<or> devname = None \<or> ecode st = None \<or> bad_name devname \<or> bad_name vndname
     then Some (RMNETCTL_INVALID_ARG, st) else
     let req = nlmsg_init RTM_NEWLINK NLM_F_REQUEST_ACK (seq_of st);
         reqsize = RTA_SPACE;
         (devindex, err, st) = if_nametoindex K (the devname) (next_id st) in
     if devindex = 0 then Some (RMNETCTL_KERNEL_ERR, set_ecode (of_int err) st) else
     let fail = (\<lambda>rc. Some (rc, set_ecode RMNETCTL_API_ERR_RTA_FAILURE st)) in do {
     (rc, req, reqsize) \<leftarrow> rta_put_u32 req reqsize IFLA_LINK devindex;
     if rc \<noteq> RMNETCTL_SUCCESS then fail rc else do {
     (rc, req, reqsize) \<leftarrow> rta_put_string req reqsize IFLA_IFNAME (the vndname);
     if rc \<noteq> RMNETCTL_SUCCESS then fail rc else do {
     (rc, linkinfo, req, reqsize) \<leftarrow> rta_nested_start req reqsize IFLA_LINKINFO;
     if rc \<noteq> RMNETCTL_SUCCESS then fail rc else do {
     (rc, req, reqsize) \<leftarrow> rta_put_string req reqsize IFLA_INFO_KIND ''rmnet'';
     if rc \<noteq> RMNETCTL_SUCCESS then fail rc else do {
     (rc, datainfo, req, reqsize) \<leftarrow> rta_nested_start req reqsize IFLA_INFO_DATA;
     if rc \<noteq> RMNETCTL_SUCCESS then fail rc else do {
     (rc, req, reqsize) \<leftarrow> rta_put req reqsize RMNETCTL_IFLA_UPLINK_PARAMS 8
        (Some (uplink_params_bytes byte_count packet_count features time_limit));
     if rc \<noteq> RMNETCTL_SUCCESS then fail rc else do {
     req \<leftarrow> rta_nested_end req datainfo;
     req \<leftarrow> rta_nested_end req linkinfo;
     rt_send K ack0 req st }}}}}}})"

definition flow_zero :: tcmsg where
  "flow_zero = \<lparr>tcm_family = 0, tcm_pad1 = 0, tcm_pad2 = 0, tcm_ifindex = 0, tcm_handle = 0, tcm_parent = 0, tcm_info = 0\<rparr>"

text \<open>The text that the seven flow functions share, from their argument check to their end.\<close>

definition rt_flow ::
  "env \<Rightarrow> bytes \<Rightarrow> string option \<Rightarrow> string option \<Rightarrow> tcmsg \<Rightarrow> rctx \<Rightarrow> (int \<times> rctx) option" where
  "rt_flow K ack0 devname vndname flowinfo st =
    (if hndl st = None \<or> devname = None \<or> ecode st = None \<or> bad_name devname \<or> bad_name vndname
     then Some (RMNETCTL_INVALID_ARG, st) else
     let req = nlmsg_init RTM_NEWLINK NLM_F_REQUEST_ACK (seq_of st);
         reqsize = RTA_SPACE;
         (devindex, err, st) = if_nametoindex K (the devname) (next_id st) in
     if devindex = 0 then Some (RMNETCTL_KERNEL_ERR, set_ecode (of_int err) st) else do {
       (rc, req, reqsize) \<leftarrow> rmnet_fill_flow_msg req reqsize devindex (the vndname) flowinfo;
       if rc \<noteq> RMNETCTL_SUCCESS then Some (rc, set_ecode RMNETCTL_API_ERR_RTA_FAILURE st)
       else rt_send K ack0 req st })"

definition rtrmnet_activate_flow ::
  "env \<Rightarrow> bytes \<Rightarrow> string option \<Rightarrow> string option \<Rightarrow> u8 \<Rightarrow> u32 \<Rightarrow> u32 \<Rightarrow> u32 \<Rightarrow> rctx \<Rightarrow> (int \<times> rctx) option" where
  "rtrmnet_activate_flow K ack0 devname vndname bearer_id flow_id ip_type tcm_hdl st =
    rt_flow K ack0 devname vndname (flow_zero\<lparr>tcm_handle := tcm_hdl, tcm_family := RMNET_FLOW_MSG_ACTIVATE,
      tcm_pad1 := bearer_id, tcm_ifindex := ip_type, tcm_parent := flow_id\<rparr>) st"

definition rtrmnet_delete_flow ::
  "env \<Rightarrow> bytes \<Rightarrow> string option \<Rightarrow> string option \<Rightarrow> u8 \<Rightarrow> u32 \<Rightarrow> u32 \<Rightarrow> rctx \<Rightarrow> (int \<times> rctx) option" where
  "rtrmnet_delete_flow K ack0 devname vndname bearer_id flow_id ip_type st =
    rt_flow K ack0 devname vndname (flow_zero\<lparr>tcm_family := RMNET_FLOW_MSG_DEACTIVATE,
      tcm_ifindex := ip_type, tcm_pad1 := bearer_id, tcm_parent := flow_id\<rparr>) st"

definition rtrmnet_control_flow ::
  "env \<Rightarrow> bytes \<Rightarrow> string option \<Rightarrow> string option \<Rightarrow> u8 \<Rightarrow> u16 \<Rightarrow> u32 \<Rightarrow> u8 \<Rightarrow> rctx \<Rightarrow> (int \<times> rctx) option" where
  "rtrmnet_control_flow K ack0 devname vndname bearer_id sequence grantsize ack st =
    rt_flow K ack0 devname vndname (flow_zero\<lparr>tcm_family := RMNET_FLOW_MSG_CONTROL, tcm_pad1 := bearer_id,
      tcm_pad2 := sequence, tcm_parent := ucast ack, tcm_info := grantsize\<rparr>) st"

definition rtrmnet_flow_state_up ::
  "env \<Rightarrow> bytes \<Rightarrow> string option \<Rightarrow> string option \<Rightarrow> u32 \<Rightarrow> u32 \<Rightarrow> u32 \<Rightarrow> u32 \<Rightarrow> rctx \<Rightarrow> (int \<times> rctx) option" where
  "rtrmnet_flow_state_up K ack0 devname vndname instance_id ep_type ifaceid flags st =
    rt_flow K ack0 devname vndname (flow_zero\<lparr>tcm_handle := instance_id, tcm_family := RMNET_FLOW_MSG_UP,
      tcm_ifindex := flags, tcm_parent := ifaceid, tcm_info := ep_type\<rparr>) st"

definition rtrmnet_flow_state_down ::
  "env \<Rightarrow> bytes \<Rightarrow> string option \<Rightarrow> string option \<Rightarrow> u32 \<Rightarrow> rctx \<Rightarrow> (int \<times> rctx) option" where
  "rtrmnet_flow_state_down K ack0 devname vndname instance_id st =
    rt_flow K ack0 devname vndname (flow_zero\<lparr>tcm_handle := instance_id, tcm_family := RMNET_FLOW_MSG_DOWN\<rparr>) st"

text \<open>A scale of zero is an invalid argument; a frequency of zero is not.\<close>

definition rtrmnet_set_qmi_scale ::
  "env \<Rightarrow> bytes \<Rightarrow> string option \<Rightarrow> string option \<Rightarrow> u32 \<Rightarrow> rctx \<Rightarrow> (int \<times> rctx) option" where
  "rtrmnet_set_qmi_scale K ack0 devname vndname scale st =
    (if scale = 0 then Some (RMNETCTL_INVALID_ARG, st) else
     rt_flow K ack0 devname vndname (flow_zero\<lparr>tcm_ifindex := scale, tcm_family := RMNET_FLOW_MSG_QMI_SCALE\<rparr>) st)"

definition rtrmnet_set_wda_freq ::
  "env \<Rightarrow> bytes \<Rightarrow> string option \<Rightarrow> string option \<Rightarrow> u32 \<Rightarrow> rctx \<Rightarrow> (int \<times> rctx) option" where
  "rtrmnet_set_wda_freq K ack0 devname vndname freq st =
    rt_flow K ack0 devname vndname (flow_zero\<lparr>tcm_ifindex := freq, tcm_family := RMNET_FLOW_MSG_WDA_FREQ\<rparr>) st"

end
