(* ===== verification/Rta_Spec.thy ===== *)
theory Rta_Spec
  imports Rta
begin

text \<open>
  What the attribute functions promise: a message is a header and a list of attributes, \<open>rta_put\<close>
  appends one, a nested attribute holds the attributes put between its start and its end, and
  reading finds what was put.
\<close>

section \<open>The image of a message\<close>

definition enc_attr :: "u16 \<Rightarrow> bytes \<Rightarrow> bytes" where
  "enc_attr ty d = le_bytes 2 (of_nat (4 + length d) :: u16) @ le_bytes 2 ty @ d @
     replicate (align4 (length d) - length d) 0"

definition rta_image :: "bytes \<Rightarrow> bytes \<Rightarrow> bytes" where
  "rta_image hdr body = le_bytes 4 (of_nat (32 + length body) :: u32) @ hdr @ body @ replicate (500 - length body) 0"

definition fits :: "bytes \<Rightarrow> bytes \<Rightarrow> bool" where
  "fits hdr body \<longleftrightarrow> length hdr = 28 \<and> length body \<le> 500 \<and> 4 dvd length body"

lemma align4_add4 [simp]: "align4 (Suc (Suc (Suc (Suc n)))) = 4 + align4 n" "align4 (4 + n) = 4 + align4 n"
  unfolding align4_def by presburger+

lemma align4_dvd [simp]: "4 dvd align4 n"
  by (simp add: align4_def)

lemma align4_id [simp]: "4 dvd n \<Longrightarrow> align4 n = n"
  by (auto simp: align4_def)

lemma align4_le: "align4 n \<le> n + 3"
  by (simp add: align4_def)

lemma align4_mono: "m \<le> n \<Longrightarrow> align4 m \<le> align4 n"
  by (simp add: align4_def div_le_mono)

lemma length_enc_attr [simp, layout]: "length (enc_attr ty d) = 4 + align4 (length d)"
  using align4_ge[of "length d"] by (simp add: enc_attr_def)

lemma length_rta_image [simp, layout]: "fits hdr body \<Longrightarrow> length (rta_image hdr body) = 532"
  by (simp add: rta_image_def fits_def)

lemma and_not_3: "(w :: u32) AND NOT 3 = w div 4 * 4"
proof -
  have "w AND NOT (mask 2) = push_bit 2 (drop_bit 2 w)"
    by (rule bit_word_eqI) (auto simp: bit_simps not_less dest!: le_Suc_ex)
  then show ?thesis by (simp add: push_bit_eq_mult drop_bit_eq_div mask_eq_exp_minus_1)
qed

lemma unat_nlmsg_align:
  assumes "unat w + 3 < 2 ^ 32"
  shows "unat (nlmsg_align w) = align4 (unat w)"
proof -
  have a: "unat (w + 3) = unat w + 3" using assms by (simp add: unat_word_ariths)
  have "(unat w + 3) div 4 * 4 < 2 ^ 32" using assms by (meson div_times_less_eq_dividend le_less_trans)
  then show ?thesis unfolding nlmsg_align_def and_not_3 by (simp add: unat_word_ariths unat_div a align4_def)
qed

lemma rd32_front: "n = 4 \<Longrightarrow> rd32 0 (le_bytes n w @ xs) = w"
  by (simp add: rd32_def get_at_def)

lemma rta_image_len: "rd32 0 (rta_image hdr body) = of_nat (32 + length body)"
  by (simp add: rta_image_def rd32_front)

lemma unat_of_len:
  assumes "fits hdr body" shows "unat (of_nat (32 + length body) :: u32) = 32 + length body"
  using assms by (intro unat_of_nat_lt) (simp add: fits_def)

lemma unat_nlmsg_align_image:
  assumes "fits hdr body" shows "unat (nlmsg_align (of_nat (32 + length body))) = 32 + length body"
proof -
  have "4 dvd 32 + length body" "length body \<le> 500" using assms by (simp_all add: fits_def)
  then show ?thesis using unat_nlmsg_align[of "of_nat (32 + length body)"] by (simp add: unat_of_len[OF assms] del: of_nat_add)
qed

lemma nlmsg_align_image:
  assumes "fits hdr body" shows "nlmsg_align (of_nat (32 + length body)) = of_nat (32 + length body)"
  using unat_nlmsg_align_image[OF assms] unat_of_len[OF assms] by (metis unsigned_word_eqI)

lemma nlmsg_tail_image:
  assumes "fits hdr body" shows "nlmsg_tail (rta_image hdr body) = 32 + length body"
  unfolding nlmsg_tail_def rta_image_len by (rule unat_nlmsg_align_image[OF assms])

section \<open>Putting an attribute\<close>

lemma put_at_mid: "off = length p \<Longrightarrow> length x = length y \<Longrightarrow> put_at off x (p @ y @ q) = p @ x @ q"
  by (simp add: put_at_def)

lemma put_at_zeros:
  "off = length p + k \<Longrightarrow> k + length x \<le> n \<Longrightarrow>
   put_at off x (p @ replicate n z) = p @ replicate k z @ x @ replicate (n - k - length x) z"
  by (simp add: put_at_def min_def)

lemma mem_write_zeros:
  "off = length p + k \<Longrightarrow> k + length x \<le> n \<Longrightarrow>
   mem_write off x (p @ replicate n z) = Some (p @ replicate k z @ x @ replicate (n - k - length x) z)"
  by (simp add: mem_write_def put_at_zeros)

lemma mem_write_mid:
  "off = length p \<Longrightarrow> length x = length y \<Longrightarrow> mem_write off x (p @ y @ q) = Some (p @ x @ q)"
  by (simp add: mem_write_def put_at_mid)

lemma mem_write_front:
  "length x = length y \<Longrightarrow> mem_write 0 x (y @ q) = Some (x @ q)"
  using mem_write_mid[of 0 "[]" x y q] by simp

text \<open>The two halves of the attribute header go into zeroed space.\<close>

lemma attr_header_written:
  assumes "off = length p" "4 \<le> n" "length t = 2" "length l = 2"
  shows "Option.bind (mem_write (off + 2) t (p @ replicate n (0 :: u8))) (mem_write off l) = Some (p @ l @ t @ replicate (n - 4) 0)"
proof -
  have 1: "mem_write (off + 2) t (p @ replicate n 0) = Some (p @ replicate 2 0 @ t @ replicate (n - 4) 0)"
    using assms by (subst mem_write_zeros[where k = 2]) simp_all
  show ?thesis using assms unfolding 1 bind.simps by (subst mem_write_mid) simp_all
qed

lemma sint_small: "n < 2 ^ 31 \<Longrightarrow> 0 \<le> sint (of_nat n :: u32)"
  by (simp add: signed_of_nat signed_take_bit_int_eq_self)

text \<open>
  One lemma for every use of \<open>rta_put\<close>: \<open>copied\<close> is what reaches the message, nothing when the
  data pointer is null or the space counter is used up.
\<close>

definition copied :: "nat \<Rightarrow> nat \<Rightarrow> bytes option \<Rightarrow> bytes" where
  "copied sz len dat = (if sz \<le> len \<or> dat = None then replicate len 0 else take len (the dat))"

lemma memscpy_repeat_zeros:
  assumes "off = length p" "len \<le> n" "sz < 2 ^ 31" "\<And>d. dat = Some d \<Longrightarrow> length d = len"
  shows "\<exists>x. 0 \<le> x \<and> memscpy_repeat off sz dat len (p @ replicate n 0) =
     Some (x, (if sz \<le> len \<or> dat = None then sz else sz - len), p @ copied sz len dat @ replicate (n - len) 0)"
proof (cases "sz \<le> len \<or> dat = None")
  case True
  have "replicate n 0 = replicate len 0 @ replicate (n - len) (0 :: u8)"
    using assms(2) by (simp add: replicate_add[symmetric])
  then show ?thesis using True by (auto simp: memscpy_repeat_def copied_def)
next
  case False
  then obtain d where d: "dat = Some d" "length d = len" using assms(4) by auto
  have "mem_write off (take (min sz len) d) (p @ replicate n 0) = Some (p @ d @ replicate (n - len) 0)"
    using False d assms(1,2) by (subst mem_write_zeros[where k = 0]) (simp_all add: min_def)
  then show ?thesis using False d assms(3) sint_small[of "sz - len"]
    by (auto simp: memscpy_repeat_def copied_def)
qed

lemma length_copied [simp]: "(\<And>d. dat = Some d \<Longrightarrow> length d = len) \<Longrightarrow> length (copied sz len dat) = len"
  by (auto simp: copied_def)

lemma rta_image_grow:
  assumes "length d = len" "length body + 4 + align4 len \<le> 500"
  shows "le_bytes 4 (of_nat (32 + length body + (4 + align4 len)) :: u32) @ hdr @ body @
      le_bytes 2 (of_nat (4 + len) :: u16) @ le_bytes 2 ty @ d @ replicate (500 - length body - 4 - len) 0 =
    rta_image hdr (body @ enc_attr ty d)"
proof -
  have l: "length (body @ enc_attr ty d) = length body + (4 + align4 len)" using assms(1) by simp
  have "500 - length body - 4 - len = (align4 len - len) + (500 - (length body + (4 + align4 len)))"
    using assms align4_ge[of len] by simp
  then show ?thesis unfolding rta_image_def l using assms(1)
    by (simp add: enc_attr_def replicate_add del: of_nat_add)
qed

lemma rta_put_image:
  assumes f: "fits hdr body" and b: "length body + 4 + align4 len \<le> 500" and sz: "sz < 2 ^ 31"
    and dat: "\<And>d. dat = Some d \<Longrightarrow> length d = len"
  shows "rta_put (rta_image hdr body) sz ty len dat =
     Some (RMNETCTL_SUCCESS, rta_image hdr (body @ enc_attr ty (copied sz len dat)),
           if sz \<le> len \<or> dat = None then sz else sz - len)"
proof -
  let ?w = "of_nat (32 + length body) :: u32" and ?l = "of_nat (4 + len) :: u16" and ?c = "copied sz len dat"
  let ?p = "le_bytes 4 ?w @ hdr @ body" and ?n = "500 - length body"
  let ?h = "le_bytes 2 ?l @ le_bytes 2 ty"
  have len: "len \<le> align4 len" by (rule align4_ge)
  have p: "length ?p = 32 + length body" using f by (simp add: fits_def)
  have image: "rta_image hdr body = ?p @ replicate ?n 0" by (simp add: rta_image_def)
  have 1: "Option.bind (mem_write (length ?p + 2) (le_bytes 2 ty) (?p @ replicate ?n 0)) (mem_write (length ?p) (le_bytes 2 ?l))
      = Some ((?p @ ?h) @ replicate (?n - 4) 0)"
    using b by (subst attr_header_written) simp_all
  obtain x where x: "0 \<le> x" and 2: "memscpy_repeat (length ?p + 4) sz dat len ((?p @ ?h) @ replicate (?n - 4) 0) =
     Some (x, if sz \<le> len \<or> dat = None then sz else sz - len, (?p @ ?h) @ ?c @ replicate (?n - 4 - len) 0)"
  proof -
    have "length ?p + 4 = length (?p @ ?h)" "len \<le> ?n - 4" using b len by simp_all
    from memscpy_repeat_zeros[OF this sz dat] show thesis using that by blast
  qed
  have l: "unat ?l = 4 + len" using b len by (intro unat_of_nat_lt) simp
  have w: "?w + of_nat (align4 (4 + len)) = of_nat (32 + length body + (4 + align4 len))" by simp
  have 3: "mem_write 0 (le_bytes 4 (nlmsg_align ?w + of_nat (align4 (unat ?l)))) ((?p @ ?h) @ ?c @ replicate (?n - 4 - len) 0)
      = Some (rta_image hdr (body @ enc_attr ty ?c))"
  proof -
    have "mem_write 0 (le_bytes 4 (nlmsg_align ?w + of_nat (align4 (unat ?l)))) ((?p @ ?h) @ ?c @ replicate (?n - 4 - len) 0)
      = Some (le_bytes 4 (of_nat (32 + length body + (4 + align4 len)) :: u32) @ hdr @ body @ ?h @ ?c @ replicate (?n - 4 - len) 0)"
      unfolding l nlmsg_align_image[OF f] append_assoc w by (subst mem_write_front) simp_all
    then show ?thesis using rta_image_grow[of ?c len body hdr ty] b dat by simp
  qed
  have r: "rd32 0 ((?p @ ?h) @ ?c @ replicate (?n - 4 - len) 0) = ?w"
    by (simp add: rd32_front del: of_nat_add)
  have t: "nlmsg_tail (?p @ replicate ?n 0) = length ?p" using nlmsg_tail_image[OF f] p by (simp only: image)
  obtain m where m: "mem_write (length ?p + 2) (le_bytes 2 ty) (?p @ replicate ?n 0) = Some m"
    "mem_write (length ?p) (le_bytes 2 ?l) m = Some ((?p @ ?h) @ replicate (?n - 4) 0)"
    using 1 by (auto simp only: bind_eq_Some_conv)
  show ?thesis
    unfolding rta_put_def image t Let_def m bind.simps 2 prod.case r 3 using x by auto
qed

lemma fits_append: "fits hdr body \<Longrightarrow> 4 dvd length x \<Longrightarrow> length body + length x \<le> 500 \<Longrightarrow> fits hdr (body @ x)"
  by (simp add: fits_def)

lemma fits_attr [intro]: "fits hdr body \<Longrightarrow> length body + 4 + align4 (length d) \<le> 500 \<Longrightarrow> fits hdr (body @ enc_attr ty d)"
  by (rule fits_append) (simp_all add: dvd_add)

lemma rta_put_data:
  assumes "fits hdr body" "length body + 4 + align4 (length d) \<le> 500" "length d < sz" "sz < 2 ^ 31" "len = length d"
  shows "rta_put (rta_image hdr body) sz ty len (Some d) =
     Some (RMNETCTL_SUCCESS, rta_image hdr (body @ enc_attr ty d), sz - len)"
proof -
  have "copied sz (length d) (Some d) = d" "\<not> (sz \<le> length d \<or> Some d = None)" using assms(3) by (simp_all add: copied_def)
  moreover have "rta_put (rta_image hdr body) sz ty (length d) (Some d) = Some (RMNETCTL_SUCCESS,
      rta_image hdr (body @ enc_attr ty (copied sz (length d) (Some d))),
      if sz \<le> length d \<or> Some d = None then sz else sz - length d)"
    by (rule rta_put_image) (use assms in auto)
  ultimately show ?thesis using assms(5) by simp
qed

lemma rta_put_nothing:
  assumes "fits hdr body" "length body + 4 \<le> 500" "sz < 2 ^ 31"
  shows "rta_put (rta_image hdr body) sz ty 0 None =
     Some (RMNETCTL_SUCCESS, rta_image hdr (body @ enc_attr ty []), sz)"
  using rta_put_image[of hdr body 0 sz None ty] assms by (simp add: copied_def)

definition name_bytes :: "string \<Rightarrow> bytes" where
  "name_bytes s = to_bytes (c_str s) @ [0]"

lemma length_name_bytes [simp]: "length (name_bytes s) = Suc (strlen s)"
  by (simp add: name_bytes_def strlen_def)

lemma rta_put_string_image:
  assumes "fits hdr body" "length body + 4 + align4 (strlen s + 1) \<le> 500" "strlen s + 1 < sz" "sz < 2 ^ 31"
  shows "rta_put_string (rta_image hdr body) sz ty s =
     Some (RMNETCTL_SUCCESS, rta_image hdr (body @ enc_attr ty (name_bytes s)), sz - (strlen s + 1))"
  unfolding rta_put_string_def name_bytes_def[symmetric]
  by (rule rta_put_data) (use assms in simp_all)

lemma rta_put_u32_image:
  assumes "fits hdr body" "length body + 8 \<le> 500" "4 < sz" "sz < 2 ^ 31"
  shows "rta_put_u32 (rta_image hdr body) sz ty d =
     Some (RMNETCTL_SUCCESS, rta_image hdr (body @ enc_attr ty (le_bytes 4 d)), sz - 4)"
  unfolding rta_put_u32_def by (rule rta_put_data) (use assms in simp_all)

lemma rta_put_u16_image:
  assumes "fits hdr body" "length body + 8 \<le> 500" "2 < sz" "sz < 2 ^ 31"
  shows "rta_put_u16 (rta_image hdr body) sz ty d =
     Some (RMNETCTL_SUCCESS, rta_image hdr (body @ enc_attr ty (le_bytes 2 d)), sz - 2)"
proof -
  have "align4 2 = 4" by (simp add: align4_def)
  with assms show ?thesis unfolding rta_put_u16_def by (intro rta_put_data) simp_all
qed

lemma rta_nested_start_image:
  assumes "fits hdr body" "length body + 4 \<le> 500" "sz < 2 ^ 31"
  shows "rta_nested_start (rta_image hdr body) sz ty =
     Some (RMNETCTL_SUCCESS, 32 + length body, rta_image hdr (body @ enc_attr ty []), sz)"
  using assms by (simp add: rta_nested_start_def rta_put_nothing nlmsg_tail_image)

lemma rta_nested_end_image:
  assumes "fits hdr (b0 @ enc_attr ty [] @ inner)" "4 dvd length inner" "start = 32 + length b0"
  shows "rta_nested_end (rta_image hdr (b0 @ enc_attr ty [] @ inner)) start = Some (rta_image hdr (b0 @ enc_attr ty inner))"
proof -
  let ?b = "b0 @ enc_attr ty [] @ inner" and ?b' = "b0 @ enc_attr ty inner"
  have l: "length ?b = length ?b'" using assms(2) by simp
  have e: "enc_attr ty [] = le_bytes 2 (4 :: u16) @ le_bytes 2 ty"
    "enc_attr ty inner = le_bytes 2 (of_nat (4 + length inner) :: u16) @ le_bytes 2 ty @ inner"
    using assms(2) by (simp_all add: enc_attr_def)
  have n: "(of_int (int (32 + length ?b) - int start) :: u16) = of_nat (4 + length inner)"
    using assms(3) e(1) by simp
  let ?p = "le_bytes 4 (of_nat (32 + length ?b) :: u32) @ hdr @ b0"
    and ?q = "le_bytes 2 ty @ inner @ replicate (500 - length ?b) 0"
  have "rta_image hdr ?b = ?p @ le_bytes 2 (4 :: u16) @ ?q" "rta_image hdr ?b' = ?p @ le_bytes 2 (of_nat (4 + length inner) :: u16) @ ?q"
    unfolding rta_image_def l[symmetric] e by simp_all
  moreover have "mem_write start (le_bytes 2 (of_nat (4 + length inner) :: u16)) (?p @ le_bytes 2 (4 :: u16) @ ?q) =
      Some (?p @ le_bytes 2 (of_nat (4 + length inner) :: u16) @ ?q)"
    using assms(1,3) by (intro mem_write_mid) (simp_all add: fits_def)
  ultimately show ?thesis unfolding rta_nested_end_def nlmsg_tail_image[OF assms(1)] n by (simp only:)
qed

section \<open>The messages the library sends\<close>

definition link_attrs :: "u32 \<Rightarrow> string \<Rightarrow> bytes" where
  "link_attrs devindex vndname = enc_attr IFLA_LINK (le_bytes 4 devindex) @ enc_attr IFLA_IFNAME (name_bytes vndname)"

definition rmnet_attrs :: "bytes \<Rightarrow> bytes" where
  "rmnet_attrs d = enc_attr IFLA_LINKINFO (enc_attr IFLA_INFO_KIND (name_bytes ''rmnet'') @ enc_attr IFLA_INFO_DATA d)"

definition newlink_data :: "u8 \<Rightarrow> u32 \<Rightarrow> bytes" where
  "newlink_data index flagconfig = enc_attr RMNETCTL_IFLA_MUX_ID (le_bytes 2 (ucast index :: u16)) @
     (if flagconfig = 0 then [] else enc_attr RMNETCTL_IFLA_FLAGS (le_bytes 4 flagconfig @ le_bytes 4 flagconfig))"

lemma align4_consts [simp]: "align4 2 = 4" "align4 6 = 8" "align4 (Suc 0) = 4" "align4 0 = 0" "align4 20 = 20" "align4 8 = 8" "align4 4 = 4"
  by (simp_all add: align4_def)

lemma strlen_rmnet [simp]: "strlen ''rmnet'' = 5"
  by code_simp

lemma fits_more [intro]: "fits hdr body \<Longrightarrow> 4 dvd length x \<Longrightarrow> length body + length x \<le> 500 \<Longrightarrow> fits hdr (body @ x)"
  by (rule fits_append)

text \<open>
  The five steps all messages about an rmnet device begin with, on a message that holds \<open>body\<close>, and
  the two that close the nested attributes around \<open>d\<close>.
\<close>

definition link_open :: "u32 \<Rightarrow> string \<Rightarrow> bytes" where
  "link_open devindex v = link_attrs devindex v @ enc_attr IFLA_LINKINFO []"

definition rmnet_open :: "u32 \<Rightarrow> string \<Rightarrow> bytes" where
  "rmnet_open devindex v = link_open devindex v @ enc_attr IFLA_INFO_KIND (name_bytes ''rmnet'') @ enc_attr IFLA_INFO_DATA []"

lemma open_lengths [simp]:
  "length (link_attrs i v) = 12 + align4 (Suc (strlen v))"
  "length (link_open i v) = 16 + align4 (Suc (strlen v))"
  "length (rmnet_open i v) = 32 + align4 (Suc (strlen v))"
  by (simp_all add: link_attrs_def link_open_def rmnet_open_def)

lemma open_steps:
  assumes f: "fits hdr body" and b: "length body \<le> 400" and v: "strlen v < 16" and sz: "400 < sz" "sz < 2 ^ 31"
  shows "rta_put_u32 (rta_image hdr body) sz IFLA_LINK i =
      Some (RMNETCTL_SUCCESS, rta_image hdr (body @ enc_attr IFLA_LINK (le_bytes 4 i)), sz - 4)"
    and "rta_put_string (rta_image hdr (body @ enc_attr IFLA_LINK (le_bytes 4 i))) (sz - 4) IFLA_IFNAME v =
      Some (RMNETCTL_SUCCESS, rta_image hdr (body @ link_attrs i v), sz - 5 - strlen v)"
    and "rta_nested_start (rta_image hdr (body @ link_attrs i v)) (sz - 5 - strlen v) IFLA_LINKINFO =
      Some (RMNETCTL_SUCCESS, 44 + length body + align4 (Suc (strlen v)), rta_image hdr (body @ link_open i v), sz - 5 - strlen v)"
    and "rta_put_string (rta_image hdr (body @ link_open i v)) (sz - 5 - strlen v) IFLA_INFO_KIND ''rmnet'' =
      Some (RMNETCTL_SUCCESS, rta_image hdr (body @ link_open i v @ enc_attr IFLA_INFO_KIND (name_bytes ''rmnet'')), sz - 11 - strlen v)"
    and "rta_nested_start (rta_image hdr (body @ link_open i v @ enc_attr IFLA_INFO_KIND (name_bytes ''rmnet''))) (sz - 11 - strlen v) IFLA_INFO_DATA =
      Some (RMNETCTL_SUCCESS, 60 + length body + align4 (Suc (strlen v)), rta_image hdr (body @ rmnet_open i v), sz - 11 - strlen v)"
    and "fits hdr (body @ rmnet_open i v)"
proof -
  have a: "align4 (Suc (strlen v)) \<le> 19" using align4_le[of "Suc (strlen v)"] v by simp
  have f1: "fits hdr (body @ enc_attr IFLA_LINK (le_bytes 4 i))" using f b by auto
  have f2: "fits hdr (body @ link_attrs i v)" using f b a by (auto intro!: fits_more dvd_add)
  have f3: "fits hdr (body @ link_open i v)" using f b a by (auto intro!: fits_more dvd_add)
  have f4: "fits hdr (body @ link_open i v @ enc_attr IFLA_INFO_KIND (name_bytes ''rmnet''))"
    using f b a by (auto intro!: fits_more dvd_add)
  show "fits hdr (body @ rmnet_open i v)" using f b a by (auto intro!: fits_more dvd_add)
  show "rta_put_u32 (rta_image hdr body) sz IFLA_LINK i =
      Some (RMNETCTL_SUCCESS, rta_image hdr (body @ enc_attr IFLA_LINK (le_bytes 4 i)), sz - 4)"
    using f b sz by (simp add: rta_put_u32_image)
  show "rta_put_string (rta_image hdr (body @ enc_attr IFLA_LINK (le_bytes 4 i))) (sz - 4) IFLA_IFNAME v =
      Some (RMNETCTL_SUCCESS, rta_image hdr (body @ link_attrs i v), sz - 5 - strlen v)"
    using f1 b v sz a by (simp add: rta_put_string_image link_attrs_def)
  show "rta_nested_start (rta_image hdr (body @ link_attrs i v)) (sz - 5 - strlen v) IFLA_LINKINFO =
      Some (RMNETCTL_SUCCESS, 44 + length body + align4 (Suc (strlen v)), rta_image hdr (body @ link_open i v), sz - 5 - strlen v)"
    using f2 b v sz a by (simp add: rta_nested_start_image link_open_def)
  show "rta_put_string (rta_image hdr (body @ link_open i v)) (sz - 5 - strlen v) IFLA_INFO_KIND ''rmnet'' =
      Some (RMNETCTL_SUCCESS, rta_image hdr (body @ link_open i v @ enc_attr IFLA_INFO_KIND (name_bytes ''rmnet'')), sz - 11 - strlen v)"
    using f3 b v sz a by (simp add: rta_put_string_image)
  show "rta_nested_start (rta_image hdr (body @ link_open i v @ enc_attr IFLA_INFO_KIND (name_bytes ''rmnet''))) (sz - 11 - strlen v) IFLA_INFO_DATA =
      Some (RMNETCTL_SUCCESS, 60 + length body + align4 (Suc (strlen v)), rta_image hdr (body @ rmnet_open i v), sz - 11 - strlen v)"
    using f4 b v sz a by (simp add: rta_nested_start_image rmnet_open_def)
qed

lemma close_steps:
  assumes f: "fits hdr body" and b: "length body + length d \<le> 440" "4 dvd length d" and v: "strlen v < 16"
  shows "rta_nested_end (rta_image hdr (body @ rmnet_open i v @ d)) (60 + length body + align4 (Suc (strlen v))) =
      Some (rta_image hdr (body @ link_open i v @ enc_attr IFLA_INFO_KIND (name_bytes ''rmnet'') @ enc_attr IFLA_INFO_DATA d))"
    and "rta_nested_end (rta_image hdr (body @ link_open i v @ enc_attr IFLA_INFO_KIND (name_bytes ''rmnet'') @ enc_attr IFLA_INFO_DATA d))
       (44 + length body + align4 (Suc (strlen v))) = Some (rta_image hdr (body @ link_attrs i v @ rmnet_attrs d))"
proof -
  have a: "align4 (Suc (strlen v)) \<le> 19" using align4_le[of "Suc (strlen v)"] v by simp
  let ?k = "enc_attr IFLA_INFO_KIND (name_bytes ''rmnet'')"
  have f5: "fits hdr (body @ rmnet_open i v @ d)" using f b a by (auto intro!: fits_more dvd_add)
  have f6: "fits hdr (body @ link_open i v @ ?k @ enc_attr IFLA_INFO_DATA d)" using f b a by (auto intro!: fits_more dvd_add)
  show "rta_nested_end (rta_image hdr (body @ rmnet_open i v @ d)) (60 + length body + align4 (Suc (strlen v))) =
      Some (rta_image hdr (body @ link_open i v @ ?k @ enc_attr IFLA_INFO_DATA d))"
    using rta_nested_end_image[of hdr "body @ link_open i v @ ?k" IFLA_INFO_DATA d "60 + length body + align4 (Suc (strlen v))"] f5 b(2)
    by (simp add: rmnet_open_def)
  show "rta_nested_end (rta_image hdr (body @ link_open i v @ ?k @ enc_attr IFLA_INFO_DATA d))
       (44 + length body + align4 (Suc (strlen v))) = Some (rta_image hdr (body @ link_attrs i v @ rmnet_attrs d))"
    using rta_nested_end_image[of hdr "body @ link_attrs i v" IFLA_LINKINFO "?k @ enc_attr IFLA_INFO_DATA d" "44 + length body + align4 (Suc (strlen v))"] f6 b(2)
    by (simp add: link_open_def rmnet_attrs_def)
qed

lemma length_newlink_data [simp]: "length (newlink_data x f) = (if f = 0 then 8 else 20)"
  by (simp add: newlink_data_def)

lemma fill_newlink_image:
  assumes f: "fits hdr body" and b: "length body \<le> 400" and v: "strlen v < 16" and sz: "400 < sz" "sz < 2 ^ 31"
  shows "\<exists>sz'. rmnet_fill_newlink_msg (rta_image hdr body) sz i v x fl =
    Some (RMNETCTL_SUCCESS, rta_image hdr (body @ link_attrs i v @ rmnet_attrs (newlink_data x fl)), sz')"
proof -
  note steps = open_steps[OF assms, of i]
  have a: "align4 (Suc (strlen v)) \<le> 19" using align4_le[of "Suc (strlen v)"] v by simp
  let ?b = "body @ rmnet_open i v" and ?m = "enc_attr RMNETCTL_IFLA_MUX_ID (le_bytes 2 (ucast x :: u16))"
  have mux: "rta_put_u16 (rta_image hdr ?b) (sz - 11 - strlen v) RMNETCTL_IFLA_MUX_ID (ucast x) =
     Some (RMNETCTL_SUCCESS, rta_image hdr (?b @ ?m), sz - 13 - strlen v)"
    using rta_put_u16_image[OF steps(6), of "sz - 11 - strlen v"] b v sz a by simp
  have f7: "fits hdr (?b @ ?m)" using steps(6) by (rule fits_attr) (use b a in simp)
  have flags: "rta_put (rta_image hdr (?b @ ?m)) (sz - 13 - strlen v) RMNETCTL_IFLA_FLAGS 8 (Some (le_bytes 4 fl @ le_bytes 4 fl)) =
     Some (RMNETCTL_SUCCESS, rta_image hdr ((?b @ ?m) @ enc_attr RMNETCTL_IFLA_FLAGS (le_bytes 4 fl @ le_bytes 4 fl)), sz - 13 - strlen v - 8)"
    by (rule rta_put_data[OF f7]) (use b v sz a in simp_all)
  have "length body + length (newlink_data x fl) \<le> 440" "4 dvd length (newlink_data x fl)" using b by simp_all
  note close = close_steps[OF f this v, of i]
  show ?thesis
    unfolding rmnet_fill_newlink_msg_def steps(1-5) bind.simps prod.case mux flags
    using close by (cases "fl = 0") (simp_all add: newlink_data_def)
qed

lemma length_tcmsg_bytes [simp]: "length (tcmsg_bytes t) = 20"
  by (simp add: tcmsg_bytes_def)

text \<open>One data attribute of at most 20 bytes: the flow messages and the uplink parameters.\<close>

lemma put_one_image:
  assumes f: "fits hdr body" and b: "length body \<le> 400" and v: "strlen v < 16" and sz: "400 < sz" "sz < 2 ^ 31"
    and d: "length d \<le> 20" "4 dvd length d" "len = length d"
  shows "rta_put (rta_image hdr (body @ rmnet_open i v)) (sz - 11 - strlen v) ty len (Some d) =
     Some (RMNETCTL_SUCCESS, rta_image hdr (body @ rmnet_open i v @ enc_attr ty d), sz - 11 - strlen v - len)"
    and "rta_nested_end (rta_image hdr (body @ rmnet_open i v @ enc_attr ty d)) (60 + length body + align4 (Suc (strlen v))) =
      Some (rta_image hdr (body @ link_open i v @ enc_attr IFLA_INFO_KIND (name_bytes ''rmnet'') @ enc_attr IFLA_INFO_DATA (enc_attr ty d)))"
    and "rta_nested_end (rta_image hdr (body @ link_open i v @ enc_attr IFLA_INFO_KIND (name_bytes ''rmnet'') @ enc_attr IFLA_INFO_DATA (enc_attr ty d)))
       (44 + length body + align4 (Suc (strlen v))) = Some (rta_image hdr (body @ link_attrs i v @ rmnet_attrs (enc_attr ty d)))"
proof -
  have a: "align4 (Suc (strlen v)) \<le> 19" using align4_le[of "Suc (strlen v)"] v by simp
  show "rta_put (rta_image hdr (body @ rmnet_open i v)) (sz - 11 - strlen v) ty len (Some d) =
     Some (RMNETCTL_SUCCESS, rta_image hdr (body @ rmnet_open i v @ enc_attr ty d), sz - 11 - strlen v - len)"
    using rta_put_data[OF open_steps(6)[OF assms(1-5), of i] _ _ _ d(3), of "sz - 11 - strlen v" ty] b v sz a d by simp
  have "length body + length (enc_attr ty d) \<le> 440" "4 dvd length (enc_attr ty d)" using b d by simp_all
  from close_steps[OF f this v, of i]
  show "rta_nested_end (rta_image hdr (body @ rmnet_open i v @ enc_attr ty d)) (60 + length body + align4 (Suc (strlen v))) =
      Some (rta_image hdr (body @ link_open i v @ enc_attr IFLA_INFO_KIND (name_bytes ''rmnet'') @ enc_attr IFLA_INFO_DATA (enc_attr ty d)))"
    "rta_nested_end (rta_image hdr (body @ link_open i v @ enc_attr IFLA_INFO_KIND (name_bytes ''rmnet'') @ enc_attr IFLA_INFO_DATA (enc_attr ty d)))
       (44 + length body + align4 (Suc (strlen v))) = Some (rta_image hdr (body @ link_attrs i v @ rmnet_attrs (enc_attr ty d)))"
    by simp_all
qed

lemma fill_flow_image:
  assumes "fits hdr body" "length body \<le> 400" "strlen v < 16" "400 < sz" "sz < 2 ^ 31"
  shows "\<exists>sz'. rmnet_fill_flow_msg (rta_image hdr body) sz i v t =
    Some (RMNETCTL_SUCCESS, rta_image hdr (body @ link_attrs i v @ rmnet_attrs (enc_attr RMNETCTL_IFLA_DFC_QOS (tcmsg_bytes t))), sz')"
proof -
  have "length (tcmsg_bytes t) \<le> 20" "4 dvd length (tcmsg_bytes t)" "20 = length (tcmsg_bytes t)" by simp_all
  note put = put_one_image[OF assms this, of i RMNETCTL_IFLA_DFC_QOS]
  show ?thesis
    unfolding rmnet_fill_flow_msg_def open_steps(1-5)[OF assms, of i] bind.simps prod.case
    using put by simp
qed

lemma length_rmnet_attrs [simp]: "4 dvd length d \<Longrightarrow> length (rmnet_attrs d) = 20 + length d"
  by (simp add: rmnet_attrs_def)

lemma fits_link:
  assumes "fits hdr body" "length body \<le> 400" "strlen v < 16" "length d \<le> 24" "4 dvd length d"
  shows "fits hdr (body @ link_attrs i v @ rmnet_attrs d)"
  using assms align4_le[of "Suc (strlen v)"] by (auto intro!: fits_more dvd_add)

section \<open>Reading back\<close>

lemma rd16_drop: "drop off buf = le_bytes 2 w @ r \<Longrightarrow> rd16 off buf = w"
  by (simp add: rd16_def get_at_def)

lemma drop_attr:
  assumes "drop off buf = enc_attr t d @ r"
  shows "drop (off + (4 + align4 (length d))) buf = r"
  using arg_cong[OF assms, of "drop (4 + align4 (length d))"] by (simp add: add.commute)

lemma attr_header:
  assumes "drop off buf = enc_attr t d @ r" "length d + 4 < 65536"
  shows "unat (rd16 off buf) = 4 + length d" "rta_type buf off = t" "off + 4 \<le> length buf"
    "get_at (off + 4) (length d) buf = d"
proof -
  have "drop off buf = le_bytes 2 (of_nat (4 + length d) :: u16) @ le_bytes 2 t @ d @ replicate (align4 (length d) - length d) 0 @ r"
    using assms(1) by (simp add: enc_attr_def)
  note e = this
  have "rd16 off buf = of_nat (4 + length d)" using rd16_drop[OF e] .
  then show "unat (rd16 off buf) = 4 + length d" using assms(2) by (simp add: unat_of_nat_lt del: of_nat_add)
  have "drop (off + 2) buf = le_bytes 2 t @ d @ replicate (align4 (length d) - length d) 0 @ r"
    using arg_cong[OF e, of "drop 2"] by (simp add: add.commute)
  then show "rta_type buf off = t" unfolding rta_type_def by (rule rd16_drop)
  have "drop (off + 4) buf = d @ replicate (align4 (length d) - length d) 0 @ r"
    using arg_cong[OF e, of "drop 4"] by (simp add: add.commute)
  then show "get_at (off + 4) (length d) buf = d" by (simp add: get_at_def)
  have "4 \<le> length (drop off buf)" unfolding e by simp
  then show "off + 4 \<le> length buf" by simp
qed

lemma rta_ok_attr:
  assumes "drop off buf = enc_attr t d @ r" "length d + 4 < 65536" "int (4 + length d) \<le> len"
  shows "rta_ok buf off len = Some True"
  using attr_header[OF assms(1,2)] assms(3) by (auto simp: rta_ok_def)

lemma rta_ok_end: "len < 4 \<Longrightarrow> rta_ok buf off len = Some False"
  by (simp add: rta_ok_def)

definition enc_attrs :: "(u16 \<times> bytes) list \<Rightarrow> bytes" where
  "enc_attrs xs = concat (map (\<lambda>(t, d). enc_attr t d) xs)"

lemma enc_attrs_simps [simp]:
  "enc_attrs [] = []" "enc_attrs ((t, d) # xs) = enc_attr t d @ enc_attrs xs" "enc_attrs (xs @ ys) = enc_attrs xs @ enc_attrs ys"
  by (simp_all add: enc_attrs_def)

definition short_attrs :: "(u16 \<times> bytes) list \<Rightarrow> bool" where
  "short_attrs xs \<longleftrightarrow> (\<forall>(t, d) \<in> set xs. length d + 4 < 65536)"

lemma short_attrs_simps [simp]: "short_attrs []" "short_attrs ((t, d) # xs) \<longleftrightarrow> length d + 4 < 65536 \<and> short_attrs xs"
  by (auto simp: short_attrs_def)

text \<open>\<open>rta_find\<close> finds the first attribute of the type, and nothing when there is none.\<close>

lemma rta_find_attrs:
  assumes "drop off buf = enc_attrs xs @ r" "short_attrs xs" "len = int (length (enc_attrs xs))" "ty AND NLA_TYPE_MASK = ty"
  shows "case map_of xs ty of None \<Rightarrow> rta_find buf off len ty = Some None
    | Some d \<Rightarrow> length d + 4 < 65536 \<and> (\<exists>p r'. rta_find buf off len ty = Some (Some p) \<and> drop p buf = enc_attr ty d @ r')"
  using assms
proof (induction xs arbitrary: off len)
  case Nil
  then show ?case by (subst rta_find.simps) (simp add: rta_ok_end)
next
  case (Cons a xs)
  obtain t d where a: "a = (t, d)" by fastforce
  have e: "drop off buf = enc_attr t d @ (enc_attrs xs @ r)" and s: "length d + 4 < 65536"
    using Cons.prems a by simp_all
  have ok: "rta_ok buf off len = Some True"
    using rta_ok_attr[OF e s] Cons.prems(3) a align4_ge[of "length d"] by simp
  note h = attr_header[OF e s]
  show ?case
  proof (cases "t = ty")
    case True
    then show ?thesis using a e s ok h by (subst (2) rta_find.simps) (auto simp: Cons.prems(4))
  next
    case False
    have eq: "rta_find buf off len ty = rta_find buf (off + (4 + align4 (length d))) (len - int (4 + align4 (length d))) ty"
      using ok h False Cons.prems(4) by (subst rta_find.simps) simp
    have m: "map_of (a # xs) ty = map_of xs ty" using a False by simp
    show ?thesis unfolding eq m
      by (rule Cons.IH[OF drop_attr[OF e] _ _ Cons.prems(4)]) (use Cons.prems a in simp_all)
  qed
qed

text \<open>
  \<open>rta_parse\<close> keeps the last attribute of each type below the table size; an attribute whose type is
  the table size itself is a write outside the table.
\<close>

definition masked :: "u16 \<Rightarrow> nat" where
  "masked t = unat (t AND NLA_TYPE_MASK)"

fun last_of :: "(u16 \<times> bytes) list \<Rightarrow> nat \<Rightarrow> bytes option" where
  "last_of [] k = None"
| "last_of ((t, d) # xs) k = (case last_of xs k of Some e \<Rightarrow> Some e | None \<Rightarrow> if masked t = k then Some d else None)"

definition points_to :: "bytes \<Rightarrow> nat option \<Rightarrow> bytes \<Rightarrow> bool" where
  "points_to buf q d \<longleftrightarrow> length d + 4 < 65536 \<and> (\<exists>p t r. q = Some p \<and> drop p buf = enc_attr t d @ r)"

lemma rta_parse_loop_step:
  assumes "drop off buf = enc_attr t d @ r" "length d + 4 < 65536" "int (4 + length d) \<le> len"
  shows "rta_parse_loop tb mx buf off len =
    (if 0 < masked t \<and> masked t \<le> mx
     then if masked t < length tb
          then rta_parse_loop (tb[masked t := Some off]) mx buf (off + (4 + align4 (length d))) (len - int (4 + align4 (length d)))
          else None
     else rta_parse_loop tb mx buf (off + (4 + align4 (length d))) (len - int (4 + align4 (length d))))"
proof -
  have n: "align4 (unat (rd16 off buf)) = 4 + align4 (length d)" using attr_header(1)[OF assms(1,2)] by simp
  show ?thesis
    unfolding rta_parse_loop.simps[of tb mx buf off len] rta_ok_attr[OF assms] attr_header(2)[OF assms(1,2)] n
      masked_def Let_def option.case bool.case
    by (rule refl)
qed

lemma rta_parse_attrs:
  assumes "drop off buf = enc_attrs xs @ r" "short_attrs xs" "len = int (length (enc_attrs xs))" "length tb = mx" "0 < mx"
  shows "if \<exists>(t, d) \<in> set xs. masked t = mx then rta_parse_loop tb mx buf off len = None
    else \<exists>tb'. rta_parse_loop tb mx buf off len = Some tb' \<and> length tb' = mx \<and>
      (\<forall>k. 0 < k \<and> k < mx \<longrightarrow> (case last_of xs k of None \<Rightarrow> tb' ! k = tb ! k | Some d \<Rightarrow> points_to buf (tb' ! k) d))"
  using assms
proof (induction xs arbitrary: off len tb)
  case Nil
  then show ?case by (simp add: rta_ok_end rta_parse_loop.simps[of tb mx buf off 0])
next
  case (Cons a xs)
  obtain t d where a: "a = (t, d)" by fastforce
  have e: "drop off buf = enc_attr t d @ (enc_attrs xs @ r)" and s: "length d + 4 < 65536" and sx: "short_attrs xs"
    using Cons.prems a by simp_all
  have l: "int (4 + length d) \<le> len" using Cons.prems(3) a align4_ge[of "length d"] by simp
  let ?o = "off + (4 + align4 (length d))" and ?n = "len - int (4 + align4 (length d))"
  note step = rta_parse_loop_step[OF e s l]
  have n: "?n = int (length (enc_attrs xs))" using Cons.prems(3) a by simp
  note IH = Cons.IH[OF drop_attr[OF e] sx n _ Cons.prems(5)]
  have p: "points_to buf (Some off) d" using e s unfolding points_to_def by blast
  show ?case
  proof (cases "masked t = mx")
    case True
    then show ?thesis using step[of tb mx] Cons.prems(4,5) a by auto
  next
    case False
    let ?tb = "if 0 < masked t \<and> masked t \<le> mx then tb[masked t := Some off] else tb"
    have loop: "rta_parse_loop tb mx buf off len = rta_parse_loop ?tb mx buf ?o ?n"
      using step[of tb mx] False Cons.prems(4) by auto
    have tb: "length ?tb = mx" using Cons.prems(4) by simp
    show ?thesis
    proof (cases "\<exists>(t, d) \<in> set xs. masked t = mx")
      case True
      then show ?thesis using IH[OF tb] loop a by auto
    next
      case nf: False
      then obtain tb' where tb': "rta_parse_loop ?tb mx buf ?o ?n = Some tb'" "length tb' = mx"
        "\<And>k. 0 < k \<and> k < mx \<Longrightarrow> (case last_of xs k of None \<Rightarrow> tb' ! k = ?tb ! k | Some d \<Rightarrow> points_to buf (tb' ! k) d)"
        using IH[OF tb] by auto
      have "case last_of (a # xs) k of None \<Rightarrow> tb' ! k = tb ! k | Some d \<Rightarrow> points_to buf (tb' ! k) d"
        if k: "0 < k \<and> k < mx" for k
        using tb'(3)[OF k] p k Cons.prems(4) a by (cases "last_of xs k") (auto split: if_splits)
      then show ?thesis using nf tb' loop a False by auto
    qed
  qed
qed

end
