(* ===== verification/Rmnet_Rt_Spec.thy ===== *)
theory Rmnet_Rt_Spec
  imports Rmnet_Rt Rta_Spec
begin

text \<open>
  What a request of the routing-netlink API promises: the requests as a datatype, the bytes each one
  stands for, and the protocol around them (look the names up, send once, read one answer).
\<close>

section \<open>Requests\<close>

datatype rt_request =
    CreateVnd "string option" "string option" u8 u32
  | DelVnd "string option"
  | ChangeVnd "string option" "string option" u8 u32
  | BridgeVnd "string option" "string option"
  | SetUplink "string option" "string option" u8 u16 u32 u8
  | ActivateFlow "string option" "string option" u8 u32 u32 u32
  | DeleteFlow "string option" "string option" u8 u32 u32
  | ControlFlow "string option" "string option" u8 u16 u32 u8
  | FlowUp "string option" "string option" u32 u32 u32 u32
  | FlowDown "string option" "string option" u32
  | QmiScale "string option" "string option" u32
  | WdaFreq "string option" "string option" u32

fun rt_perform :: "env \<Rightarrow> bytes \<Rightarrow> rt_request \<Rightarrow> rctx \<Rightarrow> (int \<times> rctx) option" where
  "rt_perform K ack0 (CreateVnd d v m f) st = rtrmnet_ctl_newvnd K ack0 d v m f st"
| "rt_perform K ack0 (DelVnd v) st = rtrmnet_ctl_delvnd K ack0 v st"
| "rt_perform K ack0 (ChangeVnd d v m f) st = rtrmnet_ctl_changevnd K ack0 d v m f st"
| "rt_perform K ack0 (BridgeVnd d v) st = rtrmnet_ctl_bridgevnd K ack0 d v st"
| "rt_perform K ack0 (SetUplink d v pc bc tm ft) st = rtrmnet_set_uplink_aggregation_params K ack0 d v pc bc tm ft st"
| "rt_perform K ack0 (ActivateFlow d v b fl ip h) st = rtrmnet_activate_flow K ack0 d v b fl ip h st"
| "rt_perform K ack0 (DeleteFlow d v b fl ip) st = rtrmnet_delete_flow K ack0 d v b fl ip st"
| "rt_perform K ack0 (ControlFlow d v b sq g a) st = rtrmnet_control_flow K ack0 d v b sq g a st"
| "rt_perform K ack0 (FlowUp d v i e n fl) st = rtrmnet_flow_state_up K ack0 d v i e n fl st"
| "rt_perform K ack0 (FlowDown d v i) st = rtrmnet_flow_state_down K ack0 d v i st"
| "rt_perform K ack0 (QmiScale d v s) st = rtrmnet_set_qmi_scale K ack0 d v s st"
| "rt_perform K ack0 (WdaFreq d v q) st = rtrmnet_set_wda_freq K ack0 d v q st"

text \<open>The arguments a request accepts; \<open>is_name\<close> is a string shorter than an interface name's 16 bytes.\<close>

definition is_name :: "string option \<Rightarrow> bool" where
  "is_name s \<longleftrightarrow> (case s of None \<Rightarrow> False | Some x \<Rightarrow> strlen x < 16)"

fun rt_ok :: "rt_request \<Rightarrow> bool" where
  "rt_ok (CreateVnd d v m f) = (is_name d \<and> is_name v)"
| "rt_ok (DelVnd v) = (v \<noteq> None)"
| "rt_ok (ChangeVnd d v m f) = (is_name d \<and> is_name v)"
| "rt_ok (BridgeVnd d v) = (d \<noteq> None \<and> is_name v)"
| "rt_ok (SetUplink d v pc bc tm ft) = (is_name d \<and> is_name v)"
| "rt_ok (ActivateFlow d v b fl ip h) = (is_name d \<and> is_name v)"
| "rt_ok (DeleteFlow d v b fl ip) = (is_name d \<and> is_name v)"
| "rt_ok (ControlFlow d v b sq g a) = (is_name d \<and> is_name v)"
| "rt_ok (FlowUp d v i e n fl) = (is_name d \<and> is_name v)"
| "rt_ok (FlowDown d v i) = (is_name d \<and> is_name v)"
| "rt_ok (QmiScale d v s) = (is_name d \<and> is_name v \<and> s \<noteq> 0)"
| "rt_ok (WdaFreq d v q) = (is_name d \<and> is_name v)"

text \<open>The interfaces whose index a request looks up, in this order.\<close>

fun rt_names :: "rt_request \<Rightarrow> string list" where
  "rt_names (DelVnd v) = [c_str (the v)]"
| "rt_names (BridgeVnd d v) = [c_str (the d), c_str (the v)]"
| "rt_names (CreateVnd d v m f) = [c_str (the d)]"
| "rt_names (ChangeVnd d v m f) = [c_str (the d)]"
| "rt_names (SetUplink d v pc bc tm ft) = [c_str (the d)]"
| "rt_names (ActivateFlow d v b fl ip h) = [c_str (the d)]"
| "rt_names (DeleteFlow d v b fl ip) = [c_str (the d)]"
| "rt_names (ControlFlow d v b sq g a) = [c_str (the d)]"
| "rt_names (FlowUp d v i e n fl) = [c_str (the d)]"
| "rt_names (FlowDown d v i) = [c_str (the d)]"
| "rt_names (QmiScale d v s) = [c_str (the d)]"
| "rt_names (WdaFreq d v q) = [c_str (the d)]"

section \<open>The bytes of a request\<close>

definition rt_bytes :: "u16 \<Rightarrow> u16 \<Rightarrow> u32 \<Rightarrow> u32 \<Rightarrow> bytes \<Rightarrow> bytes" where
  "rt_bytes ty fl seq ifi attrs = le_bytes 4 (of_nat (32 + length attrs) :: u32) @ le_bytes 2 ty @ le_bytes 2 fl @
     le_bytes 4 seq @ replicate 8 0 @ le_bytes 4 ifi @ replicate 8 0 @ attrs"

definition flow_attrs :: "u32 \<Rightarrow> string option \<Rightarrow> u8 \<Rightarrow> u8 \<Rightarrow> u16 \<Rightarrow> u32 \<Rightarrow> u32 \<Rightarrow> u32 \<Rightarrow> u32 \<Rightarrow> bytes" where
  "flow_attrs i v family pad1 pad2 ifindex handle parent info =
    link_attrs i (the v) @ rmnet_attrs (enc_attr RMNETCTL_IFLA_DFC_QOS
      (tcmsg_bytes \<lparr>tcm_family = family, tcm_pad1 = pad1, tcm_pad2 = pad2, tcm_ifindex = ifindex,
         tcm_handle = handle, tcm_parent = parent, tcm_info = info\<rparr>))"

fun rt_image :: "rt_request \<Rightarrow> u32 \<Rightarrow> u32 list \<Rightarrow> bytes" where
  "rt_image (CreateVnd d v m f) seq is = rt_bytes 16 0x605 seq 0 (enc_attr RMNET_IFLA_NUM_TX_QUEUES (le_bytes 4 (10 :: u32)) @
     link_attrs (is ! 0) (the v) @ rmnet_attrs (newlink_data m f))"
| "rt_image (DelVnd v) seq is = rt_bytes 17 5 seq (is ! 0) []"
| "rt_image (ChangeVnd d v m f) seq is = rt_bytes 16 5 seq 0 (link_attrs (is ! 0) (the v) @ rmnet_attrs (newlink_data m f))"
| "rt_image (BridgeVnd d v) seq is = rt_bytes 16 5 seq (is ! 0) (enc_attr IFLA_MASTER (le_bytes 4 (is ! 1)))"
| "rt_image (SetUplink d v pc bc tm ft) seq is = rt_bytes 16 5 seq 0 (link_attrs (is ! 0) (the v) @
     rmnet_attrs (enc_attr RMNETCTL_IFLA_UPLINK_PARAMS (uplink_params_bytes bc pc ft tm)))"
| "rt_image (ActivateFlow d v b fl ip h) seq is = rt_bytes 16 5 seq 0 (flow_attrs (is ! 0) v 1 b 0 ip h fl 0)"
| "rt_image (DeleteFlow d v b fl ip) seq is = rt_bytes 16 5 seq 0 (flow_attrs (is ! 0) v 2 b 0 ip 0 fl 0)"
| "rt_image (ControlFlow d v b sq g a) seq is = rt_bytes 16 5 seq 0 (flow_attrs (is ! 0) v 3 b sq 0 0 (ucast a) g)"
| "rt_image (FlowUp d v i e n fl) seq is = rt_bytes 16 5 seq 0 (flow_attrs (is ! 0) v 4 0 0 fl i n e)"
| "rt_image (FlowDown d v i) seq is = rt_bytes 16 5 seq 0 (flow_attrs (is ! 0) v 5 0 0 0 i 0 0)"
| "rt_image (QmiScale d v s) seq is = rt_bytes 16 5 seq 0 (flow_attrs (is ! 0) v 6 0 0 s 0 0 0)"
| "rt_image (WdaFreq d v q) seq is = rt_bytes 16 5 seq 0 (flow_attrs (is ! 0) v 7 0 0 q 0 0 0)"

section \<open>The protocol\<close>

fun resolve :: "env \<Rightarrow> string list \<Rightarrow> rctx \<Rightarrow> u32 list option \<times> int \<times> rctx" where
  "resolve K [] st = (Some [], 0, st)"
| "resolve K (n # ns) st = (case if_nametoindex K n st of (i, err, st) \<Rightarrow>
     if i = 0 then (None, err, st)
     else (case resolve K ns st of (r, err, st) \<Rightarrow> (map_option ((#) i) r, err, st)))"

definition rt_finish :: "env \<Rightarrow> bytes \<Rightarrow> bytes \<Rightarrow> rctx \<Rightarrow> int \<times> rctx" where
  "rt_finish K ack0 msg st =
    (let (a, tr) = sys K (SysSend (netlink_fd (the (hndl st))) msg) (trace st); st = st\<lparr>trace := tr\<rparr> in
     if ret a < 0 then (RMNETCTL_LIB_ERR, set_ecode RMNETCTL_API_ERR_MESSAGE_SEND st)
     else rmnet_get_ack K ack0 st)"

definition rt_spec :: "env \<Rightarrow> bytes \<Rightarrow> rt_request \<Rightarrow> rctx \<Rightarrow> int \<times> rctx" where
  "rt_spec K ack0 r st =
    (if hndl st = None \<or> ecode st = None \<or> \<not> rt_ok r then (RMNETCTL_INVALID_ARG, st)
     else case resolve K (rt_names r) (next_id st) of
       (None, err, st') \<Rightarrow> (RMNETCTL_KERNEL_ERR, set_ecode (of_int err) st')
     | (Some is, _, st') \<Rightarrow> rt_finish K ack0 (rt_image r (seq_of st) is) st')"

section \<open>The code sends these bytes\<close>

lemma bad_name_iff: "bad_name s \<longleftrightarrow> \<not> is_name s"
  by (auto simp: bad_name_def is_name_def rmnetctl_check_dev_name_def split: option.splits)

lemma is_name_strlen: "is_name s \<Longrightarrow> strlen (the s) < 16" "is_name s \<Longrightarrow> s \<noteq> None"
  by (auto simp: is_name_def split: option.splits)

definition hdr_of :: "u16 \<Rightarrow> u16 \<Rightarrow> u32 \<Rightarrow> u32 \<Rightarrow> bytes" where
  "hdr_of ty fl seq ifi = le_bytes 2 ty @ le_bytes 2 fl @ le_bytes 4 seq @ replicate 8 0 @ le_bytes 4 ifi @ replicate 8 0"

lemma length_hdr_of [simp]: "length (hdr_of ty fl seq ifi) = 28"
  by (simp add: hdr_of_def)

lemma fits_Nil [simp]: "fits (hdr_of ty fl seq ifi) []"
  by (simp add: fits_def)

lemma le_bytes_0 [simp]: "le_bytes n 0 = replicate n 0"
proof -
  have "nat_le n 0 = replicate n 0" by (induction n) auto
  then show ?thesis by (simp add: le_bytes_def)
qed

lemma nlmsg_init_image: "nlmsg_init ty fl seq = rta_image (hdr_of ty fl seq 0) []"
  by (simp add: nlmsg_init_def rta_image_def hdr_of_def put_at_def replicate_add[symmetric])

lemma set_ifi_index_image: "set_ifi_index i (rta_image (hdr_of ty fl seq 0) []) = rta_image (hdr_of ty fl seq i) []"
  by (simp add: set_ifi_index_def rta_image_def hdr_of_def put_at_def replicate_add[symmetric])

lemma rt_send_image:
  assumes "fits (hdr_of ty fl seq i) body"
  shows "rt_send K ack0 (rta_image (hdr_of ty fl seq i) body) st = Some (rt_finish K ack0 (rt_bytes ty fl seq i body) st)"
proof -
  have len: "unat (rd32 0 (rta_image (hdr_of ty fl seq i) body)) = 32 + length body"
    unfolding rta_image_len by (rule unat_of_len[OF assms])
  have "take (32 + length body) (rta_image (hdr_of ty fl seq i) body) = rt_bytes ty fl seq i body"
    by (simp add: rta_image_def rt_bytes_def hdr_of_def)
  then show ?thesis using assms
    by (simp add: rt_send_def len rt_finish_def sys_def fits_def[of _ body] Let_def split: prod.splits)
qed

lemma if_nametoindex_c_str [simp]: "if_nametoindex K (c_str s) st = if_nametoindex K s st"
  by (simp add: if_nametoindex_def)

lemma if_nametoindex_keeps:
  "if_nametoindex K s st = (i, err, st') \<Longrightarrow> hndl st' = hndl st \<and> ecode st' = ecode st \<and>
     trace st' = trace st @ [SysIfIndex (c_str s)] \<and> i = of_int (ret (K (trace st @ [SysIfIndex (c_str s)])))"
  by (auto simp: if_nametoindex_def sys_def)

lemma set_ecode_set_ecode [simp]: "set_ecode e ((set_ecode e' st)\<lparr>trace := tr\<rparr>) = set_ecode e (st\<lparr>trace := tr\<rparr>)"
  by (cases "ecode st") (simp_all add: set_ecode_def)

lemma rt_finish_set_ecode:
  assumes "hndl st \<noteq> None" "ecode st \<noteq> None"
  shows "rt_finish K ack0 msg (set_ecode e st) = rt_finish K ack0 msg st"
proof -
  have "set_ecode e' (set_ecode e st\<lparr>trace := tr\<rparr>) = set_ecode e' (st\<lparr>trace := tr\<rparr>)" for e' tr
    by (simp add: set_ecode_def option.map_comp comp_def)
  then show ?thesis using assms
    by (auto simp: rt_finish_def rmnet_get_ack_def sys_def Let_def set_ecode_def split: option.splits)
qed

lemma next_id_simps [simp]:
  "hndl (next_id st) = None \<longleftrightarrow> hndl st = None" "ecode (next_id st) = ecode st" "trace (next_id st) = trace st"
  "hndl st = Some h \<Longrightarrow> hndl (next_id st) = Some (h\<lparr>transaction_id := transaction_id h + 1\<rparr>)"
  by (simp_all add: next_id_def)

lemma newvnd_spec: "rtrmnet_ctl_newvnd K ack0 d v m f st = Some (rt_spec K ack0 (CreateVnd d v m f) st)"
proof (cases "hndl st = None \<or> ecode st = None \<or> \<not> is_name d \<or> \<not> is_name v")
  case True
  then show ?thesis using is_name_strlen(2)
    by (auto simp: rtrmnet_ctl_newvnd_def rt_spec_def bad_name_iff)
next
  case False
  obtain i err st' where n: "if_nametoindex K (the d) (next_id st) = (i, err, st')" by (rule prod_cases3)
  have k: "hndl st' = hndl (next_id st)" "ecode st' = ecode st" using if_nametoindex_keeps[OF n] by simp_all
  let ?hdr = "hdr_of RTM_NEWLINK NLM_F_REQUEST_CREATE_EXCL_ACK (seq_of st) 0" and ?q = "enc_attr RMNET_IFLA_NUM_TX_QUEUES (le_bytes 4 (10 :: u32))"
  have q: "rta_put_u32 (rta_image ?hdr []) RTA_SPACE RMNET_IFLA_NUM_TX_QUEUES 10 = Some (RMNETCTL_SUCCESS, rta_image ?hdr ?q, 492)"
    using rta_put_u32_image[OF fits_Nil, of 496 _ _ _ _ RMNET_IFLA_NUM_TX_QUEUES 10] by simp
  have fq: "fits ?hdr ?q" by (simp add: fits_def)
  obtain sz where fill: "rmnet_fill_newlink_msg (rta_image ?hdr ?q) 492 i (the v) m f =
     Some (RMNETCTL_SUCCESS, rta_image ?hdr (?q @ link_attrs i (the v) @ rmnet_attrs (newlink_data m f)), sz)"
    using fill_newlink_image[OF fq, of "the v" 492 i m f] False is_name_strlen by auto
  have b: "fits ?hdr (?q @ link_attrs i (the v) @ rmnet_attrs (newlink_data m f))"
    by (rule fits_link[OF fq]) (use False is_name_strlen in auto)
  show ?thesis
    using False k is_name_strlen(2)[of d] is_name_strlen(2)[of v]
    by (simp del: not_None_eq add: rtrmnet_ctl_newvnd_def rt_spec_def bad_name_iff nlmsg_init_image n q fill rt_send_image[OF b] rt_finish_set_ecode)
qed

lemma flow_spec:
  "rt_flow K ack0 d v t st = Some
    (if hndl st = None \<or> ecode st = None \<or> \<not> is_name d \<or> \<not> is_name v then (RMNETCTL_INVALID_ARG, st)
     else case if_nametoindex K (the d) (next_id st) of (i, err, st') \<Rightarrow>
       if i = 0 then (RMNETCTL_KERNEL_ERR, set_ecode (of_int err) st')
       else rt_finish K ack0 (rt_bytes 16 5 (seq_of st) 0 (link_attrs i (the v) @ rmnet_attrs (enc_attr RMNETCTL_IFLA_DFC_QOS (tcmsg_bytes t)))) st')"
proof (cases "hndl st = None \<or> ecode st = None \<or> \<not> is_name d \<or> \<not> is_name v")
  case True
  then show ?thesis using is_name_strlen(2) by (auto simp: rt_flow_def bad_name_iff)
next
  case False
  obtain i err st' where n: "if_nametoindex K (the d) (next_id st) = (i, err, st')" by (rule prod_cases3)
  let ?hdr = "hdr_of RTM_NEWLINK NLM_F_REQUEST_ACK (seq_of st) 0"
  obtain sz where fill: "rmnet_fill_flow_msg (rta_image ?hdr []) RTA_SPACE i (the v) t =
     Some (RMNETCTL_SUCCESS, rta_image ?hdr (link_attrs i (the v) @ rmnet_attrs (enc_attr RMNETCTL_IFLA_DFC_QOS (tcmsg_bytes t))), sz)"
    using fill_flow_image[OF fits_Nil[of 16 5 "seq_of st" 0], of "the v" 496 i t] False is_name_strlen by auto
  have b: "fits ?hdr ([] @ link_attrs i (the v) @ rmnet_attrs (enc_attr RMNETCTL_IFLA_DFC_QOS (tcmsg_bytes t)))"
    by (rule fits_link[OF fits_Nil]) (use False is_name_strlen in auto)
  show ?thesis
    using False is_name_strlen(2)[of d] is_name_strlen(2)[of v] b
    by (simp del: not_None_eq add: rt_flow_def bad_name_iff nlmsg_init_image n fill rt_send_image)
qed

lemma changevnd_spec: "rtrmnet_ctl_changevnd K ack0 d v m f st = Some (rt_spec K ack0 (ChangeVnd d v m f) st)"
proof (cases "hndl st = None \<or> ecode st = None \<or> \<not> is_name d \<or> \<not> is_name v")
  case True
  then show ?thesis using is_name_strlen(2)
    by (auto simp: rtrmnet_ctl_changevnd_def rt_spec_def bad_name_iff)
next
  case False
  obtain i err st' where n: "if_nametoindex K (the d) (next_id st) = (i, err, st')" by (rule prod_cases3)
  let ?hdr = "hdr_of RTM_NEWLINK NLM_F_REQUEST_ACK (seq_of st) 0"
  obtain sz where fill: "rmnet_fill_newlink_msg (rta_image ?hdr []) RTA_SPACE i (the v) m f =
     Some (RMNETCTL_SUCCESS, rta_image ?hdr (link_attrs i (the v) @ rmnet_attrs (newlink_data m f)), sz)"
    using fill_newlink_image[OF fits_Nil[of 16 5 "seq_of st" 0], of "the v" 496 i m f] False is_name_strlen by auto
  have b: "fits ?hdr ([] @ link_attrs i (the v) @ rmnet_attrs (newlink_data m f))"
    by (rule fits_link[OF fits_Nil]) (use False is_name_strlen in auto)
  show ?thesis
    using False is_name_strlen(2)[of d] is_name_strlen(2)[of v] b
    by (simp del: not_None_eq add: rtrmnet_ctl_changevnd_def rt_spec_def bad_name_iff nlmsg_init_image n fill rt_send_image)
qed

lemma delvnd_spec: "rtrmnet_ctl_delvnd K ack0 v st = Some (rt_spec K ack0 (DelVnd v) st)"
  by (simp add: rtrmnet_ctl_delvnd_def rt_spec_def nlmsg_init_image set_ifi_index_image rt_send_image
      split: prod.splits)

lemma bridgevnd_spec: "rtrmnet_ctl_bridgevnd K ack0 d v st = Some (rt_spec K ack0 (BridgeVnd d v) st)"
proof (cases "hndl st = None \<or> ecode st = None \<or> d = None \<or> \<not> is_name v")
  case True
  then show ?thesis using is_name_strlen(2)
    by (auto simp: rtrmnet_ctl_bridgevnd_def rt_spec_def bad_name_iff)
next
  case False
  obtain i err st' where n: "if_nametoindex K (the d) (next_id st) = (i, err, st')" by (rule prod_cases3)
  obtain j err' st'' where n': "if_nametoindex K (the v) st' = (j, err', st'')" by (rule prod_cases3)
  let ?hdr = "hdr_of RTM_NEWLINK NLM_F_REQUEST_ACK (seq_of st) i" and ?a = "enc_attr IFLA_MASTER (le_bytes 4 j)"
  have q: "rta_put_u32 (rta_image ?hdr []) RTA_SPACE IFLA_MASTER j = Some (RMNETCTL_SUCCESS, rta_image ?hdr ?a, 492)"
    using rta_put_u32_image[OF fits_Nil[of 16 5 "seq_of st" i], of 496 IFLA_MASTER j] by simp
  have b: "fits ?hdr ?a" by (simp add: fits_def)
  show ?thesis
    using False is_name_strlen(2)[of v]
    by (simp del: not_None_eq add: rtrmnet_ctl_bridgevnd_def rt_spec_def bad_name_iff nlmsg_init_image set_ifi_index_image
        n n' q rt_send_image[OF b])
qed

lemma length_uplink_params_bytes [simp]: "length (uplink_params_bytes b p f t) = 8"
  by (simp add: uplink_params_bytes_def)

lemma uplink_spec:
  "rtrmnet_set_uplink_aggregation_params K ack0 d v pc bc tm ft st = Some (rt_spec K ack0 (SetUplink d v pc bc tm ft) st)"
proof (cases "hndl st = None \<or> ecode st = None \<or> \<not> is_name d \<or> \<not> is_name v")
  case True
  then show ?thesis using is_name_strlen(2)
    by (auto simp: rtrmnet_set_uplink_aggregation_params_def rt_spec_def bad_name_iff)
next
  case False
  obtain i err st' where n: "if_nametoindex K (the d) (next_id st) = (i, err, st')" by (rule prod_cases3)
  let ?hdr = "hdr_of RTM_NEWLINK NLM_F_REQUEST_ACK (seq_of st) 0" and ?d = "uplink_params_bytes bc pc ft tm"
  have v: "strlen (the v) < 16" "d \<noteq> None" "v \<noteq> None" using False is_name_strlen by auto
  have z: "length ([] :: bytes) \<le> 400" "400 < (496 :: nat)" "(496 :: nat) < 2 ^ 31" by simp_all
  have d: "length ?d \<le> 20" "4 dvd length ?d" "8 = length ?d" by simp_all
  note o = open_steps[OF fits_Nil[of 16 5 "seq_of st" 0] z(1) v(1) z(2,3), of i, simplified]
  note p = put_one_image[OF fits_Nil[of 16 5 "seq_of st" 0] z(1) v(1) z(2,3) d, of i 4, simplified]
  have b: "fits ?hdr ([] @ link_attrs i (the v) @ rmnet_attrs (enc_attr RMNETCTL_IFLA_UPLINK_PARAMS ?d))"
    by (rule fits_link[OF fits_Nil]) (use v in auto)
  show ?thesis
    using False v(2,3) b
    by (simp del: not_None_eq add: rtrmnet_set_uplink_aggregation_params_def rt_spec_def bad_name_iff nlmsg_init_image n
        o p rt_send_image)
qed

lemmas flow_call_defs = rtrmnet_activate_flow_def rtrmnet_delete_flow_def rtrmnet_control_flow_def
  rtrmnet_flow_state_up_def rtrmnet_flow_state_down_def rtrmnet_set_qmi_scale_def rtrmnet_set_wda_freq_def

lemma rt_perform_spec: "rt_perform K ack0 r st = Some (rt_spec K ack0 r st)"
proof (cases r)
  case (CreateVnd d v m f) then show ?thesis by (simp add: newvnd_spec)
next
  case (DelVnd v) then show ?thesis by (simp add: delvnd_spec)
next
  case (ChangeVnd d v m f) then show ?thesis by (simp add: changevnd_spec)
next
  case (BridgeVnd d v) then show ?thesis by (simp add: bridgevnd_spec)
next
  case (SetUplink d v pc bc tm ft) then show ?thesis by (simp add: uplink_spec)
qed (auto simp: flow_call_defs flow_spec rt_spec_def flow_attrs_def flow_zero_def split: prod.splits)

end
