(* ===== verification/Rmnet_Rt_Api.thy ===== *)
theory Rmnet_Rt_Api
  imports Rmnet_Rt_Spec Rmnet_Api
begin

text \<open>
  The theorems on the routing-netlink API: every request sends the bytes it stands for, its result
  is the driver's, and the reply to a query is read as the attributes it holds.
\<close>

section \<open>The interface of a request\<close>

fun rt_sent :: "sysev list \<Rightarrow> bytes list" where
  "rt_sent [] = []"
| "rt_sent (SysSend fd b # tr) = b # rt_sent tr"
| "rt_sent (_ # tr) = rt_sent tr"

lemma rt_sent_append [simp]: "rt_sent (xs @ ys) = rt_sent xs @ rt_sent ys"
  by (induction xs rule: rt_sent.induct) auto

lemma rt_sent_sys_free [simp]: "rt_sent (sys_free p tr) = rt_sent tr"
  by (simp add: sys_free_def)

lemma resolve_keeps:
  "resolve K ns st = (r, err, st') \<Longrightarrow> hndl st' = hndl st \<and> ecode st' = ecode st \<and>
     rt_sent (trace st') = rt_sent (trace st) \<and> (case r of None \<Rightarrow> True | Some is \<Rightarrow> length is = length ns)"
proof (induction ns arbitrary: st r err st')
  case (Cons n ns)
  obtain i e1 st1 where n: "if_nametoindex K n st = (i, e1, st1)" by (rule prod_cases3)
  obtain r2 e2 st2 where r: "resolve K ns st1 = (r2, e2, st2)" by (rule prod_cases3)
  show ?case using Cons.prems Cons.IH[OF r] if_nametoindex_keeps[OF n]
    by (auto simp: n r split: if_splits option.splits)
qed simp

lemma get_ack_keeps:
  "rmnet_get_ack K ack0 st = (rc, st') \<Longrightarrow> hndl st' = hndl st \<and> rt_sent (trace st') = rt_sent (trace st) \<and>
     rc \<in> {0, 1, 2, 3, 4} \<and> (ecode st' = None \<longleftrightarrow> ecode st = None) \<and>
     (hndl st \<noteq> None \<and> ecode st \<noteq> None \<longrightarrow> rc \<noteq> 3) \<and> (rc = 0 \<longrightarrow> ecode st' = Some RMNETCTL_API_SUCCESS) \<and>
     (rc = 4 \<longrightarrow> (\<exists>fd. last (trace st') = SysRecv fd SIZEOF_nlack False) \<and> ret (K (trace st')) < 0)"
  by (auto simp: rmnet_get_ack_def sys_def Let_def set_ecode_def split: if_splits option.splits)

lemma rt_finish_keeps:
  assumes "rt_finish K ack0 msg st = (rc, st')"
  shows "hndl st' = hndl st" "rt_sent (trace st') = rt_sent (trace st) @ [msg]" "rc \<in> {0, 1, 2, 3, 4}"
    "ecode st' = None \<longleftrightarrow> ecode st = None" "hndl st \<noteq> None \<and> ecode st \<noteq> None \<Longrightarrow> rc \<noteq> 3"
    "rc = 0 \<Longrightarrow> ecode st' = Some RMNETCTL_API_SUCCESS"
    "rc = 4 \<Longrightarrow> (\<exists>fd. last (trace st') = SysRecv fd SIZEOF_nlack False) \<and> ret (K (trace st')) < 0"
  using assms get_ack_keeps[of K ack0 "st\<lparr>trace := trace st @ [SysSend (netlink_fd (the (hndl st))) msg]\<rparr>" rc st']
  by (auto simp: rt_finish_def sys_def Let_def split: if_splits)

text \<open>
  What a kernel with these drivers does: interface indices come from \<open>ifs\<close>, a message is accepted,
  and the next receive on that socket is an acknowledgement with the driver's verdict (0 or an errno).
\<close>

definition rt_kernel :: "env \<Rightarrow> (string \<Rightarrow> u32) \<Rightarrow> (bytes \<Rightarrow> u32) \<Rightarrow> bool" where
  "rt_kernel K ifs drv \<longleftrightarrow>
    (\<forall>tr n. ret (K (tr @ [SysIfIndex n])) = uint (ifs n)) \<and>
    (\<forall>tr fd b. 0 \<le> ret (K (tr @ [SysSend fd b]))) \<and>
    (\<forall>tr fd b. let a = K (tr @ [SysSend fd b, SysRecv fd 292 False]) in
       ret a = 36 \<and> length (data a) = 36 \<and> rd16 4 (data a) = 2 \<and> rd32 16 (data a) = - drv b)"

locale request_call =
  fixes call :: "env \<Rightarrow> bytes \<Rightarrow> rctx \<Rightarrow> (int \<times> rctx) option"
    and ok :: bool
    and names :: "string list"
    and image :: "u32 \<Rightarrow> u32 list \<Rightarrow> bytes"
  assumes protocol: "call K ack0 st = Some
    (if hndl st = None \<or> ecode st = None \<or> \<not> ok then (RMNETCTL_INVALID_ARG, st)
     else case resolve K names (next_id st) of
       (None, err, st') \<Rightarrow> (RMNETCTL_KERNEL_ERR, set_ecode (of_int err) st')
     | (Some is, _, st') \<Rightarrow> rt_finish K ack0 (image (seq_of st) is) st')"
begin

lemma outcome:
  assumes "call K ack0 st = Some (rc, st')" "hndl st = Some h" "ecode st = Some e"
  shows "rc \<in> {RMNETCTL_SUCCESS, RMNETCTL_LIB_ERR, RMNETCTL_KERNEL_ERR, RMNETCTL_INVALID_ARG, RMNETCTL_API_ERR_MESSAGE_RECEIVE_rc} \<and>
    (rc = RMNETCTL_INVALID_ARG \<longleftrightarrow> \<not> ok) \<and> (\<not> ok \<longrightarrow> st' = st) \<and>
    (ok \<longrightarrow> hndl st' = Some (h\<lparr>transaction_id := transaction_id h + 1\<rparr>)) \<and> ecode st' \<noteq> None \<and>
    (rc = RMNETCTL_SUCCESS \<longrightarrow> ecode st' = Some RMNETCTL_API_SUCCESS) \<and>
    (\<exists>bs. rt_sent (trace st') = rt_sent (trace st) @ bs \<and>
       (bs = [] \<or> (\<exists>is. bs = [image (transaction_id h) is] \<and> length is = length names)) \<and>
       (rc = RMNETCTL_SUCCESS \<longrightarrow> bs \<noteq> []) \<and>
       (rc = RMNETCTL_API_ERR_MESSAGE_RECEIVE_rc \<longrightarrow>
         bs \<noteq> [] \<and> (\<exists>fd. last (trace st') = SysRecv fd SIZEOF_nlack False) \<and> ret (K (trace st')) < 0))"
proof (cases ok)
  case False
  then show ?thesis using assms by (simp add: protocol)
next
  case True
  obtain r err st1 where r: "resolve K names (next_id st) = (r, err, st1)" by (rule prod_cases3)
  have k: "hndl st1 = Some (h\<lparr>transaction_id := transaction_id h + 1\<rparr>)" "ecode st1 = Some e"
    "rt_sent (trace st1) = rt_sent (trace st)" "\<And>is. r = Some is \<Longrightarrow> length is = length names"
    using resolve_keeps[OF r] assms(2,3) by (auto simp: next_id_def)
  show ?thesis
  proof (cases r)
    case None
    then have "rc = RMNETCTL_KERNEL_ERR" "st' = set_ecode (of_int err) st1"
      using assms True by (simp_all add: protocol r)
    then show ?thesis using k True by simp
  next
    case (Some ix)
    then have f: "rt_finish K ack0 (image (transaction_id h) ix) st1 = (rc, st')"
      using assms True by (simp add: protocol r seq_of_def)
    show ?thesis
      using rt_finish_keeps[OF f] k(1-3) k(4)[OF Some] True by auto
  qed
qed

lemma resolve_kernel:
  assumes "rt_kernel K ifs drv"
  shows "case resolve K ns st of (r, err, st') \<Rightarrow> r = (if \<forall>n \<in> set ns. ifs (c_str n) \<noteq> 0 then Some (map (ifs \<circ> c_str) ns) else None)"
proof (induction ns arbitrary: st)
  case (Cons n ns)
  have "if_nametoindex K n st = (ifs (c_str n), errno (K (trace st @ [SysIfIndex (c_str n)])), st\<lparr>trace := trace st @ [SysIfIndex (c_str n)]\<rparr>)"
    using assms by (simp add: if_nametoindex_def sys_def rt_kernel_def)
  then show ?case using Cons.IH[of "st\<lparr>trace := trace st @ [SysIfIndex (c_str n)]\<rparr>"]
    by (auto split: prod.splits)
qed simp

lemma finish_kernel:
  assumes "rt_kernel K ifs drv" "length ack0 = 292" "hndl st = Some h" "ecode st = Some e"
  shows "\<exists>st'. rt_finish K ack0 msg st = (if drv msg = 0 then RMNETCTL_SUCCESS else RMNETCTL_KERNEL_ERR, st') \<and>
     ecode st' = Some (ucast (drv msg))"
proof -
  let ?a = "K (trace st @ [SysSend (netlink_fd h) msg, SysRecv (netlink_fd h) 292 False])"
  have a: "ret ?a = 36" "length (data ?a) = 36" "rd16 4 (data ?a) = 2" "rd32 16 (data ?a) = - drv msg"
    "0 \<le> ret (K (trace st @ [SysSend (netlink_fd h) msg]))"
    using assms(1) unfolding rt_kernel_def by (auto simp: Let_def)
  have "recv_into (ret ?a) (data ?a) ack0 = data ?a @ drop 36 ack0"
    using a(1,2) assms(2) by (simp add: recv_into_def put_at_def)
  then have "rd16 4 (recv_into (ret ?a) (data ?a) ack0) = 2" "rd32 16 (recv_into (ret ?a) (data ?a) ack0) = - drv msg"
    using a(2-4) by (simp_all add: rd16_def rd32_def get_at_append_left)
  then show ?thesis using assms(3,4) a(1,5)
    by (auto simp: rt_finish_def rmnet_get_ack_def sys_def Let_def)
qed

lemma under_kernel:
  assumes "rt_kernel K ifs drv" "length ack0 = 292" "hndl st = Some h" "ecode st = Some e" "ok"
  shows "\<exists>st'. call K ack0 st = Some
    (if \<forall>n \<in> set names. ifs (c_str n) \<noteq> 0
     then if drv (image (transaction_id h) (map (ifs \<circ> c_str) names)) = 0 then RMNETCTL_SUCCESS else RMNETCTL_KERNEL_ERR
     else RMNETCTL_KERNEL_ERR, st') \<and>
    rt_sent (trace st') = rt_sent (trace st) @
      (if \<forall>n \<in> set names. ifs (c_str n) \<noteq> 0 then [image (transaction_id h) (map (ifs \<circ> c_str) names)] else []) \<and>
    ((\<forall>n \<in> set names. ifs (c_str n) \<noteq> 0) \<longrightarrow>
      ecode st' = Some (ucast (drv (image (transaction_id h) (map (ifs \<circ> c_str) names)))))"
proof -
  obtain r err st1 where r: "resolve K names (next_id st) = (r, err, st1)" by (rule prod_cases3)
  have e: "r = (if \<forall>n \<in> set names. ifs (c_str n) \<noteq> 0 then Some (map (ifs \<circ> c_str) names) else None)"
    using resolve_kernel[OF assms(1), of names "next_id st"] by (simp add: r)
  have k: "hndl st1 = Some (h\<lparr>transaction_id := transaction_id h + 1\<rparr>)" "ecode st1 = ecode st"
    "rt_sent (trace st1) = rt_sent (trace st)"
    using resolve_keeps[OF r] assms(3) by (auto simp: next_id_def)
  have c: "call K ack0 st = Some (case r of None \<Rightarrow> (RMNETCTL_KERNEL_ERR, set_ecode (of_int err) st1)
     | Some ix \<Rightarrow> rt_finish K ack0 (image (transaction_id h) ix) st1)"
    using assms(3-5) by (simp add: protocol r seq_of_def split: option.splits)
  show ?thesis
  proof (cases "\<forall>n \<in> set names. ifs (c_str n) \<noteq> 0")
    case True
    let ?m = "image (transaction_id h) (map (ifs \<circ> c_str) names)"
    obtain st' where f: "rt_finish K ack0 ?m st1 = (if drv ?m = 0 then RMNETCTL_SUCCESS else RMNETCTL_KERNEL_ERR, st')"
      "ecode st' = Some (ucast (drv ?m))"
      using finish_kernel[OF assms(1,2) k(1)] k(2) assms(4) by metis
    show ?thesis using rt_finish_keeps(2)[OF f(1)] f True e k(3) c by auto
  next
    case False
    then show ?thesis using e k(3) c by auto
  qed
qed

end

interpretation rt: request_call "\<lambda>K ack0. rt_perform K ack0 r" "rt_ok r" "rt_names r" "rt_image r" for r
  by unfold_locales (simp add: rt_perform_spec rt_spec_def)

section \<open>Requests\<close>

text \<open>
  C1. Every request function of the routing-netlink API, for every environment, every argument
  value and every state: it never leaves its message buffer, and it does exactly what the protocol
  says: reject the arguments, or look the interfaces up, send the bytes the request stands for and
  return the kernel's acknowledgement. In particular the code for attributes that do not fit is
  never reached.
\<close>

theorem rt_requests_refine: "rt_perform K ack0 r st = Some (rt_spec K ack0 r st)"
  by (rule rt_perform_spec)

text \<open>
  C20. Outcome of a request on an open handle, in every environment: the result is one of the four
  documented codes or, undocumented, 4 (the error number MESSAGE_RECEIVE, passed through as a result) when the
  message was sent and receiving its acknowledgement failed. INVALID_ARG comes exactly for rejected
  arguments, which change nothing; otherwise the sequence counter goes up by one, at most one message is
  sent, it carries the counter's old value and the request's bytes, and success means that a message was
  sent and that the error number is set to success.
\<close>

theorem rt_requests_outcome:
  assumes "rt_perform K ack0 r st = Some (rc, st')" "hndl st = Some h" "ecode st = Some e"
  shows "rc \<in> {RMNETCTL_SUCCESS, RMNETCTL_LIB_ERR, RMNETCTL_KERNEL_ERR, RMNETCTL_INVALID_ARG, RMNETCTL_API_ERR_MESSAGE_RECEIVE_rc} \<and>
    (rc = RMNETCTL_INVALID_ARG \<longleftrightarrow> \<not> rt_ok r) \<and> (\<not> rt_ok r \<longrightarrow> st' = st) \<and>
    (rt_ok r \<longrightarrow> hndl st' = Some (h\<lparr>transaction_id := transaction_id h + 1\<rparr>)) \<and> ecode st' \<noteq> None \<and>
    (rc = RMNETCTL_SUCCESS \<longrightarrow> ecode st' = Some RMNETCTL_API_SUCCESS) \<and>
    (\<exists>bs. rt_sent (trace st') = rt_sent (trace st) @ bs \<and>
       (bs = [] \<or> (\<exists>is. bs = [rt_image r (transaction_id h) is] \<and> length is = length (rt_names r))) \<and>
       (rc = RMNETCTL_SUCCESS \<longrightarrow> bs \<noteq> []) \<and>
       (rc = RMNETCTL_API_ERR_MESSAGE_RECEIVE_rc \<longrightarrow>
         bs \<noteq> [] \<and> (\<exists>fd. last (trace st') = SysRecv fd SIZEOF_nlack False) \<and> ret (K (trace st')) < 0))"
  by (rule rt.outcome[OF assms])

definition rt_env :: "(string \<Rightarrow> u32) \<Rightarrow> (bytes \<Rightarrow> u32) \<Rightarrow> env" where
  "rt_env ifs drv tr = (case rev tr of
      SysIfIndex n # _ \<Rightarrow> \<lparr>ret = uint (ifs n), errno = 19, data = [], sender = zero_addr\<rparr>
    | SysRecv _ _ False # SysSend _ b # _ \<Rightarrow> \<lparr>ret = 36, errno = 0,
        data = replicate 4 0 @ [2, 0] @ replicate 10 0 @ le_bytes 4 (- drv b) @ replicate 16 0, sender = zero_addr\<rparr>
    | _ \<Rightarrow> \<lparr>ret = 1, errno = 0, data = [], sender = zero_addr\<rparr>)"

lemma rt_env_kernel: "rt_kernel (rt_env ifs drv) ifs drv"
proof -
  have "rd16 4 (replicate 4 0 @ [2, 0] @ replicate 10 0 @ le_bytes 4 x @ replicate 16 0) = 2" for x :: u32
    by (simp add: rd16_def get_at_def le_word_def)
  moreover have "rd32 16 (replicate 4 0 @ [2, 0] @ replicate 10 0 @ le_bytes 4 x @ replicate 16 0) = x" for x :: u32
    by (simp add: rd32_def get_at_def)
  ultimately show ?thesis by (simp add: rt_kernel_def rt_env_def Let_def)
qed

theorem rt_requests_outcome_witness:
  "fst (the (rt_perform (rt_env (\<lambda>_. 4) (\<lambda>_. 0)) (replicate 292 0) (QmiScale (Some ''rmnet_ipa0'') (Some ''rmnet_data0'') 0) ctx0)) = 3"
proof -
  obtain rc st' where p: "rt_perform (rt_env (\<lambda>_. 4) (\<lambda>_. 0)) (replicate 292 0)
      (QmiScale (Some ''rmnet_ipa0'') (Some ''rmnet_data0'') 0) ctx0 = Some (rc, st')"
    using rt_perform_spec by fastforce
  show ?thesis using rt_requests_outcome[OF p ctx0_simps(1,2)] p by simp
qed

text \<open>
  C18. Under a kernel that knows the interfaces and runs the driver on what is sent, every accepted
  request reaches the driver as the bytes it stands for, with the resolved interface indices and the
  handle's sequence number; the caller gets SUCCESS if the driver accepts, and otherwise KERNEL_ERR
  with the driver's error number cut to 16 bits. An unknown interface is KERNEL_ERR with nothing sent.
\<close>

theorem rt_requests_kernel:
  assumes "rt_kernel K ifs drv" "length ack0 = 292" "hndl st = Some h" "ecode st = Some e" "rt_ok r"
  shows "\<exists>st'. rt_perform K ack0 r st = Some
    (if \<forall>n \<in> set (rt_names r). ifs (c_str n) \<noteq> 0
     then if drv (rt_image r (transaction_id h) (map (ifs \<circ> c_str) (rt_names r))) = 0 then RMNETCTL_SUCCESS else RMNETCTL_KERNEL_ERR
     else RMNETCTL_KERNEL_ERR, st') \<and>
    rt_sent (trace st') = rt_sent (trace st) @
      (if \<forall>n \<in> set (rt_names r). ifs (c_str n) \<noteq> 0
       then [rt_image r (transaction_id h) (map (ifs \<circ> c_str) (rt_names r))] else []) \<and>
    ((\<forall>n \<in> set (rt_names r). ifs (c_str n) \<noteq> 0) \<longrightarrow>
      ecode st' = Some (ucast (drv (rt_image r (transaction_id h) (map (ifs \<circ> c_str) (rt_names r))))))"
  by (rule rt.under_kernel[OF assms])

theorem rt_requests_kernel_witness:
  "\<exists>st'. rt_perform (rt_env (\<lambda>n. if n = ''wlan0'' then 0 else 4) (\<lambda>_. 17)) (replicate 292 0)
       (BridgeVnd (Some ''wlan1'') (Some ''rmnet_data0'')) ctx0 = Some (2, st') \<and>
     rt_sent (trace st') = [rt_bytes 16 5 0 4 (enc_attr 10 (le_bytes 4 (4 :: u32)))] \<and> ecode st' = Some 17"
  using rt_requests_kernel[OF rt_env_kernel, of "replicate 292 0" ctx0 hndl0 101 "BridgeVnd (Some ''wlan1'') (Some ''rmnet_data0'')"
      "\<lambda>n. if n = ''wlan0'' then 0 else 4" "\<lambda>_. 17"]
  by (auto simp: is_name_def strlen_def c_str_def hndl0_def)

section \<open>Reading a reply\<close>

lemma mem_read_points:
  assumes "points_to buf (Some p) d" "k + n \<le> length d" "q = p + 4 + k"
  shows "mem_read q n buf = Some (get_at k n d)"
proof -
  obtain t r where dr: "drop p buf = enc_attr t d @ r" and s: "length d + 4 < 65536"
    using assms(1) by (auto simp: points_to_def)
  have g: "get_at (p + 4) (length d) buf = d" by (rule attr_header(4)[OF dr s])
  have "length (drop p buf) \<ge> 4 + length d" unfolding dr using align4_ge[of "length d"] by simp
  then have l: "p + 4 + length d \<le> length buf" by simp
  have "get_at (p + 4 + k) n buf = get_at k n (get_at (p + 4) (length d) buf)"
    using assms(2) by (simp add: get_at_def drop_take add.commute min_def)
  then show ?thesis using l assms(2,3) by (simp add: mem_read_def g)
qed

text \<open>The results that the attributes \<open>zs\<close> of the driver give, the last one of each type counting.\<close>

definition mux_of :: "bytes option \<Rightarrow> vnd_info \<Rightarrow> vnd_info" where
  "mux_of a info = (case a of None \<Rightarrow> info | Some d \<Rightarrow> info\<lparr>o_mux_id := put_ptr (le_word (get_at 0 2 d)) (o_mux_id info)\<rparr>)"

definition flags_of :: "bytes option \<Rightarrow> vnd_info \<Rightarrow> vnd_info" where
  "flags_of a info = (case a of None \<Rightarrow> info | Some d \<Rightarrow> info\<lparr>o_flagconfig := put_ptr (le_word (get_at 0 4 d)) (o_flagconfig info)\<rparr>)"

definition uplink_of :: "bytes option \<Rightarrow> vnd_info \<Rightarrow> vnd_info" where
  "uplink_of a info = (case a of None \<Rightarrow> info | Some d \<Rightarrow> info\<lparr>
     o_agg_size := put_ptr (le_word (get_at 0 2 d)) (o_agg_size info),
     o_agg_count := put_ptr (le_word (get_at 2 1 d)) (o_agg_count info),
     o_features := put_ptr (le_word (get_at 3 1 d)) (o_features info),
     o_agg_time := put_ptr (le_word (get_at 4 4 d)) (o_agg_time info)\<rparr>)"

definition vnd_info_of :: "(u16 \<times> bytes) list \<Rightarrow> vnd_info \<Rightarrow> vnd_info" where
  "vnd_info_of zs info = uplink_of (last_of zs 4) (flags_of (last_of zs 2) (mux_of (last_of zs 1) info))"

definition full_attr :: "(u16 \<times> bytes) list \<Rightarrow> nat \<Rightarrow> nat \<Rightarrow> bool" where
  "full_attr zs k n \<longleftrightarrow> (case last_of zs k of None \<Rightarrow> True | Some d \<Rightarrow> n \<le> length d)"

definition is_attr :: "bytes \<Rightarrow> nat option \<Rightarrow> bytes option \<Rightarrow> bool" where
  "is_attr buf q a \<longleftrightarrow> (case a of None \<Rightarrow> q = None | Some d \<Rightarrow> points_to buf q d)"

lemma is_attrE:
  assumes "is_attr buf q a"
  obtains "q = None" "a = None" | p d where "q = Some p" "a = Some d" "points_to buf (Some p) d"
  using assms by (cases a; cases q) (auto simp: is_attr_def points_to_def)

lemma read_mux_attr:
  assumes "is_attr buf q a" "case a of None \<Rightarrow> True | Some d \<Rightarrow> 2 \<le> length d"
  shows "read_mux buf q info = Some (mux_of a info)"
  using assms(1)
proof (cases rule: is_attrE)
  case (2 p d)
  then show ?thesis using mem_read_points[of buf p d 0 2 "p + 4"] assms(2)
    by (cases "o_mux_id info") (auto simp: read_mux_def mux_of_def put_ptr_def)
qed (simp add: read_mux_def mux_of_def)

lemma read_flags_attr:
  assumes "is_attr buf q a" "case a of None \<Rightarrow> True | Some d \<Rightarrow> 4 \<le> length d"
  shows "read_flags buf q info = Some (flags_of a info)"
  using assms(1)
proof (cases rule: is_attrE)
  case (2 p d)
  then show ?thesis using mem_read_points[of buf p d 0 4 "p + 4"] assms(2)
    by (cases "o_flagconfig info") (auto simp: read_flags_def flags_of_def put_ptr_def)
qed (simp add: read_flags_def flags_of_def)

lemma read_uplink_attr:
  assumes "is_attr buf q a" "case a of None \<Rightarrow> True | Some d \<Rightarrow> 8 \<le> length d"
  shows "read_uplink buf q info = Some (uplink_of a info)"
  using assms(1)
proof (cases rule: is_attrE)
  case (2 p d)
  then have m: "mem_read (p + 4) 2 buf = Some (get_at 0 2 d)" "mem_read (p + 6) 1 buf = Some (get_at 2 1 d)"
    "mem_read (p + 7) 1 buf = Some (get_at 3 1 d)" "mem_read (p + 8) 4 buf = Some (get_at 4 4 d)"
    using assms(2) by (auto intro!: mem_read_points)
  show ?thesis unfolding read_uplink_def 2(1,2) option.case m uplink_of_def put_ptr_def
    by (cases "o_agg_size info"; cases "o_agg_count info"; cases "o_features info"; cases "o_agg_time info") simp_all
qed (simp add: read_uplink_def uplink_of_def)

lemma read_vnd_info_attrs:
  assumes "\<And>k. 0 < k \<Longrightarrow> k < 5 \<Longrightarrow> is_attr buf (tb ! k) (last_of zs k)"
    and "full_attr zs 1 2" "full_attr zs 2 4" "full_attr zs 4 8"
  shows "read_vnd_info buf tb info = Some (vnd_info_of zs info)"
  using read_mux_attr[OF assms(1)[of 1]] read_flags_attr[OF assms(1)[of 2]] read_uplink_attr[OF assms(1)[of 4]] assms(2-4)
  by (simp add: read_vnd_info_def vnd_info_of_def full_attr_def)

lemma payload_found:
  assumes "drop p buf = enc_attr t d @ r" "length d + 4 < 65536"
  shows "rta_payload buf p = int (length d)" "\<exists>r'. drop (p + 4) buf = d @ r'"
proof -
  show "rta_payload buf p = int (length d)" using attr_header(1)[OF assms] by (simp add: rta_payload_def)
  have "drop (p + 4) buf = d @ replicate (align4 (length d) - length d) 0 @ r"
    using arg_cong[OF assms(1), of "drop 4"] by (simp add: enc_attr_def add.commute)
  then show "\<exists>r'. drop (p + 4) buf = d @ r'" by blast
qed

lemma parse_getlink_attrs:
  assumes resp: "resp = le_bytes 4 (of_nat (32 + length (enc_attrs xs)) :: u32) @ hdr @ enc_attrs xs"
    and hdr: "length hdr = 28" and xs: "short_attrs xs" "length (enc_attrs xs) < 2 ^ 31"
    and ys: "\<And>li. map_of xs IFLA_LINKINFO = Some li \<Longrightarrow> li = enc_attrs ys \<and> short_attrs ys"
    and zs: "\<And>di. map_of ys IFLA_INFO_DATA = Some di \<Longrightarrow> di = enc_attrs zs \<and> short_attrs zs"
    and full: "full_attr zs 1 2" "full_attr zs 2 4" "full_attr zs 4 8"
  shows "parse_getlink resp info =
    (if map_of xs IFLA_LINKINFO = None \<or> map_of ys IFLA_INFO_DATA = None
     then Some (RMNETCTL_KERNEL_ERR, Some RMNETCTL_API_ERR_RTA_FAILURE, info)
     else if \<exists>(t, d) \<in> set zs. masked t = 5 then None
     else Some (0, None, vnd_info_of zs info))"
proof -
  have hd4: "mem_read 0 4 resp = Some (le_bytes 4 (of_nat (32 + length (enc_attrs xs)) :: u32))"
    by (simp add: resp mem_read_def get_at_def)
  have len: "sint (le_word (le_bytes 4 (of_nat (32 + length (enc_attrs xs)) :: u32)) - 32 :: u32) = int (length (enc_attrs xs))"
    using xs(2) by (simp add: signed_of_nat signed_take_bit_int_eq_self)
  have len': "sint (of_nat (length (enc_attrs xs)) :: u32) = int (length (enc_attrs xs))"
    using xs(2) by (simp add: signed_of_nat signed_take_bit_int_eq_self)
  have d0: "drop 32 resp = enc_attrs xs @ []" using hdr by (simp add: resp)
  note find1 = rta_find_attrs[OF d0 xs(1) refl, of IFLA_LINKINFO, simplified]
  show ?thesis
  proof (cases "map_of xs IFLA_LINKINFO")
    case None
    then show ?thesis using find1 by (simp add: parse_getlink_def hd4 len len')
  next
    case li: (Some li)
    then obtain p r where f1: "rta_find resp 32 (int (length (enc_attrs xs))) IFLA_LINKINFO = Some (Some p)"
      "drop p resp = enc_attr IFLA_LINKINFO li @ r" "length li + 4 < 65536" using find1 by auto
    note pl = payload_found[OF f1(2,3)]
    obtain r' where d1: "drop (p + 4) resp = enc_attrs ys @ r'" using pl(2) ys[OF li] by auto
    note find2 = rta_find_attrs[OF d1 _ refl, of IFLA_INFO_DATA, simplified]
    show ?thesis
    proof (cases "map_of ys IFLA_INFO_DATA")
      case None
      then show ?thesis using li ys[OF li] find2 by (simp add: parse_getlink_def hd4 len len' f1 pl(1))
    next
      case di: (Some di)
      then obtain q s where f2: "rta_find resp (p + 4) (int (length (enc_attrs ys))) IFLA_INFO_DATA = Some (Some q)"
        "drop q resp = enc_attr IFLA_INFO_DATA di @ s" "length di + 4 < 65536" using find2 ys[OF li] by auto
      note ql = payload_found[OF f2(2,3)]
      obtain s' where d2: "drop (q + 4) resp = enc_attrs zs @ s'" using ql(2) zs[OF di] by auto
      have pre: "parse_getlink resp info = Option.bind (rta_parse 5 resp (q + 4) (int (length (enc_attrs zs))))
          (\<lambda>tb. Option.bind (read_vnd_info resp tb info) (\<lambda>info. Some (0, None, info)))"
        using ys[OF li] zs[OF di] by (simp add: parse_getlink_def hd4 len len' f1 pl(1) f2 ql(1))
      note parse = rta_parse_attrs[OF d2 conjunct2[OF zs[OF di]] refl, of "replicate 5 None" 5, simplified]
      show ?thesis
      proof (cases "\<exists>(t, d) \<in> set zs. masked t = 5")
        case True
        then show ?thesis using parse pre li di by (simp add: rta_parse_def)
      next
        case False
        then have "\<exists>tb. rta_parse 5 resp (q + 4) (int (length (enc_attrs zs))) = Some tb \<and>
            (\<forall>k. 0 < k \<and> k < 5 \<longrightarrow> is_attr resp (tb ! k) (last_of zs k))"
          using parse unfolding rta_parse_def is_attr_def
          by (simp only: if_False) (elim exE conjE, intro exI conjI allI impI, assumption, simp cong: option.case_cong)
        then obtain tb where tb: "rta_parse 5 resp (q + 4) (int (length (enc_attrs zs))) = Some tb"
          "\<And>k. 0 < k \<Longrightarrow> k < 5 \<Longrightarrow> is_attr resp (tb ! k) (last_of zs k)" by blast
        show ?thesis using read_vnd_info_attrs[OF tb(2) full] pre tb(1) li di False by simp
      qed
    qed
  qed
qed

section \<open>Queries\<close>

text \<open>A kernel that knows the interface and answers the query with \<open>reply\<close>.\<close>

definition link_kernel :: "env \<Rightarrow> bytes \<Rightarrow> bool" where
  "link_kernel K reply \<longleftrightarrow>
    (\<forall>tr n. (of_int (ret (K (tr @ [SysIfIndex n]))) :: u32) \<noteq> 0) \<and>
    (\<forall>tr fd b. 0 \<le> ret (K (tr @ [SysSend fd b]))) \<and>
    (\<forall>tr n. ret (K (tr @ [SysMalloc n])) \<noteq> 0) \<and>
    (\<forall>tr fd. ret (K (tr @ [SysRecv fd 0 True])) = int (length reply)) \<and>
    (\<forall>tr fd n. ret (K (tr @ [SysRecv fd n False])) = int (length reply) \<and> data (K (tr @ [SysRecv fd n False])) = reply)"

lemma getvnd_link_kernel:
  assumes "link_kernel K reply" "hndl st = Some h" "ecode st = Some e" "is_name v" "o_mux_id info \<noteq> None \<or> o_flagconfig info \<noteq> None"
  shows "\<exists>st1. rtrmnet_ctl_getvnd K junk v info st = Option.bind (parse_getlink reply info)
      (\<lambda>(rc, err, info). Some (rc, info, case err of None \<Rightarrow> st1 | Some e \<Rightarrow> set_ecode e st1)) \<and>
     hndl st1 = Some (h\<lparr>transaction_id := transaction_id h + 1\<rparr>) \<and> ecode st1 = Some e"
proof -
  have r: "recv_into (int (length reply)) reply (map junk [0..<length reply]) = reply"
    by (simp add: recv_into_def put_at_def)
  have v: "v \<noteq> None" using assms(4) by (rule is_name_strlen(2))
  have k: "((of_int (ret (K (tr @ [SysIfIndex n]))) :: u32) = 0) = False" "(ret (K (tr @ [SysSend fd b])) < 0) = False"
    "(ret (K (tr @ [SysMalloc i])) = 0) = False" "ret (K (tr @ [SysRecv fd 0 True])) = int (length reply)"
    "ret (K (tr @ [SysRecv fd i False])) = int (length reply)" "data (K (tr @ [SysRecv fd i False])) = reply" for tr n fd b i
    using assms(1) by (auto simp: link_kernel_def not_less)
  let ?ok = "hndl st = None \<or> v = None \<or> ecode st = None \<or> (o_mux_id info = None \<and> o_flagconfig info = None) \<or> bad_name v"
  have ok: "?ok = False" using v assms(2-5) by (auto simp: bad_name_iff)
  have neg: "(int (length reply) < 0) = False" by simp
  show ?thesis
    unfolding rtrmnet_ctl_getvnd_def ok if_nametoindex_def sys_def Let_def prod.case if_False k rctx.simps
      next_id_simps neg nat_int r
    by (rule exI, rule conjI, rule refl) (use assms(2,3) in \<open>simp add: next_id_def\<close>)
qed

text \<open>
  C16. The query for a device's configuration: when the kernel answers with a link message whose
  attributes are \<open>xs\<close>, with \<open>ys\<close> nested in the link information and \<open>zs\<close> in the driver's data, the
  caller gets SUCCESS and the values of \<open>zs\<close> (the last attribute of a type counts; what is absent
  leaves its variable alone); without one of the nestings it gets KERNEL_ERR and RTA_FAILURE. An attribute
  whose type is 5 modulo the flag bits makes the code write past its table of five pointers. This is for
  attributes as long as what is read of them: the mux id 2 bytes, the flags 4, the aggregation
  parameters 8; the code does not look at their lengths, and reads on behind shorter ones.
\<close>

theorem rt_getvnd_reply:
  assumes "link_kernel K reply" "hndl st = Some h" "ecode st = Some e" "is_name v"
    and "o_mux_id info \<noteq> None \<or> o_flagconfig info \<noteq> None"
    and reply: "reply = le_bytes 4 (of_nat (32 + length (enc_attrs xs)) :: u32) @ hdr @ enc_attrs xs"
    and hdr: "length hdr = 28" and xs: "short_attrs xs" "length (enc_attrs xs) < 2 ^ 31"
    and ys: "\<And>li. map_of xs IFLA_LINKINFO = Some li \<Longrightarrow> li = enc_attrs ys \<and> short_attrs ys"
    and zs: "\<And>di. map_of ys IFLA_INFO_DATA = Some di \<Longrightarrow> di = enc_attrs zs \<and> short_attrs zs"
    and full: "full_attr zs 1 2" "full_attr zs 2 4" "full_attr zs 4 8"
  shows "if map_of xs IFLA_LINKINFO = None \<or> map_of ys IFLA_INFO_DATA = None
    then \<exists>st'. rtrmnet_ctl_getvnd K junk v info st = Some (RMNETCTL_KERNEL_ERR, info, st') \<and>
           ecode st' = Some RMNETCTL_API_ERR_RTA_FAILURE
    else if \<exists>(t, d) \<in> set zs. masked t = 5
    then rtrmnet_ctl_getvnd K junk v info st = None
    else \<exists>st'. rtrmnet_ctl_getvnd K junk v info st = Some (RMNETCTL_SUCCESS, vnd_info_of zs info, st') \<and>
           hndl st' = Some (h\<lparr>transaction_id := transaction_id h + 1\<rparr>)"
proof -
  obtain st1 where g: "rtrmnet_ctl_getvnd K junk v info st = Option.bind (parse_getlink reply info)
      (\<lambda>(rc, err, info). Some (rc, info, case err of None \<Rightarrow> st1 | Some e \<Rightarrow> set_ecode e st1))"
    "hndl st1 = Some (h\<lparr>transaction_id := transaction_id h + 1\<rparr>)" "ecode st1 = Some e"
    using getvnd_link_kernel[OF assms(1-5)] by blast
  have p: "parse_getlink reply info = (if map_of xs IFLA_LINKINFO = None \<or> map_of ys IFLA_INFO_DATA = None
     then Some (RMNETCTL_KERNEL_ERR, Some RMNETCTL_API_ERR_RTA_FAILURE, info)
     else if \<exists>(t, d) \<in> set zs. masked t = 5 then None else Some (0, None, vnd_info_of zs info))"
    by (rule parse_getlink_attrs[OF reply hdr xs _ _ full]) (use ys zs in auto)
  show ?thesis unfolding g(1) p using g(2,3) by simp
qed

definition link_env :: "bytes \<Rightarrow> env" where
  "link_env reply tr = (case last tr of
      SysRecv _ _ _ \<Rightarrow> \<lparr>ret = int (length reply), errno = 0, data = reply, sender = zero_addr\<rparr>
    | _ \<Rightarrow> \<lparr>ret = 7, errno = 0, data = [], sender = zero_addr\<rparr>)"

lemma link_env_kernel: "link_kernel (link_env reply) reply"
  by (simp add: link_kernel_def link_env_def)

definition info0 :: vnd_info where
  "info0 = \<lparr>o_mux_id = Some 0, o_flagconfig = Some 0, o_agg_count = None, o_agg_size = None, o_agg_time = None, o_features = None\<rparr>"

text \<open>A reply with mux id 9 and flags 5, and one with an attribute of type 5.\<close>

definition sample_reply :: "(u16 \<times> bytes) list \<Rightarrow> bytes" where
  "sample_reply zs = (let xs = [(18, enc_attr 2 (enc_attrs zs))] in le_bytes 4 (of_nat (32 + length (enc_attrs xs)) :: u32) @ replicate 28 0 @ enc_attrs xs)"

theorem rt_getvnd_reply_witness:
  "(\<exists>st'. rtrmnet_ctl_getvnd (link_env (sample_reply [(1, le_bytes 2 (9 :: u16)), (2, le_bytes 4 (5 :: u32) @ le_bytes 4 (5 :: u32))])) (\<lambda>_. 0)
      (Some ''rmnet_data0'') info0 ctx0 = Some (RMNETCTL_SUCCESS, info0\<lparr>o_mux_id := Some 9, o_flagconfig := Some 5\<rparr>, st')) \<and>
   rtrmnet_ctl_getvnd (link_env (sample_reply [(0x4005, [])])) (\<lambda>_. 0) (Some ''rmnet_data0'') info0 ctx0 = None"
proof -
  have read: "if map_of [(18, enc_attr 2 (enc_attrs zs))] IFLA_LINKINFO = None \<or> map_of [(2, enc_attrs zs)] IFLA_INFO_DATA = None
    then \<exists>st'. rtrmnet_ctl_getvnd (link_env (sample_reply zs)) (\<lambda>_. 0) (Some ''rmnet_data0'') info0 ctx0 = Some (RMNETCTL_KERNEL_ERR, info0, st') \<and>
           ecode st' = Some RMNETCTL_API_ERR_RTA_FAILURE
    else if \<exists>(t, d) \<in> set zs. masked t = 5
    then rtrmnet_ctl_getvnd (link_env (sample_reply zs)) (\<lambda>_. 0) (Some ''rmnet_data0'') info0 ctx0 = None
    else \<exists>st'. rtrmnet_ctl_getvnd (link_env (sample_reply zs)) (\<lambda>_. 0) (Some ''rmnet_data0'') info0 ctx0 =
        Some (RMNETCTL_SUCCESS, vnd_info_of zs info0, st') \<and>
           hndl st' = Some (hndl0\<lparr>transaction_id := transaction_id hndl0 + 1\<rparr>)"
    if "short_attrs zs" "length (enc_attrs zs) < 100" "full_attr zs 1 2" "full_attr zs 2 4" "full_attr zs 4 8" for zs
    by (rule rt_getvnd_reply[OF link_env_kernel ctx0_simps(1,2), where hdr = "replicate 28 0" and ys = "[(2, enc_attrs zs)]"])
      (use that in \<open>auto simp: is_name_def info0_def strlen_def c_str_def align4_def sample_reply_def Let_def\<close>)
  have m: "masked 1 = 1" "masked 2 = 2" "masked 0x4005 = 5" by (simp_all add: masked_def)
  let ?zs = "[(1, le_bytes 2 (9 :: u16)), (2, le_bytes 4 (5 :: u32) @ le_bytes 4 (5 :: u32))]"
  have "short_attrs ?zs" "length (enc_attrs ?zs) < 100" "full_attr ?zs 1 2" "full_attr ?zs 2 4" "full_attr ?zs 4 8"
    by (simp_all add: full_attr_def m align4_def)
  note ok = read[OF this]
  have "vnd_info_of ?zs info0 = info0\<lparr>o_mux_id := Some 9, o_flagconfig := Some 5\<rparr>"
    by (simp add: vnd_info_of_def mux_of_def flags_of_def uplink_of_def m get_at_append_left info0_def put_ptr_def)
  then have good: "\<exists>st'. rtrmnet_ctl_getvnd (link_env (sample_reply ?zs)) (\<lambda>_. 0) (Some ''rmnet_data0'') info0 ctx0 =
      Some (RMNETCTL_SUCCESS, info0\<lparr>o_mux_id := Some 9, o_flagconfig := Some 5\<rparr>, st')" using ok by (auto simp: m)
  have "short_attrs [(0x4005, [])]" "length (enc_attrs [(0x4005, [])]) < 100" "full_attr [(0x4005, [])] 1 2" "full_attr [(0x4005, [])] 2 4"
    "full_attr [(0x4005, [])] 4 8" by (simp_all add: full_attr_def m align4_def)
  from read[OF this] have "rtrmnet_ctl_getvnd (link_env (sample_reply [(0x4005, [])])) (\<lambda>_. 0) (Some ''rmnet_data0'') info0 ctx0 = None"
    by (simp add: m)
  with good show ?thesis by blast
qed

lemma newvnd_image_parsed:
  assumes "is_name v"
  shows "parse_getlink (rt_image (CreateVnd d v m f) seq is) info =
    Some (0, None, info\<lparr>o_mux_id := put_ptr (ucast m) (o_mux_id info),
                        o_flagconfig := (if f = 0 then o_flagconfig info else put_ptr f (o_flagconfig info))\<rparr>)"
proof -
  have v: "strlen (the v) < 16" using assms by (rule is_name_strlen(1))
  have a: "align4 (Suc (strlen (the v))) \<le> 19" using align4_le[of "Suc (strlen (the v))"] v by simp
  let ?zs = "(1, le_bytes 2 (ucast m :: u16)) # (if f = 0 then [] else [(2, le_bytes 4 f @ le_bytes 4 f)]) :: (u16 \<times> bytes) list"
  let ?ys = "[(1, name_bytes ''rmnet''), (2, enc_attrs ?zs)] :: (u16 \<times> bytes) list"
  let ?xs = "[(31, le_bytes 4 (10 :: u32)), (5, le_bytes 4 (is ! 0)), (3, name_bytes (the v)), (18, enc_attrs ?ys)] :: (u16 \<times> bytes) list"
  let ?hd = "le_bytes 2 (16 :: u16) @ le_bytes 2 (0x605 :: u16) @ le_bytes 4 seq @ replicate 8 0 @ le_bytes 4 (0 :: u32) @ replicate 8 0"
  have body: "enc_attr 31 (le_bytes 4 (10 :: u32)) @ link_attrs (is ! 0) (the v) @ rmnet_attrs (newlink_data m f) = enc_attrs ?xs"
    by (simp add: link_attrs_def rmnet_attrs_def newlink_data_def)
  have image: "rt_image (CreateVnd d v m f) seq is = le_bytes 4 (of_nat (32 + length (enc_attrs ?xs)) :: u32) @ ?hd @ enc_attrs ?xs"
    unfolding rt_image.simps body rt_bytes_def by simp
  have info: "vnd_info_of ?zs info = info\<lparr>o_mux_id := put_ptr (ucast m) (o_mux_id info),
      o_flagconfig := (if f = 0 then o_flagconfig info else put_ptr f (o_flagconfig info))\<rparr>"
    by (simp add: vnd_info_of_def mux_of_def flags_of_def uplink_of_def masked_def get_at_append_left)
  have "parse_getlink (rt_image (CreateVnd d v m f) seq is) info =
    (if map_of ?xs 18 = None \<or> map_of ?ys 2 = None
     then Some (RMNETCTL_KERNEL_ERR, Some RMNETCTL_API_ERR_RTA_FAILURE, info)
     else if \<exists>(t, d) \<in> set ?zs. masked t = 5 then None
     else Some (0, None, vnd_info_of ?zs info))"
    by (rule parse_getlink_attrs[OF image]) (use a v in \<open>auto simp: full_attr_def masked_def\<close>)
  then show ?thesis unfolding info by (auto simp: masked_def)
qed

text \<open>
  C15. Creating a device: after a call that succeeds the message it sent, read with the library's own parser
  for link queries, gives the mux id and the flags the call was given (with flags of zero the parser leaves
  its flags variable alone, as none are sent).
\<close>

theorem rt_newvnd_roundtrip:
  assumes "rtrmnet_ctl_newvnd K ack0 d v m f st = Some (RMNETCTL_SUCCESS, st')" "hndl st = Some h" "ecode st = Some e"
  shows "\<exists>b. rt_sent (trace st') = rt_sent (trace st) @ [b] \<and>
    parse_getlink b info = Some (0, None, info\<lparr>o_mux_id := put_ptr (ucast m) (o_mux_id info),
                                o_flagconfig := (if f = 0 then o_flagconfig info else put_ptr f (o_flagconfig info))\<rparr>)"
proof -
  have p: "rt_perform K ack0 (CreateVnd d v m f) st = Some (RMNETCTL_SUCCESS, st')" using assms(1) by simp
  note out = rt.outcome[OF p assms(2,3)]
  have "is_name v" using out by simp
  note parsed = newvnd_image_parsed[OF this, of d m f "transaction_id h" _ info]
  obtain ix where "rt_sent (trace st') = rt_sent (trace st) @ [rt_image (CreateVnd d v m f) (transaction_id h) ix]" using out by auto
  then show ?thesis using parsed by blast
qed

theorem rt_newvnd_roundtrip_witness:
  "\<exists>st' b. rtrmnet_ctl_newvnd (rt_env (\<lambda>_. 4) (\<lambda>_. 0)) (replicate 292 0) (Some ''rmnet_ipa0'') (Some ''rmnet_data1'') 9 5 ctx0 =
      Some (RMNETCTL_SUCCESS, st') \<and> rt_sent (trace st') = [b] \<and>
    parse_getlink b info0 = Some (0, None, info0\<lparr>o_mux_id := Some 9, o_flagconfig := Some 5\<rparr>)"
proof -
  let ?r = "CreateVnd (Some ''rmnet_ipa0'') (Some ''rmnet_data1'') 9 5"
  have ok: "rt_ok ?r" by (simp add: is_name_def strlen_def c_str_def)
  obtain st' where "rt_perform (rt_env (\<lambda>_. 4) (\<lambda>_. 0)) (replicate 292 0) ?r ctx0 = Some (RMNETCTL_SUCCESS, st')"
    using rt.under_kernel[OF rt_env_kernel _ ctx0_simps(1,2) ok, of "replicate 292 0" "\<lambda>_. 4" "\<lambda>_. 0"] by auto
  then have run: "rtrmnet_ctl_newvnd (rt_env (\<lambda>_. 4) (\<lambda>_. 0)) (replicate 292 0) (Some ''rmnet_ipa0'') (Some ''rmnet_data1'') 9 5 ctx0 =
      Some (RMNETCTL_SUCCESS, st')" by simp
  have empty: "rt_sent (trace ctx0) = []" by (simp add: ctx0_def)
  show ?thesis using rt_newvnd_roundtrip[OF run ctx0_simps(1,2), of info0] run by (simp add: empty info0_def put_ptr_def)
qed

section \<open>Limits and resources\<close>

text \<open>
  \<open>rta_put\<close> never reports that an attribute does not fit, although it is documented to: inside
  the buffer its result is SUCCESS always. When the space counter is used up it announces an
  attribute of the full length whose data are the zeros of the buffer.
\<close>

theorem rta_put_never_fails:
  assumes "sz < 2 ^ 31"
  shows "(rta_put req sz ty len dat = Some (rc, req', sz') \<longrightarrow> rc = RMNETCTL_SUCCESS) \<and>
    (fits hdr body \<and> length body + 4 + align4 (length d) \<le> 500 \<and> sz \<le> length d \<longrightarrow>
      rta_put (rta_image hdr body) sz ty (length d) (Some d) =
        Some (RMNETCTL_SUCCESS, rta_image hdr (body @ enc_attr ty (replicate (length d) 0)), sz))"
proof (intro conjI impI)
  have "0 \<le> x" if "memscpy_repeat off sz d n buf = Some (x, y)" for off d n buf x y
    using that assms sint_small[of "sz - min sz n"]
    by (auto simp: memscpy_repeat_def Let_def bind_eq_Some_conv split: if_splits)
  then show "rc = RMNETCTL_SUCCESS" if "rta_put req sz ty len dat = Some (rc, req', sz')"
    using that by (fastforce simp: rta_put_def Let_def bind_eq_Some_conv split: if_splits)
next
  assume a: "fits hdr body \<and> length body + 4 + align4 (length d) \<le> 500 \<and> sz \<le> length d"
  have "rta_put (rta_image hdr body) sz ty (length d) (Some d) =
     Some (RMNETCTL_SUCCESS, rta_image hdr (body @ enc_attr ty (copied sz (length d) (Some d))),
           if sz \<le> length d \<or> Some d = None then sz else sz - length d)"
    by (rule rta_put_image) (use a assms in auto)
  then show "rta_put (rta_image hdr body) sz ty (length d) (Some d) =
        Some (RMNETCTL_SUCCESS, rta_image hdr (body @ enc_attr ty (replicate (length d) 0)), sz)"
    using a by (simp add: copied_def)
qed

theorem rta_put_never_fails_witness:
  "rta_put (rta_image (replicate 28 0) []) 8 4 8 (Some (replicate 8 7)) =
     Some (RMNETCTL_SUCCESS, rta_image (replicate 28 0) (enc_attr 4 (replicate 8 0)), 8)"
  using rta_put_never_fails[of 8 "[]" 4 8 None 0 "[]" 0 "replicate 28 0" "[]" "replicate 8 7"]
  by (simp add: fits_def)

lemma mallocs_sys_free [simp]: "mallocs K (sys_free p tr) = mallocs K tr"
  by (simp add: sys_free_def)

text \<open>
  The query releases what it allocates: in every environment in which it returns, the block for
  the reply is freed exactly once on every path, and nothing else is freed.
\<close>

theorem rt_getvnd_balance:
  assumes "rtrmnet_ctl_getvnd K junk v info st = Some (rc, info', st')"
  shows "\<exists>xs. mallocs K (trace st') = mallocs K (trace st) @ xs \<and> freed (trace st') = freed (trace st) @ xs"
  using assms
  by (auto simp: rtrmnet_ctl_getvnd_def if_nametoindex_def sys_def Let_def bind_eq_Some_conv sys_free_def
      simp del: append_assoc split: if_splits option.splits)

theorem rt_getvnd_balance_witness:
  "\<exists>rc info' st'. rtrmnet_ctl_getvnd (link_env (replicate 16 0)) (\<lambda>_. 0) (Some ''rmnet0'') info0 ctx0 = Some (rc, info', st') \<and>
     (\<exists>xs. mallocs (link_env (replicate 16 0)) (trace st') = xs \<and> freed (trace st') = xs)"
proof -
  have "sint (le_word (replicate 4 0) - 32 :: u32) < 4"
    by (simp add: le_word_def numeral_eq_Suc)
  then have "rta_find (replicate 16 0) 32 (sint (le_word (replicate 4 0) - 32 :: u32)) IFLA_LINKINFO = Some None"
    by (subst rta_find.simps) (simp add: rta_ok_end)
  then have "parse_getlink (replicate 16 0) info0 = Some (RMNETCTL_KERNEL_ERR, Some RMNETCTL_API_ERR_RTA_FAILURE, info0)"
    by (simp add: parse_getlink_def mem_read_def get_at_def)
  moreover have "is_name (Some ''rmnet0'')" by (simp add: is_name_def strlen_def c_str_def)
  ultimately obtain rc info' st' where
    g: "rtrmnet_ctl_getvnd (link_env (replicate 16 0)) (\<lambda>_. 0) (Some ''rmnet0'') info0 ctx0 = Some (rc, info', st')"
    using getvnd_link_kernel[OF link_env_kernel[of "replicate 16 0"] ctx0_simps(1,2), of "Some ''rmnet0''" info0 "\<lambda>_. 0"]
    by (auto simp: info0_def)
  then show ?thesis using rt_getvnd_balance[OF g] by (intro exI[of _ rc] exI[of _ info'] exI[of _ st']) auto
qed

text \<open>
  Opening and closing a routing-netlink handle, in every environment: success leaves one block
  and one socket live, held by the handle, which is bound with process id 0; a failure releases what
  was acquired; closing releases both.
\<close>

theorem rtrmnet_ctl_init_deinit_balance:
  assumes "rtrmnet_ctl_init K True st = (rc, st')" "ecode st = Some e"
  shows "(rc = RMNETCTL_SUCCESS \<longrightarrow> (\<exists>h. hndl st' = Some h \<and> h_addr h \<noteq> 0 \<and> transaction_id h = 0 \<and>
        src_addr h = \<lparr>nl_family = AF_NETLINK, nl_pid = 0, nl_groups = 0\<rparr> \<and> ecode st' = ecode st \<and>
        mallocs K (trace st') = mallocs K (trace st) @ [h_addr h] \<and> freed (trace st') = freed (trace st) \<and>
        sockets K (trace st') = sockets K (trace st) @ [netlink_fd h] \<and>
        closed_fds (trace st') = closed_fds (trace st) \<and>
        freed (trace (snd (rtrmnet_ctl_deinit K st'))) = freed (trace st') @ [h_addr h] \<and>
        closed_fds (trace (snd (rtrmnet_ctl_deinit K st'))) = closed_fds (trace st') @ [netlink_fd h])) \<and>
     (rc \<noteq> RMNETCTL_SUCCESS \<longrightarrow> rc = RMNETCTL_LIB_ERR \<and>
        ecode st' \<in> Some ` {RMNETCTL_API_ERR_HNDL_INVALID, RMNETCTL_INIT_ERR_PROCESS_ID,
                            RMNETCTL_INIT_ERR_NETLINK_FD, RMNETCTL_INIT_ERR_BIND} \<and>
        (\<exists>xs ys. mallocs K (trace st') = mallocs K (trace st) @ xs \<and> freed (trace st') = freed (trace st) @ xs \<and>
           sockets K (trace st') = sockets K (trace st) @ ys \<and> closed_fds (trace st') = closed_fds (trace st) @ ys))"
  using assms
  by (auto simp: rtrmnet_ctl_init_def rtrmnet_ctl_deinit_def sys_def Let_def sys_free_def set_ecode_def
      simp del: append_assoc split: if_splits)

theorem rtrmnet_ctl_init_deinit_balance_witness:
  "\<exists>st'. rtrmnet_ctl_init counting_env True (ctx0\<lparr>hndl := None\<rparr>) = (RMNETCTL_SUCCESS, st') \<and>
   mallocs counting_env (trace st') = [1] \<and> freed (trace (snd (rtrmnet_ctl_deinit counting_env st'))) = [1] \<and>
   closed_fds (trace (snd (rtrmnet_ctl_deinit counting_env st'))) = [3]"
proof -
  obtain rc st' where i: "rtrmnet_ctl_init counting_env True (ctx0\<lparr>hndl := None\<rparr>) = (rc, st')" by fastforce
  then have "rc = RMNETCTL_SUCCESS" "\<exists>h. hndl st' = Some h \<and> h_addr h = 1 \<and> netlink_fd h = 3"
    by (auto simp: rtrmnet_ctl_init_def counting_env_def sys_def Let_def)
  then show ?thesis using rtrmnet_ctl_init_deinit_balance[OF i] i by auto
qed

end
