(* ===== verification/Rmnet_Cli.thy ===== *)
theory Rmnet_Cli
  imports Rmnet_Rt
begin

text \<open>
  The command line program rmnetcli (rmnetctl/cli/rmnetcli.c): argument checks, conversion of
  numbers, dispatch to the two APIs, and what is printed.

  \<open>argv\<close> is the list of arguments without the program's name; it ends with a null pointer, and a
  read beyond that is \<open>None\<close>. Standard output is a list of texts; \<open>Usage\<close> is the fixed help text of
  \<open>rmnet_api_usage\<close>. The record \<open>stack\<close> holds what the locals contain before they are written.
\<close>

section \<open>Texts\<close>

abbreviation (input) RMNETCTL_CFG_SUCCESS_HELP_COMMAND :: u16 where "RMNETCTL_CFG_SUCCESS_HELP_COMMAND \<equiv> 100"
abbreviation (input) RMNETCTL_CFG_FAILURE_NO_COMMAND :: u16 where "RMNETCTL_CFG_FAILURE_NO_COMMAND \<equiv> 101"
abbreviation (input) RMNETCTL_CFG_FAILURE_EGRESS_DEV_NAME_NULL :: u16 where "RMNETCTL_CFG_FAILURE_EGRESS_DEV_NAME_NULL \<equiv> 102"

text \<open>The first table leaves out the newline that ends each entry; it is added where they are printed.\<close>

definition rmnetctl_error_code_text :: "string list" where
  "rmnetctl_error_code_text = [
     ''ERROR: API succeeded'',
     ''ERROR: Unable to allocate the buffer to send message'',
     ''ERROR: Unable to allocate the buffer to receive message'',
     ''ERROR: Could not send the message to kernel'',
     ''ERROR: Unable to receive message from the kernel'',
     ''ERROR: Invalid process id'',
     ''ERROR: Invalid socket descriptor id'',
     ''ERROR: Could not bind to netlink socket'',
     ''ERROR: Only root can access this API'',
     ''ERROR: RmNet handle for the transaction was NULL'',
     ''ERROR: Request buffer for the transaction was NULL'',
     ''ERROR: Response buffer for the transaction was NULL'',
     ''ERROR: Request and response type do not match'',
     ''ERROR: Return type is invalid'',
     ''ERROR: String was truncated'',
     ''ERROR: Kernel call succeeded'',
     ''ERROR: Invalid / Unsupported directive'',
     ''ERROR: Internal problem in the kernel module'',
     ''ERROR: The kernel is temporarily out of memory'',
     ''ERROR: Device already exists / Still in use'',
     ''ERROR: Invalid request / Unsupported scenario'',
     ''ERROR: Device doesn'' @ [CHR 0x27] @ ''t exist'',
     ''ERROR: One or more of the arguments is invalid'',
     ''ERROR: Egress device is invalid'',
     ''ERROR: TC handle is full'',
     ''ERROR: Netlink message is too small to hold all data'']"

definition rmnetcfg_error_code_text :: "string list" where
  "rmnetcfg_error_code_text = [
     ''Help option Specified'',
     ''ERROR: No'' @ [CHR 0x5C] @ ''Invalid command was specified'' @ [NL],
     ''ERROR: Could not allocate buffer for Egress device'' @ [NL]]"

datatype cli_out = Usage | Text string

definition print_rmnetctl_lib_errors :: "u16 \<Rightarrow> cli_out list" where
  "print_rmnetctl_lib_errors error_number =
    (if RMNETCTL_API_SUCCESS < error_number \<and> error_number < RMNETCTL_API_ERR_ENUM_LENGTH
     then [Text (rmnetctl_error_code_text ! unat error_number @ [NL])] else []) @
    (if 100 \<le> error_number \<and> error_number < 103
     then Text (rmnetcfg_error_code_text ! (unat error_number - 100)) #
       (if error_number = RMNETCTL_CFG_SUCCESS_HELP_COMMAND \<or> error_number = RMNETCTL_CFG_FAILURE_NO_COMMAND
        then [Usage] else [])
     else [])"

definition print_rmnet_api_status :: "int \<Rightarrow> u16 \<Rightarrow> cli_out list" where
  "print_rmnet_api_status rc error_number =
    (if rc = RMNETCTL_SUCCESS then [Text (''SUCCESS'' @ [NL])]
     else if rc = RMNETCTL_LIB_ERR then Text ''LIBRARY '' # print_rmnetctl_lib_errors error_number
     else if rc = RMNETCTL_KERNEL_ERR
     then if error_number < RMNETCTL_API_ERR_ENUM_LENGTH
          then [Text (''KERNEL ERROR: System or rmnet error '' @ show_u error_number @ [NL])] else []
     else if rc = RMNETCTL_INVALID_ARG then [Text (''INVALID_ARG'' @ [NL])]
     else [])"

section \<open>Arguments\<close>

definition arg :: "string list \<Rightarrow> nat \<Rightarrow> string option option" where
  "arg argv i = (if i < length argv then Some (Some (argv ! i)) else if i = length argv then Some None else None)"

definition STRTOUI32 :: "string \<Rightarrow> u32" where "STRTOUI32 s = ucast (strtoul 0 s)"
definition STRTOUI16 :: "string \<Rightarrow> u16" where "STRTOUI16 s = ucast (strtoul 0 s)"
definition STRTOUI8 :: "string \<Rightarrow> u8" where "STRTOUI8 s = ucast (strtoul 0 s)"
definition STRTOI32 :: "string \<Rightarrow> u32" where "STRTOI32 s = of_int (strtol 0 s)"

record stack =
  s_req :: rmnet_nl_msg_s
  s_ack :: bytes
  s_junk :: "nat \<Rightarrow> u8"
  s_register_status :: int
  s_flags :: u32
  s_agg_size :: u16
  s_agg_count :: u16
  s_tail :: u8
  s_mode :: u8

text \<open>
  The state of a run: library context and output. A branch ends at the label \<open>end\<close> (\<open>True\<close>) or has
  returned before it (\<open>False\<close>).
\<close>

type_synonym cli = "rctx \<times> cli_out list"
type_synonym cli_branch = "(bool \<times> int \<times> cli) option"

definition err_no :: "rctx \<Rightarrow> u16" where
  "err_no st = the (ecode st)"

text \<open>\<open>_RMNETCLI_CHECKNULL\<close> for the arguments 1 to \<open>n\<close>, one after the other.\<close>

definition checknull :: "env \<Rightarrow> string list \<Rightarrow> nat \<Rightarrow> cli \<Rightarrow> (cli \<Rightarrow> cli_branch) \<Rightarrow> cli_branch" where
  "checknull K argv n c k = (case c of (st, out) \<Rightarrow>
     if n < length argv then k c
     else Some (False, RMNETCTL_INVALID_ARG, rmnetctl_cleanup K st,
       out @ print_rmnet_api_status RMNETCTL_INVALID_ARG RMNETCTL_CFG_FAILURE_NO_COMMAND))"

text \<open>A call whose result code is all the branch needs; \<open>None\<close> is undefined behaviour inside it.\<close>

definition plain :: "cli_out list \<Rightarrow> (int \<times> rctx) option \<Rightarrow> cli_branch" where
  "plain out r = map_option (\<lambda>(rc, st). (True, rc, st, out)) r"

definition set_err :: "u16 \<Rightarrow> rctx \<Rightarrow> rctx" where
  "set_err e st = st\<lparr>ecode := Some e\<rparr>"

section \<open>The commands after \<open>-n\<close>\<close>

definition lower_hex :: "string \<Rightarrow> string" where
  "lower_hex s = map (\<lambda>c. if 65 \<le> (of_char c :: nat) \<and> (of_char c :: nat) \<le> 70 then char_of ((of_char c :: nat) + 32) else c) s"

definition print_vnd_info :: "string \<Rightarrow> vnd_info \<Rightarrow> cli_out list" where
  "print_vnd_info dev i =
    [Text (''Configuration for device '' @ c_str dev @ '':'' @ [NL]),
     Text ([TAB] @ ''Mux id: '' @ show_u (the (o_mux_id i)) @ [NL]),
     Text ([TAB] @ ''Data format: 0x'' @ pad0 4 (lower_hex (show_nat 16 (unat (the (o_flagconfig i))))) @ [NL]),
     Text ([TAB] @ ''Uplink Aggregation parameters:'' @ [NL]),
     Text ([TAB, TAB] @ ''Packet limit: '' @ show_u (the (o_agg_count i)) @ [NL]),
     Text ([TAB, TAB] @ ''Byte limit: '' @ show_u (the (o_agg_size i)) @ [NL]),
     Text ([TAB, TAB] @ ''Time limit (ns): '' @ show_int (sint (the (o_agg_time i))) @ [NL]),
     Text ([TAB, TAB] @ ''Features : 0x'' @ pad0 2 (lower_hex (show_nat 16 (unat (the (o_features i))))) @ [NL])]"

text \<open>
  \<open>uplinkparam\<close> passes seven arguments where the library function has eight, so it has no meaning
  with the header it includes; \<open>flowactivate\<close> checks five arguments and reads a sixth, a null
  pointer to \<open>strtoul\<close> when there are five.
\<close>

definition cli_new :: "env \<Rightarrow> stack \<Rightarrow> string list \<Rightarrow> cli \<Rightarrow> cli_branch" where
  "cli_new K s argv c =
    (let cmd = c_str (argv ! 0); a = (\<lambda>i. argv ! i); dev = Some (argv ! 1); vnd = Some (argv ! 2); ack = s_ack s in
     if cmd = ''newlink'' then checknull K argv 3 c (\<lambda>(st, out).
       plain out (rtrmnet_ctl_newvnd K ack dev vnd (ucast (STRTOI32 (a 3)))
         (if length argv > 4 then STRTOI32 (a 4) else 0) st))
     else if cmd = ''changelink'' then checknull K argv 4 c (\<lambda>(st, out).
       plain out (rtrmnet_ctl_changevnd K ack dev vnd (ucast (STRTOI32 (a 3))) (STRTOI32 (a 4)) st))
     else if cmd = ''getlink'' then checknull K argv 1 c (\<lambda>(st, out). do {
       (rc, i, st) \<leftarrow> rtrmnet_ctl_getvnd K (s_junk s) dev
          \<lparr>o_mux_id = Some 0, o_flagconfig = Some 0, o_agg_count = Some 0, o_agg_size = Some 0,
           o_agg_time = Some 0, o_features = Some 0\<rparr> st;
       Some (True, rc, st, out @ (if rc = 0 then print_vnd_info (a 1) i else [])) })
     else if cmd = ''dellink'' then checknull K argv 1 c (\<lambda>(st, out).
       plain out (rtrmnet_ctl_delvnd K ack dev st))
     else if cmd = ''bridge'' then checknull K argv 2 c (\<lambda>(st, out).
       plain out (rtrmnet_ctl_bridgevnd K ack dev vnd st))
     else if cmd = ''uplinkparam'' then checknull K argv 5 c (\<lambda>_. None)
     else if cmd = ''flowactivate'' then checknull K argv 5 c (\<lambda>(st, out). do {
       a6 \<leftarrow> arg argv 6;
       a6 \<leftarrow> a6;
       plain out (rtrmnet_activate_flow K ack dev vnd (STRTOUI8 (a 3)) (STRTOI32 (a 4)) (STRTOUI32 (a 5)) (STRTOUI32 a6) st) })
     else if cmd = ''flowdel'' then checknull K argv 5 c (\<lambda>(st, out).
       plain out (rtrmnet_delete_flow K ack dev vnd (STRTOUI8 (a 3)) (STRTOUI32 (a 4)) (STRTOI32 (a 5)) st))
     else if cmd = ''flowcontrol'' then checknull K argv 6 c (\<lambda>(st, out).
       plain out (rtrmnet_control_flow K ack dev vnd (STRTOUI8 (a 3)) (ucast (STRTOUI32 (a 4)))
         (ucast (STRTOUI16 (a 5))) (STRTOUI8 (a 6)) st))
     else if cmd = ''systemup'' then checknull K argv 6 c (\<lambda>(st, out).
       plain out (rtrmnet_flow_state_up K ack dev vnd (STRTOUI32 (a 3)) (STRTOUI32 (a 4)) (STRTOUI32 (a 5)) (STRTOUI32 (a 6)) st))
     else if cmd = ''systemdown'' then checknull K argv 3 c (\<lambda>(st, out).
       plain out (rtrmnet_flow_state_down K ack dev vnd (STRTOUI32 (a 3)) st))
     else if cmd = ''qmiscale'' then checknull K argv 3 c (\<lambda>(st, out).
       plain out (rtrmnet_set_qmi_scale K ack dev vnd (STRTOUI32 (a 3)) st))
     else if cmd = ''wdafreq'' then checknull K argv 3 c (\<lambda>(st, out).
       plain out (rtrmnet_set_wda_freq K ack dev vnd (STRTOUI32 (a 3)) st))
     else (case c of (st, out) \<Rightarrow> Some (True, RMNETCTL_LIB_ERR, st, out)))"

section \<open>The other commands\<close>

definition cli_old_devices :: "env \<Rightarrow> stack \<Rightarrow> string list \<Rightarrow> cli \<Rightarrow> cli_branch option" where
  "cli_old_devices K s argv c =
    (let cmd = c_str (argv ! 0); req = s_req s in case c of (st, out) \<Rightarrow>
     if cmd = ''assocnetdev'' then Some (do {
       dev \<leftarrow> arg argv 1;
       plain out (Some (rmnet_associate_network_device K req dev RMNETCTL_DEVICE_ASSOCIATE st)) })
     else if cmd = ''unassocnetdev'' then Some (do {
       dev \<leftarrow> arg argv 1;
       plain out (Some (rmnet_associate_network_device K req dev RMNETCTL_DEVICE_UNASSOCIATE st)) })
     else if cmd = ''getnetdevassoc'' then Some (do {
       dev \<leftarrow> arg argv 1;
       let (rc, r, st) = rmnet_get_network_device_associated K req dev (Some (s_register_status s)) st;
       Some (True, rc, st, out @ (if rc = RMNETCTL_SUCCESS
         then [Text (''register_status is '' @ show_int (the r) @ [NL])] else [])) })
     else if cmd = ''getledf'' then Some (do {
       dev \<leftarrow> arg argv 1;
       let (rc, (f, sz, n), st) = rmnet_get_link_egress_data_format K req dev
           (Some (s_flags s)) (Some (s_agg_size s)) (Some (s_agg_count s)) st;
       Some (True, rc, st, out @ (if rc = RMNETCTL_SUCCESS
         then [Text (''egress_flags is '' @ show_u (the f) @ [NL]), Text (''agg_size is '' @ show_u (the sz) @ [NL]),
               Text (''agg_count is '' @ show_u (the n) @ [NL])] else [])) })
     else if cmd = ''getlidf'' then Some (do {
       dev \<leftarrow> arg argv 1;
       let (rc, (f, t), st) = rmnet_get_link_ingress_data_format_tailspace K req dev (Some (s_flags s)) (Some (s_tail s)) st;
       Some (True, rc, st, out @ (if rc = RMNETCTL_SUCCESS
         then [Text (''ingress_flags is '' @ show_u (the f) @ [NL]), Text (''tail_spacing is '' @ show_u (the t) @ [NL])]
         else [])) })
     else None)"

definition cli_old_vnd :: "env \<Rightarrow> stack \<Rightarrow> string list \<Rightarrow> cli \<Rightarrow> cli_branch option" where
  "cli_old_vnd K s argv c =
    (let cmd = c_str (argv ! 0); a = (\<lambda>i. argv ! i); req = s_req s in
     if cmd = ''newvndprefix'' then Some (checknull K argv 2 c (\<lambda>(st, out).
       plain out (Some (rmnet_new_vnd_prefix K req (STRTOUI32 (a 1)) RMNETCTL_NEW_VND (Some (a 2)) st))))
     else if cmd = ''newvndname'' then Some (checknull K argv 2 c (\<lambda>(st, out).
       plain out (Some (rmnet_new_vnd_name K req (STRTOUI32 (a 1)) (Some (a 2)) st))))
     else if cmd = ''newvnd'' then Some (checknull K argv 1 c (\<lambda>(st, out).
       plain out (Some (rmnet_new_vnd K req (STRTOUI32 (a 1)) RMNETCTL_NEW_VND st))))
     else if cmd = ''getvndname'' then Some (checknull K argv 1 c (\<lambda>(st, out). do {
       (rc, buf, st) \<leftarrow> rmnet_get_vnd_name K req (STRTOUI32 (a 1)) (Some (replicate 32 NUL)) 32 st;
       Some (True, rc, st, out @ (if rc = RMNETCTL_SUCCESS
         then [Text (''VND name: '' @ c_str (the buf) @ [NL])] else [])) }))
     else if cmd = ''freevnd'' then Some (checknull K argv 1 c (\<lambda>(st, out).
       plain out (Some (rmnet_new_vnd K req (STRTOUI32 (a 1)) RMNETCTL_FREE_VND st))))
     else if cmd = ''delvnctcflow'' then Some (checknull K argv 3 c (\<lambda>(st, out).
       plain out (Some (rmnet_add_del_vnd_tc_flow K req (STRTOUI32 (a 1)) (STRTOUI32 (a 2)) (STRTOUI32 (a 3)) RMNETCTL_DEL_FLOW st))))
     else if cmd = ''addvnctcflow'' then Some (checknull K argv 3 c (\<lambda>(st, out).
       plain out (Some (rmnet_add_del_vnd_tc_flow K req (STRTOUI32 (a 1)) (STRTOUI32 (a 2)) (STRTOUI32 (a 3)) RMNETCTL_ADD_FLOW st))))
     else None)"

text \<open>The buffer of \<open>getlepc\<close> comes from \<open>malloc\<close>; printing it without a terminator is undefined.\<close>

definition cli_getlepc :: "env \<Rightarrow> stack \<Rightarrow> string list \<Rightarrow> cli \<Rightarrow> cli_branch" where
  "cli_getlepc K s argv c = checknull K argv 1 c (\<lambda>(st, out).
    let (m, tr) = sys K (SysMalloc 16) (trace st); st = st\<lparr>trace := tr\<rparr> in
    if ret m = 0
    then Some (False, RMNETCTL_LIB_ERR, rmnetctl_cleanup K st,
           out @ print_rmnet_api_status RMNETCTL_LIB_ERR RMNETCTL_CFG_FAILURE_EGRESS_DEV_NAME_NULL)
    else do {
      dev \<leftarrow> arg argv 2;
      (rc, (mode, nxt), st) \<leftarrow> rmnet_get_logical_ep_config K (s_req s) (STRTOI32 (argv ! 1)) dev (Some (s_mode s))
         (Some (of_bytes (map (s_junk s) [0..<16]))) 16 st;
      (if rc = RMNETCTL_SUCCESS \<and> NUL \<notin> set (the nxt) then None else
       Some (True, rc, st\<lparr>trace := sys_free (ret m) (trace st)\<rparr>,
         out @ (if rc = RMNETCTL_SUCCESS
           then [Text (''rmnet_mode is '' @ show_u (the mode) @ [NL]),
                 Text (''egress_dev_name is '' @ c_str (the nxt) @ [NL])] else []))) })"

definition cli_old_formats :: "env \<Rightarrow> stack \<Rightarrow> string list \<Rightarrow> cli \<Rightarrow> cli_branch option" where
  "cli_old_formats K s argv c =
    (let cmd = c_str (argv ! 0); a = (\<lambda>i. argv ! i); req = s_req s in
     if cmd = ''setlidf'' then Some (checknull K argv 3 c (\<lambda>(st, out).
       plain out (Some (rmnet_set_link_ingress_data_format_tailspace K req (STRTOUI32 (a 1)) (STRTOUI8 (a 2)) (Some (a 3)) st))))
     else if cmd = ''getlepc'' then Some (cli_getlepc K s argv c)
     else if cmd = ''setledf'' then Some (checknull K argv 3 c (\<lambda>(st, out). do {
       dev \<leftarrow> arg argv 4;
       plain out (Some (rmnet_set_link_egress_data_format K req (STRTOUI32 (a 1)) (STRTOUI16 (a 2)) (STRTOUI16 (a 3)) dev st)) }))
     else if cmd = ''setlepc'' then Some (checknull K argv 2 c (\<lambda>(st, out). do {
       dev \<leftarrow> arg argv 3;
       nxt \<leftarrow> arg argv 4;
       plain out (Some (rmnet_set_logical_ep_config K req (STRTOI32 (a 1)) (STRTOUI8 (a 2)) dev nxt st)) }))
     else if cmd = ''unsetlepc'' then Some (checknull K argv 1 c (\<lambda>(st, out). do {
       dev \<leftarrow> arg argv 2;
       plain out (Some (rmnet_unset_logical_ep_config K req (STRTOI32 (a 1)) dev st)) }))
     else None)"

definition cli_old :: "env \<Rightarrow> stack \<Rightarrow> string list \<Rightarrow> cli \<Rightarrow> cli_branch" where
  "cli_old K s argv c = (case cli_old_devices K s argv c of Some r \<Rightarrow> r
    | None \<Rightarrow> case cli_old_vnd K s argv c of Some r \<Rightarrow> r
    | None \<Rightarrow> case cli_old_formats K s argv c of Some r \<Rightarrow> r
    | None \<Rightarrow> case c of (st, out) \<Rightarrow> Some (True, RMNETCTL_LIB_ERR, st, out))"

section \<open>The program\<close>

text \<open>
  How a run ends: it returns a code, or it uses the handle after it was freed. That is undefined behaviour;
  the state beside it is what was done and printed until then. All other undefined behaviour is \<open>None\<close>.
\<close>

datatype cli_exit = Returned int | Handle_used_after_free

text \<open>
  From the label \<open>end\<close>: \<open>rmnetctl_cleanup\<close> frees the handle, if there is one, and \<open>rtrmnet_ctl_deinit\<close> then
  reads its socket from it.
\<close>

definition cli_end :: "env \<Rightarrow> int \<Rightarrow> cli \<Rightarrow> cli_exit \<times> cli" where
  "cli_end K rc c = (case c of (st, out) \<Rightarrow>
     let out = out @ print_rmnet_api_status rc (err_no st); handle = hndl st;
         st = rmnetctl_cleanup K st
     in if handle \<noteq> None then (Handle_used_after_free, st, out)
        else (Returned rc, snd (rtrmnet_ctl_deinit K st), out))"

definition rmnet_api_call :: "env \<Rightarrow> stack \<Rightarrow> string list \<Rightarrow> sysev list \<Rightarrow> (cli_exit \<times> cli) option" where
  "rmnet_api_call K s argv tr =
    (let st = \<lparr>hndl = None, ecode = Some RMNETCTL_CFG_FAILURE_NO_COMMAND, trace = tr\<rparr>;
         no_command = print_rmnet_api_status RMNETCTL_LIB_ERR RMNETCTL_CFG_FAILURE_NO_COMMAND in
     if argv = [] then Some (Returned RMNETCTL_LIB_ERR, st, no_command)
     else if c_str (argv ! 0) = ''help''
     then Some (Returned RMNETCTL_LIB_ERR, st, print_rmnet_api_status RMNETCTL_LIB_ERR RMNETCTL_CFG_SUCCESS_HELP_COMMAND)
     else let new = (c_str (argv ! 0) = ''-n'');
              (rc, st) = (if new then rtrmnet_ctl_init K True st else rmnetctl_init K True st) in
     if rc \<noteq> RMNETCTL_SUCCESS then Some (Returned RMNETCTL_LIB_ERR, st, print_rmnet_api_status rc (err_no st))
     else let st = set_err RMNETCTL_CFG_FAILURE_NO_COMMAND st;
              argv = (if new then drop 1 argv else argv) in
     if argv = [] then Some (Returned RMNETCTL_LIB_ERR, st, no_command)
     else do {
       (at_end, rc, c) \<leftarrow> (if new then cli_new K s argv (st, []) else cli_old K s argv (st, []));
       Some (if at_end then cli_end K rc c else (Returned rc, c))
     })"

definition rmnetcli_main :: "env \<Rightarrow> stack \<Rightarrow> string list \<Rightarrow> sysev list \<Rightarrow> (cli_exit \<times> cli) option" where
  "rmnetcli_main K s argv tr = (if argv = [] then None else rmnet_api_call K s (drop 1 argv) tr)"

end
