(* ===== verification/Rmnet_Cli_Api.thy ===== *)
theory Rmnet_Cli_Api
  imports Rmnet_Cli Rmnet_Rt_Api
begin

text \<open>
  The theorems on rmnetcli: which request a command line stands for, what happens when arguments
  are missing, and what the program releases at its end.
\<close>

section \<open>What a command line stands for\<close>








text \<open>The number of arguments each command checks.\<close>

definition cli_arity :: "string \<Rightarrow> nat option" where
  "cli_arity cmd = map_of [(''newlink'', 3), (''changelink'', 4), (''getlink'', 1), (''dellink'', 1), (''bridge'', 2),
     (''uplinkparam'', 5), (''flowactivate'', 5), (''flowdel'', 5), (''flowcontrol'', 6), (''systemup'', 6),
     (''systemdown'', 3), (''qmiscale'', 3), (''wdafreq'', 3)] cmd"

lemma plain_rt [simp]: "plain out (Some (rt_spec K ack0 r st)) = Some (case rt_spec K ack0 r st of (rc, st) \<Rightarrow> (True, rc, st, out))"
  by (simp add: plain_def)



lemma cli_new_missing:
  assumes "cli_arity (c_str (argv ! 0)) = Some n" "length argv \<le> n"
  shows "cli_new K s argv (st, out) = Some (False, RMNETCTL_INVALID_ARG, rmnetctl_cleanup K st,
     out @ print_rmnet_api_status RMNETCTL_INVALID_ARG RMNETCTL_CFG_FAILURE_NO_COMMAND)"
  using assms by (auto simp: cli_arity_def cli_new_def Let_def checknull_def split: if_splits)

section \<open>What a request leaves alone\<close>

definition same_resources :: "env \<Rightarrow> sysev list \<Rightarrow> sysev list \<Rightarrow> bool" where
  "same_resources K tr tr' \<longleftrightarrow> mallocs K tr' = mallocs K tr \<and> freed tr' = freed tr \<and> sockets K tr' = sockets K tr \<and>
     closed_fds tr' = closed_fds tr"


lemma same_resources_refl [simp]: "same_resources K tr tr"
  by (simp add: same_resources_def)





lemma rtrmnet_init_success:
  assumes "rtrmnet_ctl_init K True st = (RMNETCTL_SUCCESS, st1)" "ecode st = Some e"
  shows "\<exists>h. hndl st1 = Some h \<and> h_addr h \<noteq> 0 \<and> transaction_id h = 0 \<and> mallocs K (trace st1) = mallocs K (trace st) @ [h_addr h] \<and>
    freed (trace st1) = freed (trace st) \<and> sockets K (trace st1) = sockets K (trace st) @ [netlink_fd h] \<and>
    closed_fds (trace st1) = closed_fds (trace st) \<and> rt_sent (trace st1) = rt_sent (trace st)"
  using assms
  by (auto simp: rtrmnet_ctl_init_def sys_def Let_def sys_free_def set_ecode_def simp del: append_assoc split: if_splits)

lemma cleanup_trace:
  assumes "hndl st = Some h" "h_addr h \<noteq> 0"
  shows "freed (trace (rmnetctl_cleanup K st)) = freed (trace st) @ [h_addr h]"
    "closed_fds (trace (rmnetctl_cleanup K st)) = closed_fds (trace st) @ [netlink_fd h]"
    "mallocs K (trace (rmnetctl_cleanup K st)) = mallocs K (trace st)"
    "sockets K (trace (rmnetctl_cleanup K st)) = sockets K (trace st)"
    "rt_sent (trace (rmnetctl_cleanup K st)) = rt_sent (trace st)" "hndl (rmnetctl_cleanup K st) = Some h"
  using assms by (simp_all add: rmnetctl_cleanup_def sys_def sys_free_def Let_def del: append_assoc)

lemma deinit_trace:
  assumes "hndl st = Some h" "h_addr h \<noteq> 0"
  shows "freed (trace (snd (rtrmnet_ctl_deinit K st))) = freed (trace st) @ [h_addr h]"
    "closed_fds (trace (snd (rtrmnet_ctl_deinit K st))) = closed_fds (trace st) @ [netlink_fd h]"
    "mallocs K (trace (snd (rtrmnet_ctl_deinit K st))) = mallocs K (trace st)"
    "sockets K (trace (snd (rtrmnet_ctl_deinit K st))) = sockets K (trace st)"
  using assms by (simp_all add: rtrmnet_ctl_deinit_def sys_def sys_free_def Let_def del: append_assoc)

definition cli_start :: "sysev list \<Rightarrow> rctx" where
  "cli_start tr = \<lparr>hndl = None, ecode = Some RMNETCTL_CFG_FAILURE_NO_COMMAND, trace = tr\<rparr>"

lemma api_call_new:
  assumes "rtrmnet_ctl_init K True (cli_start tr) = (RMNETCTL_SUCCESS, st1)" "argv \<noteq> []"
  shows "rmnet_api_call K s (''-n'' # argv) tr = (case cli_new K s argv (set_err RMNETCTL_CFG_FAILURE_NO_COMMAND st1, []) of
     None \<Rightarrow> None | Some (at_end, rc, c) \<Rightarrow> Some (if at_end then cli_end K rc c else (Returned rc, c)))"
proof -
  have "c_str ''-n'' = ''-n''" by code_simp
  then show ?thesis using assms
    by (auto simp: rmnet_api_call_def cli_start_def Let_def split: option.splits)
qed

section \<open>Properties\<close>

lemma counting_init:
  "\<exists>st1. rtrmnet_ctl_init counting_env True (cli_start []) = (RMNETCTL_SUCCESS, st1) \<and>
     hndl st1 = Some \<lparr>h_addr = 1, pid = 0, transaction_id = 0, netlink_fd = 3,
       src_addr = \<lparr>nl_family = 16, nl_pid = 0, nl_groups = 0\<rparr>, dest_addr = \<lparr>nl_family = 16, nl_pid = 0, nl_groups = 0\<rparr>\<rparr>"
  by (auto simp: rtrmnet_ctl_init_def counting_env_def sys_def Let_def cli_start_def)


definition stack0 :: stack where
  "stack0 = \<lparr>s_req = msg0, s_ack = replicate 36 0, s_junk = (\<lambda>_. 0), s_register_status = 0, s_flags = 0,
     s_agg_size = 0, s_agg_count = 0, s_tail = 0, s_mode = 0\<rparr>"


text \<open>
  A command after \<open>-n\<close> with too few arguments (all thirteen commands) prints INVALID_ARG and
  returns it; nothing was sent and the handle was released exactly once.
\<close>

theorem cli_missing_arguments:
  assumes "rtrmnet_ctl_init K True (cli_start []) = (RMNETCTL_SUCCESS, st1)"
    and "cli_arity (c_str (hd argv)) = Some n" "argv \<noteq> []" "length argv \<le> n"
  shows "\<exists>st'. rmnetcli_main K s (prog # ''-n'' # argv) [] = Some (Returned RMNETCTL_INVALID_ARG, st', [Text (''INVALID_ARG'' @ [NL])]) \<and>
    rt_sent (trace st') = [] \<and>
    (\<exists>h. hndl st1 = Some h \<and> mallocs K (trace st') = [h_addr h] \<and> freed (trace st') = [h_addr h] \<and>
       sockets K (trace st') = [netlink_fd h] \<and> closed_fds (trace st') = [netlink_fd h])"
proof -
  obtain h where h: "hndl st1 = Some h" "h_addr h \<noteq> 0" "mallocs K (trace st1) = [h_addr h]" "freed (trace st1) = []"
    "sockets K (trace st1) = [netlink_fd h]" "closed_fds (trace st1) = []" "rt_sent (trace st1) = []"
    using rtrmnet_init_success[OF assms(1), of RMNETCTL_CFG_FAILURE_NO_COMMAND] by (auto simp: cli_start_def sockets_def)
  let ?st = "set_err RMNETCTL_CFG_FAILURE_NO_COMMAND st1"
  have e: "hndl ?st = Some h" "trace ?st = trace st1" using h(1) by (simp_all add: set_err_def)
  note c = cleanup_trace[OF e(1) h(2), of K]
  have "rmnetcli_main K s (prog # ''-n'' # argv) [] =
     Some (Returned RMNETCTL_INVALID_ARG, rmnetctl_cleanup K ?st, [Text (''INVALID_ARG'' @ [NL])])"
    using assms(2-4) cli_new_missing[of argv n K s ?st "[]"]
    by (simp add: rmnetcli_main_def api_call_new[OF assms(1)] hd_conv_nth print_rmnet_api_status_def)
  then show ?thesis using h c e(2) by auto
qed

theorem cli_missing_arguments_witness:
  "\<exists>st'. rmnetcli_main counting_env stack0 [''rmnetcli'', ''-n'', ''dellink''] [] = Some (Returned 3, st', [Text (''INVALID_ARG'' @ [NL])]) \<and> rt_sent (trace st') = []"
proof -
  obtain st1 where i: "rtrmnet_ctl_init counting_env True (cli_start []) = (RMNETCTL_SUCCESS, st1)" using counting_init by auto
  have n: "cli_arity (c_str (hd [''dellink''])) = Some 1" by (simp add: cli_arity_def c_str_def)
  show ?thesis using cli_missing_arguments[OF i n, of stack0 "''rmnetcli''"] by auto
qed

text \<open>
  \<open>flowactivate\<close> checks five arguments but reads six: with exactly five, which the check
  accepts, the program passes a null pointer to \<open>strtoul\<close>.
\<close>

theorem cli_flowactivate_null:
  assumes "rtrmnet_ctl_init K True (cli_start tr) = (RMNETCTL_SUCCESS, st1)"
    and "c_str cmd = ''flowactivate''"
  shows "rmnetcli_main K s [prog, ''-n'', cmd, d, v, b, f, i] tr = None"
  using assms(2)
  by (simp add: rmnetcli_main_def api_call_new[OF assms(1)] cli_new_def Let_def checknull_def arg_def)

theorem cli_flowactivate_null_witness:
  "rmnetcli_main counting_env stack0 [''rmnetcli'', ''-n'', ''flowactivate'', ''rmnet_ipa0'', ''rmnet_data0'', ''5'', ''1'', ''0''] [] = None"
proof -
  obtain st1 where i: "rtrmnet_ctl_init counting_env True (cli_start []) = (RMNETCTL_SUCCESS, st1)" using counting_init by auto
  show ?thesis by (rule cli_flowactivate_null[OF i]) (simp add: c_str_def)
qed

end
