(* ===== verification/Dt_Str.thy ===== *)
theory Dt_Str
  imports C_Lib "HOL-Library.Monad_Syntax"
begin

text \<open>
  The parsers of datatop (datatop/src/datatop_str.c). A line buffer is a string of the buffer's
  size, its C string ending at the first NUL; the dictionary holds pointers into line buffers, a
  pointer being the number of the buffer and an offset.

  A \<open>for\<close> loop is \<open>for_loop body n i s\<close>: \<open>n\<close> rounds from index \<open>i\<close> on state \<open>s\<close>. \<open>None\<close> stands for
  an access outside an object or the use of a value that was never stored.
\<close>

section \<open>Loops and buffers\<close>

primrec for_loop :: "(nat \<Rightarrow> 's \<Rightarrow> 's option) \<Rightarrow> nat \<Rightarrow> nat \<Rightarrow> 's \<Rightarrow> 's option" where
  "for_loop body 0 i s = Some s"
| "for_loop body (Suc n) i s = do { s \<leftarrow> body i s; for_loop body n (Suc i) s }"

definition rd :: "string \<Rightarrow> nat \<Rightarrow> char option" where
  "rd buf i = (if i < length buf then Some (buf ! i) else None)"

definition wr :: "string \<Rightarrow> nat \<Rightarrow> char \<Rightarrow> string option" where
  "wr buf i c = (if i < length buf then Some (buf[i := c]) else None)"

type_synonym ptr = "nat \<times> nat"

abbreviation (input) DTOP_DICT_SIZE :: nat where "DTOP_DICT_SIZE \<equiv> 2048"

record dt_procdict =
  dmax :: "nat option"
  dkey :: "nat \<Rightarrow> ptr option"
  dval :: "nat \<Rightarrow> ptr option"

definition dict_new :: dt_procdict where
  "dict_new = \<lparr>dmax = None, dkey = (\<lambda>_. None), dval = (\<lambda>_. None)\<rparr>"

text \<open>The C string at a pointer; a buffer without a terminator from there on is read past its end.\<close>

definition deref :: "string list \<Rightarrow> ptr \<Rightarrow> string option" where
  "deref mem p = (case p of (l, off) \<Rightarrow>
     if l < length mem \<and> NUL \<in> set (drop off (mem ! l)) then Some (c_str (drop off (mem ! l))) else None)"

section \<open>Reading a line\<close>

text \<open>The \<open>while\<close> loop of \<open>dt_read_line\<close>; \<open>n\<close> bounds the rounds by the room in \<open>buf1\<close>.\<close>

fun read_line_loop :: "nat \<Rightarrow> string \<Rightarrow> nat \<Rightarrow> string \<Rightarrow> nat \<Rightarrow> nat \<Rightarrow> (string \<times> nat) option" where
  "read_line_loop 0 buf1 i buf2 len2 j = Some (buf1, i)"
| "read_line_loop (Suc n) buf1 i buf2 len2 j =
    (if j < len2 then do {
       c \<leftarrow> rd buf2 j;
       buf1 \<leftarrow> wr buf1 i c;
       (if c = NL then Some (buf1, i) else read_line_loop n buf1 (Suc i) buf2 len2 (Suc j))
     } else Some (buf1, i))"

text \<open>\<open>dt_read_line\<close>: the buffer after the call and the length of the line.\<close>

definition dt_read_line :: "string \<Rightarrow> int \<Rightarrow> string \<Rightarrow> int \<Rightarrow> int \<Rightarrow> (string \<times> nat) option" where
  "dt_read_line buf1 len1 buf2 len2 start =
    (if len1 < 1 \<or> len2 < 1 \<or> start < 0 \<or> start > len2 then Some (buf1, 0)
     else do {
       (buf1, i) \<leftarrow> read_line_loop (nat (len1 - 1)) buf1 0 buf2 (nat len2) (nat start);
       buf1 \<leftarrow> wr buf1 i NUL;
       Some (buf1, i)
     })"

section \<open>The dictionary parsers\<close>

text \<open>The loop both two-line parsers share: a pointer behind each space, the space becoming NUL.\<close>

definition split_spaces :: "nat \<Rightarrow> string \<Rightarrow> nat \<Rightarrow> (nat \<Rightarrow> ptr option) \<Rightarrow> (string \<times> nat \<times> (nat \<Rightarrow> ptr option)) option" where
  "split_spaces l line len ps =
    for_loop (\<lambda>i (line, k, ps).
      if k \<ge> DTOP_DICT_SIZE then Some (line, k, ps)
      else do {
        c \<leftarrow> rd line i;
        (if c = SPC then do { line \<leftarrow> wr line i NUL; Some (line, Suc k, ps(k := Some (l, i + 1))) }
         else Some (line, k, ps))
      }) len 0 (line, 0, ps)"

text \<open>Result: the number of pairs, both lines, the dictionary.\<close>

definition dt_parse_proc_dictionary ::
  "nat \<Rightarrow> string \<Rightarrow> nat \<Rightarrow> nat \<Rightarrow> string \<Rightarrow> nat \<Rightarrow> dt_procdict \<Rightarrow> (nat \<times> string \<times> string \<times> dt_procdict) option" where
  "dt_parse_proc_dictionary l1 line1 len1 l2 line2 len2 dict =
    (if len1 < 1 \<or> len2 < 1 then Some (0, line1, line2, dict)
     else do {
       (line1, j, ks) \<leftarrow> split_spaces l1 line1 len1 (dkey dict);
       (line2, k, vs) \<leftarrow> split_spaces l2 line2 len2 (dval dict);
       let j = (if j \<noteq> k then (if k < j then k else j) else j);
       Some (j, line1, line2, dict\<lparr>dmax := Some j, dkey := ks, dval := vs\<rparr>)
     })"

definition dt_parse_for_prefix :: "nat \<Rightarrow> string \<Rightarrow> nat \<Rightarrow> dt_procdict \<Rightarrow> (string \<times> dt_procdict) option" where
  "dt_parse_for_prefix l1 line1 len1 dict =
    (if len1 < 1 then Some (line1, dict)
     else do {
       (line1, k, ks) \<leftarrow> split_spaces l1 line1 len1 (dkey dict);
       let vs = (\<lambda>j. if j < k then Some (l1, 0) else dval dict j);
       line1 \<leftarrow> for_loop (\<lambda>j line. do {
           c \<leftarrow> rd line j; (if c = CHR '':'' then wr line j NUL else Some line) }) len1 0 line1;
       Some (line1, dict\<lparr>dkey := ks, dval := vs\<rparr>)
     })"

text \<open>The index, or -1; the keys below \<open>max\<close> are read whether they were stored or not.\<close>

fun find_loop :: "string list \<Rightarrow> string \<Rightarrow> dt_procdict \<Rightarrow> nat \<Rightarrow> nat \<Rightarrow> int option" where
  "find_loop mem str dict 0 i = Some (- 1)"
| "find_loop mem str dict (Suc n) i = do {
     p \<leftarrow> dkey dict i;
     s \<leftarrow> deref mem p;
     (if str = s then Some (int i) else find_loop mem str dict n (Suc i)) }"

definition dt_find_dict_idx :: "string list \<Rightarrow> string \<Rightarrow> dt_procdict \<Rightarrow> int option" where
  "dt_find_dict_idx mem str dict = do { m \<leftarrow> dmax dict; find_loop mem str dict m 0 }"

text \<open>The position of the first character other than a space among the \<open>n\<close> from \<open>i\<close> on.\<close>

fun skip_spaces :: "string \<Rightarrow> nat \<Rightarrow> nat \<Rightarrow> nat option option" where
  "skip_spaces line 0 i = Some None"
| "skip_spaces line (Suc n) i = do {
     c \<leftarrow> rd line i;
     (if c \<noteq> SPC then Some (Some i) else skip_spaces line n (Suc i)) }"

fun find_space :: "string \<Rightarrow> nat \<Rightarrow> nat \<Rightarrow> nat option option" where
  "find_space line 0 i = Some None"
| "find_space line (Suc n) i = do {
     c \<leftarrow> rd line i;
     (if c = SPC then Some (Some i) else find_space line n (Suc i)) }"

text \<open>The value starts one behind the first character that is not a space.\<close>

definition dt_parse_proc_same_line_key_and_val ::
  "nat \<Rightarrow> string \<Rightarrow> nat \<Rightarrow> nat \<Rightarrow> dt_procdict \<Rightarrow> (nat \<times> string \<times> dt_procdict) option" where
  "dt_parse_proc_same_line_key_and_val l1 line1 len1 l dict =
    (if len1 < 1 then Some (0, line1, dict)
     else do {
       found \<leftarrow> (if l < DTOP_DICT_SIZE then find_space line1 len1 0 else Some None);
       (line1, dict) \<leftarrow> (case found of None \<Rightarrow> Some (line1, dict)
         | Some i \<Rightarrow> do {
             line1 \<leftarrow> wr line1 i NUL;
             v \<leftarrow> skip_spaces line1 (len1 - (i + 1)) (i + 1);
             let vs = (case v of None \<Rightarrow> dval dict | Some n \<Rightarrow> (dval dict)(l := Some (l1, n + 1)));
             Some (line1, dict\<lparr>dkey := (dkey dict)(l := Some (l1, 0)), dval := vs\<rparr>) });
       Some (l + 1, line1, dict\<lparr>dmax := Some (l + 1)\<rparr>)
     })"

definition is_sep :: "char \<Rightarrow> bool" where
  "is_sep c \<longleftrightarrow> c = SPC \<or> c = CHR '','' \<or> c = TAB"

text \<open>The table of values has 2048 places; the loop does not check its index against them.\<close>

definition dt_single_line_parse :: "nat \<Rightarrow> string \<Rightarrow> nat \<Rightarrow> dt_procdict \<Rightarrow> (nat \<times> string \<times> dt_procdict) option" where
  "dt_single_line_parse l1 line1 len1 dict = do {
     (line1, k, vs) \<leftarrow> for_loop (\<lambda>i (line, k, vs). do {
         c \<leftarrow> rd line i;
         (if is_sep c then
            (if k < DTOP_DICT_SIZE then do { line \<leftarrow> wr line i NUL; Some (line, Suc k, vs(k := Some (l1, i + 1))) } else None)
          else Some (line, k, vs)) }) len1 0 (line1, 1, (dval dict)(0 := Some (l1, 0)));
     Some (k, line1, dict\<lparr>dmax := Some k, dval := vs\<rparr>)
   }"

end
