(* ===== verification/Dt_Point.thy ===== *)
theory Dt_Point
  imports C_Base Dt_Str
begin

text \<open>
  Data points, gatherers and their lists (datatop/src/datatop_interface.h, datatop_linked_list.c and
  datatop_helpers.c): storing a value, printing names, values and differences, polling and resetting
  all gatherers.

  The union of a value is its 32 bytes. A name or prefix is a string of its own or points into the
  line buffers of its gatherer. Output to a \<open>FILE\<close> is a list of texts; the parameter \<open>W\<close> says which
  \<open>fprintf\<close> succeeds. \<open>None\<close> is undefined behaviour.
\<close>

section \<open>Types\<close>

abbreviation (input) DTOP_ULONG :: nat where "DTOP_ULONG \<equiv> 0"
abbreviation (input) DTOP_LONG :: nat where "DTOP_LONG \<equiv> 1"
abbreviation (input) DTOP_UINT :: nat where "DTOP_UINT \<equiv> 2"
abbreviation (input) DTOP_INT :: nat where "DTOP_INT \<equiv> 3"
abbreviation (input) DTOP_UCHAR :: nat where "DTOP_UCHAR \<equiv> 4"
abbreviation (input) DTOP_CHAR :: nat where "DTOP_CHAR \<equiv> 5"
abbreviation (input) DTOP_STR :: nat where "DTOP_STR \<equiv> 6"
abbreviation (input) FILE_ERROR :: int where "FILE_ERROR \<equiv> - 1"
abbreviation (input) FILE_SUCCESS :: int where "FILE_SUCCESS \<equiv> 0"
abbreviation (input) DTOP_POLL_OK :: int where "DTOP_POLL_OK \<equiv> 0"
abbreviation (input) DTOP_POLL_IO_ERR :: int where "DTOP_POLL_IO_ERR \<equiv> 1"
abbreviation (input) DTOP_DP_MAX_STR_LEN :: nat where "DTOP_DP_MAX_STR_LEN \<equiv> 32"

datatype text_ref = Own string | At ptr

record dtop_data_point =
  dp_name :: text_ref
  dp_prefix :: "text_ref option"
  dp_type :: nat
  dp_initial :: bytes
  dp_populated :: bool
  dp_data :: bytes
  dp_skip :: bool

record 'k gatherer =
  g_prefix :: string
  g_file :: string
  g_poll :: 'k
  g_points :: "dtop_data_point list"
  g_len :: nat
  g_line :: "string list"
  g_line2 :: "string list"

text \<open>The line buffers in one numbering: the first set, then the second.\<close>

definition g_mem :: "'k gatherer \<Rightarrow> string list" where
  "g_mem g = g_line g @ g_line2 g"

definition text_of :: "'k gatherer \<Rightarrow> text_ref \<Rightarrow> string option" where
  "text_of g r = (case r of Own s \<Rightarrow> Some (c_str s) | At p \<Rightarrow> deref (g_mem g) p)"

definition point_at :: "'k gatherer \<Rightarrow> nat \<Rightarrow> dtop_data_point option" where
  "point_at g i = (if i < length (g_points g) then Some (g_points g ! i) else None)"

definition d_ulong :: "bytes \<Rightarrow> u64" where "d_ulong d = le_word (get_at 0 8 d)"
definition d_uint :: "bytes \<Rightarrow> u32" where "d_uint d = le_word (get_at 0 4 d)"
definition d_uchar :: "bytes \<Rightarrow> u8" where "d_uchar d = le_word (get_at 0 1 d)"

section \<open>Calls that may end the program\<close>

abbreviation (input) EXIT_SUCCESS :: int where "EXIT_SUCCESS \<equiv> 0"
abbreviation (input) EXIT_FAILURE :: int where "EXIT_FAILURE \<equiv> 1"

text \<open>A call returns, or it calls \<open>exit\<close> with a status; then nothing after it is run.\<close>

datatype 'a call = Returns 'a | Exits int

definition go_on :: "('a \<Rightarrow> 'b call option) \<Rightarrow> 'a call \<Rightarrow> 'b call option" where
  "go_on f r = (case r of Returns a \<Rightarrow> f a | Exits status \<Rightarrow> Some (Exits status))"

lemma go_on_simps [simp]:
  "go_on f (Returns a) = f a" "go_on f (Exits status) = Some (Exits status)"
  by (simp_all add: go_on_def)

section \<open>Linked lists\<close>

datatype 'a dtop_linked_list = Null | Node int 'a "'a dtop_linked_list"

text \<open>\<open>addr\<close> is what \<open>malloc\<close> returned; without memory the program exits.\<close>

definition dtop_add_linked_list :: "int \<Rightarrow> 'a \<Rightarrow> 'a dtop_linked_list \<Rightarrow> 'a dtop_linked_list call" where
  "dtop_add_linked_list addr dat list = (if addr = 0 then Exits EXIT_FAILURE else Returns (Node addr dat list))"

text \<open>The addresses freed, in this order.\<close>

fun dtop_rem_linked_list :: "'a dtop_linked_list \<Rightarrow> int list" where
  "dtop_rem_linked_list Null = []"
| "dtop_rem_linked_list (Node addr dat next_ptr) = addr # dtop_rem_linked_list next_ptr"

fun list_data :: "'a dtop_linked_list \<Rightarrow> 'a list" where
  "list_data Null = []"
| "list_data (Node addr dat next_ptr) = dat # list_data next_ptr"

section \<open>Storing a value\<close>

text \<open>
  The part common to all types: a conversion that fails leaves the data as they are; the initial
  value is then taken from the data, \<open>n\<close> bytes of it, once.
\<close>

definition scan_into :: "nat \<Rightarrow> bytes option \<Rightarrow> dtop_data_point \<Rightarrow> dtop_data_point" where
  "scan_into n v dp =
    (let d = (case v of None \<Rightarrow> dp_data dp | Some b \<Rightarrow> put_at 0 b (dp_data dp)) in
     if dp_populated dp then dp\<lparr>dp_data := d\<rparr>
     else dp\<lparr>dp_data := d, dp_initial := put_at 0 (take n d) (dp_initial dp), dp_populated := True\<rparr>)"

text \<open>\<open>%s\<close> has no width: a token of 32 characters or more overruns the union.\<close>

definition dtop_store_dp :: "dtop_data_point \<Rightarrow> string \<Rightarrow> dtop_data_point option" where
  "dtop_store_dp dp str =
    (if dp_type dp = DTOP_ULONG then Some (scan_into 8 (map_option (le_bytes 8) (sscanf_lu str)) dp)
     else if dp_type dp = DTOP_LONG then Some (scan_into 8 (map_option (le_bytes 8) (sscanf_ld str)) dp)
     else if dp_type dp = DTOP_UINT then Some (scan_into 4 (map_option (le_bytes 4) (sscanf_u str)) dp)
     else if dp_type dp = DTOP_INT then Some (scan_into 4 (map_option (le_bytes 4) (sscanf_d str)) dp)
     else if dp_type dp = DTOP_UCHAR \<or> dp_type dp = DTOP_CHAR
     then Some (scan_into 1 (map_option (\<lambda>c. [byte_of c]) (sscanf_c str)) dp)
     else if dp_type dp = DTOP_STR
     then (case sscanf_s str of
         None \<Rightarrow> Some (scan_into DTOP_DP_MAX_STR_LEN None dp)
       | Some t \<Rightarrow> if length t \<ge> DTOP_DP_MAX_STR_LEN then None
                  else Some (scan_into DTOP_DP_MAX_STR_LEN (Some (to_bytes t @ [0])) dp))
     else Some dp)"

section \<open>Formatting\<close>

abbreviation (input) QUOTE :: char where "QUOTE \<equiv> CHR 0x22"

fun fprints :: "(string list \<Rightarrow> string \<Rightarrow> bool) \<Rightarrow> string list \<Rightarrow> string list \<Rightarrow> int \<times> string list" where
  "fprints W out [] = (FILE_SUCCESS, out)"
| "fprints W out (s # ss) = (if W out s then fprints W (out @ [s]) ss else (FILE_ERROR, out))"

definition dtop_format_dp_names ::
  "(string list \<Rightarrow> string \<Rightarrow> bool) \<Rightarrow> 'k gatherer \<Rightarrow> dtop_data_point \<Rightarrow> string \<Rightarrow> string list \<Rightarrow> (int \<times> string list) option" where
  "dtop_format_dp_names W g dp prefix out = do {
     name \<leftarrow> text_of g (dp_name dp);
     mid \<leftarrow> (case dp_prefix dp of None \<Rightarrow> Some ''::'' | Some r \<Rightarrow> do { p \<leftarrow> text_of g r; Some ('':'' @ p @ '':'') });
     Some (fprints W out [[QUOTE] @ prefix @ mid @ name @ [QUOTE] @ '',''])
   }"

text \<open>The texts of the successive \<open>fprintf\<close> calls of \<open>dtop_format_dp_values\<close>.\<close>

definition value_texts :: "dtop_data_point \<Rightarrow> string list option" where
  "value_texts dp =
    (let d = dp_data dp; t = dp_type dp in
     if t = DTOP_ULONG then Some [show_u (d_ulong d)]
     else if t = DTOP_LONG then Some [show_int (sint (d_ulong d))]
     else if t = DTOP_UINT then Some [show_int (sint (d_uint d))]
     else if t = DTOP_INT then Some [show_u (d_uint d)]
     else if t = DTOP_UCHAR
     then Some [[char_of_byte (d_uchar d)] @ '','', ''(0x'' @ pad0 2 (show_nat 16 (unat (d_uchar d))) @ '')'']
     else if t = DTOP_CHAR then Some [[char_of_byte (d_uchar d)] @ '','', ''('' @ show_int (sint (d_uchar d)) @ '')'']
     else if t = DTOP_STR
     then (if 0 \<in> set d then Some [[QUOTE] @ c_str (of_bytes d) @ [QUOTE]] else None)
     else Some [''UNKNOWN_TYPE''])"

definition dtop_format_dp_values ::
  "(string list \<Rightarrow> string \<Rightarrow> bool) \<Rightarrow> dtop_data_point \<Rightarrow> string list \<Rightarrow> (int \<times> string list) option" where
  "dtop_format_dp_values W dp out = map_option (fprints W out) (value_texts dp)"

definition dtop_print_dp_csv ::
  "(string list \<Rightarrow> string \<Rightarrow> bool) \<Rightarrow> dtop_data_point \<Rightarrow> string list \<Rightarrow> (int \<times> string list) option" where
  "dtop_print_dp_csv W dp out = do {
     (rc, out) \<leftarrow> dtop_format_dp_values W dp out;
     Some (if rc = FILE_ERROR then (FILE_ERROR, out) else fprints W out ['',''])
   }"

text \<open>On standard output; \<open>printf\<close>'s results are not looked at.\<close>

definition print_ignore :: "(string list \<Rightarrow> string \<Rightarrow> bool) \<Rightarrow> string list \<Rightarrow> string \<Rightarrow> string list" where
  "print_ignore W out s = snd (fprints W out [s])"

definition dtop_print_dp ::
  "(string list \<Rightarrow> string \<Rightarrow> bool) \<Rightarrow> 'k gatherer \<Rightarrow> dtop_data_point \<Rightarrow> string \<Rightarrow> string list \<Rightarrow> string list option" where
  "dtop_print_dp W g dp prefix out = do {
     (_, out) \<leftarrow> dtop_format_dp_names W g dp prefix out;
     let out = print_ignore W out '' '';
     (_, out) \<leftarrow> dtop_format_dp_values W dp out;
     Some (print_ignore W out [NL])
   }"

text \<open>The loops over the points of one gatherer; \<open>n\<close> points from index \<open>i\<close>.\<close>

fun points_csv :: "(string list \<Rightarrow> string \<Rightarrow> bool) \<Rightarrow> 'k gatherer \<Rightarrow> nat \<Rightarrow> nat \<Rightarrow> string list \<Rightarrow> (int \<times> string list) option" where
  "points_csv W g 0 i out = Some (FILE_SUCCESS, out)"
| "points_csv W g (Suc n) i out = do {
     dp \<leftarrow> point_at g i;
     (rc, out) \<leftarrow> dtop_print_dp_csv W dp out;
     (if rc = FILE_ERROR then Some (FILE_ERROR, out) else points_csv W g n (Suc i) out) }"

definition dtop_print_dpg_csv where
  "dtop_print_dpg_csv W g out = points_csv W g (g_len g) 0 out"

fun points_names_csv :: "(string list \<Rightarrow> string \<Rightarrow> bool) \<Rightarrow> 'k gatherer \<Rightarrow> nat \<Rightarrow> nat \<Rightarrow> string list \<Rightarrow> (int \<times> string list) option" where
  "points_names_csv W g 0 i out = Some (FILE_SUCCESS, out)"
| "points_names_csv W g (Suc n) i out = do {
     dp \<leftarrow> point_at g i;
     (rc, out) \<leftarrow> dtop_format_dp_names W g dp (g_prefix g) out;
     (if rc = FILE_ERROR then Some (FILE_ERROR, out) else points_names_csv W g n (Suc i) out) }"

definition dtop_print_dpg_names_csv where
  "dtop_print_dpg_names_csv W g out = points_names_csv W g (g_len g) 0 out"

fun gatherers_csv :: "(string list \<Rightarrow> string \<Rightarrow> bool) \<Rightarrow> 'k gatherer dtop_linked_list \<Rightarrow> string list \<Rightarrow> (int \<times> string list) option" where
  "gatherers_csv W Null out = Some (FILE_SUCCESS, out)"
| "gatherers_csv W (Node a g next_ptr) out = do {
     (rc, out) \<leftarrow> dtop_print_dpg_csv W g out;
     (if rc = FILE_ERROR then Some (FILE_ERROR, out) else gatherers_csv W next_ptr out) }"

definition dtop_write_pollingdata_csv where
  "dtop_write_pollingdata_csv W list out = do {
     (rc, out) \<leftarrow> gatherers_csv W list out;
     Some (if rc = FILE_ERROR then (FILE_ERROR, out) else fprints W out [[NL]]) }"

fun points_print :: "(string list \<Rightarrow> string \<Rightarrow> bool) \<Rightarrow> 'k gatherer \<Rightarrow> nat \<Rightarrow> nat \<Rightarrow> string list \<Rightarrow> string list option" where
  "points_print W g 0 i out = Some out"
| "points_print W g (Suc n) i out = do {
     dp \<leftarrow> point_at g i;
     out \<leftarrow> dtop_print_dp W g dp (g_prefix g) out;
     points_print W g n (Suc i) out }"

definition dtop_print_dpg where
  "dtop_print_dpg W g out = points_print W g (g_len g) 0 out"

section \<open>Differences\<close>

definition dtop_format_text_for_snapshot :: "'k gatherer \<Rightarrow> dtop_data_point \<Rightarrow> string list option" where
  "dtop_format_text_for_snapshot g dp = do {
     mid \<leftarrow> (case dp_prefix dp of None \<Rightarrow> Some [] | Some r \<Rightarrow> do { p \<leftarrow> text_of g r; Some [p @ '':''] });
     name \<leftarrow> text_of g (dp_name dp);
     Some ([g_prefix g @ '':''] @ mid @ [name @ ''::'']) }"

text \<open>The difference is computed in \<open>int64_t\<close>; a result outside it is undefined.\<close>

definition snapshot_diff :: "dtop_data_point \<Rightarrow> int option" where
  "snapshot_diff dp =
    (let t = dp_type dp;
         x = (if t = DTOP_UINT then uint (d_uint (dp_data dp)) - uint (d_uint (dp_initial dp))
              else if t = DTOP_INT then sint (d_uint (dp_data dp)) - sint (d_uint (dp_initial dp))
              else sint (d_ulong (dp_data dp)) - sint (d_ulong (dp_initial dp)))
     in if - (2 ^ 63) \<le> x \<and> x < 2 ^ 63 then Some x else None)"

definition dtop_handle_dp_type_for_snapshot :: "'k gatherer \<Rightarrow> dtop_data_point \<Rightarrow> string list option" where
  "dtop_handle_dp_type_for_snapshot g dp = do {
     x \<leftarrow> snapshot_diff dp;
     (if x \<noteq> 0 then do { t \<leftarrow> dtop_format_text_for_snapshot g dp; Some (t @ [show_int x @ [NL]]) } else Some []) }"

fun points_diff :: "'k gatherer \<Rightarrow> nat \<Rightarrow> nat \<Rightarrow> string list option" where
  "points_diff g 0 i = Some []"
| "points_diff g (Suc n) i = do {
     dp \<leftarrow> point_at g i;
     t \<leftarrow> dtop_handle_dp_type_for_snapshot g dp;
     ts \<leftarrow> points_diff g n (Suc i);
     Some (t @ ts) }"

fun gatherers_diff :: "'k gatherer dtop_linked_list \<Rightarrow> string list option" where
  "gatherers_diff Null = Some []"
| "gatherers_diff (Node a g next_ptr) = do {
     t \<leftarrow> points_diff g (g_len g) 0;
     ts \<leftarrow> gatherers_diff next_ptr;
     Some (t @ ts) }"

text \<open>What \<open>dtop_print_snapshot_diff\<close> prints.\<close>

definition dtop_print_snapshot_diff :: "'k gatherer dtop_linked_list \<Rightarrow> string list option" where
  "dtop_print_snapshot_diff list = do {
     ts \<leftarrow> gatherers_diff list;
     Some ([[NL], ''Change In Datapoint Values'' @ [NL], ''---------------------------'' @ [NL]] @ ts @ [[NL]]) }"

section \<open>Polling and resetting\<close>

text \<open>
  \<open>P\<close> is the call through a gatherer's \<open>poll\<close> pointer: its result code and the gatherer after it.
  The code is not looked at.
\<close>

fun dtop_poll :: "('k gatherer \<Rightarrow> (int \<times> 'k gatherer) option) \<Rightarrow> 'k gatherer dtop_linked_list \<Rightarrow> 'k gatherer dtop_linked_list option" where
  "dtop_poll P Null = Some Null"
| "dtop_poll P (Node a g next_ptr) = do {
     (_, g) \<leftarrow> P g;
     next_ptr \<leftarrow> dtop_poll P next_ptr;
     Some (Node a g next_ptr) }"

definition set_point :: "'k gatherer \<Rightarrow> nat \<Rightarrow> dtop_data_point \<Rightarrow> 'k gatherer option" where
  "set_point g i dp = (if i < length (g_points g) then Some (g\<lparr>g_points := (g_points g)[i := dp]\<rparr>) else None)"

definition reset_points :: "'k gatherer \<Rightarrow> 'k gatherer option" where
  "reset_points g = for_loop (\<lambda>i g. do { dp \<leftarrow> point_at g i; set_point g i (dp\<lparr>dp_populated := False\<rparr>) }) (g_len g) 0 g"

fun dtop_reset_dp_initial_values :: "'k gatherer dtop_linked_list \<Rightarrow> 'k gatherer dtop_linked_list option" where
  "dtop_reset_dp_initial_values Null = Some Null"
| "dtop_reset_dp_initial_values (Node a g next_ptr) = do {
     g \<leftarrow> reset_points g;
     next_ptr \<leftarrow> dtop_reset_dp_initial_values next_ptr;
     Some (Node a g next_ptr) }"

text \<open>\<open>dtop_print_time_at_poll\<close> for the time \<open>sec\<close>, \<open>usec\<close>.\<close>

definition pad_left :: "nat \<Rightarrow> string \<Rightarrow> string" where
  "pad_left n s = replicate (n - length s) SPC @ s"

definition dtop_print_time_at_poll ::
  "(string list \<Rightarrow> string \<Rightarrow> bool) \<Rightarrow> int \<Rightarrow> nat \<Rightarrow> string list \<Rightarrow> int \<times> string list" where
  "dtop_print_time_at_poll W sec usec out =
    fprints W out [pad_left 10 (show_int sec), ''.'' @ pad0 6 (show_nat 10 usec) @ '','']"

end
