(* ===== verification/Dt_File.thy ===== *)
theory Dt_File
  imports Dt_Point
begin

text \<open>
  File operations of datatop (datatop/src/datatop_fileops.c). The \<open>world\<close> gives what the code finds:
  the content of files, whether a buffer can be allocated, what fresh heap, stack and data points
  contain, and the answers of \<open>access\<close>, \<open>mkdir\<close> and of opening a file for writing, and \<open>errno\<close>.
\<close>

record world =
  w_file :: "string \<Rightarrow> string option"
  w_mem :: bool
  w_heap :: "nat \<Rightarrow> char"
  w_stack :: "nat \<Rightarrow> char"
  w_point :: "nat \<Rightarrow> dtop_data_point"
  w_exists :: "string \<Rightarrow> bool"
  w_writable :: "string \<Rightarrow> bool"
  w_mkdir :: "string \<Rightarrow> bool"
  w_create :: "string \<Rightarrow> bool"
  w_errno :: int

abbreviation (input) VALID :: int where "VALID \<equiv> 0"
abbreviation (input) INVALID :: int where "INVALID \<equiv> - 1"

text \<open>The number of bytes read and the buffer, of which only that many bytes come from the file.\<close>

definition dt_read_file :: "world \<Rightarrow> string \<Rightarrow> nat \<Rightarrow> nat \<times> string option" where
  "dt_read_file w file len =
    (if \<not> w_mem w then (0, None)
     else case w_file w (c_str file) of None \<Rightarrow> (0, None)
     | Some content \<Rightarrow> (length (take len content), Some (put_at 0 (take len content) (map (w_heap w) [0..<len]))))"

text \<open>The second test is for a file that can be written, where its message speaks of one that cannot.\<close>

definition dtop_check_writefile_access :: "world \<Rightarrow> string \<Rightarrow> int \<times> string list" where
  "dtop_check_writefile_access w fw =
    (if w_exists w (c_str fw) then (INVALID, [''File specified already exists'' @ [NL]])
     else if w_writable w (c_str fw)
     then (INVALID, [''Permission to write to specified file denied'' @ [NL]])
     else (VALID, []))"

definition dtop_check_out_dir_presence :: "world \<Rightarrow> string \<Rightarrow> int \<times> string list" where
  "dtop_check_out_dir_presence w fw =
    (if \<not> w_exists w (c_str fw) then (INVALID, [''Out dir not present'' @ [NL]]) else (VALID, []))"

text \<open>\<open>mkdir\<close> returns 0 when it has created the directory; the test takes that for the failure and reports it.\<close>

definition dtop_create_dir :: "world \<Rightarrow> string \<Rightarrow> int \<times> string list" where
  "dtop_create_dir w full_path =
    (if w_mkdir w (c_str full_path)
     then (INVALID, [''Unable to create dir: '' @ c_str full_path @ '', errno: '' @ show_int (w_errno w) @ [NL]])
     else (VALID, []))"

definition dtop_open_writing_file :: "world \<Rightarrow> string \<Rightarrow> int" where
  "dtop_open_writing_file w fw = (if w_create w (c_str fw) then VALID else INVALID)"

text \<open>
  The count of newlines. \<open>fgetc\<close>'s result is kept in a signed char, so that a byte 0xFF ends the
  loop like the end of the file; a file that cannot be opened is a null pointer to \<open>fgetc\<close>.
\<close>

definition dtop_get_file_line_amount :: "world \<Rightarrow> string \<Rightarrow> nat option" where
  "dtop_get_file_line_amount w name =
    map_option (\<lambda>s. length (filter (\<lambda>c. c = NL) (takeWhile (\<lambda>c. c \<noteq> CHR 0xFF) s))) (w_file w (c_str name))"

lemma dt_read_file_buffer:
  "dt_read_file w file len = (n, Some buf) \<Longrightarrow> length buf = len \<and> n \<le> len"
  by (auto simp: dt_read_file_def put_at_def split: if_splits option.splits)

end
