(* ===== verification/Dt_Poll.thy ===== *)
theory Dt_Poll
  imports Dt_File
begin

text \<open>
  Gatherers for files of values, of names and values on one line, and of a line of names above a
  line of values (datatop_value_only_poll.c, datatop_gen_poll.c, datatop_single_line_poll.c and
  datatop_dual_line_poll.c): their poll functions, the searches that create them, and the dispatch
  through the poll pointer.
\<close>

abbreviation (input) DTOP_SIZE :: nat where "DTOP_SIZE \<equiv> 8192"
abbreviation (input) DTOP_LINE :: nat where "DTOP_LINE \<equiv> 2048"

datatype poll_kind = ValueOnly | Gen | SingleLine | DualLine | Meminfo | Stat | Dev

type_synonym dpg = "poll_kind gatherer"

definition stack_line :: "world \<Rightarrow> string" where
  "stack_line w = map (w_stack w) [0..<DTOP_LINE]"

section \<open>Files with one line of values\<close>

text \<open>The loop that stores the values of a dictionary over one line, point by point.\<close>

definition store_values :: "string \<Rightarrow> dt_procdict \<Rightarrow> bool \<Rightarrow> dpg \<Rightarrow> dpg option" where
  "store_values line dict retype g = for_loop (\<lambda>j g. do {
      dp \<leftarrow> point_at g j;
      p \<leftarrow> dval dict j;
      s \<leftarrow> deref [line] p;
      let dp = (if retype \<and> s \<noteq> [] \<and> hd s = CHR ''-'' then dp\<lparr>dp_type := DTOP_LONG\<rparr> else dp);
      dp \<leftarrow> dtop_store_dp dp s;
      set_point g j dp }) (g_len g) 0 g"

definition dtop_value_only_poll :: "world \<Rightarrow> dpg \<Rightarrow> (int \<times> dpg) option" where
  "dtop_value_only_poll w g =
    (if w_file w (c_str (g_file g)) = None then Some (DTOP_POLL_IO_ERR, g)
     else case dt_read_file w (g_file g) DTOP_SIZE of
       (0, _) \<Rightarrow> Some (DTOP_POLL_IO_ERR, g)
     | (_, None) \<Rightarrow> Some (DTOP_POLL_IO_ERR, g)
     | (_, Some buf) \<Rightarrow> do {
         (line, line_len) \<leftarrow> dt_read_line (stack_line w) (int DTOP_LINE) buf (int DTOP_SIZE) 0;
         (_, line, dict) \<leftarrow> dt_single_line_parse 0 line line_len dict_new;
         g \<leftarrow> store_values line dict False g;
         Some (DTOP_POLL_OK, g) })"

text \<open>\<open>sizeof(10)\<close> is 4: names have room for three characters.\<close>

definition value_only_name :: "nat \<Rightarrow> nat \<Rightarrow> string" where
  "value_only_name n i = (if n > 1 then take 3 (''['' @ show_nat 10 i @ '']:'') else [])"

definition dtop_value_only_search :: "world \<Rightarrow> string \<Rightarrow> (int \<times> dpg option) option" where
  "dtop_value_only_search w name =
    (case dt_read_file w name DTOP_SIZE of
       (0, _) \<Rightarrow> Some (DTOP_POLL_IO_ERR, None)
     | (_, None) \<Rightarrow> Some (DTOP_POLL_IO_ERR, None)
     | (_, Some buf) \<Rightarrow> do {
         (line, line_len) \<leftarrow> dt_read_line (stack_line w) (int DTOP_LINE) buf (int DTOP_SIZE) 0;
         (n, line, dict) \<leftarrow> dt_single_line_parse 0 line line_len dict_new;
         points \<leftarrow> for_loop (\<lambda>i ps. do {
             p \<leftarrow> dval dict i;
             s \<leftarrow> deref [line] p;
             Some (ps @ [(w_point w i)\<lparr>
               dp_type := (if s \<noteq> [] \<and> hd s = CHR ''-'' then DTOP_LONG else DTOP_ULONG),
               dp_name := Own (value_only_name n i), dp_prefix := None, dp_skip := False, dp_populated := False\<rparr>]) }) n 0 [];
         Some (DTOP_POLL_OK, Some \<lparr>g_prefix = name, g_file = name, g_poll = ValueOnly, g_points = points, g_len = n,
           g_line = [], g_line2 = []\<rparr>) })"

definition dtop_value_only_init :: "world \<Rightarrow> string \<Rightarrow> (int \<times> dpg option) option" where
  "dtop_value_only_init w name = dtop_value_only_search w (c_str name)"

section \<open>Files found in a directory\<close>

definition get_number_of_values :: "world \<Rightarrow> string \<Rightarrow> nat option" where
  "get_number_of_values w file =
    (case dt_read_file w file DTOP_SIZE of
       (0, _) \<Rightarrow> Some 0
     | (_, None) \<Rightarrow> Some 0
     | (_, Some buf) \<Rightarrow> do {
         (line, line_len) \<leftarrow> dt_read_line (stack_line w) (int DTOP_LINE) buf (int DTOP_SIZE) 0;
         (if line_len < 1 then Some 0
          else for_loop (\<lambda>i num. do {
            c \<leftarrow> rd line i;
            (if is_sep c then do { c' \<leftarrow> rd line (i + 1); Some (if c' \<noteq> NUL then num + 1 else num) } else Some num) })
            line_len 0 1) })"

definition dtop_gen_poll :: "world \<Rightarrow> dpg \<Rightarrow> (int \<times> dpg) option" where
  "dtop_gen_poll w g =
    (case dt_read_file w (g_file g) DTOP_SIZE of
       (0, _) \<Rightarrow> Some (DTOP_POLL_IO_ERR, g)
     | (_, None) \<Rightarrow> Some (DTOP_POLL_IO_ERR, g)
     | (_, Some buf) \<Rightarrow> do {
         (line, line_len) \<leftarrow> dt_read_line (stack_line w) (int DTOP_LINE) buf (int DTOP_SIZE) 0;
         (_, line, dict) \<leftarrow> dt_single_line_parse 0 line line_len dict_new;
         g \<leftarrow> store_values line dict True g;
         Some (DTOP_POLL_OK, g) })"

text \<open>\<open>snprintf\<close> into seven bytes cuts the index after six characters.\<close>

definition gen_name :: "string \<Rightarrow> nat \<Rightarrow> nat \<Rightarrow> string" where
  "gen_name name num i = (if num = 1 then name else name @ take 6 (''['' @ show_nat 10 i @ '']:''))"

definition dpg_construction :: "world \<Rightarrow> string \<Rightarrow> string \<Rightarrow> dpg option option" where
  "dpg_construction w dir name = do {
     let file = c_str dir @ c_str name;
     num \<leftarrow> get_number_of_values w file;
     Some (if num \<noteq> 0
       then Some \<lparr>g_prefix = c_str dir, g_file = file, g_poll = Gen,
              g_points = map (\<lambda>i. (w_point w i)\<lparr>dp_name := Own (gen_name (c_str name) num i), dp_prefix := None,
                 dp_type := DTOP_ULONG, dp_skip := False, dp_populated := False\<rparr>) [0..<num],
              g_len = num, g_line = [], g_line2 = []\<rparr>
       else None) }"

section \<open>Files with a name and a value per line\<close>

text \<open>
  The loop that reads the lines into their buffers of \<open>line_size\<close> one after the other and records
  their lengths; \<open>advance\<close> says at which lines the position moves on.
\<close>

definition read_lines :: "nat \<Rightarrow> nat \<Rightarrow> string \<Rightarrow> (nat \<Rightarrow> bool) \<Rightarrow> string list \<Rightarrow> (string list \<times> nat list) option" where
  "read_lines line_size buf_size buf advance lines = do {
     (lines, lens, _) \<leftarrow> for_loop (\<lambda>n (lines, lens, sum). do {
         (line, k) \<leftarrow> dt_read_line (lines ! n) (int line_size) buf (int buf_size) (int sum);
         Some (lines[n := line], lens @ [k], if advance n then sum + (k + 1) else sum) }) (length lines) 0 (lines, [], 0);
     Some (lines, lens) }"

definition nth_opt :: "'a list \<Rightarrow> nat \<Rightarrow> 'a option" where
  "nth_opt xs i = (if i < length xs then Some (xs ! i) else None)"

text \<open>One dictionary over all lines; line \<open>i\<close> goes to index \<open>i\<close>.\<close>

definition parse_lines :: "nat \<Rightarrow> string list \<Rightarrow> nat list \<Rightarrow> (string list \<times> dt_procdict) option" where
  "parse_lines count lines lens = for_loop (\<lambda>i (lines, dict). do {
      line \<leftarrow> nth_opt lines i;
      len \<leftarrow> nth_opt lens i;
      (_, line, dict) \<leftarrow> dt_parse_proc_same_line_key_and_val i line len i dict;
      Some (lines[i := line], dict) }) count 0 (lines, dict_new)"

definition dtop_single_line_poll :: "world \<Rightarrow> dpg \<Rightarrow> (int \<times> dpg) option" where
  "dtop_single_line_poll w g =
    (case dt_read_file w (g_file g) DTOP_SIZE of
       (0, _) \<Rightarrow> Some (DTOP_POLL_IO_ERR, g)
     | (_, None) \<Rightarrow> Some (DTOP_POLL_IO_ERR, g)
     | (_, Some buf) \<Rightarrow> do {
         (lines, lens) \<leftarrow> read_lines DTOP_LINE DTOP_SIZE buf (\<lambda>n. True) (g_line g);
         (lines, dict) \<leftarrow> parse_lines (g_len g) lines lens;
         let g = g\<lparr>g_line := lines\<rparr>;
         g \<leftarrow> for_loop (\<lambda>j g. do {
             dp \<leftarrow> point_at g j;
             name \<leftarrow> text_of g (dp_name dp);
             i \<leftarrow> dt_find_dict_idx (g_mem g) name dict;
             m \<leftarrow> dmax dict;
             (if 0 \<le> i \<and> i < int m then do {
                p \<leftarrow> dval dict (nat i);
                s \<leftarrow> deref (g_mem g) p;
                dp \<leftarrow> dtop_store_dp dp s;
                set_point g j dp }
              else Some g) }) (g_len g) 0 g;
         Some (DTOP_POLL_OK, g) })"

text \<open>The points get a name and a type; whether they count as populated is what the heap held.\<close>

definition dtop_single_line_search :: "world \<Rightarrow> string \<Rightarrow> nat \<Rightarrow> (int \<times> dpg option) option" where
  "dtop_single_line_search w name line_count =
    (case dt_read_file w name DTOP_SIZE of
       (0, _) \<Rightarrow> Some (DTOP_POLL_IO_ERR, None)
     | (_, None) \<Rightarrow> Some (DTOP_POLL_IO_ERR, None)
     | (_, Some buf) \<Rightarrow> do {
         (lines, lens) \<leftarrow> read_lines DTOP_LINE DTOP_SIZE buf (\<lambda>n. n + 1 < line_count)
            (replicate line_count (map (w_heap w) [0..<DTOP_LINE]));
         (lines, dict) \<leftarrow> parse_lines line_count lines lens;
         m \<leftarrow> dmax dict;
         points \<leftarrow> for_loop (\<lambda>i ps. do {
             dp \<leftarrow> nth_opt ps i;
             p \<leftarrow> dval dict i;
             s \<leftarrow> deref lines p;
             key \<leftarrow> dkey dict i;
             Some (ps[i := dp\<lparr>dp_type := (if s \<noteq> [] \<and> hd s = CHR ''-'' then DTOP_LONG else DTOP_ULONG),
               dp_name := At key, dp_prefix := None\<rparr>]) }) m 0 (map (w_point w) [0..<line_count]);
         Some (DTOP_POLL_OK, Some \<lparr>g_prefix = name, g_file = name, g_poll = SingleLine, g_points = points,
           g_len = line_count, g_line = lines, g_line2 = []\<rparr>) })"

definition dtop_single_line_init :: "world \<Rightarrow> string \<Rightarrow> (int \<times> dpg option) option" where
  "dtop_single_line_init w name = do {
     n \<leftarrow> dtop_get_file_line_amount w name;
     dtop_single_line_search w name n }"

section \<open>Files with a line of names above a line of values\<close>

text \<open>The pairs of lines: one dictionary per pair, from the first set of line buffers.\<close>

definition parse_pairs :: "nat \<Rightarrow> string list \<Rightarrow> nat list \<Rightarrow> (string list \<times> dt_procdict list) option" where
  "parse_pairs pairs lines lens = for_loop (\<lambda>i (lines, dicts). do {
      line1 \<leftarrow> nth_opt lines (2 * i);
      len1 \<leftarrow> nth_opt lens (2 * i);
      line2 \<leftarrow> nth_opt lines (2 * i + 1);
      len2 \<leftarrow> nth_opt lens (2 * i + 1);
      (_, line1, line2, dict) \<leftarrow> dt_parse_proc_dictionary (2 * i) line1 len1 (2 * i + 1) line2 len2 dict_new;
      Some (lines[2 * i := line1, 2 * i + 1 := line2], dicts @ [dict]) }) pairs 0 (lines, [])"

text \<open>
  The prefixes, from the second set of line buffers, whose pointers are numbered after the first.
\<close>

definition parse_prefixes :: "nat \<Rightarrow> nat \<Rightarrow> string list \<Rightarrow> nat list \<Rightarrow> (string list \<times> dt_procdict list) option" where
  "parse_prefixes base pairs lines lens = for_loop (\<lambda>i (lines, dicts). do {
      line1 \<leftarrow> nth_opt lines (2 * i);
      len1 \<leftarrow> nth_opt lens (2 * i);
      (line1, dict) \<leftarrow> dt_parse_for_prefix (base + 2 * i) line1 len1 dict_new;
      Some (lines[2 * i := line1], dicts @ [dict]) }) pairs 0 (lines, [])"

text \<open>The comparison and store for point \<open>j\<close> and pair \<open>k\<close>.\<close>

definition dual_store :: "dt_procdict \<Rightarrow> dt_procdict \<Rightarrow> nat \<Rightarrow> dpg \<Rightarrow> dpg option" where
  "dual_store dict prefix_dict j g = do {
     dp \<leftarrow> point_at g j;
     name \<leftarrow> text_of g (dp_name dp);
     i \<leftarrow> dt_find_dict_idx (g_mem g) name dict;
     m \<leftarrow> dmax dict;
     (if 0 \<le> i \<and> i < int m then do {
        r \<leftarrow> dp_prefix dp;
        prefix \<leftarrow> text_of g r;
        q \<leftarrow> dval prefix_dict (nat i);
        pr \<leftarrow> deref (g_mem g) q;
        (if prefix = pr then do {
           p \<leftarrow> dval dict (nat i);
           s \<leftarrow> deref (g_mem g) p;
           dp \<leftarrow> dtop_store_dp dp s;
           set_point g j dp }
         else Some g) }
      else Some g) }"

definition dtop_dual_line_poll :: "world \<Rightarrow> dpg \<Rightarrow> (int \<times> dpg) option" where
  "dtop_dual_line_poll w g =
    (case dt_read_file w (g_file g) DTOP_SIZE of
       (0, _) \<Rightarrow> Some (DTOP_POLL_IO_ERR, g)
     | (_, None) \<Rightarrow> Some (DTOP_POLL_IO_ERR, g)
     | (_, Some buf) \<Rightarrow> (let count = length (g_line g); pairs = count div 2 in do {
         (lines, lens) \<leftarrow> read_lines DTOP_LINE DTOP_SIZE buf (\<lambda>n. n + 2 \<le> count) (g_line g);
         (lines2, lens2) \<leftarrow> read_lines DTOP_LINE DTOP_SIZE buf (\<lambda>n. n + 2 \<le> count) (g_line2 g);
         (lines, dicts) \<leftarrow> parse_pairs pairs lines lens;
         (lines2, prefixes) \<leftarrow> parse_prefixes count pairs lines2 lens2;
         let g = g\<lparr>g_line := lines, g_line2 := lines2\<rparr>;
         g \<leftarrow> for_loop (\<lambda>k g. for_loop (dual_store (dicts ! k) (prefixes ! k)) (g_len g) 0 g) pairs 0 g;
         Some (DTOP_POLL_OK, g) }))"

text \<open>The points of pair \<open>j\<close>: a type from the value, name and prefix as pointers.\<close>

definition dual_points :: "world \<Rightarrow> string list \<Rightarrow> dt_procdict \<Rightarrow> dt_procdict \<Rightarrow> dtop_data_point list \<Rightarrow> dtop_data_point list option" where
  "dual_points w mem dict prefix_dict ps = do {
     m \<leftarrow> dmax dict;
     for_loop (\<lambda>i ps. do {
       p \<leftarrow> dval dict i;
       s \<leftarrow> deref mem p;
       key \<leftarrow> dkey dict i;
       prefix \<leftarrow> dval prefix_dict i;
       Some (ps @ [(w_point w (length ps))\<lparr>
         dp_type := (if s \<noteq> [] \<and> hd s = CHR ''-'' then DTOP_LONG else DTOP_ULONG),
         dp_name := At key, dp_prefix := Some (At prefix), dp_skip := False, dp_populated := False\<rparr>]) }) m 0 ps }"

definition dtop_dual_line_search :: "world \<Rightarrow> string \<Rightarrow> nat \<Rightarrow> (int \<times> dpg option) option" where
  "dtop_dual_line_search w name line_count =
    (let pairs = line_count div 2; fresh = replicate line_count (map (w_heap w) [0..<DTOP_LINE]) in
     case dt_read_file w name DTOP_SIZE of
       (0, _) \<Rightarrow> Some (DTOP_POLL_IO_ERR, None)
     | (_, None) \<Rightarrow> Some (DTOP_POLL_IO_ERR, None)
     | (_, Some buf) \<Rightarrow> do {
         (lines, lens) \<leftarrow> read_lines DTOP_LINE DTOP_SIZE buf (\<lambda>n. n + 2 \<le> line_count) fresh;
         (lines2, lens2) \<leftarrow> read_lines DTOP_LINE DTOP_SIZE buf (\<lambda>n. n + 2 \<le> line_count) fresh;
         (lines, dicts) \<leftarrow> parse_pairs pairs lines lens;
         (lines2, prefixes) \<leftarrow> parse_prefixes line_count pairs lines2 lens2;
         points \<leftarrow> for_loop (\<lambda>j ps. dual_points w (lines @ lines2) (dicts ! j) (prefixes ! j) ps) pairs 0 [];
         Some (DTOP_POLL_OK, Some \<lparr>g_prefix = name, g_file = name, g_poll = DualLine, g_points = points,
           g_len = length points, g_line = lines, g_line2 = lines2\<rparr>) })"

text \<open>Without an even number of lines nothing is collected (and the result is not used).\<close>

definition dtop_dual_line_init :: "world \<Rightarrow> string \<Rightarrow> dpg option option" where
  "dtop_dual_line_init w name = do {
     n \<leftarrow> dtop_get_file_line_amount w name;
     (if n mod 2 \<noteq> 0 then Some None else map_option snd (dtop_dual_line_search w name n)) }"

end
