(* ===== verification/Dt_Files.thy ===== *)
theory Dt_Files
  imports Dt_Poll
begin

text \<open>
  Gatherers for three files with formats of their own, /proc/meminfo, /proc/stat and /proc/net/dev
  (datatop_meminfo_file_poll.c, datatop_stat_poll.c, datatop_dev_poll.c), and the dispatch through
  the poll pointer to all poll functions.
\<close>

abbreviation (input) DTOP_STAT_SIZE :: nat where "DTOP_STAT_SIZE \<equiv> 16384"
abbreviation (input) DTOP_STAT_LINE :: nat where "DTOP_STAT_LINE \<equiv> 4096"

section \<open>Memory information\<close>

text \<open>Searches without a bound of their own: they read on until a character stops them.\<close>

function scan_while :: "(char \<Rightarrow> bool) \<Rightarrow> string \<Rightarrow> nat \<Rightarrow> nat option" where
  "scan_while P line n = (case rd line n of None \<Rightarrow> None
     | Some c \<Rightarrow> if P c then scan_while P line (Suc n) else Some n)"
  by auto
termination
  by (relation "measure (\<lambda>(P, line, n). length line - n)") (auto simp: rd_def split: if_splits)

declare scan_while.simps [simp del]

definition is_blank :: "char \<Rightarrow> bool" where
  "is_blank c \<longleftrightarrow> c = TAB \<or> c = SPC"

text \<open>The loop up to the first blank; \<open>n\<close> rounds from \<open>i\<close>.\<close>

fun meminfo_loop :: "nat \<Rightarrow> string \<Rightarrow> nat \<Rightarrow> nat \<Rightarrow> (string \<times> nat option) option" where
  "meminfo_loop l1 line 0 i = Some (line, None)"
| "meminfo_loop l1 line (Suc m) i = do {
     c \<leftarrow> rd line i;
     (if is_blank c then do {
        line \<leftarrow> wr line i NUL;
        v \<leftarrow> scan_while is_blank line (i + 1);
        n \<leftarrow> scan_while (\<lambda>c. c \<noteq> SPC) line v;
        line \<leftarrow> wr line n NUL;
        Some (line, Some v) }
      else meminfo_loop l1 line m (i + 1)) }"

definition dt_meminfo_parse :: "nat \<Rightarrow> string \<Rightarrow> nat \<Rightarrow> nat \<Rightarrow> dt_procdict \<Rightarrow> (nat \<times> string \<times> dt_procdict) option" where
  "dt_meminfo_parse l1 line1 len1 l dict =
    (if len1 < 1 then Some (0, line1, dict)
     else if l \<ge> DTOP_DICT_SIZE then None
     else do {
       (line1, v) \<leftarrow> meminfo_loop l1 line1 len1 0;
       let dict = dict\<lparr>dkey := (dkey dict)(l := Some (l1, 0)), dmax := Some (l + 1)\<rparr>;
       Some (l + 1, line1, case v of None \<Rightarrow> dict | Some n \<Rightarrow> dict\<lparr>dval := (dval dict)(l := Some (l1, n))\<rparr>) })"

definition meminfo_lines :: "nat \<Rightarrow> string list \<Rightarrow> nat list \<Rightarrow> (string list \<times> dt_procdict) option" where
  "meminfo_lines count lines lens = for_loop (\<lambda>i (lines, dict). do {
      line \<leftarrow> nth_opt lines i;
      len \<leftarrow> nth_opt lens i;
      (_, line, dict) \<leftarrow> dt_meminfo_parse i line len i dict;
      Some (lines[i := line], dict) }) count 0 (lines, dict_new)"

text \<open>A value in kilobytes: it is scaled whether or not there was a number to read.\<close>

definition meminfo_store :: "dtop_data_point \<Rightarrow> string \<Rightarrow> dtop_data_point" where
  "meminfo_store dp s =
    (let v = (case sscanf_lu s of None \<Rightarrow> d_ulong (dp_data dp) | Some v \<Rightarrow> v) * 1024
     in scan_into 8 (Some (le_bytes 8 v)) dp)"

text \<open>The value found for point \<open>j\<close>'s name is stored in the point at its index in the dictionary.\<close>

definition dtop_meminfo_poll :: "world \<Rightarrow> dpg \<Rightarrow> (int \<times> dpg) option" where
  "dtop_meminfo_poll w g =
    (case dt_read_file w (g_file g) DTOP_SIZE of
       (0, _) \<Rightarrow> Some (DTOP_POLL_IO_ERR, g)
     | (_, None) \<Rightarrow> Some (DTOP_POLL_IO_ERR, g)
     | (_, Some buf) \<Rightarrow> do {
         (lines, lens) \<leftarrow> read_lines DTOP_LINE DTOP_SIZE buf (\<lambda>n. True) (g_line g);
         (lines, dict) \<leftarrow> meminfo_lines (g_len g) lines lens;
         let g = g\<lparr>g_line := lines\<rparr>;
         g \<leftarrow> for_loop (\<lambda>j g. do {
             dp \<leftarrow> point_at g j;
             name \<leftarrow> text_of g (dp_name dp);
             i \<leftarrow> dt_find_dict_idx (g_mem g) name dict;
             m \<leftarrow> dmax dict;
             (if 0 \<le> i \<and> i < int m then do {
                p \<leftarrow> dval dict (nat i);
                s \<leftarrow> deref (g_mem g) p;
                dp \<leftarrow> point_at g (nat i);
                set_point g (nat i) (meminfo_store dp s) }
              else Some g) }) (g_len g) 0 g;
         Some (DTOP_POLL_OK, g) })"

abbreviation (input) meminfo_file :: string where "meminfo_file \<equiv> ''/proc/meminfo''"

definition dtop_meminfo_search :: "world \<Rightarrow> nat \<Rightarrow> (int \<times> dpg option) option" where
  "dtop_meminfo_search w line_count =
    (case dt_read_file w meminfo_file DTOP_SIZE of
       (0, _) \<Rightarrow> Some (DTOP_POLL_IO_ERR, None)
     | (_, None) \<Rightarrow> Some (DTOP_POLL_IO_ERR, None)
     | (_, Some buf) \<Rightarrow> do {
         (lines, lens) \<leftarrow> read_lines DTOP_LINE DTOP_SIZE buf (\<lambda>n. n + 1 < line_count)
            (replicate line_count (map (w_heap w) [0..<DTOP_LINE]));
         (lines, dict) \<leftarrow> parse_lines line_count lines lens;
         m \<leftarrow> dmax dict;
         points \<leftarrow> for_loop (\<lambda>i ps. do {
             dp \<leftarrow> nth_opt ps i;
             key \<leftarrow> dkey dict i;
             Some (ps[i := dp\<lparr>dp_name := At key, dp_prefix := None, dp_type := DTOP_ULONG\<rparr>]) })
           m 0 (map (w_point w) [0..<line_count]);
         Some (DTOP_POLL_OK, Some \<lparr>g_prefix = meminfo_file, g_file = meminfo_file, g_poll = Meminfo, g_points = points,
           g_len = line_count, g_line = lines, g_line2 = []\<rparr>) })"

definition dtop_meminfo_init :: "world \<Rightarrow> (int \<times> dpg option) option" where
  "dtop_meminfo_init w = do {
     n \<leftarrow> dtop_get_file_line_amount w meminfo_file;
     dtop_meminfo_search w n }"

section \<open>Processor statistics\<close>

text \<open>The first loop of the parser ends the name at the first space; the second stores the values.\<close>

fun stat_name :: "string \<Rightarrow> nat \<Rightarrow> nat \<Rightarrow> (string \<times> nat) option" where
  "stat_name line 0 i = Some (line, 0)"
| "stat_name line (Suc m) i = do {
     c \<leftarrow> rd line i;
     (if c = SPC then do { line \<leftarrow> wr line i NUL; Some (line, i + 1) } else stat_name line m (i + 1)) }"

text \<open>The end of the value that starts at \<open>j\<close>: the next space, which becomes a terminator, or the length.\<close>

fun stat_end :: "string \<Rightarrow> nat \<Rightarrow> nat \<Rightarrow> (string \<times> nat) option" where
  "stat_end line 0 j = Some (line, j)"
| "stat_end line (Suc m) j = do {
     c \<leftarrow> rd line j;
     (if c = SPC then do { line \<leftarrow> wr line j NUL; Some (line, j) } else stat_end line m (j + 1)) }"

lemma stat_end_ge: "stat_end line m j = Some (line', j') \<Longrightarrow> j \<le> j'"
  by (induction line m j rule: stat_end.induct) (auto simp: bind_eq_Some_conv split: if_splits)

function stat_values :: "nat \<Rightarrow> string \<Rightarrow> nat \<Rightarrow> nat \<Rightarrow> nat \<Rightarrow> (nat \<Rightarrow> ptr option) \<Rightarrow> (string \<times> nat \<times> (nat \<Rightarrow> ptr option)) option" where
  "stat_values l1 line len i k vs =
    (if i < len \<and> k < DTOP_DICT_SIZE then do {
       c \<leftarrow> rd line i;
       (if c \<noteq> SPC then do {
          (line', j) \<leftarrow> stat_end line (len - i) i;
          stat_values l1 line' len (j + 1) (k + 1) (vs(k := Some (l1, i))) }
        else stat_values l1 line len (i + 1) k vs) }
     else Some (line, k, vs))"
  by pat_completeness auto
termination
  by (relation "measure (\<lambda>(l1, line, len, i, k, vs). len - i)") (auto dest!: stat_end_ge)

declare stat_values.simps [simp del]

definition dt_stat_parse :: "nat \<Rightarrow> string \<Rightarrow> nat \<Rightarrow> nat \<Rightarrow> nat \<Rightarrow> dt_procdict \<Rightarrow> (nat \<times> string \<times> dt_procdict) option" where
  "dt_stat_parse l1 line1 len1 n_index v_index dict =
    (if len1 < 1 then Some (0, line1, dict)
     else if n_index \<ge> DTOP_DICT_SIZE then None
     else do {
       (line1, start) \<leftarrow> stat_name line1 len1 0;
       (line1, k, vs) \<leftarrow> stat_values l1 line1 len1 start v_index (dval dict);
       Some (k, line1, dict\<lparr>dkey := (dkey dict)(n_index := Some (l1, 0)), dval := vs, dmax := Some k\<rparr>) })"

text \<open>All lines into one dictionary; the number of values after each line.\<close>

definition stat_lines :: "string list \<Rightarrow> nat list \<Rightarrow> (string list \<times> dt_procdict \<times> nat \<times> nat list) option" where
  "stat_lines lines lens = for_loop (\<lambda>i (lines, dict, dp_count, counts). do {
      line \<leftarrow> nth_opt lines i;
      len \<leftarrow> nth_opt lens i;
      (k, line, dict) \<leftarrow> dt_stat_parse i line len i dp_count dict;
      Some (lines[i := line], dict, k, counts @ [k - dp_count]) }) (length lines) 0 (lines, dict_new, 0, [])"

definition dtop_stat_poll :: "world \<Rightarrow> dpg \<Rightarrow> (int \<times> dpg) option" where
  "dtop_stat_poll w g =
    (case dt_read_file w (g_file g) DTOP_STAT_SIZE of
       (0, _) \<Rightarrow> Some (DTOP_POLL_IO_ERR, g)
     | (_, None) \<Rightarrow> Some (DTOP_POLL_IO_ERR, g)
     | (_, Some buf) \<Rightarrow> do {
         (lines, lens) \<leftarrow> read_lines DTOP_STAT_LINE DTOP_STAT_SIZE buf (\<lambda>n. True) (g_line g);
         (lines, dict, dp_count, _) \<leftarrow> stat_lines lines lens;
         let g = g\<lparr>g_line := lines\<rparr>;
         g \<leftarrow> for_loop (\<lambda>n g. do {
             dp \<leftarrow> point_at g n;
             p \<leftarrow> dval dict n;
             s \<leftarrow> deref (g_mem g) p;
             dp \<leftarrow> dtop_store_dp dp s;
             set_point g n dp }) dp_count 0 g;
         Some (DTOP_POLL_OK, g) })"

abbreviation (input) stat_file :: string where "stat_file \<equiv> ''/proc/stat''"

text \<open>
  The name of value \<open>n\<close> of a line: the line's key, numbered when it has several values. The points
  are allocated for \<open>dp_count\<close> of them; a point behind them is written outside.
\<close>

definition stat_name_of :: "string \<Rightarrow> nat \<Rightarrow> nat \<Rightarrow> string" where
  "stat_name_of key cnt n = (if cnt = 1 then key else key @ take 14 (''['' @ show_nat 10 n @ '']:''))"

definition stat_points :: "world \<Rightarrow> string list \<Rightarrow> dt_procdict \<Rightarrow> nat \<Rightarrow> nat list \<Rightarrow> dtop_data_point list option" where
  "stat_points w lines dict dp_count counts = for_loop (\<lambda>i ps.
      for_loop (\<lambda>n ps. do {
        key \<leftarrow> dkey dict i;
        s \<leftarrow> deref lines key;
        (if length ps \<ge> dp_count then None
         else Some (ps @ [(w_point w (length ps))\<lparr>dp_name := Own (stat_name_of s (counts ! i) n), dp_prefix := None,
           dp_type := DTOP_ULONG, dp_populated := False, dp_skip := False\<rparr>])) }) (counts ! i) 0 ps) (length counts) 0 []"

definition dtop_stat_search :: "world \<Rightarrow> nat \<Rightarrow> (int \<times> dpg option) option" where
  "dtop_stat_search w line_count =
    (case dt_read_file w stat_file DTOP_STAT_SIZE of
       (0, _) \<Rightarrow> Some (DTOP_POLL_IO_ERR, None)
     | (_, None) \<Rightarrow> Some (DTOP_POLL_IO_ERR, None)
     | (_, Some buf) \<Rightarrow> do {
         (lines, lens) \<leftarrow> read_lines DTOP_STAT_LINE DTOP_STAT_SIZE buf (\<lambda>n. n + 1 < line_count)
            (replicate line_count (map (w_heap w) [0..<DTOP_STAT_LINE]));
         (lines, dict, dp_count, counts) \<leftarrow> stat_lines lines lens;
         points \<leftarrow> stat_points w lines dict dp_count counts;
         Some (DTOP_POLL_OK, Some \<lparr>g_prefix = stat_file, g_file = stat_file, g_poll = Stat,
           g_points = points @ map (w_point w) [length points..<dp_count], g_len = dp_count, g_line = lines, g_line2 = []\<rparr>) })"

definition dtop_stat_init :: "world \<Rightarrow> (int \<times> dpg option) option" where
  "dtop_stat_init w = do {
     n \<leftarrow> dtop_get_file_line_amount w stat_file;
     dtop_stat_search w n }"

section \<open>Network devices\<close>

fun find_colon :: "string \<Rightarrow> nat \<Rightarrow> nat \<Rightarrow> nat option option" where
  "find_colon line 0 i = Some None"
| "find_colon line (Suc m) i = do { c \<leftarrow> rd line i; (if c = CHR '':'' then Some (Some i) else find_colon line m (i + 1)) }"

text \<open>The values from \<open>j\<close> on; each is ended by a terminator unless it reaches the line's end.\<close>

function dev_values :: "nat \<Rightarrow> string \<Rightarrow> nat \<Rightarrow> nat \<Rightarrow> nat \<Rightarrow> (nat \<Rightarrow> ptr option) \<Rightarrow> (string \<times> nat \<times> (nat \<Rightarrow> ptr option)) option" where
  "dev_values l1 line len j k vs =
    (if j < len then do {
       c \<leftarrow> rd line j;
       (if \<not> is_blank c then
          (if k \<ge> DTOP_DICT_SIZE then None else do {
             n \<leftarrow> scan_while (\<lambda>c. c \<noteq> NUL \<and> \<not> is_blank c) line j;
             line' \<leftarrow> (if n < len then wr line n NUL else Some line);
             dev_values l1 line' len (n + 1) (k + 1) (vs(k := Some (l1, j))) })
        else dev_values l1 line len (j + 1) k vs) }
     else Some (line, k, vs))"
  by pat_completeness auto

lemma scan_while_ge: "scan_while P line n = Some m \<Longrightarrow> n \<le> m"
proof (induction P line n rule: scan_while.induct)
  case (1 P line n)
  then show ?case by (auto simp: scan_while.simps[of P line n] split: option.splits if_splits)
qed

termination dev_values
  by (relation "measure (\<lambda>(l1, line, len, j, k, vs). len - j)") (auto dest!: scan_while_ge)

declare dev_values.simps [simp del]

text \<open>The character behind the colon becomes the name's terminator, whatever it was.\<close>

definition dt_dev_parse :: "nat \<Rightarrow> string \<Rightarrow> nat \<Rightarrow> nat \<Rightarrow> dt_procdict \<Rightarrow> (string \<times> dt_procdict) option" where
  "dt_dev_parse l1 line1 len1 index dict = do {
     i \<leftarrow> scan_while is_blank line1 0;
     (if index \<ge> DTOP_DICT_SIZE then None else do {
        colon \<leftarrow> find_colon line1 len1 0;
        (line1, start) \<leftarrow> (case colon of None \<Rightarrow> Some (line1, 0)
          | Some c \<Rightarrow> do { line1 \<leftarrow> wr line1 (c + 1) NUL; Some (line1, c + 2) });
        (line1, _, vs) \<leftarrow> dev_values l1 line1 len1 start 0 (dval dict);
        Some (line1, dict\<lparr>dkey := (dkey dict)(index := Some (l1, i)), dval := vs\<rparr>) }) }"

text \<open>One dictionary per line behind the two header lines.\<close>

definition dev_lines :: "string list \<Rightarrow> nat list \<Rightarrow> (string list \<times> dt_procdict list) option" where
  "dev_lines lines lens = for_loop (\<lambda>n (lines, dicts). do {
      line \<leftarrow> nth_opt lines n;
      len \<leftarrow> nth_opt lens n;
      (line, dict) \<leftarrow> dt_dev_parse n line len (n - 2) dict_new;
      Some (lines[n := line], dicts @ [dict]) }) (length lines - 2) 2 (lines, [])"

definition dtop_dev_poll :: "world \<Rightarrow> dpg \<Rightarrow> (int \<times> dpg) option" where
  "dtop_dev_poll w g =
    (case dt_read_file w (g_file g) DTOP_SIZE of
       (0, _) \<Rightarrow> Some (DTOP_POLL_IO_ERR, g)
     | (_, None) \<Rightarrow> Some (DTOP_POLL_IO_ERR, g)
     | (_, Some buf) \<Rightarrow> do {
         (lines, lens) \<leftarrow> read_lines DTOP_LINE DTOP_SIZE buf (\<lambda>n. True) (g_line g);
         (lines, dicts) \<leftarrow> dev_lines lines lens;
         let g = g\<lparr>g_line := lines\<rparr>;
         g \<leftarrow> for_loop (\<lambda>k g. for_loop (\<lambda>j g. do {
             dp \<leftarrow> point_at g (16 * k + j);
             p \<leftarrow> dval (dicts ! k) j;
             s \<leftarrow> deref (g_mem g) p;
             dp \<leftarrow> dtop_store_dp dp s;
             set_point g (16 * k + j) dp }) 16 0 g) (length dicts) 0 g;
         Some (DTOP_POLL_OK, g) })"

abbreviation (input) dev_file :: string where "dev_file \<equiv> ''/proc/net/dev''"

definition dev_columns :: "string list" where
  "dev_columns = [''bytes'', ''packets'', ''errs'', ''drop'', ''fifo'', ''frame'', ''compressed'', ''multicast'',
     ''bytes'', ''packets'', ''errs'', ''drop'', ''fifo'', ''colls'', ''carrier'', ''compressed'']"

definition dev_point :: "world \<Rightarrow> ptr \<Rightarrow> nat \<Rightarrow> nat \<Rightarrow> dtop_data_point" where
  "dev_point w key k i = (w_point w (16 * k + i))\<lparr>dp_skip := False, dp_populated := False,
     dp_prefix := Some (Own ((if i < 8 then ''Receive:'' else ''Transmit:'') @ dev_columns ! i)),
     dp_name := At key, dp_type := DTOP_ULONG\<rparr>"

text \<open>The search parses all lines into one dictionary, of which it uses the names.\<close>

definition dtop_dev_search :: "world \<Rightarrow> string \<Rightarrow> nat \<Rightarrow> (int \<times> dpg option) option" where
  "dtop_dev_search w name line_count =
    (case dt_read_file w name DTOP_SIZE of
       (0, _) \<Rightarrow> Some (DTOP_POLL_IO_ERR, None)
     | (_, None) \<Rightarrow> Some (DTOP_POLL_IO_ERR, None)
     | (_, Some buf) \<Rightarrow> do {
         (lines, lens) \<leftarrow> read_lines DTOP_LINE DTOP_SIZE buf (\<lambda>n. n + 1 < line_count)
            (replicate line_count (map (w_heap w) [0..<DTOP_LINE]));
         (lines, dict) \<leftarrow> for_loop (\<lambda>n (lines, dict). do {
             line \<leftarrow> nth_opt lines n;
             len \<leftarrow> nth_opt lens n;
             (line, dict) \<leftarrow> dt_dev_parse n line len (n - 2) dict;
             Some (lines[n := line], dict) }) (line_count - 2) 2 (lines, dict_new);
         points \<leftarrow> for_loop (\<lambda>k ps. do {
             key \<leftarrow> dkey dict k;
             Some (ps @ map (dev_point w key k) [0..<16]) }) (line_count - 2) 0 [];
         Some (DTOP_POLL_OK, Some \<lparr>g_prefix = dev_file, g_file = dev_file, g_poll = Dev, g_points = points,
           g_len = 16 * (line_count - 2), g_line = lines, g_line2 = []\<rparr>) })"

definition dtop_dev_init :: "world \<Rightarrow> (int \<times> dpg option) option" where
  "dtop_dev_init w = do {
     n \<leftarrow> dtop_get_file_line_amount w dev_file;
     dtop_dev_search w dev_file n }"

section \<open>The poll pointer\<close>

definition poll_dpg :: "world \<Rightarrow> dpg \<Rightarrow> (int \<times> dpg) option" where
  "poll_dpg w g = (case g_poll g of
      ValueOnly \<Rightarrow> dtop_value_only_poll w g
    | Gen \<Rightarrow> dtop_gen_poll w g
    | SingleLine \<Rightarrow> dtop_single_line_poll w g
    | DualLine \<Rightarrow> dtop_dual_line_poll w g
    | Meminfo \<Rightarrow> dtop_meminfo_poll w g
    | Stat \<Rightarrow> dtop_stat_poll w g
    | Dev \<Rightarrow> dtop_dev_poll w g)"

end
