(* ===== verification/Dt_Str_Spec.thy ===== *)
theory Dt_Str_Spec
  imports Dt_Str
begin

text \<open>
  What the parsers compute: a line of a file, the fields of a line, and the pairs of a header line
  and a line of values.
\<close>

section \<open>Lines\<close>

lemma read_line_loop_spec:
  assumes "length buf1 = i + room" "n < room" "j \<le> len2" "len2 = length buf2"
  shows "\<exists>buf'. read_line_loop n buf1 i buf2 len2 j = Some (buf', i + length (take n (takeWhile (\<lambda>c. c \<noteq> NL) (drop j buf2)))) \<and>
    length buf' = length buf1 \<and>
    take (i + length (take n (takeWhile (\<lambda>c. c \<noteq> NL) (drop j buf2)))) buf' = take i buf1 @ take n (takeWhile (\<lambda>c. c \<noteq> NL) (drop j buf2)) \<and>
    drop (Suc (i + length (take n (takeWhile (\<lambda>c. c \<noteq> NL) (drop j buf2))))) buf' =
      drop (Suc (i + length (take n (takeWhile (\<lambda>c. c \<noteq> NL) (drop j buf2))))) buf1"
  using assms
proof (induction n arbitrary: buf1 i j room)
  case (Suc n)
  show ?case
  proof (cases "j < len2")
    case False
    then show ?thesis using Suc.prems by simp
  next
    case True
    then have d: "drop j buf2 = buf2 ! j # drop (Suc j) buf2" using Suc.prems(4) by (simp add: Cons_nth_drop_Suc)
    have i: "i < length buf1" using Suc.prems by simp
    show ?thesis
    proof (cases "buf2 ! j = NL")
      case nl: True
      then show ?thesis using True Suc.prems i by (simp add: rd_def wr_def d)
    next
      case False
      let ?b = "buf1[i := buf2 ! j]"
      have "length ?b = Suc i + (room - 1)" "n < room - 1" "Suc j \<le> len2" using Suc.prems True by simp_all
      from Suc.IH[OF this Suc.prems(4)] show ?thesis
        using True False Suc.prems(4) i by (simp add: rd_def wr_def d take_Suc_conv_app_nth)
    qed
  qed
qed simp

definition line_at :: "nat \<Rightarrow> nat \<Rightarrow> string \<Rightarrow> string" where
  "line_at len1 start buf = take (len1 - 1) (takeWhile (\<lambda>c. c \<noteq> NL) (drop start buf))"

lemma dt_read_line_spec:
  assumes "length buf1 = nat len1" "1 \<le> len1" "length buf2 = nat len2" "1 \<le> len2" "start \<le> nat len2"
  shows "dt_read_line buf1 len1 buf2 len2 (int start) =
    Some (line_at (nat len1) start buf2 @ NUL # drop (Suc (length (line_at (nat len1) start buf2))) buf1,
          length (line_at (nat len1) start buf2))"
proof -
  let ?l = "line_at (nat len1) start buf2"
  have n: "nat (len1 - 1) = nat len1 - 1" by simp
  have "length buf1 = 0 + nat len1" "nat len1 - 1 < nat len1" "start \<le> nat len2" using assms by simp_all
  from read_line_loop_spec[OF this assms(3)[symmetric]]
  obtain b where b: "read_line_loop (nat len1 - 1) buf1 0 buf2 (nat len2) start = Some (b, length ?l)"
    "length b = length buf1" "take (length ?l) b = ?l" "drop (Suc (length ?l)) b = drop (Suc (length ?l)) buf1"
    by (auto simp: line_at_def)
  have l: "length ?l < length b" using assms(1,2) b(2) by (simp add: line_at_def)
  then have "b[length ?l := NUL] = ?l @ NUL # drop (Suc (length ?l)) buf1"
    using b(3,4) by (simp add: upd_conv_take_nth_drop)
  moreover have "\<not> len2 < int start" using assms(4,5) by linarith
  ultimately show ?thesis using assms(2,4) l b(1) by (simp add: dt_read_line_def n wr_def)
qed

text \<open>Total correctness of a \<open>for\<close> loop.\<close>

lemma for_loop_rule:
  assumes "\<And>j s. i \<le> j \<Longrightarrow> j < i + n \<Longrightarrow> I j s \<Longrightarrow> \<exists>s'. body j s = Some s' \<and> I (Suc j) s'" "I i s"
  shows "\<exists>s'. for_loop body n i s = Some s' \<and> I (i + n) s'"
  using assms
proof (induction n arbitrary: i s)
  case (Suc n)
  obtain s1 where "body i s = Some s1" "I (Suc i) s1" using Suc.prems(1)[of i s] Suc.prems(2) by auto
  moreover from Suc.IH[of "Suc i" s1] Suc.prems(1) this(2)
  have "\<exists>s'. for_loop body n (Suc i) s1 = Some s' \<and> I (Suc i + n) s'" by simp
  ultimately show ?case by simp
qed simp

section \<open>Separators\<close>

fun sep_ptrs :: "(char \<Rightarrow> bool) \<Rightarrow> nat \<Rightarrow> string \<Rightarrow> nat list" where
  "sep_ptrs sep off [] = []"
| "sep_ptrs sep off (c # cs) = (if sep c then Suc off # sep_ptrs sep (Suc off) cs else sep_ptrs sep (Suc off) cs)"

definition blank :: "(char \<Rightarrow> bool) \<Rightarrow> string \<Rightarrow> string" where
  "blank sep s = map (\<lambda>c. if sep c then NUL else c) s"

definition store_ptrs :: "nat \<Rightarrow> nat \<Rightarrow> nat list \<Rightarrow> (nat \<Rightarrow> ptr option) \<Rightarrow> nat \<Rightarrow> ptr option" where
  "store_ptrs l k ps vs = (\<lambda>j. if k \<le> j \<and> j < k + length ps then Some (l, ps ! (j - k)) else vs j)"

lemma store_ptrs_Nil [simp]: "store_ptrs l k [] vs = vs"
  by (auto simp: store_ptrs_def fun_eq_iff)

lemma store_ptrs_Cons [simp]: "store_ptrs l (Suc k) ps (vs(k := Some (l, p))) = store_ptrs l k (p # ps) vs"
  by (auto simp: store_ptrs_def fun_eq_iff nth_Cons' Suc_diff_Suc)

lemma blank_simps [simp]: "blank sep [] = []" "blank sep (c # cs) = (if sep c then NUL else c) # blank sep cs"
  "blank sep (xs @ ys) = blank sep xs @ blank sep ys" "length (blank sep xs) = length xs"
  by (simp_all add: blank_def)

text \<open>
  One loop over separators, which both kinds of parsers are instances of: it blanks them and stores
  a pointer behind each, as long as there is room.
\<close>

lemma sep_loop:
  assumes body: "\<And>i line k vs c. rd line i = Some c \<Longrightarrow> k < 2048 \<or> \<not> sep c \<Longrightarrow>
      body i (line, k, vs) = (if sep c then Some (line[i := NUL], Suc k, vs(k := Some (l, i + 1))) else Some (line, k, vs))"
    and "k + length (sep_ptrs sep i suf) \<le> 2048" "i = length pre"
  shows "for_loop body (length suf) i (pre @ suf @ rest, k, vs) =
     Some (pre @ blank sep suf @ rest, k + length (sep_ptrs sep i suf), store_ptrs l k (sep_ptrs sep i suf) vs)"
  using assms(2,3)
proof (induction suf arbitrary: pre i k vs)
  case (Cons c suf)
  have r: "rd (pre @ c # suf @ rest) i = Some c" using Cons.prems(2) by (simp add: rd_def)
  have u: "(pre @ c # suf @ rest)[i := NUL] = (pre @ [NUL]) @ suf @ rest" using Cons.prems(2) by simp
  show ?case
  proof (cases "sep c")
    case True
    then have k: "k < 2048" "Suc k + length (sep_ptrs sep (Suc i) suf) \<le> 2048" using Cons.prems(1) by simp_all
    have "for_loop body (length suf) (Suc i) ((pre @ [NUL]) @ suf @ rest, Suc k, vs(k := Some (l, i + 1))) =
       Some ((pre @ [NUL]) @ blank sep suf @ rest, Suc k + length (sep_ptrs sep (Suc i) suf),
             store_ptrs l (Suc k) (sep_ptrs sep (Suc i) suf) (vs(k := Some (l, i + 1))))"
      by (rule Cons.IH) (use k Cons.prems(2) in simp_all)
    then show ?thesis using True k(1) body[OF r, of k vs] u by simp
  next
    case False
    have "for_loop body (length suf) (Suc i) ((pre @ [c]) @ suf @ rest, k, vs) =
       Some ((pre @ [c]) @ blank sep suf @ rest, k + length (sep_ptrs sep (Suc i) suf), store_ptrs l k (sep_ptrs sep (Suc i) suf) vs)"
      by (rule Cons.IH) (use False Cons.prems in simp_all)
    then show ?thesis using False body[OF r, of k vs] by simp
  qed
qed simp

text \<open>The fields between separators, and how the pointers read them.\<close>

fun fields :: "(char \<Rightarrow> bool) \<Rightarrow> string \<Rightarrow> string list" where
  "fields sep [] = [[]]"
| "fields sep (c # cs) = (if sep c then [] # fields sep cs
     else case fields sep cs of [] \<Rightarrow> [[c]] | f # fs \<Rightarrow> (c # f) # fs)"

lemma fields_not_Nil [simp]: "fields sep s \<noteq> []"
  by (induction s) (auto split: list.splits)

lemma fields_hd: "hd (fields sep s) = takeWhile (\<lambda>c. \<not> sep c) s"
  by (induction s) (auto split: list.splits)

lemma length_fields: "length (fields sep s) = Suc (length (sep_ptrs sep off s))"
proof (induction s arbitrary: off)
  case (Cons c s)
  show ?case using Cons.IH[of "Suc off"] by (auto split: list.splits)
qed simp

lemma fields_tl: "fields sep (c # cs) = (if sep c then [] # fields sep cs else (c # hd (fields sep cs)) # tl (fields sep cs))"
  by (cases "fields sep cs") auto

lemma sep_ptrs_fields:
  "j < length (sep_ptrs sep off s) \<Longrightarrow>
     off < sep_ptrs sep off s ! j \<and> sep_ptrs sep off s ! j \<le> off + length s \<and>
     tl (fields sep s) ! j = takeWhile (\<lambda>c. \<not> sep c) (drop (sep_ptrs sep off s ! j - off) s)"
proof (induction s arbitrary: off j)
  case (Cons c s)
  show ?case
  proof (cases "sep c")
    case True
    show ?thesis
    proof (cases j)
      case 0
      then show ?thesis using True by (simp add: hd_conv_nth[symmetric] fields_hd)
    next
      case (Suc j')
      have "fields sep s ! Suc j' = tl (fields sep s) ! j'" by (cases "fields sep s") simp_all
      moreover have "sep_ptrs sep (Suc off) s ! j' - off = Suc (sep_ptrs sep (Suc off) s ! j' - Suc off)"
        if "Suc off < sep_ptrs sep (Suc off) s ! j'" using that by simp
      ultimately show ?thesis using True Suc Cons.IH[of j' "Suc off"] Cons.prems by auto
    qed
  next
    case False
    moreover have "sep_ptrs sep (Suc off) s ! j - off = Suc (sep_ptrs sep (Suc off) s ! j - Suc off)"
      if "Suc off < sep_ptrs sep (Suc off) s ! j" using that by simp
    ultimately show ?thesis using Cons.IH[of j "Suc off"] Cons.prems by (auto simp: fields_tl simp del: fields.simps)
  qed
qed simp

lemma c_str_blank:
  assumes "NUL \<notin> set s"
  shows "c_str (drop k (blank sep s) @ NUL # rest) = takeWhile (\<lambda>c. \<not> sep c) (drop k s)"
proof -
  have "c_str (blank sep t @ NUL # rest) = takeWhile (\<lambda>c. \<not> sep c) t" if "NUL \<notin> set t" for t
    using that by (induction t) (auto simp: c_str_def)
  moreover have "NUL \<notin> set (drop k s)" using assms by (meson in_set_dropD)
  ultimately show ?thesis by (simp add: blank_def drop_map)
qed

lemma deref_blank:
  assumes "l < length mem" "mem ! l = blank sep s @ NUL # rest" "NUL \<notin> set s" "k \<le> length s"
  shows "deref mem (l, k) = Some (takeWhile (\<lambda>c. \<not> sep c) (drop k s))"
proof -
  have "drop k (mem ! l) = drop k (blank sep s) @ NUL # rest" using assms(2,4) by simp
  then show ?thesis using assms c_str_blank[OF assms(3), of k sep rest] by (simp add: deref_def)
qed

section \<open>The parsers\<close>

lemma split_spaces_spec:
  assumes "length (sep_ptrs ((=) SPC) 0 s) \<le> 2048"
  shows "split_spaces l (s @ rest) (length s) ps =
    Some (blank ((=) SPC) s @ rest, length (sep_ptrs ((=) SPC) 0 s), store_ptrs l 0 (sep_ptrs ((=) SPC) 0 s) ps)"
proof -
  let ?body = "\<lambda>i (line, k, ps). if k \<ge> DTOP_DICT_SIZE then Some (line, k, ps)
      else do { c \<leftarrow> rd line i;
        (if c = SPC then do { line \<leftarrow> wr line i NUL; Some (line, Suc k, ps(k := Some (l, i + 1))) } else Some (line, k, ps)) }"
  have "?body i (line, k, vs) = (if SPC = c then Some (line[i := NUL], Suc k, vs(k := Some (l, i + 1))) else Some (line, k, vs))"
    if "rd line i = Some c" "k < 2048 \<or> \<not> SPC = c" for i line k vs c
    using that by (auto simp: rd_def wr_def split: if_splits)
  from sep_loop[of "(=) SPC" ?body l 0 0 s "[]" rest ps, OF this] assms show ?thesis
    by (simp add: split_spaces_def)
qed

lemma single_line_loop:
  assumes "1 + length (sep_ptrs is_sep 0 s) \<le> 2048"
  shows "dt_single_line_parse l (s @ rest) (length s) d =
    Some (length (fields is_sep s), blank is_sep s @ rest,
      d\<lparr>dmax := Some (length (fields is_sep s)), dval := store_ptrs l 1 (sep_ptrs is_sep 0 s) ((dval d)(0 := Some (l, 0)))\<rparr>)"
proof -
  let ?body = "\<lambda>i (line, k, vs). do { c \<leftarrow> rd line i;
         (if is_sep c then
            (if k < DTOP_DICT_SIZE then do { line \<leftarrow> wr line i NUL; Some (line, Suc k, vs(k := Some (l, i + 1))) } else None)
          else Some (line, k, vs)) }"
  have "?body i (line, k, vs) = (if is_sep c then Some (line[i := NUL], Suc k, vs(k := Some (l, i + 1))) else Some (line, k, vs))"
    if "rd line i = Some c" "k < 2048 \<or> \<not> is_sep c" for i line k vs c
    using that by (auto simp: rd_def wr_def split: if_splits)
  from sep_loop[of is_sep ?body l 1 0 s "[]" rest "(dval d)(0 := Some (l, 0))", OF this] assms show ?thesis
    by (simp add: dt_single_line_parse_def length_fields[of is_sep s 0])
qed

text \<open>Reading a stored pointer gives the field it stands for.\<close>

lemma deref_field:
  assumes "l < length mem" "mem ! l = blank sep s @ NUL # rest" "NUL \<notin> set s" "j < length (sep_ptrs sep 0 s)"
  shows "deref mem (l, sep_ptrs sep 0 s ! j) = Some (tl (fields sep s) ! j)"
  using deref_blank[OF assms(1-3), of "sep_ptrs sep 0 s ! j"] sep_ptrs_fields[OF assms(4)] by simp

lemma field_ptr:
  assumes "l < length mem" "mem ! l = blank sep s @ NUL # rest" "NUL \<notin> set s" "j < length (fields sep s)"
  shows "\<exists>p. store_ptrs l 1 (sep_ptrs sep 0 s) (vs(0 := Some (l, 0))) j = Some p \<and> deref mem p = Some (fields sep s ! j)"
proof (cases j)
  case 0
  have "deref mem (l, 0) = Some (hd (fields sep s))"
    using deref_blank[OF assms(1-3), of 0] by (simp add: fields_hd)
  then show ?thesis using 0 by (simp add: store_ptrs_def hd_conv_nth)
next
  case (Suc i)
  then have i: "i < length (sep_ptrs sep 0 s)" using assms(4) by (simp add: length_fields[of sep s 0])
  have "tl (fields sep s) ! i = fields sep s ! j" using Suc by (cases "fields sep s") simp_all
  then show ?thesis using deref_field[OF assms(1-3) i] i Suc by (simp add: store_ptrs_def)
qed

section \<open>Properties\<close>

definition line_off :: "nat \<Rightarrow> string list \<Rightarrow> nat" where
  "line_off i ls = sum_list (map (\<lambda>l. Suc (length l)) (take i ls))"

lemma line_off_drop:
  "i \<le> length ls \<Longrightarrow> drop (line_off i ls) (concat (map (\<lambda>l. l @ [NL]) ls) @ rest) = concat (map (\<lambda>l. l @ [NL]) (drop i ls)) @ rest"
proof (induction ls arbitrary: i)
  case (Cons l ls)
  then show ?case by (cases i) (simp_all add: line_off_def)
qed (simp add: line_off_def)

lemma line_at_lines:
  assumes "buf = concat (map (\<lambda>l. l @ [NL]) ls) @ rest" "i < length ls" "\<forall>l \<in> set ls. NL \<notin> set l"
  shows "line_at n (line_off i ls) buf = take (n - 1) (ls ! i)"
proof -
  have d: "drop (line_off i ls) buf = ls ! i @ NL # concat (map (\<lambda>l. l @ [NL]) (drop (Suc i) ls)) @ rest"
    using line_off_drop[of i ls rest] assms(1,2) by (simp add: Cons_nth_drop_Suc[symmetric])
  have nl: "\<forall>c \<in> set (ls ! i). c \<noteq> NL" using assms(2,3) by (metis nth_mem)
  have "takeWhile (\<lambda>c. c \<noteq> NL) (ls ! i @ NL # zs) = ls ! i" for zs
    using nl by (subst takeWhile_append2) auto
  then show ?thesis by (simp add: line_at_def d)
qed

lemma line_off_le:
  assumes "buf = concat (map (\<lambda>l. l @ [NL]) ls) @ rest" "i < length ls"
  shows "line_off i ls \<le> length buf"
proof -
  have "drop (line_off i ls) buf \<noteq> []"
    using line_off_drop[of i ls rest] assms by (simp add: Cons_nth_drop_Suc[symmetric])
  then show ?thesis by simp
qed

lemma line_off_Suc: "i < length ls \<Longrightarrow> line_off (Suc i) ls = line_off i ls + Suc (length (ls ! i))"
  by (simp add: line_off_def take_Suc_conv_app_nth)

text \<open>
  Reading a file line by line: when a file consists of the lines \<open>ls\<close>, reading at the sum of the
  lengths of the lines before, each plus one, gives the next line, terminated, and its length, and
  leaves the rest of the destination alone; a line that does not fit is cut to the buffer's size
  less one.
\<close>

theorem dt_read_line_lines:
  assumes "length buf1 = nat len1" "1 \<le> len1" "length buf2 = nat len2" "1 \<le> len2"
    and "buf2 = concat (map (\<lambda>l. l @ [NL]) ls) @ rest" "i < length ls" "\<forall>l \<in> set ls. NL \<notin> set l"
  shows "dt_read_line buf1 len1 buf2 len2 (int (line_off i ls)) =
    Some (take (nat len1 - 1) (ls ! i) @ NUL # drop (Suc (min (nat len1 - 1) (length (ls ! i)))) buf1,
          min (nat len1 - 1) (length (ls ! i)))"
  using dt_read_line_spec[OF assms(1-4) line_off_le[OF assms(5,6), unfolded assms(3)]] line_at_lines[OF assms(5,6,7)]
  by (simp add: min.commute)

theorem dt_read_line_lines_witness:
  "dt_read_line (replicate 4 (CHR ''x'')) 4 (''ab'' @ [NL] @ ''cdef'' @ [NL]) 8 3 = Some (''cde'' @ [NUL], 3)"
  using dt_read_line_lines[of "replicate 4 (CHR ''x'')" 4 "''ab'' @ [NL] @ ''cdef'' @ [NL]" 8 "[''ab'', ''cdef'']" "[]" 1]
  by (simp add: line_off_def)

text \<open>
  C29. A line of values: the parser finds exactly the fields between spaces, commas and tabs, in
  order, and each value pointer reads its field. The table bounds the fields to 2048; a line of
  2047 characters, the longest the callers read, stays just inside it.
\<close>

theorem dt_single_line_parse_fields:
  assumes "line = s @ NUL # rest" "NUL \<notin> set s" "length s \<le> 2047" "l < length mem"
  shows "\<exists>line' d'. dt_single_line_parse l line (length s) d = Some (length (fields is_sep s), line', d') \<and>
    length line' = length line \<and> dmax d' = Some (length (fields is_sep s)) \<and>
    (\<forall>j < length (fields is_sep s). \<exists>p. dval d' j = Some p \<and> deref (mem[l := line']) p = Some (fields is_sep s ! j))"
proof -
  have len: "length (sep_ptrs sep off t) \<le> length t" for sep off t
    by (induction t arbitrary: off) (auto simp: le_SucI)
  have p: "1 + length (sep_ptrs is_sep 0 s) \<le> 2048" using len[of is_sep 0 s] assms(3) by linarith
  have "(mem[l := blank is_sep s @ NUL # rest]) ! l = blank is_sep s @ NUL # rest" "l < length (mem[l := blank is_sep s @ NUL # rest])"
    using assms(4) by simp_all
  then show ?thesis using single_line_loop[OF p, of l "NUL # rest" d] assms(1) field_ptr[OF _ _ assms(2)] by simp
qed

theorem dt_single_line_parse_fields_witness:
  "\<exists>line' d'. dt_single_line_parse 0 (''7,-8 9'' @ [NUL]) 6 dict_new = Some (3, line', d') \<and>
     (\<exists>p. dval d' 1 = Some p \<and> deref [line'] p = Some ''-8'')"
proof -
  have f: "fields is_sep ''7,-8 9'' = [''7'', ''-8'', ''9'']" by (simp add: is_sep_def)
  obtain line' d' where p: "dt_single_line_parse 0 (''7,-8 9'' @ [NUL]) (length ''7,-8 9'') dict_new =
      Some (length (fields is_sep ''7,-8 9''), line', d')"
    "\<forall>j < length (fields is_sep ''7,-8 9''). \<exists>p. dval d' j = Some p \<and> deref ([[]][0 := line']) p = Some (fields is_sep ''7,-8 9'' ! j)"
    using dt_single_line_parse_fields[of "''7,-8 9'' @ [NUL]" "''7,-8 9''" "[]" 0 "[[]]" dict_new] by auto
  note q = p[unfolded f]
  show ?thesis using q(1) q(2)[rule_format, of 1] by (intro exI[of _ line'] exI[of _ d']) (simp add: numeral_eq_Suc del: fields.simps)
qed

lemma find_loop_keys:
  assumes "\<And>j. i \<le> j \<Longrightarrow> j < i + n \<Longrightarrow> \<exists>p. dkey d j = Some p \<and> deref mem p = Some (ks j)"
  shows "find_loop mem str d n i = Some (if \<exists>j. i \<le> j \<and> j < i + n \<and> ks j = str
     then int (LEAST j. i \<le> j \<and> j < i + n \<and> ks j = str) else -1)"
  using assms
proof (induction n arbitrary: i)
  case (Suc n)
  obtain p where p: "dkey d i = Some p" "deref mem p = Some (ks i)" using Suc.prems[of i] by auto
  show ?case
  proof (cases "str = ks i")
    case True
    then have "(LEAST j. i \<le> j \<and> j < i + Suc n \<and> ks j = str) = i" by (intro Least_equality) auto
    moreover have "\<exists>j. i \<le> j \<and> j < i + Suc n \<and> ks j = str" using True by (intro exI[of _ i]) simp
    ultimately show ?thesis using True p by simp
  next
    case False
    have eq: "(Suc i \<le> j \<and> j < Suc i + n \<and> ks j = str) = (i \<le> j \<and> j < i + Suc n \<and> ks j = str)" for j
      using False by (cases "j = i") auto
    have "find_loop mem str d n (Suc i) = Some (if \<exists>j. Suc i \<le> j \<and> j < Suc i + n \<and> ks j = str
        then int (LEAST j. Suc i \<le> j \<and> j < Suc i + n \<and> ks j = str) else -1)"
      by (rule Suc.IH) (use Suc.prems in simp)
    then show ?thesis using p False unfolding eq by simp
  qed
qed simp

text \<open>
  C28. A header line and a line of values: the keys are the fields of the first line after its
  first, the values those of the second; looking a name up gives the first position that has it,
  and the value stored there is the field of the second line at that position.
\<close>

theorem dt_proc_dictionary_pairs:
  assumes "line1 = s1 @ NUL # r1" "line2 = s2 @ NUL # r2" "NUL \<notin> set s1" "NUL \<notin> set s2"
    and "s1 \<noteq> []" "s2 \<noteq> []" "length s1 \<le> 2047" "length s2 \<le> 2047"
    and "l1 < length mem" "l2 < length mem" "l1 \<noteq> l2"
    and "ks = tl (fields ((=) SPC) s1)" "vs = tl (fields ((=) SPC) s2)" "n = min (length ks) (length vs)"
  shows "\<exists>line1' line2' d'. dt_parse_proc_dictionary l1 line1 (length s1) l2 line2 (length s2) d = Some (n, line1', line2', d') \<and>
    (let mem' = mem[l1 := line1', l2 := line2'] in
      dt_find_dict_idx mem' str d' = Some (if str \<in> set (take n ks) then int (LEAST j. j < n \<and> ks ! j = str) else -1) \<and>
      (\<forall>j < n. \<exists>p. dval d' j = Some p \<and> deref mem' p = Some (vs ! j)))"
proof -
  have len: "length (sep_ptrs sep off t) \<le> length t" for sep off t
    by (induction t arbitrary: off) (auto simp: le_SucI)
  let ?p1 = "sep_ptrs ((=) SPC) 0 s1" and ?p2 = "sep_ptrs ((=) SPC) 0 s2"
  have b: "length ?p1 \<le> 2048" "length ?p2 \<le> 2048"
    using len[of "(=) SPC" 0 s1] len[of "(=) SPC" 0 s2] assms(7,8) by linarith+
  have k: "length ks = length ?p1" "length vs = length ?p2"
    using assms(12,13) by (simp_all add: length_fields[of _ s1 0] length_fields[of _ s2 0])
  let ?b1 = "blank ((=) SPC) s1 @ NUL # r1" and ?b2 = "blank ((=) SPC) s2 @ NUL # r2"
  let ?mem = "mem[l1 := ?b1, l2 := ?b2]"
  let ?d = "d\<lparr>dmax := Some n, dkey := store_ptrs l1 0 ?p1 (dkey d), dval := store_ptrs l2 0 ?p2 (dval d)\<rparr>"
  have m: "l1 < length ?mem" "?mem ! l1 = ?b1" "l2 < length ?mem" "?mem ! l2 = ?b2" using assms(9-11) by simp_all
  have parse: "dt_parse_proc_dictionary l1 line1 (length s1) l2 line2 (length s2) d = Some (n, ?b1, ?b2, ?d)"
    using split_spaces_spec[OF b(1), of l1 "NUL # r1" "dkey d"] split_spaces_spec[OF b(2), of l2 "NUL # r2" "dval d"]
      assms(1,2,5,6,14) k by (simp add: dt_parse_proc_dictionary_def Suc_le_eq min_def Let_def)
  have key: "\<exists>p. dkey ?d j = Some p \<and> deref ?mem p = Some (ks ! j)" if "0 \<le> j" "j < 0 + n" for j
    using deref_field[OF m(1,2) assms(3), of j] that assms(12,14) k by (simp add: store_ptrs_def)
  have val: "\<exists>p. dval ?d j = Some p \<and> deref ?mem p = Some (vs ! j)" if "j < n" for j
    using deref_field[OF m(3,4) assms(4), of j] that assms(13,14) k by (simp add: store_ptrs_def)
  have mem: "(\<exists>j. 0 \<le> j \<and> j < 0 + n \<and> ks ! j = str) \<longleftrightarrow> str \<in> set (take n ks)"
    using assms(14) by (auto simp: in_set_conv_nth)
  have "dt_find_dict_idx ?mem str ?d = Some (if str \<in> set (take n ks) then int (LEAST j. j < n \<and> ks ! j = str) else -1)"
    using find_loop_keys[OF key, where str = str] mem by (simp add: dt_find_dict_idx_def)
  then show ?thesis using parse val by - (rule exI[of _ ?b1], rule exI[of _ ?b2], rule exI[of _ ?d], simp add: Let_def)
qed

theorem dt_proc_dictionary_pairs_witness:
  "\<exists>line1' line2' d'. dt_parse_proc_dictionary 0 (''Tcp: RtoMin Out'' @ [NUL]) 15 1 (''Tcp: 200 41'' @ [NUL]) 11 dict_new = Some (2, line1', line2', d') \<and>
     dt_find_dict_idx [line1', line2'] ''Out'' d' = Some 1 \<and> (\<exists>p. dval d' 1 = Some p \<and> deref [line1', line2'] p = Some ''41'')"
proof -
  have f: "[''RtoMin'', ''Out''] = tl (fields ((=) SPC) ''Tcp: RtoMin Out'')" "[''200'', ''41''] = tl (fields ((=) SPC) ''Tcp: 200 41'')"
    by simp_all
  have l: "(LEAST j. j < 2 \<and> [''RtoMin'', ''Out''] ! j = ''Out'') = 1"
    by (rule Least_equality) (auto simp: less_2_cases_iff)
  obtain line1' line2' d' where p: "dt_parse_proc_dictionary 0 (''Tcp: RtoMin Out'' @ [NUL]) (length ''Tcp: RtoMin Out'') 1
      (''Tcp: 200 41'' @ [NUL]) (length ''Tcp: 200 41'') dict_new = Some (2, line1', line2', d')"
    "let mem' = [[], []][0 := line1', 1 := line2'] in
      dt_find_dict_idx mem' ''Out'' d' = Some (if ''Out'' \<in> set (take 2 [''RtoMin'', ''Out'']) then int (LEAST j. j < 2 \<and> [''RtoMin'', ''Out''] ! j = ''Out'') else -1) \<and>
      (\<forall>j < 2. \<exists>p. dval d' j = Some p \<and> deref mem' p = Some ([''200'', ''41''] ! j))"
    using dt_proc_dictionary_pairs[OF _ _ _ _ _ _ _ _ _ _ _ f, of "''Tcp: RtoMin Out'' @ [NUL]" "[]" "''Tcp: 200 41'' @ [NUL]" "[]" 0 "[[], []]" 1 2 dict_new "''Out''"]
    by auto
  have v: "\<exists>p. dval d' 1 = Some p \<and> deref [line1', line2'] p = Some ''41''"
    using p(2) by (auto simp: Let_def dest: spec[of _ 1])
  show ?thesis using p v l by - (rule exI[of _ line1'], rule exI[of _ line2'], rule exI[of _ d'], simp add: Let_def numeral_eq_Suc)
qed

lemma find_space_spec:
  assumes "SPC \<notin> set key" "length key < n"
  shows "find_space (pre @ key @ SPC # t) n (length pre) = Some (Some (length pre + length key))"
  using assms
proof (induction key arbitrary: pre n)
  case Nil
  then obtain n' where "n = Suc n'" by (cases n) auto
  then show ?case by (simp add: rd_def)
next
  case (Cons a key)
  then obtain n' where n: "n = Suc n'" by (cases n) auto
  have "find_space ((pre @ [a]) @ key @ SPC # t) n' (length (pre @ [a])) = Some (Some (length (pre @ [a]) + length key))"
    by (rule Cons.IH) (use Cons.prems n in auto)
  then show ?case using Cons.prems n by (auto simp: rd_def)
qed

lemma skip_spaces_spec:
  assumes "c \<noteq> SPC" "m < n"
  shows "skip_spaces (pre @ replicate m SPC @ c # t) n (length pre) = Some (Some (length pre + m))"
  using assms(2)
proof (induction m arbitrary: pre n)
  case 0
  then obtain n' where "n = Suc n'" by (cases n) auto
  then show ?case using assms(1) by (simp add: rd_def)
next
  case (Suc m)
  then obtain n' where n: "n = Suc n'" by (cases n) auto
  have "skip_spaces ((pre @ [SPC]) @ replicate m SPC @ c # t) n' (length (pre @ [SPC])) = Some (Some (length (pre @ [SPC]) + m))"
    by (rule Suc.IH) (use Suc.prems n in auto)
  then show ?case using n by (auto simp: rd_def)
qed

text \<open>
  A line with a name and a value: the key is the text before the first space; the value
  pointer skips the separating spaces and one character more. After a tab that is the value; when
  only spaces separate the two, the value loses its first character.
\<close>

theorem dt_same_line_value:
  assumes "line = key @ SPC # replicate m SPC @ c # v @ NUL # rest" "SPC \<notin> set key" "NUL \<notin> set key" "c \<noteq> SPC" "NUL \<notin> set v"
    and "i < 2048" "l < length mem" "n = length key + m + length v + 2"
  shows "\<exists>line' d'. dt_parse_proc_same_line_key_and_val l line n i d = Some (i + 1, line', d') \<and> dmax d' = Some (i + 1) \<and>
    (\<exists>p q. dkey d' i = Some p \<and> deref (mem[l := line']) p = Some key \<and> dval d' i = Some q \<and> deref (mem[l := line']) q = Some v)"
proof -
  let ?line' = "key @ NUL # replicate m SPC @ c # v @ NUL # rest"
  have f: "find_space line n 0 = Some (Some (length key))"
    using find_space_spec[of key n "[]" "replicate m SPC @ c # v @ NUL # rest"] assms(1,2,8) by simp
  have w: "wr line (length key) NUL = Some ?line'" by (simp add: wr_def assms(1))
  have "skip_spaces ((key @ [NUL]) @ replicate m SPC @ c # v @ NUL # rest) (n - (length key + 1)) (length (key @ [NUL])) =
      Some (Some (length (key @ [NUL]) + m))"
    by (rule skip_spaces_spec) (use assms(4,8) in auto)
  then have s: "skip_spaces ?line' (n - Suc (length key)) (Suc (length key)) = Some (Some (Suc (length key + m)))" by simp
  have n: "\<not> n < 1" using assms(8) by simp
  let ?d = "d\<lparr>dkey := (dkey d)(i := Some (l, 0)), dval := (dval d)(i := Some (l, length key + 1 + m + 1)), dmax := Some (i + 1)\<rparr>"
  have parse: "dt_parse_proc_same_line_key_and_val l line n i d = Some (i + 1, ?line', ?d)"
    using assms(6) n by (simp add: dt_parse_proc_same_line_key_and_val_def f w s)
  have k: "deref (mem[l := ?line']) (l, 0) = Some key"
  proof -
    have "c_str (key @ NUL # z) = key" for z
      using assms(3) unfolding c_str_def by (subst takeWhile_append2) auto
    then show ?thesis using assms(7) by (simp add: deref_def)
  qed
  have "c_str (v @ NUL # rest) = v" using assms(5) unfolding c_str_def by (subst takeWhile_append2) auto
  moreover have "drop (length key + 1 + m + 1) ?line' = v @ NUL # rest" by simp
  ultimately have v: "deref (mem[l := ?line']) (l, length key + 1 + m + 1) = Some v"
    using assms(7) by (simp add: deref_def)
  show ?thesis using parse k v by (intro exI[of _ ?line'] exI[of _ ?d]) simp
qed

theorem dt_same_line_value_witness:
  "\<exists>line' d'. dt_parse_proc_same_line_key_and_val 0 (''Ip6InReceives   42'' @ [NUL]) 18 0 dict_new = Some (1, line', d') \<and>
     (\<exists>q. dval d' 0 = Some q \<and> deref [line'] q = Some ''2'')"
proof -
  obtain line' d' where p: "dt_parse_proc_same_line_key_and_val 0 (''Ip6InReceives   42'' @ [NUL]) 18 0 dict_new = Some (0 + 1, line', d')"
    "\<exists>p q. dkey d' 0 = Some p \<and> deref ([[]][0 := line']) p = Some ''Ip6InReceives'' \<and> dval d' 0 = Some q \<and> deref ([[]][0 := line']) q = Some ''2''"
    using dt_same_line_value[of "''Ip6InReceives   42'' @ [NUL]" "''Ip6InReceives''" 2 "CHR ''4''" "''2''" "[]" 0 0 "[[]]" 18 dict_new]
    by (auto simp: numeral_eq_Suc)
  then show ?thesis by auto
qed

end
