(* ===== verification/Dt_Contract.thy ===== *)
theory Dt_Contract
  imports Dt_Files Dt_Str_Spec
begin

text \<open>
  The contract of a poll function, and what follows for the program that calls it through a pointer:
  gatherers keep their identity, and a point's initial value is set once, so that the difference to
  the latest value is over all polls since.
\<close>

section \<open>Well-formed gatherers and their history\<close>

definition wf_dp :: "dtop_data_point \<Rightarrow> bool" where
  "wf_dp dp \<longleftrightarrow> length (dp_data dp) = 32 \<and> length (dp_initial dp) = 32"

definition wf_dpg :: "'k gatherer \<Rightarrow> bool" where
  "wf_dpg g \<longleftrightarrow> g_len g = length (g_points g) \<and> (\<forall>dp \<in> set (g_points g). wf_dp dp)"

definition later_dp :: "dtop_data_point \<Rightarrow> dtop_data_point \<Rightarrow> bool" where
  "later_dp dp dp' \<longleftrightarrow> dp_name dp' = dp_name dp \<and> dp_prefix dp' = dp_prefix dp \<and> dp_skip dp' = dp_skip dp \<and>
     (dp_type dp' = dp_type dp \<or> dp_type dp' = DTOP_LONG) \<and> (wf_dp dp \<longrightarrow> wf_dp dp') \<and>
     (dp_populated dp \<longrightarrow> dp_populated dp' \<and> dp_initial dp' = dp_initial dp)"

definition later :: "'k gatherer \<Rightarrow> 'k gatherer \<Rightarrow> bool" where
  "later g g' \<longleftrightarrow> g_prefix g' = g_prefix g \<and> g_file g' = g_file g \<and> g_poll g' = g_poll g \<and> g_len g' = g_len g \<and>
     length (g_line g') = length (g_line g) \<and> length (g_line2 g') = length (g_line2 g) \<and>
     list_all2 later_dp (g_points g) (g_points g')"

lemma later_dp_refl [simp]: "later_dp dp dp"
  by (simp add: later_dp_def)

lemma later_dp_trans: "later_dp a b \<Longrightarrow> later_dp b c \<Longrightarrow> later_dp a c"
  by (auto simp: later_dp_def)

lemma later_refl [simp]: "later g g"
  by (simp add: later_def list_all2_refl)

lemma later_trans: "later a b \<Longrightarrow> later b c \<Longrightarrow> later a c"
  by (auto simp: later_def intro: list_all2_trans[OF later_dp_trans])

lemma later_wf: "later g g' \<Longrightarrow> wf_dpg g \<Longrightarrow> wf_dpg g'"
  unfolding later_def wf_dpg_def list_all2_conv_all_nth set_conv_nth by (auto simp: later_dp_def)

lemma later_points: "later g g' \<Longrightarrow> length (g_points g') = length (g_points g)"
  unfolding later_def by (drule conjunct2)+ (simp add: list_all2_lengthD[symmetric])

lemma later_point: "later g g' \<Longrightarrow> i < length (g_points g) \<Longrightarrow> later_dp (g_points g ! i) (g_points g' ! i)"
  by (auto simp: later_def list_all2_conv_all_nth)

lemma later_list_wf:
  "list_all2 later gs gs' \<Longrightarrow> \<forall>g \<in> set gs. wf_dpg g \<Longrightarrow> \<forall>g \<in> set gs'. wf_dpg g"
  by (induction rule: list_all2_induct) (auto intro: later_wf)

section \<open>The interface\<close>

locale poll_op =
  fixes poll :: "'k gatherer \<Rightarrow> (int \<times> 'k gatherer) option"
  assumes step: "poll g = Some (rc, g') \<Longrightarrow> wf_dpg g \<Longrightarrow> later g g'"
    and codes: "poll g = Some (rc, g') \<Longrightarrow> rc = DTOP_POLL_OK \<or> rc = DTOP_POLL_IO_ERR \<and> g' = g"
begin

lemma poll_all:
  "dtop_poll poll list = Some list' \<Longrightarrow> \<forall>g \<in> set (list_data list). wf_dpg g \<Longrightarrow>
     list_all2 later (list_data list) (list_data list')"
proof (induction list arbitrary: list')
  case (Node a g next_ptr)
  then obtain rc g1 n1 where "poll g = Some (rc, g1)" "dtop_poll poll next_ptr = Some n1" "list' = Node a g1 n1"
    by (auto simp: bind_eq_Some_conv)
  then show ?case using Node step by auto
qed simp

text \<open>Any number of polls.\<close>

primrec polls :: "nat \<Rightarrow> 'k gatherer dtop_linked_list \<Rightarrow> 'k gatherer dtop_linked_list option" where
  "polls 0 list = Some list"
| "polls (Suc n) list = do { list \<leftarrow> dtop_poll poll list; polls n list }"

lemma polls_later:
  "polls n list = Some list' \<Longrightarrow> \<forall>g \<in> set (list_data list). wf_dpg g \<Longrightarrow>
     list_all2 later (list_data list) (list_data list')"
proof (induction n arbitrary: list)
  case 0
  then show ?case by (simp add: list_all2_refl)
next
  case (Suc n)
  then obtain l1 where l1: "dtop_poll poll list = Some l1" "polls n l1 = Some list'" by (auto simp: bind_eq_Some_conv)
  have 1: "list_all2 later (list_data list) (list_data l1)" by (rule poll_all[OF l1(1) Suc.prems(2)])
  then have "\<forall>g \<in> set (list_data l1). wf_dpg g" using Suc.prems(2) by (rule later_list_wf)
  then have 2: "list_all2 later (list_data l1) (list_data list')" by (rule Suc.IH[OF l1(2)])
  show ?case by (rule list_all2_trans[OF later_trans 1 2])
qed

end

section \<open>What storing keeps\<close>

lemma scan_into_later:
  assumes "n \<le> 32" "case v of None \<Rightarrow> True | Some b \<Rightarrow> length b \<le> 32"
  shows "later_dp dp (scan_into n v dp)"
  using assms
  by (auto simp: later_dp_def scan_into_def wf_dp_def Let_def split: option.splits)

lemma store_later: "dtop_store_dp dp s = Some dp' \<Longrightarrow> later_dp dp dp'"
  by (auto simp: dtop_store_dp_def intro!: scan_into_later split: if_splits option.splits)

lemma set_point_later:
  assumes "set_point g i dp' = Some g'" "later_dp (g_points g ! i) dp'"
  shows "later g g'"
  using assms
  by (auto simp: set_point_def later_def list_all2_conv_all_nth nth_list_update split: if_splits)

lemma for_loop_later:
  assumes "\<And>i s s'. body i s = Some s' \<Longrightarrow> later s s'"
  shows "for_loop body n i s = Some s' \<Longrightarrow> later s s'"
proof (induction n arbitrary: i s)
  case (Suc n)
  then obtain s1 where "body i s = Some s1" "for_loop body n (Suc i) s1 = Some s'" by (auto simp: bind_eq_Some_conv)
  then show ?case using Suc.IH assms later_trans by blast
qed simp

lemma point_at_nth: "point_at g i = Some dp \<Longrightarrow> dp = g_points g ! i"
  by (simp add: point_at_def split: if_splits)

lemma retyped_later: "later_dp (dp\<lparr>dp_type := Suc 0\<rparr>) dp' \<Longrightarrow> later_dp dp dp'"
  by (auto simp: later_dp_def wf_dp_def)

lemma store_values_later: "store_values line dict r g = Some g' \<Longrightarrow> later g g'"
  unfolding store_values_def
  by (erule for_loop_later[rotated])
    (auto simp: bind_eq_Some_conv Let_def dest!: point_at_nth store_later intro: retyped_later set_point_later split: if_splits)

lemma dual_store_later: "dual_store d p j g = Some g' \<Longrightarrow> later g g'"
  by (auto simp: dual_store_def bind_eq_Some_conv dest!: point_at_nth store_later intro: set_point_later split: if_splits)

lemma for_loop_invar:
  assumes "\<And>i s s'. body i s = Some s' \<Longrightarrow> I s \<Longrightarrow> I s'"
  shows "for_loop body n i s = Some s' \<Longrightarrow> I s \<Longrightarrow> I s'"
proof (induction n arbitrary: i s)
  case (Suc n)
  then obtain s1 where "body i s = Some s1" "for_loop body n (Suc i) s1 = Some s'" by (auto simp: bind_eq_Some_conv)
  then show ?case using Suc.IH Suc.prems(2) assms by blast
qed simp

lemma for_loop_lines:
  assumes "for_loop body n i (ls, x) = Some (ls', x')"
    "\<And>i ls x ls' x'. body i (ls, x) = Some (ls', x') \<Longrightarrow> length ls' = length ls"
  shows "length ls' = length ls"
proof -
  have "length (fst s') = length ls" if "body i s = Some s'" "length (fst s) = length ls" for i s s'
    using that assms(2)[of i "fst s" "snd s" "fst s'" "snd s'"] by simp
  from for_loop_invar[of body "\<lambda>s. length (fst s) = length ls", OF this assms(1)] show ?thesis by simp
qed

lemma read_lines_length:
  assumes "read_lines line_size buf_size buf advance lines = Some (lines', lens)"
  shows "length lines' = length lines"
proof -
  obtain sum where loop: "for_loop (\<lambda>n (lines, lens, sum). do {
         (line, k) \<leftarrow> dt_read_line (lines ! n) (int line_size) buf (int buf_size) (int sum);
         Some (lines[n := line], lens @ [k], if advance n then sum + (k + 1) else sum) }) (length lines) 0 (lines, [], 0) =
       Some (lines', lens, sum)"
    using assms by (auto simp: read_lines_def bind_eq_Some_conv)
  show ?thesis by (rule for_loop_lines[OF loop]) (auto simp: bind_eq_Some_conv)
qed

lemma parse_lines_length:
  assumes "parse_lines count lines lens = Some (lines', dict)"
  shows "length lines' = length lines"
  by (rule for_loop_lines[OF assms[unfolded parse_lines_def]]) (auto simp: bind_eq_Some_conv)

lemma parse_pairs_length:
  assumes "parse_pairs pairs lines lens = Some (lines', dicts)"
  shows "length lines' = length lines"
  by (rule for_loop_lines[OF assms[unfolded parse_pairs_def]]) (auto simp: bind_eq_Some_conv)

lemma parse_prefixes_length:
  assumes "parse_prefixes base pairs lines lens = Some (lines', dicts)"
  shows "length lines' = length lines"
  by (rule for_loop_lines[OF assms[unfolded parse_prefixes_def]]) (auto simp: bind_eq_Some_conv)

lemma lines_later: "length ls = length (g_line g) \<Longrightarrow> later (g\<lparr>g_line := ls\<rparr>) g' \<Longrightarrow> later g g'"
  by (simp add: later_def)

lemma lines2_later:
  "length ls = length (g_line g) \<Longrightarrow> length ls2 = length (g_line2 g) \<Longrightarrow>
     later (g\<lparr>g_line := ls, g_line2 := ls2\<rparr>) g' \<Longrightarrow> later g g'"
  by (simp add: later_def)

section \<open>The poll functions keep the contract\<close>

lemma file_cases:
  assumes "(case (r :: nat \<times> string option) of (0, _) \<Rightarrow> Some (DTOP_POLL_IO_ERR, g) | (_, None) \<Rightarrow> Some (DTOP_POLL_IO_ERR, g)
     | (_, Some buf) \<Rightarrow> F buf) = Some (rc :: int, g')"
  obtains "rc = DTOP_POLL_IO_ERR" "g' = g" | buf where "F buf = Some (rc, g')"
proof (cases "fst r = 0 \<or> snd r = None")
  case True
  with assms(1) have "rc = DTOP_POLL_IO_ERR \<and> g' = g"
    by (cases "fst r"; cases "snd r") (auto simp: case_prod_beta)
  then show thesis using that(1) by blast
next
  case False
  then obtain n buf where "r = (Suc n, Some buf)" by (cases r; cases "fst r") auto
  then show thesis using assms that(2) by simp
qed

lemma value_only_poll_cases:
  assumes "dtop_value_only_poll w g = Some (rc, g')"
  shows "later g g' \<and> (rc = DTOP_POLL_OK \<or> rc = DTOP_POLL_IO_ERR \<and> g' = g)"
proof (cases "w_file w (c_str (g_file g)) = None")
  case False
  with assms show ?thesis
    unfolding dtop_value_only_poll_def if_not_P[OF False]
    by (elim file_cases) (auto simp: bind_eq_Some_conv dest: store_values_later)
qed (use assms in \<open>auto simp: dtop_value_only_poll_def\<close>)

lemma gen_poll_cases:
  assumes "dtop_gen_poll w g = Some (rc, g')"
  shows "later g g' \<and> (rc = DTOP_POLL_OK \<or> rc = DTOP_POLL_IO_ERR \<and> g' = g)"
  using assms unfolding dtop_gen_poll_def
  by (elim file_cases) (auto simp: bind_eq_Some_conv dest: store_values_later)

lemma single_loop_later:
  "for_loop (\<lambda>j g. do {
         dp \<leftarrow> point_at g j;
         name \<leftarrow> text_of g (dp_name dp);
         i \<leftarrow> dt_find_dict_idx (g_mem g) name dict;
         m \<leftarrow> dmax dict;
         (if 0 \<le> i \<and> i < int m then do {
            p \<leftarrow> dval dict (nat i);
            s \<leftarrow> deref (g_mem g) p;
            dp \<leftarrow> dtop_store_dp dp s;
            set_point g j dp }
          else Some g) }) n k g = Some g' \<Longrightarrow> later g g'"
  by (erule for_loop_later[rotated])
    (auto simp: bind_eq_Some_conv dest!: point_at_nth store_later intro: set_point_later split: if_splits)

lemma dual_loop_later:
  "for_loop (\<lambda>k g. for_loop (dual_store (ds k) (ps k)) (g_len g) 0 g) n k g = Some g' \<Longrightarrow> later g g'"
  by (erule for_loop_later[rotated]) (erule for_loop_later[rotated], erule dual_store_later)

lemma single_line_poll_cases:
  assumes "dtop_single_line_poll w g = Some (rc, g')"
  shows "later g g' \<and> (rc = DTOP_POLL_OK \<or> rc = DTOP_POLL_IO_ERR \<and> g' = g)"
  using assms unfolding dtop_single_line_poll_def
  by (elim file_cases)
    (auto simp: bind_eq_Some_conv[of "read_lines _ _ _ _ _"] bind_eq_Some_conv[of "parse_lines _ _ _"] bind_eq_Some_conv[of "for_loop _ _ _ _"] Let_def
       dest!: read_lines_length parse_lines_length single_loop_later intro: lines_later)

lemma dual_line_poll_cases:
  assumes "dtop_dual_line_poll w g = Some (rc, g')"
  shows "later g g' \<and> (rc = DTOP_POLL_OK \<or> rc = DTOP_POLL_IO_ERR \<and> g' = g)"
  using assms unfolding dtop_dual_line_poll_def
  by (elim file_cases)
    (auto simp: bind_eq_Some_conv Let_def
       dest!: read_lines_length parse_pairs_length parse_prefixes_length dual_loop_later
       intro: lines2_later)

lemma meminfo_store_later: "later_dp dp (meminfo_store dp s)"
  unfolding meminfo_store_def Let_def by (rule scan_into_later) simp_all

lemma meminfo_loop_later:
  "for_loop (\<lambda>j g. do {
         dp \<leftarrow> point_at g j;
         name \<leftarrow> text_of g (dp_name dp);
         i \<leftarrow> dt_find_dict_idx (g_mem g) name dict;
         m \<leftarrow> dmax dict;
         (if 0 \<le> i \<and> i < int m then do {
            p \<leftarrow> dval dict (nat i);
            s \<leftarrow> deref (g_mem g) p;
            dp \<leftarrow> point_at g (nat i);
            set_point g (nat i) (meminfo_store dp s) }
          else Some g) }) n k g = Some g' \<Longrightarrow> later g g'"
  by (erule for_loop_later[rotated])
    (auto simp: bind_eq_Some_conv dest!: point_at_nth intro: set_point_later meminfo_store_later split: if_splits)

lemma meminfo_lines_length:
  assumes "meminfo_lines count lines lens = Some (lines', dict)"
  shows "length lines' = length lines"
  by (rule for_loop_lines[OF assms[unfolded meminfo_lines_def]]) (auto simp: bind_eq_Some_conv)

lemma meminfo_poll_cases:
  assumes "dtop_meminfo_poll w g = Some (rc, g')"
  shows "later g g' \<and> (rc = DTOP_POLL_OK \<or> rc = DTOP_POLL_IO_ERR \<and> g' = g)"
  using assms unfolding dtop_meminfo_poll_def
  by (elim file_cases)
    (auto simp: bind_eq_Some_conv[of "read_lines _ _ _ _ _"] bind_eq_Some_conv[of "meminfo_lines _ _ _"] bind_eq_Some_conv[of "for_loop _ _ _ _"] Let_def
       dest!: read_lines_length meminfo_lines_length meminfo_loop_later intro: lines_later)

lemma stat_loop_later:
  "for_loop (\<lambda>n g. do {
         dp \<leftarrow> point_at g (i n);
         p \<leftarrow> dval dict n;
         s \<leftarrow> deref (g_mem g) p;
         dp \<leftarrow> dtop_store_dp dp s;
         set_point g (i n) dp }) m k g = Some g' \<Longrightarrow> later g g'"
  by (erule for_loop_later[rotated])
    (auto simp: bind_eq_Some_conv dest!: point_at_nth store_later intro: set_point_later)

lemma stat_lines_length:
  assumes "stat_lines lines lens = Some (lines', r)"
  shows "length lines' = length lines"
  by (rule for_loop_lines[OF assms[unfolded stat_lines_def]]) (auto simp: bind_eq_Some_conv)

lemma stat_poll_cases:
  assumes "dtop_stat_poll w g = Some (rc, g')"
  shows "later g g' \<and> (rc = DTOP_POLL_OK \<or> rc = DTOP_POLL_IO_ERR \<and> g' = g)"
  using assms unfolding dtop_stat_poll_def
  by (elim file_cases)
    (auto simp: bind_eq_Some_conv[of "read_lines _ _ _ _ _"] bind_eq_Some_conv[of "stat_lines _ _"] bind_eq_Some_conv[of "for_loop _ _ _ _"] Let_def
       dest!: read_lines_length stat_lines_length stat_loop_later[where i = "\<lambda>n. n"] intro: lines_later)

lemma dev_loop_later:
  "for_loop (\<lambda>k g. for_loop (\<lambda>j g. do {
         dp \<leftarrow> point_at g (16 * k + j);
         p \<leftarrow> dval (dicts ! k) j;
         s \<leftarrow> deref (g_mem g) p;
         dp \<leftarrow> dtop_store_dp dp s;
         set_point g (16 * k + j) dp }) 16 0 g) m i g = Some g' \<Longrightarrow> later g g'"
  by (erule for_loop_later[rotated]) (erule stat_loop_later)

lemma dev_lines_length:
  assumes "dev_lines lines lens = Some (lines', dicts)"
  shows "length lines' = length lines"
  by (rule for_loop_lines[OF assms[unfolded dev_lines_def]]) (auto simp: bind_eq_Some_conv)

lemma dev_poll_cases:
  assumes "dtop_dev_poll w g = Some (rc, g')"
  shows "later g g' \<and> (rc = DTOP_POLL_OK \<or> rc = DTOP_POLL_IO_ERR \<and> g' = g)"
  using assms unfolding dtop_dev_poll_def
  by (elim file_cases)
    (auto simp: bind_eq_Some_conv[of "read_lines _ _ _ _ _"] bind_eq_Some_conv[of "dev_lines _ _"] bind_eq_Some_conv[of "for_loop _ _ _ _"] Let_def
       dest!: read_lines_length dev_lines_length dev_loop_later intro: lines_later)

lemmas poll_cases = value_only_poll_cases gen_poll_cases single_line_poll_cases dual_line_poll_cases
  meminfo_poll_cases stat_poll_cases dev_poll_cases

interpretation value_only: poll_op "dtop_value_only_poll w" for w
  by unfold_locales (auto dest: value_only_poll_cases)

interpretation gen: poll_op "dtop_gen_poll w" for w
  by unfold_locales (auto dest: gen_poll_cases)

interpretation single_line: poll_op "dtop_single_line_poll w" for w
  by unfold_locales (auto dest: single_line_poll_cases)

interpretation dual_line: poll_op "dtop_dual_line_poll w" for w
  by unfold_locales (auto dest: dual_line_poll_cases)

interpretation meminfo: poll_op "dtop_meminfo_poll w" for w
  by unfold_locales (auto dest: meminfo_poll_cases)

interpretation stat: poll_op "dtop_stat_poll w" for w
  by unfold_locales (auto dest: stat_poll_cases)

interpretation dev: poll_op "dtop_dev_poll w" for w
  by unfold_locales (auto dest: dev_poll_cases)

text \<open>Dispatching through the pointer keeps it, because each function does.\<close>

interpretation dispatch: poll_op "poll_dpg w" for w
proof unfold_locales
  fix g rc g'
  assume "poll_dpg w g = Some (rc, g')"
  then have "later g g' \<and> (rc = DTOP_POLL_OK \<or> rc = DTOP_POLL_IO_ERR \<and> g' = g)"
    by (cases "g_poll g") (auto simp: poll_dpg_def dest: poll_cases)
  then show "wf_dpg g \<Longrightarrow> later g g'" "rc = DTOP_POLL_OK \<or> rc = DTOP_POLL_IO_ERR \<and> g' = g" by simp_all
qed

end
