(* ===== verification/Dt_Values.thy ===== *)
theory Dt_Values
  imports Dt_Contract
begin

text \<open>
  Values of data points: reading text into the union and printing it, differences against the
  initial value, and polls of a file of values from the file's text to the data points.
\<close>

section \<open>Storing\<close>

lemma scan_into_data:
  assumes "wf_dp dp" "length b = n" "n \<le> 32"
  shows "get_at 0 n (dp_data (scan_into n (Some b) dp)) = b" "wf_dp (scan_into n (Some b) dp)"
    "dp_populated (scan_into n (Some b) dp)" "dp_type (scan_into n (Some b) dp) = dp_type dp"
    "get_at 0 n (dp_initial (scan_into n (Some b) dp)) = (if dp_populated dp then get_at 0 n (dp_initial dp) else b)"
  using assms by (simp_all add: scan_into_def wf_dp_def Let_def) (simp add: put_at_def)

lemma store_ulong:
  assumes "wf_dp dp" "dp_type dp = DTOP_ULONG" "sscanf_lu s = Some v"
  shows "\<exists>dp'. dtop_store_dp dp s = Some dp' \<and> wf_dp dp' \<and> dp_populated dp' \<and> dp_type dp' = dp_type dp \<and>
    d_ulong (dp_data dp') = v \<and> d_ulong (dp_initial dp') = (if dp_populated dp then d_ulong (dp_initial dp) else v)"
  using scan_into_data[OF assms(1), of "le_bytes 8 v" 8] assms(2,3)
  by (simp add: dtop_store_dp_def d_ulong_def)

lemma store_long:
  assumes "wf_dp dp" "dp_type dp = DTOP_LONG" "sscanf_ld s = Some v"
  shows "\<exists>dp'. dtop_store_dp dp s = Some dp' \<and> wf_dp dp' \<and> dp_populated dp' \<and> dp_type dp' = dp_type dp \<and>
    d_ulong (dp_data dp') = v \<and> d_ulong (dp_initial dp') = (if dp_populated dp then d_ulong (dp_initial dp) else v)"
  using scan_into_data[OF assms(1), of "le_bytes 8 v" 8] assms(2,3)
  by (simp add: dtop_store_dp_def d_ulong_def)

lemma store_uint:
  assumes "wf_dp dp" "dp_type dp = DTOP_UINT" "sscanf_u s = Some v"
  shows "\<exists>dp'. dtop_store_dp dp s = Some dp' \<and> dp_type dp' = dp_type dp \<and> d_uint (dp_data dp') = v"
  using scan_into_data[OF assms(1), of "le_bytes 4 v" 4] assms(2,3)
  by (simp add: dtop_store_dp_def d_uint_def)

lemma store_int:
  assumes "wf_dp dp" "dp_type dp = DTOP_INT" "sscanf_d s = Some v"
  shows "\<exists>dp'. dtop_store_dp dp s = Some dp' \<and> dp_type dp' = dp_type dp \<and> d_uint (dp_data dp') = v"
  using scan_into_data[OF assms(1), of "le_bytes 4 v" 4] assms(2,3)
  by (simp add: dtop_store_dp_def d_uint_def)

lemma value_texts_types:
  "dp_type dp = DTOP_ULONG \<Longrightarrow> value_texts dp = Some [show_u (d_ulong (dp_data dp))]"
  "dp_type dp = DTOP_LONG \<Longrightarrow> value_texts dp = Some [show_int (sint (d_ulong (dp_data dp)))]"
  "dp_type dp = DTOP_UINT \<Longrightarrow> value_texts dp = Some [show_int (sint (d_uint (dp_data dp)))]"
  "dp_type dp = DTOP_INT \<Longrightarrow> value_texts dp = Some [show_u (d_uint (dp_data dp))]"
  by (simp_all add: value_texts_def Let_def)

lemma show_int_of_nat [simp]: "show_int (int n) = show_nat 10 n"
  by (simp add: show_int_def)

lemma signed_range: "- (2 ^ 63) \<le> i \<Longrightarrow> i < 2 ^ 63 \<Longrightarrow> sint (word_of_int i :: u64) = i"
  by (simp add: int_word_sint)

lemma signed_range32: "- (2 ^ 31) \<le> i \<Longrightarrow> i < 2 ^ 31 \<Longrightarrow> sint (word_of_int i :: u32) = i"
  by (simp add: int_word_sint)

section \<open>Properties of one value\<close>

text \<open>
  C37. Text to value to text: a decimal number stored in a point of a 64-bit type is printed as it was
  read, over the type's whole range. The 32-bit types do that only for numbers below $2^{31}$: the
  formats of the two are exchanged, so that an unsigned value from there on is printed negative, and
  a negative one as itself plus $2^{32}$.
\<close>

theorem dtop_value_roundtrip:
  assumes "wf_dp dp"
  shows "(dp_type dp = DTOP_ULONG \<and> 0 \<le> i \<and> i < 2 ^ 64 \<or> dp_type dp = DTOP_LONG \<and> - (2 ^ 63) \<le> i \<and> i < 2 ^ 63 \<longrightarrow>
        Option.bind (dtop_store_dp dp (show_int i)) value_texts = Some [show_int i]) \<and>
    (dp_type dp = DTOP_UINT \<and> 0 \<le> i \<and> i < 2 ^ 32 \<longrightarrow>
        Option.bind (dtop_store_dp dp (show_int i)) value_texts = Some [show_int (if i < 2 ^ 31 then i else i - 2 ^ 32)]) \<and>
    (dp_type dp = DTOP_INT \<and> - (2 ^ 31) \<le> i \<and> i < 2 ^ 31 \<longrightarrow>
        Option.bind (dtop_store_dp dp (show_int i)) value_texts = Some [show_int (if 0 \<le> i then i else i + 2 ^ 32)])"
proof (intro conjI impI)
  assume t: "dp_type dp = DTOP_ULONG \<and> 0 \<le> i \<and> i < 2 ^ 64 \<or> dp_type dp = DTOP_LONG \<and> - (2 ^ 63) \<le> i \<and> i < 2 ^ 63"
  show "Option.bind (dtop_store_dp dp (show_int i)) value_texts = Some [show_int i]"
  proof (cases "dp_type dp = DTOP_ULONG")
    case True
    then have n: "nat i < 2 ^ 64" "show_int i = show_nat 10 (nat i)" using t by (auto simp: show_int_def)
    then show ?thesis
      using True store_ulong[OF assms True, of "show_int i" "of_nat (nat i)"] sscanf_lu_show[OF n(1)]
        unat_of_nat_lt[where 'a = 64, of "nat i"] by (auto simp: value_texts_types show_u_def)
  next
    case False
    then have l: "dp_type dp = DTOP_LONG" "- (2 ^ 63) \<le> i" "i < 2 ^ 63" using t by auto
    then show ?thesis
      using l(1) store_long[OF assms l(1) sscanf_ld_show[OF l(2,3)]] signed_range[OF l(2,3)] by (auto simp: value_texts_types)
  qed
next
  assume t: "dp_type dp = DTOP_UINT \<and> 0 \<le> i \<and> i < 2 ^ 32"
  then have n: "nat i < 2 ^ 32" "show_int i = show_nat 10 (nat i)" by (auto simp: show_int_def)
  have "sint (of_nat (nat i) :: u32) = (if i < 2 ^ 31 then i else i - 2 ^ 32)"
  proof -
    have "(i + 2147483648) mod 4294967296 = (if i < 2147483648 then i + 2147483648 else i - 2147483648)"
      using t mod_add_self2[of "i - 2147483648" 4294967296] by (auto simp: add.commute simp del: mod_add_self2)
    then show ?thesis using t int_word_sint[where 'a = 32, of i] by (auto simp: of_nat_nat)
  qed
  then show "Option.bind (dtop_store_dp dp (show_int i)) value_texts = Some [show_int (if i < 2 ^ 31 then i else i - 2 ^ 32)]"
    using store_uint[OF assms _ sscanf_u_show[OF n(1)]] t n(2) by (auto simp: value_texts_types)
next
  assume t: "dp_type dp = DTOP_INT \<and> - (2 ^ 31) \<le> i \<and> i < 2 ^ 31"
  have "unat (word_of_int i :: u32) = nat (if 0 \<le> i then i else i + 2 ^ 32)"
  proof -
    have "i mod 4294967296 = (if 0 \<le> i then i else i + 4294967296)"
      using t mod_add_self2[of i 4294967296] mod_pos_pos_trivial[of "i + 4294967296" 4294967296] by auto
    then show ?thesis by (simp add: unat_eq_nat_uint uint_word_of_int)
  qed
  moreover obtain d where "dtop_store_dp dp (show_int i) = Some d" "dp_type d = DTOP_INT" "d_uint (dp_data d) = word_of_int i"
    using store_int[OF assms _ sscanf_d_show[of i]] t by auto
  ultimately show "Option.bind (dtop_store_dp dp (show_int i)) value_texts = Some [show_int (if 0 \<le> i then i else i + 2 ^ 32)]"
    using t by (auto simp: value_texts_types show_u_def show_int_def)
qed

theorem dtop_value_roundtrip_witness:
  "Option.bind (dtop_store_dp \<lparr>dp_name = Own ''a'', dp_prefix = None, dp_type = 2, dp_initial = replicate 32 0,
      dp_populated = False, dp_data = replicate 32 0, dp_skip = False\<rparr> (show_int 4294967295)) value_texts = Some [show_int (- 1)]"
  using dtop_value_roundtrip[of "\<lparr>dp_name = Own ''a'', dp_prefix = None, dp_type = 2, dp_initial = replicate 32 0,
      dp_populated = False, dp_data = replicate 32 0, dp_skip = False\<rparr>" 4294967295]
  by (simp add: wf_dp_def)

text \<open>Storing a sequence of texts.\<close>

primrec store_seq :: "dtop_data_point \<Rightarrow> string list \<Rightarrow> dtop_data_point option" where
  "store_seq dp [] = Some dp"
| "store_seq dp (s # ss) = do { dp \<leftarrow> dtop_store_dp dp s; store_seq dp ss }"

definition counts :: "dtop_data_point \<Rightarrow> int \<Rightarrow> bool" where
  "counts dp i \<longleftrightarrow> dp_type dp = DTOP_LONG \<and> - (2 ^ 63) \<le> i \<and> i < 2 ^ 63 \<or> dp_type dp = DTOP_ULONG \<and> 0 \<le> i \<and> i < 2 ^ 63"

lemma store_count:
  assumes "wf_dp dp" "counts dp i"
  shows "\<exists>dp'. dtop_store_dp dp (show_int i) = Some dp' \<and> wf_dp dp' \<and> dp_populated dp' \<and> dp_type dp' = dp_type dp \<and>
    sint (d_ulong (dp_data dp')) = i \<and>
    sint (d_ulong (dp_initial dp')) = (if dp_populated dp then sint (d_ulong (dp_initial dp)) else i)"
proof (cases "dp_type dp = DTOP_LONG")
  case True
  then have i: "- (2 ^ 63) \<le> i" "i < 2 ^ 63" using assms(2) by (simp_all add: counts_def)
  show ?thesis using store_long[OF assms(1) True sscanf_ld_show[OF i]] signed_range[OF i] by auto
next
  case False
  then have t: "dp_type dp = DTOP_ULONG" "0 \<le> i" "i < 2 ^ 63" using assms(2) by (simp_all add: counts_def)
  have i: "- (2 ^ 63) \<le> i" using t(2) by simp
  have "nat i < 2 ^ 64" "show_int i = show_nat 10 (nat i)" using t(2,3) by (simp_all add: show_int_def)
  then have "sscanf_lu (show_int i) = Some (word_of_int i)" using sscanf_lu_show[of "nat i"] t(2) by (simp add: of_nat_nat)
  then show ?thesis using store_ulong[OF assms(1) t(1)] signed_range[OF i t(3)] by fastforce
qed

lemma store_seq_counts:
  assumes "wf_dp dp" "dp_populated dp" "\<forall>b \<in> set bs. counts dp b"
  shows "\<exists>dp'. store_seq dp (map show_int bs) = Some dp' \<and> dp_type dp' = dp_type dp \<and>
    sint (d_ulong (dp_initial dp')) = sint (d_ulong (dp_initial dp)) \<and>
    sint (d_ulong (dp_data dp')) = (if bs = [] then sint (d_ulong (dp_data dp)) else last bs)"
  using assms
proof (induction bs arbitrary: dp)
  case (Cons b bs)
  obtain d where d: "dtop_store_dp dp (show_int b) = Some d" "wf_dp d" "dp_populated d" "dp_type d = dp_type dp"
    "sint (d_ulong (dp_data d)) = b" "sint (d_ulong (dp_initial d)) = sint (d_ulong (dp_initial dp))"
    using store_count[OF Cons.prems(1), of b] Cons.prems(2,3) by auto
  have "\<forall>b \<in> set bs. counts d b" using Cons.prems(3) d(4) by (simp add: counts_def)
  from Cons.IH[OF d(2,3) this] show ?case using d by auto
qed simp

text \<open>
  Differences: when a point without an initial value is given a number and then any further
  numbers, of a signed 64-bit type or unsigned ones below $2^{63}$, the difference printed for it is
  the last number less the first, whatever was stored in between, provided that it is an \<open>int64_t\<close>.
\<close>

theorem dtop_diff_last_first:
  assumes "wf_dp dp" "\<not> dp_populated dp" "\<forall>b \<in> set (a # bs). counts dp b"
    and "- (2 ^ 63) \<le> last (a # bs) - a" "last (a # bs) - a < 2 ^ 63"
  shows "Option.bind (store_seq dp (map show_int (a # bs))) snapshot_diff = Some (last (a # bs) - a)"
proof -
  obtain d where d: "dtop_store_dp dp (show_int a) = Some d" "wf_dp d" "dp_populated d" "dp_type d = dp_type dp"
    "sint (d_ulong (dp_data d)) = a" "sint (d_ulong (dp_initial d)) = a"
    using store_count[OF assms(1), of a] assms(2,3) by auto
  have "\<forall>b \<in> set bs. counts d b" using assms(3) d(4) by (simp add: counts_def)
  from store_seq_counts[OF d(2,3) this] obtain e where e: "store_seq d (map show_int bs) = Some e" "dp_type e = dp_type dp"
    "sint (d_ulong (dp_initial e)) = a" "sint (d_ulong (dp_data e)) = last (a # bs)" using d by auto
  have "dp_type e \<noteq> DTOP_UINT" "dp_type e \<noteq> DTOP_INT" using assms(3) e(2) by (auto simp: counts_def)
  then show ?thesis using d(1) e assms(4,5) by (simp add: snapshot_diff_def Let_def)
qed

theorem dtop_diff_last_first_witness:
  "Option.bind (store_seq \<lparr>dp_name = Own ''a'', dp_prefix = None, dp_type = 1, dp_initial = replicate 32 7,
      dp_populated = False, dp_data = replicate 32 0, dp_skip = False\<rparr> (map show_int [10, 3, - 5])) snapshot_diff = Some (- 15)"
  using dtop_diff_last_first[of "\<lparr>dp_name = Own ''a'', dp_prefix = None, dp_type = 1, dp_initial = replicate 32 7,
      dp_populated = False, dp_data = replicate 32 0, dp_skip = False\<rparr>" 10 "[3, - 5]"]
  by (simp add: wf_dp_def counts_def)

section \<open>Polls of a file of values\<close>

lemma for_loop_None:
  assumes "\<And>s. body j s = None" "i \<le> j" "j < i + n"
  shows "for_loop body n i s = None"
  using assms(2,3)
proof (induction n arbitrary: i s)
  case (Suc n)
  then show ?case using assms(1) by (cases "i = j") (auto simp: bind_eq_None_conv)
qed simp

definition retyped :: "bool \<Rightarrow> string \<Rightarrow> dtop_data_point \<Rightarrow> dtop_data_point" where
  "retyped r s dp = (if r \<and> s \<noteq> [] \<and> hd s = CHR ''-'' then dp\<lparr>dp_type := DTOP_LONG\<rparr> else dp)"

lemma store_values_points:
  assumes len: "length (g_points g) = n" "g_len g = n" "length dps = n"
    and vals: "\<And>j. j < n \<Longrightarrow> \<exists>p. dval dict j = Some p \<and> deref [line] p = Some (f j)"
    and store: "\<And>j. j < n \<Longrightarrow> dtop_store_dp (retyped r (f j) (g_points g ! j)) (f j) = Some (dps ! j)"
  shows "store_values line dict r g = Some (g\<lparr>g_points := dps\<rparr>)"
proof -
  let ?body = "\<lambda>j g. do {
      dp \<leftarrow> point_at g j;
      p \<leftarrow> dval dict j;
      s \<leftarrow> deref [line] p;
      let dp = (if r \<and> s \<noteq> [] \<and> hd s = CHR ''-'' then dp\<lparr>dp_type := DTOP_LONG\<rparr> else dp);
      dp \<leftarrow> dtop_store_dp dp s;
      set_point g j dp }"
  have "for_loop ?body m i (g\<lparr>g_points := take i dps @ drop i (g_points g)\<rparr>) = Some (g\<lparr>g_points := dps\<rparr>)"
    if "i + m = n" for m i
    using that
  proof (induction m arbitrary: i)
    case 0
    then show ?case using len by simp
  next
    case (Suc m)
    then have i: "i < n" by simp
    obtain p where p: "dval dict i = Some p" "deref [line] p = Some (f i)" using vals[OF i] by blast
    have at: "(take i dps @ drop i (g_points g)) ! i = g_points g ! i" using i len by (simp add: nth_append)
    have upd: "(take i dps @ drop i (g_points g))[i := dps ! i] = take (Suc i) dps @ drop (Suc i) (g_points g)"
      using i len by (simp add: list_update_append take_Suc_conv_app_nth upd_conv_take_nth_drop)
    have "?body i (g\<lparr>g_points := take i dps @ drop i (g_points g)\<rparr>) =
        Some (g\<lparr>g_points := take (Suc i) dps @ drop (Suc i) (g_points g)\<rparr>)"
      using i len p store[OF i] at upd by (simp add: point_at_def set_point_def retyped_def Let_def)
    then show ?case using Suc.IH[of "Suc i"] Suc.prems by simp
  qed
  from this[of 0 n] len show ?thesis by (simp add: store_values_def)
qed

text \<open>The file holds the line \<open>s\<close>: what reading and parsing it gives.\<close>

definition holds_line :: "world \<Rightarrow> string \<Rightarrow> string \<Rightarrow> bool" where
  "holds_line w file s \<longleftrightarrow> w_mem w \<and> length s \<le> 2047 \<and> NL \<notin> set s \<and> NUL \<notin> set s \<and>
     (\<exists>rest. w_file w (c_str file) = Some (s @ NL # rest))"

lemma read_holds_line:
  assumes "holds_line w file s"
  obtains n buf rest where "dt_read_file w file DTOP_SIZE = (Suc n, Some buf)"
    "dt_read_line (stack_line w) (int DTOP_LINE) buf (int DTOP_SIZE) 0 = Some (s @ NUL # rest, length s)"
proof -
  obtain rest where f: "w_mem w" "w_file w (c_str file) = Some (s @ NL # rest)" "length s \<le> 2047" "NL \<notin> set s"
    using assms by (auto simp: holds_line_def)
  let ?c = "take DTOP_SIZE (s @ NL # rest)"
  let ?buf = "put_at 0 ?c (map (w_heap w) [0..<DTOP_SIZE])"
  have c: "?c = s @ NL # take (DTOP_SIZE - length s - 1) rest" using f(3) by (simp add: take_Cons')
  have "length ?c \<le> DTOP_SIZE" by simp
  then have len: "length ?buf = nat (int DTOP_SIZE)" by (simp add: put_at_def)
  have "takeWhile (\<lambda>c. c \<noteq> NL) (s @ NL # zs) = s" for zs
    using f(4) by (subst takeWhile_append2) auto
  then have l: "line_at (nat (int DTOP_LINE)) 0 ?buf = s" using f(3) unfolding c by (simp add: line_at_def put_at_def)
  have "length ?c \<noteq> 0" by simp
  then obtain n where n: "length ?c = Suc n" using not0_implies_Suc by blast
  show thesis
  proof (rule that)
    show "dt_read_file w file DTOP_SIZE = (Suc n, Some ?buf)" using f(1,2) n by (simp add: dt_read_file_def)
    show "dt_read_line (stack_line w) (int DTOP_LINE) ?buf (int DTOP_SIZE) 0 =
        Some (s @ NUL # drop (Suc (length s)) (stack_line w), length s)"
      using dt_read_line_spec[of "stack_line w" "int DTOP_LINE" ?buf "int DTOP_SIZE" 0] len l by (simp add: stack_line_def)
  qed
qed

lemma length_sep_ptrs: "length (sep_ptrs sep off t) \<le> length t"
  by (induction t arbitrary: off) (auto simp: le_SucI)

lemma parse_holds_line:
  assumes "length s \<le> 2047" "NUL \<notin> set s"
  obtains line dict where "dt_single_line_parse 0 (s @ NUL # rest) (length s) dict_new = Some (length (fields is_sep s), line, dict)"
    "\<And>j. j < length (fields is_sep s) \<Longrightarrow> \<exists>p. dval dict j = Some p \<and> deref [line] p = Some (fields is_sep s ! j)"
    "\<And>j. length (fields is_sep s) \<le> j \<Longrightarrow> dval dict j = None"
proof -
  have p: "1 + length (sep_ptrs is_sep 0 s) \<le> 2048" using length_sep_ptrs[of is_sep 0 s] assms(1) by linarith
  let ?vs = "store_ptrs 0 1 (sep_ptrs is_sep 0 s) ((dval dict_new)(0 := Some (0, 0)))"
  show thesis
  proof (rule that)
    show "dt_single_line_parse 0 (s @ NUL # rest) (length s) dict_new = Some (length (fields is_sep s), blank is_sep s @ NUL # rest,
        dict_new\<lparr>dmax := Some (length (fields is_sep s)), dval := ?vs\<rparr>)"
      by (rule single_line_loop[OF p])
    show "\<exists>p. dval (dict_new\<lparr>dmax := Some (length (fields is_sep s)), dval := ?vs\<rparr>) j = Some p \<and>
        deref [blank is_sep s @ NUL # rest] p = Some (fields is_sep s ! j)" if "j < length (fields is_sep s)" for j
      using field_ptr[of 0 "[blank is_sep s @ NUL # rest]" is_sep s rest j] assms(2) that by simp
    show "dval (dict_new\<lparr>dmax := Some (length (fields is_sep s)), dval := ?vs\<rparr>) j = None" if "length (fields is_sep s) \<le> j" for j
      using that length_fields[of is_sep s 0] by (auto simp: store_ptrs_def dict_new_def)
  qed
qed

text \<open>One lemma for both poll functions: the values of the line go to the points in order.\<close>

definition poll_values :: "bool \<Rightarrow> world \<Rightarrow> dpg \<Rightarrow> (int \<times> dpg) option" where
  "poll_values r w g = (if r then dtop_gen_poll w g else dtop_value_only_poll w g)"

lemma poll_holds_line:
  assumes "holds_line w (g_file g) s"
  shows "\<exists>line dict. poll_values r w g = map_option (\<lambda>g. (DTOP_POLL_OK, g)) (store_values line dict r g) \<and>
    (\<forall>j < length (fields is_sep s). \<exists>p. dval dict j = Some p \<and> deref [line] p = Some (fields is_sep s ! j)) \<and>
    (\<forall>j \<ge> length (fields is_sep s). dval dict j = None)"
proof -
  have s: "length s \<le> 2047" "NUL \<notin> set s" "w_file w (c_str (g_file g)) \<noteq> None" using assms by (auto simp: holds_line_def)
  obtain n buf rest where rl: "dt_read_file w (g_file g) DTOP_SIZE = (Suc n, Some buf)"
    "dt_read_line (stack_line w) (int DTOP_LINE) buf (int DTOP_SIZE) 0 = Some (s @ NUL # rest, length s)"
    using read_holds_line[OF assms] .
  obtain line dict where pl: "dt_single_line_parse 0 (s @ NUL # rest) (length s) dict_new = Some (length (fields is_sep s), line, dict)"
    "\<And>j. j < length (fields is_sep s) \<Longrightarrow> \<exists>p. dval dict j = Some p \<and> deref [line] p = Some (fields is_sep s ! j)"
    "\<And>j. length (fields is_sep s) \<le> j \<Longrightarrow> dval dict j = None"
    by (rule parse_holds_line[OF s(1,2)]) blast
  have "poll_values r w g = map_option (\<lambda>g. (DTOP_POLL_OK, g)) (store_values line dict r g)"
    using s(3) rl pl(1) by (cases "store_values line dict r g") (auto simp: poll_values_def dtop_gen_poll_def dtop_value_only_poll_def)
  then show ?thesis using pl(2,3) by blast
qed

text \<open>A world with one file, and a gatherer for it with \<open>n\<close> points of value 0.\<close>

definition zero_point :: "nat \<Rightarrow> dtop_data_point" where
  "zero_point t = \<lparr>dp_name = Own ''v'', dp_prefix = None, dp_type = t, dp_initial = replicate 32 0,
     dp_populated = True, dp_data = replicate 32 0, dp_skip = False\<rparr>"

definition one_file :: "string \<Rightarrow> string \<Rightarrow> world" where
  "one_file f content = \<lparr>w_file = (\<lambda>x. if x = f then Some content else None), w_mem = True, w_heap = (\<lambda>_. CHR ''h''),
     w_stack = (\<lambda>_. CHR ''s''), w_point = (\<lambda>_. zero_point 0), w_exists = (\<lambda>x. x = f), w_writable = (\<lambda>_. False),
     w_mkdir = (\<lambda>_. True), w_create = (\<lambda>_. True), w_errno = 0\<rparr>"

definition zero_dpg :: "poll_kind \<Rightarrow> nat \<Rightarrow> dpg" where
  "zero_dpg k n = \<lparr>g_prefix = ''f'', g_file = ''f'', g_poll = k, g_points = replicate n (zero_point 0), g_len = n,
     g_line = [], g_line2 = []\<rparr>"

lemma wf_zero [simp]: "wf_dp (zero_point t)" "wf_dpg (zero_dpg k n)"
  by (simp_all add: wf_dp_def wf_dpg_def zero_point_def zero_dpg_def)

lemma holds_sample: "holds_line (one_file ''f'' (''7 9'' @ NL # rest)) (g_file (zero_dpg k n)) ''7 9''"
  by (auto simp: holds_line_def one_file_def zero_dpg_def c_str_def)

lemma poll_values_stores:
  assumes "holds_line w (g_file g) s" "fields is_sep s = map (show_nat 10) vs" "\<forall>v \<in> set vs. v < 2 ^ 64"
    and "wf_dpg g" "length vs = g_len g" "\<forall>dp \<in> set (g_points g). dp_type dp = DTOP_ULONG"
  obtains dps where "poll_values r w g = Some (DTOP_POLL_OK, g\<lparr>g_points := dps\<rparr>)" "length dps = length vs"
    "\<And>j. j < length vs \<Longrightarrow> dtop_store_dp (g_points g ! j) (show_nat 10 (vs ! j)) = Some (dps ! j)"
proof -
  obtain line dict where poll: "poll_values r w g = map_option (\<lambda>g. (DTOP_POLL_OK, g)) (store_values line dict r g)"
    and vals: "\<forall>j < length (fields is_sep s). \<exists>p. dval dict j = Some p \<and> deref [line] p = Some (fields is_sep s ! j)"
    using poll_holds_line[OF assms(1)] by blast
  have len: "length (g_points g) = length vs" "g_len g = length vs" using assms(4,5) by (simp_all add: wf_dpg_def)
  define dps where "dps = map (\<lambda>j. the (dtop_store_dp (g_points g ! j) (show_nat 10 (vs ! j)))) [0..<length vs]"
  have store: "dtop_store_dp (g_points g ! j) (show_nat 10 (vs ! j)) = Some (dps ! j)" if j: "j < length vs" for j
  proof -
    have dp: "wf_dp (g_points g ! j)" "dp_type (g_points g ! j) = DTOP_ULONG" "vs ! j < 2 ^ 64"
      using assms(3,4,6) j len by (simp_all add: wf_dpg_def)
    show ?thesis using store_ulong[OF dp(1,2) sscanf_lu_show[OF dp(3)]] j by (auto simp: dps_def)
  qed
  have keep: "retyped r (show_nat 10 n) dp = dp" for n dp
    by (rule show_nat_hd[of n]) (simp add: retyped_def)
  have sv: "store_values line dict r g = Some (g\<lparr>g_points := dps\<rparr>)"
    by (rule store_values_points[where f = "\<lambda>j. show_nat 10 (vs ! j)" and n = "length vs"])
      (use len vals assms(2) store keep in \<open>auto simp: dps_def\<close>)
  show thesis
  proof (rule that[of dps])
    show "poll_values r w g = Some (DTOP_POLL_OK, g\<lparr>g_points := dps\<rparr>)" using poll sv by simp
    show "length dps = length vs" by (simp add: dps_def)
  qed (rule store)
qed

text \<open>
  C7. A poll, from the file to the data points: when the file's first line is a list of decimal
  numbers below $2^{64}$ between separators, at most 2047 characters without a null, one for each
  point, and the points are of the type unsigned long, then after a poll by either function the
  points hold exactly these numbers, in order, and have an initial value.
\<close>

theorem dtop_poll_stores_numbers:
  assumes "holds_line w (g_file g) s" "fields is_sep s = map (show_nat 10) vs" "\<forall>v \<in> set vs. v < 2 ^ 64"
    and "wf_dpg g" "length vs = g_len g" "\<forall>dp \<in> set (g_points g). dp_type dp = DTOP_ULONG"
  shows "\<exists>g'. poll_values r w g = Some (DTOP_POLL_OK, g') \<and>
    map (\<lambda>dp. unat (d_ulong (dp_data dp))) (g_points g') = vs \<and> (\<forall>dp \<in> set (g_points g'). dp_populated dp)"
proof -
  obtain dps where poll: "poll_values r w g = Some (DTOP_POLL_OK, g\<lparr>g_points := dps\<rparr>)" "length dps = length vs"
    and store: "\<And>j. j < length vs \<Longrightarrow> dtop_store_dp (g_points g ! j) (show_nat 10 (vs ! j)) = Some (dps ! j)"
    using poll_values_stores[OF assms] by blast
  have "dp_populated (dps ! j) \<and> unat (d_ulong (dp_data (dps ! j))) = vs ! j" if j: "j < length vs" for j
  proof -
    have dp: "wf_dp (g_points g ! j)" "dp_type (g_points g ! j) = DTOP_ULONG" "vs ! j < 2 ^ 64"
      using assms(3-6) j by (simp_all add: wf_dpg_def)
    show ?thesis
      using store_ulong[OF dp(1,2) sscanf_lu_show[OF dp(3)]] store[OF j] unat_of_nat_lt[where 'a = 64, of "vs ! j"] dp(3) by auto
  qed
  then have "map (\<lambda>dp. unat (d_ulong (dp_data dp))) dps = vs" "\<forall>dp \<in> set dps. dp_populated dp"
    using poll(2) by (auto intro!: nth_equalityI simp: in_set_conv_nth)
  then show ?thesis using poll(1) by simp
qed

theorem dtop_poll_stores_numbers_witness:
  "\<exists>g'. poll_values False (one_file ''f'' (''7 9'' @ [NL])) (zero_dpg ValueOnly 2) = Some (DTOP_POLL_OK, g') \<and>
    map (\<lambda>dp. unat (d_ulong (dp_data dp))) (g_points g') = [7, 9]"
proof -
  have f: "fields is_sep ''7 9'' = map (show_nat 10) [7, 9]" by code_simp
  have "length [7, 9 :: nat] = g_len (zero_dpg ValueOnly 2)" "\<forall>dp \<in> set (g_points (zero_dpg ValueOnly 2)). dp_type dp = DTOP_ULONG"
    by (simp_all add: zero_dpg_def zero_point_def)
  from dtop_poll_stores_numbers[OF holds_sample[of "[]" ValueOnly 2] f _ wf_zero(2) this, of False] show ?thesis by auto
qed

text \<open>
  A file with fewer values than when its gatherer was built: the poll functions go by the number
  of points, and use the pointer of a field that is not there.
\<close>

theorem dtop_poll_short_line:
  assumes "holds_line w (g_file g) s" "length (fields is_sep s) < g_len g"
  shows "poll_values r w g = None"
proof -
  obtain line dict where poll: "poll_values r w g = map_option (\<lambda>g. (DTOP_POLL_OK, g)) (store_values line dict r g)"
    and vals: "\<forall>j \<ge> length (fields is_sep s). dval dict j = None"
    using poll_holds_line[OF assms(1)] by blast
  have "store_values line dict r g = None"
    unfolding store_values_def by (rule for_loop_None[of _ "length (fields is_sep s)"]) (use vals assms(2) in \<open>auto simp: bind_eq_None_conv\<close>)
  then show ?thesis using poll by simp
qed

theorem dtop_poll_short_line_witness:
  "poll_values True (one_file ''f'' (''7 9'' @ [NL])) (zero_dpg Gen 3) = None"
  using dtop_poll_short_line[OF holds_sample[of "[]" Gen 3], of True]
  by (simp add: zero_dpg_def is_sep_def)

end
