(* ===== verification/Dt_Files_Spec.thy ===== *)
theory Dt_Files_Spec
  imports Dt_Values
begin

text \<open>
  Files of several lines: reading them into the line buffers, and what the parsers of
  /proc/meminfo, /proc/stat and /proc/net/dev find in a line.
\<close>

section \<open>Reading all lines\<close>

definition put_lines :: "string list \<Rightarrow> string list \<Rightarrow> string list" where
  "put_lines ls bufs = map2 (\<lambda>l b. l @ NUL # drop (Suc (length l)) b) ls bufs"

lemma put_lines_simps [simp]:
  "length bufs = length ls \<Longrightarrow> length (put_lines ls bufs) = length ls"
  "length bufs = length ls \<Longrightarrow> i < length ls \<Longrightarrow> put_lines ls bufs ! i = ls ! i @ NUL # drop (Suc (length (ls ! i))) (bufs ! i)"
  by (simp_all add: put_lines_def)

lemma read_lines_spec:
  assumes "length bufs = length ls" "\<forall>b \<in> set bufs. length b = line_size" "length buf = buf_size"
    and "buf = concat (map (\<lambda>l. l @ [NL]) ls) @ rest" "\<forall>l \<in> set ls. NL \<notin> set l \<and> length l < line_size"
    and "\<And>n. Suc n < length ls \<Longrightarrow> advance n"
  shows "read_lines line_size buf_size buf advance bufs = Some (put_lines ls bufs, map length ls)"
proof -
  let ?r = "put_lines ls bufs"
  let ?body = "\<lambda>n (lines, lens, sum). do {
         (line, k) \<leftarrow> dt_read_line (lines ! n) (int line_size) buf (int buf_size) (int sum);
         Some (lines[n := line], lens @ [k], if advance n then sum + (k + 1) else sum) }"
  let ?I = "\<lambda>i (lines, lens, sum). lines = take i ?r @ drop i bufs \<and> lens = map length (take i ls) \<and>
      (i < length ls \<longrightarrow> sum = line_off i ls)"
  have step: "\<exists>s'. ?body i s = Some s' \<and> ?I (Suc i) s'" if i: "i < length ls" and s: "?I i s" for i s
  proof -
    have b: "length (bufs ! i) = line_size" "length (ls ! i) < line_size" "NL \<notin> set (ls ! i)" using i assms(1,2,5) by auto
    have nl: "\<forall>l \<in> set ls. NL \<notin> set l" using assms(5) by simp
    have "1 \<le> int line_size" "1 \<le> int buf_size" using b(2) line_off_le[OF assms(4) i] assms(3,4) i by (cases ls; auto)+
    moreover have "line_at line_size (line_off i ls) buf = ls ! i"
      using line_at_lines[OF assms(4) i nl, of line_size] b(2) by simp
    ultimately have rd: "dt_read_line (bufs ! i) (int line_size) buf (int buf_size) (int (line_off i ls)) =
        Some (ls ! i @ NUL # drop (Suc (length (ls ! i))) (bufs ! i), length (ls ! i))"
      using dt_read_line_spec[of "bufs ! i" "int line_size" buf "int buf_size" "line_off i ls"] b(1) assms(3)
        line_off_le[OF assms(4) i] by simp
    have at: "(take i ?r @ drop i bufs) ! i = bufs ! i" "(take i ?r @ drop i bufs)[i := ?r ! i] = take (Suc i) ?r @ drop (Suc i) bufs"
      using i assms(1) by (simp_all add: nth_append list_update_append take_Suc_conv_app_nth upd_conv_take_nth_drop)
    obtain lines lens sum where s': "s = (lines, lens, sum)" by (cases s)
    then have "?body i s = Some (take (Suc i) ?r @ drop (Suc i) bufs, map length (take i ls) @ [length (ls ! i)],
        if advance i then line_off i ls + (length (ls ! i) + 1) else line_off i ls)"
      using s i rd at assms(1) by simp
    moreover have "Suc i < length ls \<Longrightarrow> line_off (Suc i) ls = line_off i ls + (length (ls ! i) + 1) \<and> advance i"
      using line_off_Suc[OF i] assms(6) by simp
    ultimately show ?thesis using i by (simp add: take_Suc_conv_app_nth)
  qed
  have "\<exists>s'. for_loop ?body (length ls) 0 (bufs, [], 0) = Some s' \<and> ?I (0 + length ls) s'"
    by (rule for_loop_rule[where I = ?I]) (use step in \<open>auto simp: line_off_def\<close>)
  then show ?thesis using assms(1) by (auto simp: read_lines_def)
qed

section \<open>Memory information\<close>

lemma scan_while_append:
  assumes "\<forall>c \<in> set t. P c" "\<not> P c"
  shows "scan_while P (pre @ t @ c # rest) (length pre) = Some (length pre + length t)"
  using assms
proof (induction t arbitrary: pre)
  case Nil
  then show ?case by (simp add: scan_while.simps[of P _ "length pre"] rd_def)
next
  case (Cons d t)
  then show ?case using Cons.IH[of "pre @ [d]"] by (simp add: scan_while.simps[of P _ "length pre"] rd_def)
qed

lemma scan_while_None:
  assumes "\<forall>c \<in> set t. P c"
  shows "scan_while P (pre @ t) (length pre) = None"
  using assms
proof (induction t arbitrary: pre)
  case Nil
  then show ?case by (simp add: scan_while.simps[of P pre "length pre"] rd_def)
next
  case (Cons d t)
  then show ?case using Cons.IH[of "pre @ [d]"] by (simp add: scan_while.simps[of P _ "length pre"] rd_def)
qed

lemma meminfo_loop_skip:
  assumes "\<forall>c \<in> set key. \<not> is_blank c" "length key \<le> m"
  shows "meminfo_loop l1 (pre @ key @ t) m (length pre) = meminfo_loop l1 (pre @ key @ t) (m - length key) (length pre + length key)"
  using assms
proof (induction key arbitrary: pre m)
  case (Cons c key)
  then obtain m' where "m = Suc m'" by (cases m) auto
  then show ?case using Cons.IH[of m' "pre @ [c]"] Cons.prems by (simp add: rd_def)
qed simp

text \<open>
  A line with a key, blanks and a value: the first blank ends the key; the value ends at the first
  space behind it, wherever that is in the buffer.
\<close>

lemma meminfo_loop_spec:
  assumes "\<forall>c \<in> set key. \<not> is_blank c" "is_blank b" "\<forall>c \<in> set bs. is_blank c" "v \<noteq> []"
    and "\<forall>c \<in> set v. c \<noteq> SPC \<and> c \<noteq> TAB" "length key + 1 \<le> m"
  shows "meminfo_loop l1 (key @ b # bs @ v @ SPC # t) m 0 =
      Some (key @ NUL # bs @ v @ NUL # t, Some (length key + 1 + length bs))"
    and "SPC \<notin> set t \<Longrightarrow> meminfo_loop l1 (key @ b # bs @ v @ t) m 0 = None"
proof -
  let ?p = "key @ NUL # bs"
  have m: "meminfo_loop l1 (key @ b # u) m 0 = (do {
        v \<leftarrow> scan_while is_blank (key @ NUL # u) (length key + 1);
        n \<leftarrow> scan_while (\<lambda>c. c \<noteq> SPC) (key @ NUL # u) v;
        line \<leftarrow> wr (key @ NUL # u) n NUL;
        Some (line, Some v) })" for u
  proof -
    obtain k where "m - length key = Suc k" using assms(6) by (cases "m - length key") auto
    then show ?thesis using meminfo_loop_skip[of key m l1 "[]" "b # u"] assms(1,2,6) by (simp add: rd_def wr_def)
  qed
  obtain v0 vs where v: "v = v0 # vs" "\<not> is_blank v0" using assms(4,5) by (cases v) (auto simp: is_blank_def)
  have s1: "scan_while is_blank (key @ NUL # bs @ v @ u) (length key + 1) = Some (length key + 1 + length bs)" for u
    using scan_while_append[of bs is_blank v0 "key @ [NUL]" "vs @ u"] assms(3) v by simp
  have "scan_while (\<lambda>c. c \<noteq> SPC) (?p @ v @ SPC # t) (length ?p) = Some (length ?p + length v)"
    by (rule scan_while_append) (use assms(5) in auto)
  then show "meminfo_loop l1 (key @ b # bs @ v @ SPC # t) m 0 = Some (key @ NUL # bs @ v @ NUL # t, Some (length key + 1 + length bs))"
    using m[of "bs @ v @ SPC # t"] s1[of "SPC # t"] by (simp add: wr_def list_update_append)
  assume "SPC \<notin> set t"
  then have "scan_while (\<lambda>c. c \<noteq> SPC) (?p @ v @ t) (length ?p) = None"
    by (intro scan_while_None) (use assms(5) in auto)
  then show "meminfo_loop l1 (key @ b # bs @ v @ t) m 0 = None"
    using m[of "bs @ v @ t"] s1[of t] by simp
qed

text \<open>A line of /proc/meminfo: key, blanks, number, unit.\<close>

type_synonym mem_entry = "string \<times> nat \<times> nat"

definition mem_line :: "mem_entry \<Rightarrow> string" where
  "mem_line e = (case e of (key, n, v) \<Rightarrow> key @ replicate (Suc n) SPC @ show_nat 10 v @ '' kB'')"

definition mem_entry_ok :: "mem_entry \<Rightarrow> bool" where
  "mem_entry_ok e \<longleftrightarrow> (case e of (key, n, v) \<Rightarrow> v < 2 ^ 64 \<and> NUL \<notin> set key \<and> NL \<notin> set key \<and>
     (\<forall>c \<in> set key. \<not> is_blank c) \<and> length (mem_line e) < DTOP_LINE)"

definition mem_parsed :: "mem_entry \<Rightarrow> string \<Rightarrow> string" where
  "mem_parsed e b = (case e of (key, n, v) \<Rightarrow> key @ NUL # replicate n SPC @ show_nat 10 v @ NUL # ''kB'' @ NUL # b)"

lemma show_nat_plain: "c \<in> set (show_nat 10 v) \<Longrightarrow> c \<noteq> SPC \<and> c \<noteq> TAB \<and> c \<noteq> NL \<and> c \<noteq> NUL"
  using show_nat_in_digits[of c v] by (auto simp: digit_val_def Let_def)

lemma mem_line_parse:
  assumes "mem_entry_ok e" "l < DTOP_DICT_SIZE"
  shows "dt_meminfo_parse l (mem_line e @ NUL # b) (length (mem_line e)) l d =
    Some (l + 1, mem_parsed e b, d\<lparr>dkey := (dkey d)(l := Some (l, 0)), dmax := Some (l + 1),
      dval := (dval d)(l := Some (l, length (fst e) + 1 + fst (snd e)))\<rparr>)"
proof -
  obtain key n v where e: "e = (key, n, v)" by (cases e)
  have v: "\<forall>c \<in> set (show_nat 10 v). c \<noteq> SPC \<and> c \<noteq> TAB" using show_nat_plain by blast
  have k: "\<forall>c \<in> set key. \<not> is_blank c" using assms(1) e by (simp add: mem_entry_ok_def)
  have "meminfo_loop l (mem_line e @ NUL # b) (length (mem_line e)) 0 = Some (mem_parsed e b, Some (length key + 1 + n))"
    using meminfo_loop_spec(1)[OF k _ _ show_nat_not_Nil v, of SPC "replicate n SPC" "length (mem_line e)" l "''kB'' @ NUL # b"]
    by (simp add: e mem_line_def mem_parsed_def is_blank_def)
  moreover have "mem_line e \<noteq> []" by (simp add: e mem_line_def)
  ultimately show ?thesis using assms(2) by (simp add: dt_meminfo_parse_def e Let_def)
qed

definition mem_dict :: "mem_entry list \<Rightarrow> nat \<Rightarrow> dt_procdict \<Rightarrow> bool" where
  "mem_dict es i d \<longleftrightarrow> (0 < i \<longrightarrow> dmax d = Some i) \<and>
     (\<forall>j < i. dkey d j = Some (j, 0) \<and> dval d j = Some (j, length (fst (es ! j)) + 1 + fst (snd (es ! j))))"

definition mem_image :: "mem_entry list \<Rightarrow> string list \<Rightarrow> string list" where
  "mem_image es bufs = map2 (\<lambda>e b. mem_parsed e (drop (Suc (length (mem_line e))) b)) es bufs"

lemma meminfo_lines_spec:
  assumes "\<forall>e \<in> set es. mem_entry_ok e" "length es \<le> DTOP_DICT_SIZE" "length bufs = length es"
  shows "\<exists>d. meminfo_lines (length es) (put_lines (map mem_line es) bufs) (map length (map mem_line es)) = Some (mem_image es bufs, d) \<and>
     mem_dict es (length es) d"
proof -
  let ?raw = "put_lines (map mem_line es) bufs"
  let ?lens = "map length (map mem_line es)"
  let ?body = "\<lambda>i (lines, dict). do {
      line \<leftarrow> nth_opt lines i;
      len \<leftarrow> nth_opt ?lens i;
      (_, line, dict) \<leftarrow> dt_meminfo_parse i line len i dict;
      Some (lines[i := line], dict) }"
  let ?I = "\<lambda>i (lines, d). lines = take i (mem_image es bufs) @ drop i ?raw \<and> mem_dict es i d"
  have len: "length ?raw = length es" "length (mem_image es bufs) = length es" using assms(3) by (simp_all add: mem_image_def)
  have step: "\<exists>s'. ?body i s = Some s' \<and> ?I (Suc i) s'" if i: "i < length es" and I: "?I i s" for i s
  proof -
    obtain lines d where s: "s = (lines, d)" by (cases s)
    have l: "lines = take i (mem_image es bufs) @ drop i ?raw" "mem_dict es i d" using I s by simp_all
    have ok: "mem_entry_ok (es ! i)" "i < DTOP_DICT_SIZE" using assms(1,2) i by auto
    have at: "nth_opt lines i = Some (mem_line (es ! i) @ NUL # drop (Suc (length (mem_line (es ! i)))) (bufs ! i))"
      "nth_opt ?lens i = Some (length (mem_line (es ! i)))"
      using l(1) i len assms(3) by (simp_all add: nth_opt_def nth_append)
    have upd: "lines[i := mem_parsed (es ! i) (drop (Suc (length (mem_line (es ! i)))) (bufs ! i))] =
        take (Suc i) (mem_image es bufs) @ drop (Suc i) ?raw"
      using l(1) i len assms(3)
      by (simp add: list_update_append take_Suc_conv_app_nth upd_conv_take_nth_drop mem_image_def)
    show ?thesis
      using at upd mem_line_parse[OF ok, of "drop (Suc (length (mem_line (es ! i)))) (bufs ! i)" d] l(2)
      by (auto simp: s mem_dict_def less_Suc_eq)
  qed
  have "\<exists>s'. for_loop ?body (length es) 0 (?raw, dict_new) = Some s' \<and> ?I (0 + length es) s'"
    by (rule for_loop_rule[where I = ?I]) (use step in \<open>auto simp: mem_dict_def\<close>)
  then show ?thesis using len by (auto simp: meminfo_lines_def)
qed

lemma mem_image_deref:
  assumes "\<forall>e \<in> set es. mem_entry_ok e" "length bufs = length es" "j < length es"
  shows "deref (mem_image es bufs @ ms) (j, 0) = Some (fst (es ! j))"
    "deref (mem_image es bufs @ ms) (j, length (fst (es ! j)) + 1 + fst (snd (es ! j))) = Some (show_nat 10 (snd (snd (es ! j))))"
proof -
  obtain key n v where e: "es ! j = (key, n, v)" by (cases "es ! j")
  have k: "NUL \<notin> set key" using assms(1,3) e by (auto simp: mem_entry_ok_def dest!: nth_mem)
  have at: "j < length (mem_image es bufs @ ms)"
    "\<exists>b. (mem_image es bufs @ ms) ! j = key @ NUL # replicate n SPC @ show_nat 10 v @ NUL # b"
    using assms(2,3) e by (simp_all add: mem_image_def nth_append mem_parsed_def)
  then show "deref (mem_image es bufs @ ms) (j, 0) = Some (fst (es ! j))"
    using k by (auto simp: deref_def e)
  have "drop (length key + 1 + n) (key @ NUL # replicate n SPC @ show_nat 10 v @ NUL # b) = show_nat 10 v @ NUL # b" for b
    by simp
  then show "deref (mem_image es bufs @ ms) (j, length (fst (es ! j)) + 1 + fst (snd (es ! j))) = Some (show_nat 10 (snd (snd (es ! j))))"
    using at by (auto simp: deref_def e)
qed

lemma mem_find:
  assumes "\<forall>e \<in> set es. mem_entry_ok e" "length bufs = length es" "distinct (map fst es)" "mem_dict es (length es) d" "j < length es"
  shows "dt_find_dict_idx (mem_image es bufs @ ms) (fst (es ! j)) d = Some (int j)"
proof -
  have m: "dmax d = Some (length es)" using assms(4,5) by (auto simp: mem_dict_def)
  have keys: "\<exists>p. dkey d i = Some p \<and> deref (mem_image es bufs @ ms) p = Some (map fst es ! i)" if "0 \<le> i" "i < 0 + length es" for i
    using mem_image_deref(1)[OF assms(1,2), of i] assms(4) that by (simp add: mem_dict_def)
  have eq: "(0 \<le> i \<and> i < 0 + length es \<and> map fst es ! i = fst (es ! j)) = (i = j)" for i
    using assms(3,5) nth_eq_iff_index_eq[OF assms(3), of i j] by auto
  have "find_loop (mem_image es bufs @ ms) (fst (es ! j)) d (length es) 0 =
      Some (if \<exists>i. i = j then int (LEAST i. i = j) else - 1)"
    using find_loop_keys[of 0 "length es" d "mem_image es bufs @ ms" "\<lambda>i. map fst es ! i" "fst (es ! j)"] keys unfolding eq by blast
  moreover have "(LEAST i. i = j) = j" by (rule Least_equality) auto
  ultimately show ?thesis by (simp add: dt_find_dict_idx_def m)
qed

lemma meminfo_store_number:
  assumes "wf_dp dp" "v < 2 ^ 64"
  shows "wf_dp (meminfo_store dp (show_nat 10 v)) \<and> d_ulong (dp_data (meminfo_store dp (show_nat 10 v))) = of_nat v * 1024 \<and>
    dp_populated (meminfo_store dp (show_nat 10 v))"
  using scan_into_data[OF assms(1), of "le_bytes 8 (of_nat v * 1024 :: u64)" 8]
  by (simp add: meminfo_store_def sscanf_lu_show[OF assms(2)] d_ulong_def)

definition meminfo_gatherer :: "nat \<Rightarrow> dpg \<Rightarrow> bool" where
  "meminfo_gatherer n g \<longleftrightarrow> wf_dpg g \<and> g_len g = n \<and> length (g_line g) = n \<and> (\<forall>b \<in> set (g_line g). length b = DTOP_LINE) \<and>
     (\<forall>i < n. dp_name (g_points g ! i) = At (i, 0))"

lemma meminfo_points:
  assumes "\<forall>e \<in> set es. mem_entry_ok e" "distinct (map fst es)" "mem_dict es (length es) d" "length bufs = length es"
    and "wf_dpg g" "g_len g = length es" "\<forall>i < length es. dp_name (g_points g ! i) = At (i, 0)"
    and "g_mem g = mem_image es bufs @ ms"
  shows "\<exists>g'. for_loop (\<lambda>j g. do {
             dp \<leftarrow> point_at g j;
             name \<leftarrow> text_of g (dp_name dp);
             i \<leftarrow> dt_find_dict_idx (g_mem g) name d;
             m \<leftarrow> dmax d;
             (if 0 \<le> i \<and> i < int m then do {
                p \<leftarrow> dval d (nat i);
                s \<leftarrow> deref (g_mem g) p;
                dp \<leftarrow> point_at g (nat i);
                set_point g (nat i) (meminfo_store dp s) }
              else Some g) }) (g_len g) 0 g = Some g' \<and>
     map (\<lambda>dp. d_ulong (dp_data dp)) (g_points g') = map (\<lambda>(_, _, v). of_nat v * 1024) es \<and> (\<forall>dp \<in> set (g_points g'). dp_populated dp)"
    (is "\<exists>g'. for_loop ?body _ 0 g = _ \<and> _")
proof -
  let ?st = "\<lambda>i. meminfo_store (g_points g ! i) (show_nat 10 (snd (snd (es ! i))))"
  let ?ps = "\<lambda>i. map ?st [0..<i] @ drop i (g_points g)"
  have len: "length (g_points g) = length es" using assms(5,6) by (simp add: wf_dpg_def)
  have step: "?body i (g\<lparr>g_points := ?ps i\<rparr>) = Some (g\<lparr>g_points := ?ps (Suc i)\<rparr>)" if i: "i < length es" for i
  proof -
    have at: "?ps i ! i = g_points g ! i" "(?ps i)[i := ?st i] = ?ps (Suc i)" "i < length (?ps i)"
      using i len by (simp_all add: nth_append list_update_append upd_conv_take_nth_drop)
    have mem: "g_mem (g\<lparr>g_points := ps\<rparr>) = mem_image es bufs @ ms" for ps using assms(8) by (simp add: g_mem_def)
    have d: "dmax d = Some (length es)" "dval d i = Some (i, length (fst (es ! i)) + 1 + fst (snd (es ! i)))"
      using assms(3) i by (auto simp: mem_dict_def)
    have nm: "text_of (g\<lparr>g_points := ps\<rparr>) (dp_name (g_points g ! i)) = Some (fst (es ! i))" for ps
      using mem_image_deref(1)[OF assms(1,4) i, of ms] assms(7) i by (simp add: text_of_def mem)
    show ?thesis
      using i at d nm mem_find[OF assms(1,4,2,3) i, of ms] mem_image_deref(2)[OF assms(1,4) i, of ms]
      by (simp add: point_at_def set_point_def mem)
  qed
  have "\<exists>g'. for_loop ?body (length es) 0 g = Some g' \<and> g' = g\<lparr>g_points := ?ps (0 + length es)\<rparr>"
    by (rule for_loop_rule[where I = "\<lambda>i g'. g' = g\<lparr>g_points := ?ps i\<rparr>"]) (use step in auto)
  then have run: "for_loop ?body (g_len g) 0 g = Some (g\<lparr>g_points := map ?st [0..<length es]\<rparr>)" using assms(6) len by simp
  have val: "d_ulong (dp_data (?st i)) = of_nat (snd (snd (es ! i))) * 1024 \<and> dp_populated (?st i)" if "i < length es" for i
  proof -
    have "mem_entry_ok (es ! i)" "wf_dp (g_points g ! i)" using assms(1,5) len that by (simp_all add: wf_dpg_def)
    then have "wf_dp (g_points g ! i)" "snd (snd (es ! i)) < 2 ^ 64" by (simp_all add: mem_entry_ok_def case_prod_beta)
    then show ?thesis using meminfo_store_number by blast
  qed
  have "map (\<lambda>dp. d_ulong (dp_data dp)) (map ?st [0..<length es]) = map (\<lambda>(_, _, v). of_nat v * 1024) es"
    by (rule nth_equalityI) (use val in \<open>auto simp: case_prod_beta\<close>)
  then show ?thesis using run val by auto
qed

text \<open>
  C14. A poll of /proc/meminfo, from the file to the data points: when the file consists of lines of
  distinct keys with a number of kilobytes each, one line per data point, the poll succeeds and
  every point holds the number of bytes of its line, modulo $2^{64}$.
\<close>

theorem dtop_meminfo_poll_bytes:
  assumes "w_mem w" "w_file w (c_str (g_file g)) = Some (concat (map (\<lambda>e. mem_line e @ [NL]) es))"
    and "length (concat (map (\<lambda>e. mem_line e @ [NL]) es)) \<le> DTOP_SIZE" "es \<noteq> []"
    and "\<forall>e \<in> set es. mem_entry_ok e" "distinct (map fst es)" "length es \<le> DTOP_DICT_SIZE"
    and "meminfo_gatherer (length es) g"
  shows "\<exists>g'. dtop_meminfo_poll w g = Some (DTOP_POLL_OK, g') \<and>
    map (\<lambda>dp. d_ulong (dp_data dp)) (g_points g') = map (\<lambda>(_, _, v). of_nat v * 1024) es"
proof -
  let ?c = "concat (map (\<lambda>e. mem_line e @ [NL]) es)"
  let ?buf = "put_at 0 ?c (map (w_heap w) [0..<DTOP_SIZE])"
  have "?c \<noteq> []" using assms(4) by (cases es) auto
  then obtain n where n: "length ?c = Suc n" by (cases "length ?c") auto
  have rf: "dt_read_file w (g_file g) DTOP_SIZE = (Suc n, Some ?buf)" using assms(1-3) n by (simp add: dt_read_file_def)
  have g: "wf_dpg g" "g_len g = length es" "length (g_line g) = length es" "\<forall>b \<in> set (g_line g). length b = DTOP_LINE"
    "\<forall>i < length es. dp_name (g_points g ! i) = At (i, 0)" using assms(8) by (auto simp: meminfo_gatherer_def)
  have ln: "\<forall>l \<in> set (map mem_line es). NL \<notin> set l \<and> length l < DTOP_LINE"
    using assms(5) by (auto simp: mem_entry_ok_def mem_line_def split: prod.splits dest: show_nat_plain)
  have buf: "?buf = concat (map (\<lambda>l. l @ [NL]) (map mem_line es)) @ drop (length ?c) (map (w_heap w) [0..<DTOP_SIZE])"
    "length ?buf = DTOP_SIZE" using assms(3) by (simp_all add: put_at_def comp_def)
  have rd: "read_lines DTOP_LINE DTOP_SIZE ?buf (\<lambda>n. True) (g_line g) = Some (put_lines (map mem_line es) (g_line g), map length (map mem_line es))"
    by (rule read_lines_spec[OF _ g(4) buf(2,1) ln]) (simp_all add: g(3))
  obtain d where d: "meminfo_lines (length es) (put_lines (map mem_line es) (g_line g)) (map length (map mem_line es)) =
      Some (mem_image es (g_line g), d)" "mem_dict es (length es) d"
    using meminfo_lines_spec[OF assms(5,7) g(3)] by blast
  let ?g = "g\<lparr>g_line := mem_image es (g_line g)\<rparr>"
  have "wf_dpg ?g" using g(1) by (simp add: wf_dpg_def)
  from meminfo_points[OF assms(5,6) d(2) g(3) this, of "g_line2 g"] g
  obtain g' where "for_loop (\<lambda>j g. do {
             dp \<leftarrow> point_at g j;
             name \<leftarrow> text_of g (dp_name dp);
             i \<leftarrow> dt_find_dict_idx (g_mem g) name d;
             m \<leftarrow> dmax d;
             (if 0 \<le> i \<and> i < int m then do {
                p \<leftarrow> dval d (nat i);
                s \<leftarrow> deref (g_mem g) p;
                dp \<leftarrow> point_at g (nat i);
                set_point g (nat i) (meminfo_store dp s) }
              else Some g) }) (g_len g) 0 ?g = Some g'"
    "map (\<lambda>dp. d_ulong (dp_data dp)) (g_points g') = map (\<lambda>(_, _, v). of_nat v * 1024) es"
    by (auto simp: g_mem_def)
  then show ?thesis using rf rd d(1) g(2) by (simp add: dtop_meminfo_poll_def Let_def)
qed

theorem dtop_meminfo_poll_bytes_witness:
  "\<exists>g'. dtop_meminfo_poll (one_file ''f'' (mem_line (''MemFree:'', 3, 7) @ [NL]))
      \<lparr>g_prefix = ''f'', g_file = ''f'', g_poll = Meminfo, g_points = [(zero_point 0)\<lparr>dp_name := At (0, 0)\<rparr>], g_len = 1,
       g_line = [replicate 2048 (CHR ''h'')], g_line2 = []\<rparr> = Some (DTOP_POLL_OK, g') \<and>
    map (\<lambda>dp. d_ulong (dp_data dp)) (g_points g') = [7168]"
proof -
  have l: "length (mem_line (''MemFree:'', 3, 7)) = 16" by (simp add: mem_line_def show_nat.simps)
  have e: "mem_entry_ok (''MemFree:'', 3, 7)" using l by (simp add: mem_entry_ok_def is_blank_def)
  show ?thesis
    using dtop_meminfo_poll_bytes[of "one_file ''f'' (mem_line (''MemFree:'', 3, 7) @ [NL])"
        "\<lparr>g_prefix = ''f'', g_file = ''f'', g_poll = Meminfo, g_points = [(zero_point 0)\<lparr>dp_name := At (0, 0)\<rparr>], g_len = 1,
         g_line = [replicate 2048 (CHR ''h'')], g_line2 = []\<rparr>" "[(''MemFree:'', 3, 7)]"] e l
    by (simp add: one_file_def c_str_def meminfo_gatherer_def wf_dpg_def wf_dp_def zero_point_def)
qed

section \<open>Words\<close>

definition words :: "(char \<Rightarrow> bool) \<Rightarrow> string \<Rightarrow> string list" where
  "words sep s = filter (\<lambda>w. w \<noteq> []) (fields sep s)"

lemma words_simps [simp]: "words sep [] = []" "sep c \<Longrightarrow> words sep (c # s) = words sep s"
  by (simp_all add: words_def)

lemma fields_word: "\<forall>c \<in> set w. \<not> sep c \<Longrightarrow> fields sep w = [w]"
  by (induction w) auto

lemma fields_word_sep: "\<forall>c \<in> set w. \<not> sep c \<Longrightarrow> sep b \<Longrightarrow> fields sep (w @ b # s) = w # fields sep s"
  by (induction w) auto

lemma words_word:
  assumes "\<forall>c \<in> set w. \<not> sep c" "w \<noteq> []"
  shows "words sep w = [w]" "sep b \<Longrightarrow> words sep (w @ b # s) = w # words sep s"
  using fields_word[OF assms(1)] fields_word_sep[OF assms(1)] assms(2) by (simp_all add: words_def)

text \<open>
  One loop over words, which the parsers of /proc/stat and /proc/net/dev are instances of: a pointer
  to the start of each word, and a terminator on the separator behind it.
\<close>

definition word_ptrs :: "nat \<Rightarrow> nat \<Rightarrow> nat \<Rightarrow> string list \<Rightarrow> string \<Rightarrow> (nat \<Rightarrow> ptr option) \<Rightarrow> (nat \<Rightarrow> ptr option) \<Rightarrow> bool" where
  "word_ptrs l off k ws text vs vs' \<longleftrightarrow> (\<forall>j < k. vs' j = vs j) \<and>
     (\<forall>j < length ws. \<exists>p < length text. vs' (k + j) = Some (l, off + p) \<and> NUL \<in> set (drop p text) \<and> c_str (drop p text) = ws ! j)"

lemma word_ptrs_Cons:
  assumes "word_ptrs l (off + Suc (length w)) (Suc k) ws text (vs(k := Some (l, off))) vs'" "NUL \<notin> set w"
  shows "word_ptrs l off k (w # ws) (w @ NUL # text) vs vs'"
proof -
  have old: "\<forall>j < Suc k. vs' j = (vs(k := Some (l, off))) j" using assms(1) by (simp add: word_ptrs_def)
  have "\<exists>p < length (w @ NUL # text). vs' (k + j) = Some (l, off + p) \<and> NUL \<in> set (drop p (w @ NUL # text)) \<and>
      c_str (drop p (w @ NUL # text)) = (w # ws) ! j" if j: "j < length (w # ws)" for j
  proof (cases j)
    case 0
    then show ?thesis using old assms(2) by (intro exI[of _ 0]) simp
  next
    case (Suc i)
    then obtain p where "p < length text" "vs' (Suc k + i) = Some (l, off + Suc (length w) + p)"
      "NUL \<in> set (drop p text)" "c_str (drop p text) = ws ! i" using assms(1) j unfolding word_ptrs_def by force
    then show ?thesis using Suc by (intro exI[of _ "Suc (length w) + p"]) simp
  qed
  then show ?thesis using old by (simp add: word_ptrs_def)
qed

lemma word_ptrs_skip: "word_ptrs l (Suc off) k ws text vs vs' \<Longrightarrow> word_ptrs l off k ws (c # text) vs vs'"
  unfolding word_ptrs_def
  by (metis (no_types, lifting) Suc_less_eq add_Suc_shift drop_Suc_Cons length_Cons)

lemma word_loop:
  assumes stop: "\<And>line i k vs. len \<le> i \<Longrightarrow> F line i k vs = Some (line, k, vs)"
    and skip: "\<And>line i k vs c. i < len \<Longrightarrow> k < 2048 \<Longrightarrow> rd line i = Some c \<Longrightarrow> sep c \<Longrightarrow> F line i k vs = F line (Suc i) k vs"
    and word: "\<And>pre w b s k vs. k < 2048 \<Longrightarrow> w \<noteq> [] \<Longrightarrow> \<forall>c \<in> set w. \<not> sep c \<and> c \<noteq> NUL \<Longrightarrow> sep b \<Longrightarrow> length pre + length w < len \<Longrightarrow>
      F (pre @ w @ b # s) (length pre) k vs = F (pre @ w @ NUL # s) (Suc (length pre + length w)) (Suc k) (vs(k := Some (l, length pre)))"
    and last: "\<And>pre w s k vs. k < 2048 \<Longrightarrow> w \<noteq> [] \<Longrightarrow> \<forall>c \<in> set w. \<not> sep c \<and> c \<noteq> NUL \<Longrightarrow> length pre + length w = len \<Longrightarrow>
      F (pre @ w @ NUL # s) (length pre) k vs = Some (pre @ w @ NUL # s, Suc k, vs(k := Some (l, length pre)))"
    and "NUL \<notin> set suf" "length pre + length suf = len" "k + length (words sep suf) < 2048"
  shows "\<exists>suf' vs'. F (pre @ suf @ NUL # rest) (length pre) k vs = Some (pre @ suf' @ NUL # rest, k + length (words sep suf), vs') \<and>
    length suf' = length suf \<and> word_ptrs l (length pre) k (words sep suf) (suf' @ NUL # rest) vs vs'"
  using assms(5-7)
proof (induction "length suf" arbitrary: suf pre k vs rule: less_induct)
  case less
  show ?case
  proof (cases suf)
    case Nil
    then show ?thesis using less.prems stop[of "length pre"] by (intro exI[of _ "[]"]) (simp add: word_ptrs_def)
  next
    case (Cons c t)
    show ?thesis
    proof (cases "sep c")
      case True
      have r: "rd (pre @ suf @ NUL # rest) (length pre) = Some c" by (simp add: rd_def Cons)
      have "\<exists>t' vs'. F ((pre @ [c]) @ t @ NUL # rest) (length (pre @ [c])) k vs = Some ((pre @ [c]) @ t' @ NUL # rest, k + length (words sep t), vs') \<and>
          length t' = length t \<and> word_ptrs l (length (pre @ [c])) k (words sep t) (t' @ NUL # rest) vs vs'"
        by (rule less.hyps) (use less.prems Cons True in simp_all)
      then obtain t' vs' where t: "F (pre @ suf @ NUL # rest) (Suc (length pre)) k vs = Some (pre @ (c # t') @ NUL # rest, k + length (words sep suf), vs')"
        "length t' = length t" "word_ptrs l (Suc (length pre)) k (words sep suf) (t' @ NUL # rest) vs vs'"
        using Cons True by auto
      show ?thesis
        using t word_ptrs_skip[OF t(3), of c] skip[OF _ _ r True] less.prems Cons by (intro exI[of _ "c # t'"] exI[of _ vs']) simp
    next
      case False
      define w where "w = takeWhile (\<lambda>c. \<not> sep c) suf"
      have w: "w \<noteq> []" "\<forall>c \<in> set w. \<not> sep c \<and> c \<noteq> NUL" using Cons False less.prems(1) set_takeWhileD
        by (force simp: w_def)+
      have nw: "NUL \<notin> set w" "\<forall>c \<in> set w. \<not> sep c" using w by auto
      show ?thesis
      proof (cases "dropWhile (\<lambda>c. \<not> sep c) suf")
        case Nil
        then have suf: "suf = w" by (metis w_def append_Nil2 takeWhile_dropWhile_id)
        have "F (pre @ w @ NUL # rest) (length pre) k vs = Some (pre @ w @ NUL # rest, Suc k, vs(k := Some (l, length pre)))"
          by (rule last) (use less.prems suf w words_word(1)[OF nw(2) w(1)] in auto)
        then show ?thesis
          using words_word(1)[OF nw(2) w(1)] nw(1) suf by (intro exI[of _ w] exI[of _ "vs(k := Some (l, length pre))"]) (simp add: word_ptrs_def)
      next
        case (Cons b s)
        then have suf: "suf = w @ b # s" "sep b" by (metis w_def takeWhile_dropWhile_id) (metis Cons dropWhile_eq_Cons_conv)
        note ws = words_word(2)[OF nw(2) w(1) suf(2), of s]
        let ?vs = "vs(k := Some (l, length pre))"
        have "\<exists>s' vs'. F ((pre @ w @ [NUL]) @ s @ NUL # rest) (length (pre @ w @ [NUL])) (Suc k) ?vs =
            Some ((pre @ w @ [NUL]) @ s' @ NUL # rest, Suc k + length (words sep s), vs') \<and>
            length s' = length s \<and> word_ptrs l (length (pre @ w @ [NUL])) (Suc k) (words sep s) (s' @ NUL # rest) ?vs vs'"
          by (rule less.hyps) (use less.prems suf ws in simp_all)
        then obtain s' vs' where s': "F (pre @ w @ NUL # s @ NUL # rest) (Suc (length pre + length w)) (Suc k) ?vs =
            Some (pre @ (w @ NUL # s') @ NUL # rest, k + length (words sep suf), vs')" "length s' = length s"
          "word_ptrs l (length pre + Suc (length w)) (Suc k) (words sep s) (s' @ NUL # rest) ?vs vs'"
          using suf ws by auto
        moreover have "F (pre @ suf @ NUL # rest) (length pre) k vs = F (pre @ w @ NUL # s @ NUL # rest) (Suc (length pre + length w)) (Suc k) ?vs"
          using word[of k w b pre "s @ NUL # rest" vs] w less.prems suf ws by simp
        ultimately show ?thesis using word_ptrs_Cons[OF s'(3) nw(1)] suf ws by (intro exI[of _ "w @ NUL # s'"] exI[of _ vs']) simp
      qed
    qed
  qed
qed

section \<open>Processor statistics\<close>

lemma stat_end_word:
  "SPC \<notin> set w \<Longrightarrow> length w < m \<Longrightarrow> stat_end (pre @ w @ SPC # s) m (length pre) = Some (pre @ w @ NUL # s, length pre + length w)"
  "SPC \<notin> set w \<Longrightarrow> stat_end (pre @ w @ s) (length w) (length pre) = Some (pre @ w @ s, length pre + length w)"
proof -
  show "SPC \<notin> set w \<Longrightarrow> length w < m \<Longrightarrow> stat_end (pre @ w @ SPC # s) m (length pre) = Some (pre @ w @ NUL # s, length pre + length w)"
  proof (induction w arbitrary: pre m)
    case Nil
    then show ?case by (cases m) (simp_all add: rd_def wr_def)
  next
    case (Cons c w)
    then obtain m' where m: "m = Suc m'" by (cases m) auto
    then show ?case using Cons.IH[of m' "pre @ [c]"] Cons.prems by (auto simp: rd_def)
  qed
  show "SPC \<notin> set w \<Longrightarrow> stat_end (pre @ w @ s) (length w) (length pre) = Some (pre @ w @ s, length pre + length w)"
  proof (induction w arbitrary: pre)
    case (Cons c w)
    then show ?case using Cons.IH[of "pre @ [c]"] by (auto simp: rd_def)
  qed simp
qed

lemma stat_values_last:
  assumes w: "k < DTOP_DICT_SIZE" "w \<noteq> []" "\<forall>c \<in> set w. SPC \<noteq> c \<and> c \<noteq> NUL" "length p + length w = len"
  shows "stat_values l (p @ w @ NUL # s) len (length p) k vs = Some (p @ w @ NUL # s, Suc k, vs(k := Some (l, length p)))"
proof -
  obtain c t where "w = c # t" "c \<noteq> SPC" using w(2,3) by (cases w) auto
  moreover have "len - length p = length w" using w(4) by simp
  moreover have "stat_end (p @ w @ NUL # s) (length w) (length p) = Some (p @ w @ NUL # s, length p + length w)"
    by (rule stat_end_word(2)) (use w in auto)
  moreover have "stat_values l (p @ w @ NUL # s) len (Suc (length p + length w)) (Suc k) (vs(k := Some (l, length p))) =
      Some (p @ w @ NUL # s, Suc k, vs(k := Some (l, length p)))"
    using w(4) by (subst stat_values.simps) simp
  ultimately show ?thesis using w by (subst stat_values.simps) (simp add: rd_def)
qed

lemma stat_values_words:
  assumes "NUL \<notin> set suf" "k + length (words ((=) SPC) suf) < DTOP_DICT_SIZE"
  shows "\<exists>suf' vs'. stat_values l (pre @ suf @ NUL # rest) (length pre + length suf) (length pre) k vs =
      Some (pre @ suf' @ NUL # rest, k + length (words ((=) SPC) suf), vs') \<and>
    length suf' = length suf \<and> word_ptrs l (length pre) k (words ((=) SPC) suf) (suf' @ NUL # rest) vs vs'"
proof (rule word_loop[where F = "\<lambda>line i k vs. stat_values l line (length pre + length suf) i k vs"])
  let ?len = "length pre + length suf"
  show "stat_values l line ?len i k vs = Some (line, k, vs)" if "?len \<le> i" for line i k vs
    using that by (simp add: stat_values.simps[of l line])
  show "stat_values l line ?len i k vs = stat_values l line ?len (Suc i) k vs"
    if "i < ?len" "k < 2048" "rd line i = Some c" "SPC = c" for line i k vs c
    using that by (subst stat_values.simps) simp
  show "stat_values l (p @ w @ b # s) ?len (length p) k vs =
      stat_values l (p @ w @ NUL # s) ?len (Suc (length p + length w)) (Suc k) (vs(k := Some (l, length p)))"
    if w: "k < 2048" "w \<noteq> []" "\<forall>c \<in> set w. SPC \<noteq> c \<and> c \<noteq> NUL" "SPC = b" "length p + length w < ?len" for p w b s k vs
  proof -
    obtain c t where "w = c # t" "c \<noteq> SPC" using w(2,3) by (cases w) auto
    moreover have "stat_end (p @ w @ SPC # s) (?len - length p) (length p) = Some (p @ w @ NUL # s, length p + length w)"
      by (rule stat_end_word(1)) (use w in auto)
    ultimately show ?thesis using w by (subst stat_values.simps) (simp add: rd_def)
  qed
  show "stat_values l (p @ w @ NUL # s) ?len (length p) k vs = Some (p @ w @ NUL # s, Suc k, vs(k := Some (l, length p)))"
    if w: "k < 2048" "w \<noteq> []" "\<forall>c \<in> set w. SPC \<noteq> c \<and> c \<noteq> NUL" "length p + length w = ?len" for p w s k vs
    using stat_values_last[OF w] by simp
qed (use assms in auto)

lemma stat_name_spec:
  "SPC \<notin> set w \<Longrightarrow> length w < m \<Longrightarrow> stat_name (pre @ w @ SPC # s) m (length pre) = Some (pre @ w @ NUL # s, Suc (length pre + length w))"
  "SPC \<notin> set w \<Longrightarrow> stat_name (pre @ w @ s) (length w) (length pre) = Some (pre @ w @ s, 0)"
proof -
  show "SPC \<notin> set w \<Longrightarrow> length w < m \<Longrightarrow> stat_name (pre @ w @ SPC # s) m (length pre) = Some (pre @ w @ NUL # s, Suc (length pre + length w))"
  proof (induction w arbitrary: pre m)
    case Nil
    then show ?case by (cases m) (simp_all add: rd_def wr_def)
  next
    case (Cons c w)
    then obtain m' where m: "m = Suc m'" by (cases m) auto
    then show ?case using Cons.IH[of m' "pre @ [c]"] Cons.prems by (auto simp: rd_def)
  qed
  show "SPC \<notin> set w \<Longrightarrow> stat_name (pre @ w @ s) (length w) (length pre) = Some (pre @ w @ s, 0)"
  proof (induction w arbitrary: pre)
    case (Cons c w)
    then show ?case using Cons.IH[of "pre @ [c]"] by (auto simp: rd_def)
  qed simp
qed

text \<open>Pointers into a parsed line, read as strings.\<close>

lemma word_ptrs_deref:
  assumes "word_ptrs l (length pre) k ws text vs vs'" "l < length mem" "mem ! l = pre @ text" "j < length ws"
  shows "\<exists>p. vs' (k + j) = Some p \<and> deref mem p = Some (ws ! j)"
  using assms by (fastforce simp: word_ptrs_def deref_def)

definition words_at :: "string list \<Rightarrow> (nat \<Rightarrow> ptr option) \<Rightarrow> nat \<Rightarrow> string list \<Rightarrow> bool" where
  "words_at mem vs k ws \<longleftrightarrow> (\<forall>j < length ws. Option.bind (vs (k + j)) (deref mem) = Some (ws ! j))"

lemma word_ptrs_words_at:
  assumes "word_ptrs l (length pre) k ws text vs vs'" "l < length mem" "mem ! l = pre @ text"
  shows "words_at mem vs' k ws"
  unfolding words_at_def using word_ptrs_deref[OF assms] by fastforce

text \<open>
  A line of /proc/stat: the name is the text before the first space; the values are the words
  behind it (a line without a space is its own only value), numbered from the given index on; other
  entries of the dictionary are not touched, and the next free index is returned.
\<close>

theorem dt_stat_parse_words:
  assumes "NUL \<notin> set name" "SPC \<notin> set name" "NUL \<notin> set vals" "name \<noteq> []" "n < DTOP_DICT_SIZE" "l < length mem"
    and "sep = [] \<and> vals = [] \<and> ws = [name] \<or> sep = [SPC] \<and> ws = words ((=) SPC) vals"
    and "v + length ws < DTOP_DICT_SIZE"
  shows "\<exists>line d'. dt_stat_parse l (name @ sep @ vals @ NUL # rest) (length (name @ sep @ vals)) n v d = Some (v + length ws, line, d') \<and>
     dmax d' = Some (v + length ws) \<and> words_at (mem[l := line]) (dkey d') n [name] \<and> words_at (mem[l := line]) (dval d') v ws \<and>
     (\<forall>j. j \<noteq> n \<longrightarrow> dkey d' j = dkey d j) \<and> (\<forall>j < v. dval d' j = dval d j)"
  using assms(7)
proof
  assume sep: "sep = [] \<and> vals = [] \<and> ws = [name]"
  have "stat_name (name @ NUL # rest) (length name) 0 = Some (name @ NUL # rest, 0)"
    using stat_name_spec(2)[of name "[]" "NUL # rest"] assms(2) by simp
  moreover have "stat_values l (name @ NUL # rest) (length name) 0 v (dval d) = Some (name @ NUL # rest, Suc v, (dval d)(v := Some (l, 0)))"
    using stat_values_last[of v name "[]" "length name" l rest "dval d"] assms(1,2,4,8) sep by auto
  ultimately show ?thesis using sep assms by (auto simp: dt_stat_parse_def Let_def words_at_def deref_def)
next
  assume sep: "sep = [SPC] \<and> ws = words ((=) SPC) vals"
  have nm: "stat_name (name @ SPC # vals @ NUL # rest) (Suc (length name + length vals)) 0 = Some (name @ NUL # vals @ NUL # rest, Suc (length name))"
    using stat_name_spec(1)[of name "Suc (length name + length vals)" "[]" "vals @ NUL # rest"] assms(2) by simp
  obtain t vs' where v: "stat_values l (name @ NUL # vals @ NUL # rest) (Suc (length name + length vals)) (Suc (length name)) v (dval d) =
      Some (name @ NUL # t @ NUL # rest, v + length ws, vs')"
    "word_ptrs l (length (name @ [NUL])) v ws (t @ NUL # rest) (dval d) vs'"
    using stat_values_words[of vals v l "name @ [NUL]" rest "dval d"] assms(3,8) sep by auto
  show ?thesis
    using nm v sep assms word_ptrs_words_at[OF v(2), of "mem[l := name @ NUL # t @ NUL # rest]"]
    by (auto simp: dt_stat_parse_def Let_def words_at_def deref_def word_ptrs_def)
qed

theorem dt_stat_parse_words_witness:
  "\<exists>line d'. dt_stat_parse 0 (''cpu  4 71'' @ [NUL]) 9 0 5 dict_new = Some (7, line, d') \<and>
     words_at [line] (dkey d') 0 [''cpu''] \<and> words_at [line] (dval d') 5 [''4'', ''71'']"
proof -
  have "words ((=) SPC) '' 4 71'' = [''4'', ''71'']" by (simp add: words_def)
  then have "\<exists>line d'. dt_stat_parse 0 (''cpu'' @ [SPC] @ '' 4 71'' @ NUL # []) (length (''cpu'' @ [SPC] @ '' 4 71'')) 0 5 dict_new =
        Some (5 + length [''4'', ''71''], line, d') \<and>
      dmax d' = Some (5 + length [''4'', ''71'']) \<and> words_at ([[]][0 := line]) (dkey d') 0 [''cpu''] \<and>
      words_at ([[]][0 := line]) (dval d') 5 [''4'', ''71''] \<and>
      (\<forall>j. j \<noteq> 0 \<longrightarrow> dkey d' j = dkey dict_new j) \<and> (\<forall>j < 5. dval d' j = dval dict_new j)"
    by (intro dt_stat_parse_words) simp_all
  then obtain line d' where d: "dt_stat_parse 0 (''cpu'' @ [SPC] @ '' 4 71'' @ NUL # []) (length (''cpu'' @ [SPC] @ '' 4 71'')) 0 5 dict_new =
        Some (5 + length [''4'', ''71''], line, d')"
      "words_at ([[]][0 := line]) (dkey d') 0 [''cpu'']" "words_at ([[]][0 := line]) (dval d') 5 [''4'', ''71'']"
    by (elim exE conjE)
  have "length (''cpu'' @ [SPC] @ '' 4 71'') = 9" "5 + length [''4'', ''71''] = 7" by simp_all
  then show ?thesis using d by (auto simp: eval_nat_numeral)
qed

section \<open>Network devices\<close>

lemma dev_value_end:
  assumes "\<forall>c \<in> set w. \<not> is_blank c \<and> c \<noteq> NUL" "b = NUL \<or> is_blank b"
  shows "scan_while (\<lambda>c. c \<noteq> NUL \<and> \<not> is_blank c) (p @ w @ b # s) (length p) = Some (length p + length w)"
  by (rule scan_while_append) (use assms in auto)

lemma dev_values_words:
  assumes "NUL \<notin> set suf" "k + length (words is_blank suf) < DTOP_DICT_SIZE"
  shows "\<exists>suf' vs'. dev_values l (pre @ suf @ NUL # rest) (length pre + length suf) (length pre) k vs =
      Some (pre @ suf' @ NUL # rest, k + length (words is_blank suf), vs') \<and>
    length suf' = length suf \<and> word_ptrs l (length pre) k (words is_blank suf) (suf' @ NUL # rest) vs vs'"
proof (rule word_loop[where F = "\<lambda>line i k vs. dev_values l line (length pre + length suf) i k vs"])
  let ?len = "length pre + length suf"
  show stop: "dev_values l line ?len i k vs = Some (line, k, vs)" if "?len \<le> i" for line i k vs
    using that by (simp add: dev_values.simps[of l line])
  show "dev_values l line ?len i k vs = dev_values l line ?len (Suc i) k vs"
    if "i < ?len" "k < 2048" "rd line i = Some c" "is_blank c" for line i k vs c
    using that by (subst dev_values.simps) simp
  show "dev_values l (p @ w @ b # s) ?len (length p) k vs =
      dev_values l (p @ w @ NUL # s) ?len (Suc (length p + length w)) (Suc k) (vs(k := Some (l, length p)))"
    if w: "k < 2048" "w \<noteq> []" "\<forall>c \<in> set w. \<not> is_blank c \<and> c \<noteq> NUL" "is_blank b" "length p + length w < ?len" for p w b s k vs
  proof -
    obtain c t where "w = c # t" "\<not> is_blank c" using w(2,3) by (cases w) auto
    then show ?thesis using w dev_value_end[of w b p s] by (subst dev_values.simps) (simp add: rd_def wr_def list_update_append)
  qed
  show "dev_values l (p @ w @ NUL # s) ?len (length p) k vs = Some (p @ w @ NUL # s, Suc k, vs(k := Some (l, length p)))"
    if w: "k < 2048" "w \<noteq> []" "\<forall>c \<in> set w. \<not> is_blank c \<and> c \<noteq> NUL" "length p + length w = ?len" for p w s k vs
  proof -
    obtain c t where "w = c # t" "\<not> is_blank c" using w(2,3) by (cases w) auto
    then show ?thesis
      using w dev_value_end[of w NUL p s] stop[of "Suc (length p + length w)"] by (subst dev_values.simps) (simp add: rd_def)
  qed
qed (use assms in auto)

lemma find_colon_spec:
  "CHR '':'' \<notin> set w \<Longrightarrow> length w < m \<Longrightarrow> find_colon (pre @ w @ CHR '':'' # s) m (length pre) = Some (Some (length pre + length w))"
proof (induction w arbitrary: pre m)
  case Nil
  then show ?case by (cases m) (simp_all add: rd_def)
next
  case (Cons c w)
  then obtain m' where m: "m = Suc m'" by (cases m) auto
  then show ?case using Cons.IH[of m' "pre @ [c]"] Cons.prems by (auto simp: rd_def)
qed

text \<open>
  A line of /proc/net/dev: the name is the text from the first character that is not blank to the
  colon, colon included; the character behind the colon is lost, whatever it is; the values are the
  words behind that character.
\<close>

theorem dt_dev_parse_words:
  assumes "\<forall>c \<in> set bs. is_blank c" "name \<noteq> []" "\<not> is_blank (hd name)" "NUL \<notin> set name" "CHR '':'' \<notin> set name"
    and "NUL \<notin> set vals" "length (words is_blank vals) < DTOP_DICT_SIZE" "n < DTOP_DICT_SIZE" "l < length mem"
  shows "\<exists>line d'. dt_dev_parse l (bs @ name @ '':'' @ x # vals @ NUL # rest) (length (bs @ name @ '':'' @ x # vals)) n d = Some (line, d') \<and>
     words_at (mem[l := line]) (dkey d') n [name @ '':''] \<and> words_at (mem[l := line]) (dval d') 0 (words is_blank vals)"
proof -
  let ?p = "bs @ name @ '':'' @ [NUL]"
  obtain c t where nm: "name = c # t" "\<not> is_blank c" using assms(2,3) by (cases name) auto
  have key: "scan_while is_blank (bs @ name @ '':'' @ x # vals @ NUL # rest) 0 = Some (length bs)"
    using scan_while_append[of bs is_blank c "[]"] assms(1) nm by simp
  have "CHR '':'' \<notin> set (bs @ name)" using assms(1,5) by (auto simp: is_blank_def)
  then have colon: "find_colon (bs @ name @ '':'' @ x # vals @ NUL # rest) (length (bs @ name @ '':'' @ x # vals)) 0 = Some (Some (length (bs @ name)))"
    using find_colon_spec[of "bs @ name" "length (bs @ name @ '':'' @ x # vals)" "[]" "x # vals @ NUL # rest"] by simp
  have wr: "wr (bs @ name @ '':'' @ x # vals @ NUL # rest) (length (bs @ name) + 1) NUL = Some (?p @ vals @ NUL # rest)"
    by (simp add: wr_def list_update_append)
  obtain t vs' where v: "dev_values l (?p @ vals @ NUL # rest) (length (bs @ name @ '':'' @ x # vals)) (length (bs @ name) + 2) 0 (dval d) =
      Some (?p @ t @ NUL # rest, length (words is_blank vals), vs')"
    "word_ptrs l (length ?p) 0 (words is_blank vals) (t @ NUL # rest) (dval d) vs'"
    using dev_values_words[of vals 0 l ?p rest "dval d"] assms(6,7) by (auto simp: add.assoc)
  have "deref (mem[l := ?p @ t @ NUL # rest]) (l, length bs) = Some (name @ '':'')"
    using c_str_terminated[of "name @ '':''" "t @ NUL # rest"] assms(4,9) by (simp add: deref_def)
  then show ?thesis
    using key colon wr v(1) assms(8,9) word_ptrs_words_at[OF v(2), of "mem[l := ?p @ t @ NUL # rest]"]
    by (auto simp: dt_dev_parse_def words_at_def)
qed

theorem dt_dev_parse_words_witness:
  "\<exists>line d'. dt_dev_parse 0 (''  lo:123 45  6'' @ [NUL]) 14 0 dict_new = Some (line, d') \<and>
     words_at [line] (dkey d') 0 [''lo:''] \<and> words_at [line] (dval d') 0 [''23'', ''45'', ''6'']"
proof -
  have w: "words is_blank ''23 45  6'' = [''23'', ''45'', ''6'']" by (simp add: words_def is_blank_def)
  then have "\<exists>line d'. dt_dev_parse 0 (''  '' @ ''lo'' @ '':'' @ CHR ''1'' # ''23 45  6'' @ NUL # [])
        (length (''  '' @ ''lo'' @ '':'' @ CHR ''1'' # ''23 45  6'')) 0 dict_new = Some (line, d') \<and>
      words_at ([[]][0 := line]) (dkey d') 0 [''lo'' @ '':''] \<and> words_at ([[]][0 := line]) (dval d') 0 (words is_blank ''23 45  6'')"
    by (intro dt_dev_parse_words) (simp_all add: is_blank_def)
  then show ?thesis using w by (simp add: eval_nat_numeral)
qed

end
