(* ===== verification/Dt_Dirs.thy ===== *)
theory Dt_Dirs
  imports Dt_Files
begin

text \<open>
  Gatherers found by walking directories: the recursive search for files of values
  (datatop_gen_poll.c), the processors (datatop_cpu_stats_poll.c), and the registration of gatherers
  (datatop.c). Directories and the working directory are an environment: a working directory is the
  string \<open>getcwd\<close> gives for it, and what a call finds depends on it. Diagnostics are not modelled.
\<close>

datatype file_kind = Regular | Directory | Special

record dirs =
  e_getcwd :: "string \<Rightarrow> bool"
  e_opendir :: "string \<Rightarrow> string \<Rightarrow> string list option"
  e_chdir :: "string \<Rightarrow> string \<Rightarrow> string option"
  e_stat :: "string \<Rightarrow> string \<Rightarrow> file_kind option"
  e_world :: "string \<Rightarrow> world"
  e_node :: "nat \<Rightarrow> int"

record dstate =
  s_cwd :: string
  s_list :: "dpg dtop_linked_list"

text \<open>A null pointer is not registered; \<open>e_node\<close> is where the next node is allocated.\<close>

definition dtop_register :: "dirs \<Rightarrow> dpg option \<Rightarrow> dstate \<Rightarrow> dstate call" where
  "dtop_register E g s = (case g of None \<Rightarrow> Returns s
     | Some g \<Rightarrow> map_call (\<lambda>list. s\<lparr>s_list := list\<rparr>)
         (dtop_add_linked_list (e_node E (length (list_data (s_list s)))) g (s_list s)))"

text \<open>The result of \<open>chdir\<close> is not looked at.\<close>

definition chdir :: "dirs \<Rightarrow> string \<Rightarrow> dstate \<Rightarrow> dstate" where
  "chdir E dir s = (case e_chdir E (s_cwd s) dir of None \<Rightarrow> s | Some d \<Rightarrow> s\<lparr>s_cwd := d\<rparr>)"

section \<open>The search\<close>

abbreviation (input) DIR_SUCCESS :: int where "DIR_SUCCESS \<equiv> 0"
abbreviation (input) DIR_FAILURE :: int where "DIR_FAILURE \<equiv> 1"

definition is_dots :: "string \<Rightarrow> bool" where
  "is_dots name \<longleftrightarrow> name = ''.'' \<or> name = ''..''"

text \<open>The entries of an open directory, \<open>rec\<close> being the search of a subdirectory; whether a \<open>stat\<close> failed.\<close>

primrec search_entries :: "(string \<Rightarrow> dstate \<Rightarrow> (int \<times> dstate) call option) \<Rightarrow> dirs \<Rightarrow> string \<Rightarrow> string list \<Rightarrow> dstate \<Rightarrow>
    (bool \<times> dstate) call option" where
  "search_entries rec E dir [] s = Some (Returns (False, s))"
| "search_entries rec E dir (name # names) s =
    (case e_stat E (s_cwd s) name of
       None \<Rightarrow> Some (Returns (True, s))
     | Some k \<Rightarrow>
         if \<not> is_dots name \<and> k = Regular then do {
           g \<leftarrow> dpg_construction (e_world E (s_cwd s)) dir name;
           go_on (search_entries rec E dir names) (dtop_register E g s) }
         else if \<not> is_dots name \<and> k = Directory then do {
           r \<leftarrow> rec (dir @ name @ ''/'') s;
           go_on (\<lambda>(_, s). search_entries rec E dir names s) r }
         else search_entries rec E dir names s)"

text \<open>
  The first argument bounds the depth of the directories, which the code does not: \<open>None\<close> where it is
  used up. After a failed \<open>stat\<close> the directory stays open and the working directory is not restored.
\<close>

primrec dtop_search :: "nat \<Rightarrow> dirs \<Rightarrow> string \<Rightarrow> dstate \<Rightarrow> (int \<times> dstate) call option" where
  "dtop_search 0 E dir s = None"
| "dtop_search (Suc depth) E dir s =
    (if \<not> e_getcwd E (s_cwd s) then Some (Returns (- 1, s))
     else case e_opendir E (s_cwd s) dir of
       None \<Rightarrow> Some (Returns (DIR_FAILURE, s))
     | Some names \<Rightarrow> do {
         r \<leftarrow> search_entries (dtop_search depth E) E dir names (chdir E dir s);
         Some (map_call (\<lambda>(failed, s'). if failed then (DIR_FAILURE, s') else (DIR_SUCCESS, chdir E (s_cwd s) s')) r) })"

definition dtop_gen_init :: "nat \<Rightarrow> dirs \<Rightarrow> string \<Rightarrow> dstate \<Rightarrow> dstate call option" where
  "dtop_gen_init depth E dir s = map_option (map_call snd) (dtop_search depth E dir s)"

section \<open>Processors\<close>

abbreviation (input) cpu_dir :: string where "cpu_dir \<equiv> ''/sys/devices/system/cpu/''"
abbreviation (input) NO_CPUS_ONLINE :: int where "NO_CPUS_ONLINE \<equiv> - 1"

definition is_cpu :: "string \<Rightarrow> bool" where
  "is_cpu name = (case name of c # p # u # d # _ \<Rightarrow> c = CHR ''c'' \<and> p = CHR ''p'' \<and> u = CHR ''u'' \<and> isdigit d | _ \<Rightarrow> False)"

text \<open>The entries counted so far are lost when a \<open>stat\<close> fails.\<close>

fun count_cpus :: "dirs \<Rightarrow> string \<Rightarrow> string list \<Rightarrow> int \<Rightarrow> int option" where
  "count_cpus E cwd [] n = Some n"
| "count_cpus E cwd (name # names) n =
    (if e_stat E cwd name = None then None else count_cpus E cwd names (if is_cpu name then n + 1 else n))"

definition dtop_cpu_search :: "dirs \<Rightarrow> dstate \<Rightarrow> int \<times> dstate" where
  "dtop_cpu_search E s =
    (if \<not> e_getcwd E (s_cwd s) then (- 1, s)
     else case e_opendir E (s_cwd s) cpu_dir of
       None \<Rightarrow> (NO_CPUS_ONLINE, s)
     | Some names \<Rightarrow>
         (let s' = chdir E cpu_dir s in
          case count_cpus E (s_cwd s') names 0 of
            None \<Rightarrow> (NO_CPUS_ONLINE, s')
          | Some n \<Rightarrow> (n, chdir E (s_cwd s) s')))"

text \<open>Storing zero sets the eight bytes of \<open>d_ulong\<close> in the unions.\<close>

definition cpu_stat_dpg :: "world \<Rightarrow> string \<Rightarrow> dpg" where
  "cpu_stat_dpg w name = \<lparr>g_prefix = name, g_file = name, g_poll = ValueOnly,
     g_points = [(w_point w 0)\<lparr>dp_type := DTOP_ULONG, dp_name := Own [], dp_prefix := None,
       dp_data := put_at 0 (le_bytes 8 (0 :: u64)) (dp_data (w_point w 0)),
       dp_initial := put_at 0 (le_bytes 8 (0 :: u64)) (dp_initial (w_point w 0)),
       dp_skip := False, dp_populated := False\<rparr>],
     g_len = 1, g_line = [], g_line2 = []\<rparr>"

definition construct_cpu_stat_dpg :: "dirs \<Rightarrow> string \<Rightarrow> dstate \<Rightarrow> dstate call" where
  "construct_cpu_stat_dpg E name s = dtop_register E (Some (cpu_stat_dpg (e_world E (s_cwd s)) name)) s"

text \<open>\<open>snprintf\<close> into five bytes keeps four digits.\<close>

definition cpu_file :: "string \<Rightarrow> string \<Rightarrow> nat \<Rightarrow> string" where
  "cpu_file file add i = file @ take 4 (show_nat 10 i) @ add"

definition cpu_poll_helper :: "dirs \<Rightarrow> string \<Rightarrow> string \<Rightarrow> int \<Rightarrow> dstate \<Rightarrow> dstate call option" where
  "cpu_poll_helper E file add cpu_amt s =
    for_loop (\<lambda>i. go_on (\<lambda>s. Some (construct_cpu_stat_dpg E (cpu_file file add i) s))) (nat cpu_amt) 0 (Returns s)"

definition dtop_cpu_stats_init :: "dirs \<Rightarrow> dstate \<Rightarrow> dstate call option" where
  "dtop_cpu_stats_init E s = (case dtop_cpu_search E s of (cpu_amt, s) \<Rightarrow> do {
     s \<leftarrow> cpu_poll_helper E (cpu_dir @ ''cpu'') ''/cpufreq/scaling_cur_freq'' cpu_amt s;
     go_on (cpu_poll_helper E (cpu_dir @ ''cpu'') ''/online'' cpu_amt) s })"

end
