(* ===== verification/Dt_Dirs_Spec.thy ===== *)
theory Dt_Dirs_Spec
  imports Dt_Dirs Dt_Values
begin

text \<open>
  What the searches of directories register: a tree of files, its regular files in the order of the
  listings as the reference, and the environments in which the tree is found.
\<close>

section \<open>Trees\<close>

datatype ftree = Plain file_kind | Sub "(string \<times> ftree) list"

text \<open>Each regular file with the directory it is in, which ends in a slash.\<close>

fun regular_files :: "string \<Rightarrow> (string \<times> ftree) list \<Rightarrow> (string \<times> string) list" where
  "regular_files dir [] = []"
| "regular_files dir ((name, Plain k) # es) = (if k = Regular then [(dir, name)] else []) @ regular_files dir es"
| "regular_files dir ((name, Sub sub) # es) = regular_files (dir @ name @ ''/'') sub @ regular_files dir es"

fun tree_depth :: "(string \<times> ftree) list \<Rightarrow> nat" where
  "tree_depth [] = 1"
| "tree_depth ((name, Plain k) # es) = tree_depth es"
| "tree_depth ((name, Sub sub) # es) = max (Suc (tree_depth sub)) (tree_depth es)"

fun tree_kind :: "ftree \<Rightarrow> file_kind" where
  "tree_kind (Plain k) = k"
| "tree_kind (Sub sub) = Directory"

text \<open>
  The directory can be opened and entered from \<open>c\<close>, lists the given names besides the two dots, and
  the way back is open. The entries of a tree are found in the working directory \<open>c\<close>.
\<close>

definition enters :: "dirs \<Rightarrow> string \<Rightarrow> string \<Rightarrow> string list \<Rightarrow> string \<Rightarrow> bool" where
  "enters E c dir entries d \<longleftrightarrow> e_getcwd E c \<and> e_chdir E c dir = Some d \<and> e_chdir E d c = Some c \<and>
     map_option (filter (\<lambda>n. \<not> is_dots n)) (e_opendir E c dir) = Some entries \<and> e_stat E d ''.'' \<noteq> None \<and> e_stat E d ''..'' \<noteq> None"

fun mounted :: "dirs \<Rightarrow> string \<Rightarrow> string \<Rightarrow> (string \<times> ftree) list \<Rightarrow> bool" where
  "mounted E c dir [] = True"
| "mounted E c dir ((name, Plain k) # es) =
    (\<not> is_dots name \<and> k \<noteq> Directory \<and> e_stat E c name = Some k \<and> mounted E c dir es)"
| "mounted E c dir ((name, Sub sub) # es) =
    (\<not> is_dots name \<and> e_stat E c name = Some Directory \<and> mounted E c dir es \<and>
     (case e_chdir E c (dir @ name @ ''/'') of None \<Rightarrow> False
      | Some d \<Rightarrow> enters E c (dir @ name @ ''/'') (map fst sub) d \<and> mounted E d (dir @ name @ ''/'') sub))"

text \<open>The gatherers made for files; a file without values makes none. Reading one is always defined.\<close>

definition gatherers_of :: "world \<Rightarrow> (string \<times> string) list \<Rightarrow> dpg list" where
  "gatherers_of w fs = concat (map (\<lambda>(dir, name). case dpg_construction w dir name of Some (Some g) \<Rightarrow> [g] | _ \<Rightarrow> []) fs)"

lemma gatherers_of_simps [simp]:
  "gatherers_of w [] = []"
  "gatherers_of w ((dir, name) # fs) = (case dpg_construction w dir name of Some (Some g) \<Rightarrow> [g] | _ \<Rightarrow> []) @ gatherers_of w fs"
  "gatherers_of w (fs @ fs') = gatherers_of w fs @ gatherers_of w fs'"
  by (simp_all add: gatherers_of_def)

lemma get_number_of_values_defined: "\<exists>n. get_number_of_values w file = Some n"
proof (cases "\<exists>k buf. dt_read_file w file DTOP_SIZE = (Suc k, Some buf)")
  case True
  then obtain k buf where rf: "dt_read_file w file DTOP_SIZE = (Suc k, Some buf)" by blast
  obtain line len where rd: "dt_read_line (stack_line w) (int DTOP_LINE) buf (int DTOP_SIZE) 0 = Some (line, len)"
    "len < length line"
    using dt_read_line_spec[of "stack_line w" "int DTOP_LINE" buf "int DTOP_SIZE" 0] dt_read_file_buffer[OF rf]
    by (simp add: stack_line_def)
  have "\<exists>n. for_loop (\<lambda>i num. do {
            c \<leftarrow> rd line i;
            (if is_sep c then do { c' \<leftarrow> rd line (i + 1); Some (if c' \<noteq> NUL then num + 1 else num) } else Some num) })
            len 0 (1 :: nat) = Some n \<and> True"
    by (rule for_loop_rule[where I = "\<lambda>_ _. True"]) (use rd(2) in \<open>auto simp: rd_def\<close>)
  then show ?thesis using rf rd(1) by (auto simp: get_number_of_values_def)
next
  case False
  then show ?thesis
    by (cases "dt_read_file w file DTOP_SIZE") (auto simp: get_number_of_values_def split: nat.splits option.splits)
qed

lemma dpg_construction_defined: "\<exists>g. dpg_construction w dir name = Some g"
  using get_number_of_values_defined[of w "c_str dir @ c_str name"] by (auto simp: dpg_construction_def Let_def)

text \<open>A search that registers what the reference lists, and comes back to where it started.\<close>

definition walks :: "dirs \<Rightarrow> world \<Rightarrow> (dstate \<Rightarrow> ('r \<times> dstate) call option) \<Rightarrow> 'r \<Rightarrow> string \<Rightarrow> (string \<times> string) list \<Rightarrow> bool" where
  "walks E w f r c fs \<longleftrightarrow> (\<forall>s :: dstate. s_cwd s = c \<longrightarrow>
     (\<exists>s'. f s = Some (Returns (r, s')) \<and> s_cwd s' = c \<and> list_data (s_list s') = rev (gatherers_of w fs) @ list_data (s_list s)))"

lemma walksD:
  assumes "walks E w f r c fs" "s_cwd s = c"
  obtains s' where "f s = Some (Returns (r, s'))" "s_cwd s' = c" "list_data (s_list s') = rev (gatherers_of w fs) @ list_data (s_list s)"
  using assms by (auto simp: walks_def)

lemma dtop_register_spec:
  assumes "\<forall>n. e_node E n \<noteq> 0"
  shows "\<exists>s'. dtop_register E g s = Returns s' \<and> s_cwd s' = s_cwd s \<and>
    list_data (s_list s') = (case g of None \<Rightarrow> [] | Some g \<Rightarrow> [g]) @ list_data (s_list s)"
  using assms by (cases g) (simp_all add: dtop_register_def dtop_add_linked_list_def)

lemma search_entries_walks:
  assumes "\<forall>c. e_world E c = w" "\<forall>n. e_node E n \<noteq> 0" "e_stat E c ''.'' \<noteq> None" "e_stat E c ''..'' \<noteq> None"
    and rec: "\<And>name sub d. enters E c (dir @ name @ ''/'') (map fst sub) d \<Longrightarrow> mounted E d (dir @ name @ ''/'') sub \<Longrightarrow> tree_depth sub \<le> n \<Longrightarrow>
      walks E w (rec (dir @ name @ ''/'')) DIR_SUCCESS c (regular_files (dir @ name @ ''/'') sub)"
    and "mounted E c dir es" "filter (\<lambda>n. \<not> is_dots n) names = map fst es" "tree_depth es \<le> Suc n"
  shows "walks E w (search_entries rec E dir names) False c (regular_files dir es)"
  using assms(6-8)
proof (induction names arbitrary: es)
  case Nil
  then show ?case by (simp add: walks_def)
next
  case (Cons name names)
  show ?case
  proof (cases "is_dots name")
    case True
    moreover have "e_stat E c name \<noteq> None" using True assms(3,4) by (auto simp: is_dots_def)
    moreover have "walks E w (search_entries rec E dir names) False c (regular_files dir es)"
      using Cons True by simp
    ultimately show ?thesis by (auto simp: walks_def)
  next
    case False
    then obtain t es' where es: "es = (name, t) # es'" using Cons.prems(2) by (cases es) auto
    have IH: "walks E w (search_entries rec E dir names) False c (regular_files dir es')"
      by (rule Cons.IH) (use Cons.prems es False in \<open>cases t; simp\<close>)+
    show ?thesis
    proof (cases t)
      case (Plain k)
      show ?thesis
      proof (cases "k = Regular")
        case True
        show ?thesis unfolding walks_def
        proof (intro allI impI)
          fix s :: dstate
          assume s: "s_cwd s = c"
          obtain g where g: "dpg_construction w dir name = Some g" using dpg_construction_defined by blast
          obtain s1 where s1: "dtop_register E g s = Returns s1" "s_cwd s1 = c"
            "list_data (s_list s1) = (case g of None \<Rightarrow> [] | Some g \<Rightarrow> [g]) @ list_data (s_list s)"
            using dtop_register_spec[OF assms(2), of g s] s by auto
          obtain s' where "search_entries rec E dir names s1 = Some (Returns (False, s'))" "s_cwd s' = c"
            "list_data (s_list s') = rev (gatherers_of w (regular_files dir es')) @ list_data (s_list s1)"
            using IH s1(2) by (rule walksD)
          then show "\<exists>s'. search_entries rec E dir (name # names) s = Some (Returns (False, s')) \<and> s_cwd s' = c \<and>
              list_data (s_list s') = rev (gatherers_of w (regular_files dir es)) @ list_data (s_list s)"
            using Cons.prems(1) es Plain True False s g s1 assms(1) by (auto split: option.splits)
        qed
      next
        case False
        then show ?thesis using IH Cons.prems(1) es Plain by (auto simp: walks_def)
      qed
    next
      case (Sub sub)
      obtain d where d: "enters E c (dir @ name @ ''/'') (map fst sub) d" "mounted E d (dir @ name @ ''/'') sub"
        "e_stat E c name = Some Directory"
        using Cons.prems(1) es Sub by (auto split: option.splits)
      have W: "walks E w (rec (dir @ name @ ''/'')) DIR_SUCCESS c (regular_files (dir @ name @ ''/'') sub)"
        by (rule rec[OF d(1,2)]) (use Cons.prems(3) es Sub in simp)
      show ?thesis unfolding walks_def
      proof (intro allI impI)
        fix s :: dstate
        assume s: "s_cwd s = c"
        obtain s1 where s1: "rec (dir @ name @ ''/'') s = Some (Returns (DIR_SUCCESS, s1))" "s_cwd s1 = c"
          "list_data (s_list s1) = rev (gatherers_of w (regular_files (dir @ name @ ''/'') sub)) @ list_data (s_list s)"
          using W s by (rule walksD)
        obtain s' where "search_entries rec E dir names s1 = Some (Returns (False, s'))" "s_cwd s' = c"
          "list_data (s_list s') = rev (gatherers_of w (regular_files dir es')) @ list_data (s_list s1)"
          using IH s1(2) by (rule walksD)
        then show "\<exists>s'. search_entries rec E dir (name # names) s = Some (Returns (False, s')) \<and> s_cwd s' = c \<and>
            list_data (s_list s') = rev (gatherers_of w (regular_files dir es)) @ list_data (s_list s)"
          using False s s1 d(3) es Sub by auto
      qed
    qed
  qed
qed

lemma dtop_search_walks:
  assumes "\<forall>c. e_world E c = w" "\<forall>n. e_node E n \<noteq> 0"
    and "enters E c dir (map fst es) d" "mounted E d dir es" "tree_depth es \<le> n"
  shows "walks E w (dtop_search n E dir) DIR_SUCCESS c (regular_files dir es)"
  using assms(3-5)
proof (induction n arbitrary: c dir es d)
  case 0
  have "0 < tree_depth es" for es :: "(string \<times> ftree) list" by (induction es rule: tree_depth.induct) auto
  then show ?case using 0 by (metis leD)
next
  case (Suc n)
  obtain names where names: "e_opendir E c dir = Some names" "filter (\<lambda>n. \<not> is_dots n) names = map fst es"
    using Suc.prems(1) by (auto simp: enters_def)
  have e: "e_getcwd E c" "e_chdir E c dir = Some d" "e_chdir E d c = Some c" "e_stat E d ''.'' \<noteq> None" "e_stat E d ''..'' \<noteq> None"
    using Suc.prems(1) by (auto simp: enters_def)
  have W: "walks E w (search_entries (dtop_search n E) E dir names) False d (regular_files dir es)"
    by (rule search_entries_walks[OF assms(1,2) e(4,5) Suc.IH Suc.prems(2) names(2) Suc.prems(3)])
  show ?case unfolding walks_def
  proof (intro allI impI)
    fix s :: dstate
    assume s: "s_cwd s = c"
    then have c: "chdir E dir s = s\<lparr>s_cwd := d\<rparr>" using e(2) by (simp add: chdir_def)
    obtain s1 where "search_entries (dtop_search n E) E dir names (s\<lparr>s_cwd := d\<rparr>) = Some (Returns (False, s1))" "s_cwd s1 = d"
      "list_data (s_list s1) = rev (gatherers_of w (regular_files dir es)) @ list_data (s_list (s\<lparr>s_cwd := d\<rparr>))"
      by (rule walksD[OF W, of "s\<lparr>s_cwd := d\<rparr>"]) simp_all
    then show "\<exists>s'. dtop_search (Suc n) E dir s = Some (Returns (DIR_SUCCESS, s')) \<and> s_cwd s' = c \<and>
        list_data (s_list s') = rev (gatherers_of w (regular_files dir es)) @ list_data (s_list s)"
      using s e names(1) c by (auto simp: chdir_def)
  qed
qed

text \<open>
  C9. The search of a directory whose tree can be read is the registration of its regular files in the
  order of the listings, subdirectories where they are listed: one gatherer for each file that has
  values, the last one first in the list; it succeeds and comes back to the working directory.
\<close>

theorem dtop_search_registers_files:
  assumes "\<forall>c. e_world E c = w" "\<forall>n. e_node E n \<noteq> 0"
    and "enters E (s_cwd s) dir (map fst es) d" "mounted E d dir es" "tree_depth es \<le> depth"
  shows "\<exists>s'. dtop_search depth E dir s = Some (Returns (DIR_SUCCESS, s')) \<and> s_cwd s' = s_cwd s \<and>
    list_data (s_list s') = rev (gatherers_of w (regular_files dir es)) @ list_data (s_list s)"
proof -
  obtain s' where "dtop_search depth E dir s = Some (Returns (DIR_SUCCESS, s'))" "s_cwd s' = s_cwd s"
    "list_data (s_list s') = rev (gatherers_of w (regular_files dir es)) @ list_data (s_list s)"
    using dtop_search_walks[OF assms] refl by (rule walksD)
  then show ?thesis by blast
qed

definition dirs2 :: "world \<Rightarrow> dirs" where
  "dirs2 w = \<lparr>e_getcwd = \<lambda>_. True,
     e_opendir = (\<lambda>c p. if p = ''/d/'' then Some [''.'', ''..'', ''a'', ''s''] else if p = ''/d/s/'' then Some [''b'', ''..'', ''.''] else None),
     e_chdir = (\<lambda>c p. Some p), e_stat = (\<lambda>c n. Some (if n = ''a'' \<or> n = ''b'' then Regular else Directory)),
     e_world = (\<lambda>_. w), e_node = (\<lambda>n. int n + 1)\<rparr>"

theorem dtop_search_registers_files_witness:
  "\<exists>s'. dtop_search 2 (dirs2 (one_file ''/d/a'' ''7'')) ''/d/'' \<lparr>s_cwd = ''/'', s_list = Null\<rparr> = Some (Returns (DIR_SUCCESS, s')) \<and> s_cwd s' = ''/'' \<and>
    list_data (s_list s') = rev (gatherers_of (one_file ''/d/a'' ''7'') [(''/d/'', ''a''), (''/d/s/'', ''b'')])"
  using dtop_search_registers_files[of "dirs2 (one_file ''/d/a'' ''7'')" "one_file ''/d/a'' ''7''" "\<lparr>s_cwd = ''/'', s_list = Null\<rparr>" "''/d/''"
      "[(''a'', Plain Regular), (''s'', Sub [(''b'', Plain Regular)])]" "''/d/''" 2]
  by (simp add: dirs2_def enters_def is_dots_def)

text \<open>A failed \<open>stat\<close> ends the search with the working directory left where it happened.\<close>

lemma dtop_search_stat_failure:
  assumes "e_getcwd E (s_cwd s)" "e_opendir E (s_cwd s) dir = Some (name # names)" "e_chdir E (s_cwd s) dir = Some d" "e_stat E d name = None"
  shows "dtop_search (Suc depth) E dir s = Some (Returns (DIR_FAILURE, s\<lparr>s_cwd := d\<rparr>))"
  using assms by (simp add: chdir_def)

section \<open>Processors\<close>

lemma count_cpus_spec:
  "\<forall>n \<in> set names. e_stat E c n \<noteq> None \<Longrightarrow> count_cpus E c names k = Some (k + int (length (filter is_cpu names)))"
  by (induction names arbitrary: k) auto

lemma construct_cpu_stat_dpg_spec:
  assumes "\<forall>n. e_node E n \<noteq> 0"
  shows "\<exists>s'. construct_cpu_stat_dpg E name s = Returns s' \<and> s_cwd s' = s_cwd s \<and>
    list_data (s_list s') = cpu_stat_dpg (e_world E (s_cwd s)) name # list_data (s_list s)"
  using dtop_register_spec[OF assms, of "Some (cpu_stat_dpg (e_world E (s_cwd s)) name)" s] by (simp add: construct_cpu_stat_dpg_def)

lemma cpu_poll_helper_spec:
  assumes "\<forall>n. e_node E n \<noteq> 0"
  shows "\<exists>s'. cpu_poll_helper E file add n s = Some (Returns s') \<and> s_cwd s' = s_cwd s \<and>
    list_data (s_list s') = rev (map (\<lambda>i. cpu_stat_dpg (e_world E (s_cwd s)) (cpu_file file add i)) [0..<nat n]) @ list_data (s_list s)"
proof -
  let ?I = "\<lambda>i r. \<exists>s'. r = Returns s' \<and> s_cwd s' = s_cwd s \<and>
    list_data (s_list s') = rev (map (\<lambda>i. cpu_stat_dpg (e_world E (s_cwd s)) (cpu_file file add i)) [0..<i]) @ list_data (s_list s)"
  have "\<exists>r. for_loop (\<lambda>i. go_on (\<lambda>s. Some (construct_cpu_stat_dpg E (cpu_file file add i) s))) (nat n) 0 (Returns s) = Some r \<and>
      ?I (0 + nat n) r"
    by (rule for_loop_rule[where I = ?I]) (use construct_cpu_stat_dpg_spec[OF assms] in fastforce)+
  then show ?thesis by (auto simp: cpu_poll_helper_def)
qed

lemma length_show_nat: "0 < k \<Longrightarrow> n < 10 ^ k \<Longrightarrow> length (show_nat 10 n) \<le> k"
proof (induction k arbitrary: n)
  case (Suc k)
  show ?case
  proof (cases "n < 10")
    case True
    then show ?thesis by (simp add: show_nat.simps[of 10 n])
  next
    case False
    then have "0 < k" using Suc.prems(2) by (cases k) auto
    moreover have "n div 10 < 10 ^ k" using Suc.prems(2) by (simp add: less_mult_imp_div_less mult.commute)
    ultimately show ?thesis using Suc.IH[of "n div 10"] False by (simp add: show_nat.simps[of 10 n])
  qed
qed simp

lemma cpu_file_small: "i < 10000 \<Longrightarrow> cpu_file file add i = file @ show_nat 10 i @ add"
  using length_show_nat[of 4 i] by (simp add: cpu_file_def)

lemma filter_cpu_no_dots: "filter is_cpu (filter (\<lambda>n. \<not> is_dots n) names) = filter is_cpu names"
  by (induction names) (auto simp: is_cpu_def is_dots_def)

text \<open>
  C34. The processors: when their directory can be opened, entered and left again, \<open>stat\<close> succeeds for
  every entry, there is memory for the nodes, and \<open>n\<close> of the entries, at most 10000, are named cpu and
  a digit, then the frequency files of processors 0 to \<open>n\<close> - 1 are registered, then their online files,
  whatever numbers the entries have, and the working directory is what it was.
\<close>

theorem dtop_cpu_stats_init_files:
  assumes "\<forall>n. e_node E n \<noteq> 0" "enters E (s_cwd s) cpu_dir names d" "\<forall>n \<in> set names. e_stat E d n \<noteq> None"
    and "n = length (filter is_cpu names)" "n \<le> 10000"
  shows "\<exists>s'. dtop_cpu_stats_init E s = Some (Returns s') \<and> s_cwd s' = s_cwd s \<and>
    map g_file (list_data (s_list s')) =
      rev (map (\<lambda>i. ''/sys/devices/system/cpu/cpu'' @ show_nat 10 i @ ''/cpufreq/scaling_cur_freq'') [0..<n] @
           map (\<lambda>i. ''/sys/devices/system/cpu/cpu'' @ show_nat 10 i @ ''/online'') [0..<n]) @ map g_file (list_data (s_list s))"
proof -
  obtain ns where ns: "e_opendir E (s_cwd s) cpu_dir = Some ns" "filter (\<lambda>n. \<not> is_dots n) ns = names"
    using assms(2) by (auto simp: enters_def)
  have d: "e_getcwd E (s_cwd s)" "e_chdir E (s_cwd s) cpu_dir = Some d" "e_chdir E d (s_cwd s) = Some (s_cwd s)"
    "e_stat E d ''.'' \<noteq> None" "e_stat E d ''..'' \<noteq> None" using assms(2) by (auto simp: enters_def)
  have "e_stat E d n \<noteq> None" if "n \<in> set ns" for n
    using that assms(3) ns(2) d(4,5) by (cases "is_dots n") (auto simp: is_dots_def)
  then have "count_cpus E d ns 0 = Some (int n)"
    using count_cpus_spec[of ns E d 0, OF ballI] filter_cpu_no_dots[of ns] ns(2) assms(4) by simp
  then have search: "dtop_cpu_search E s = (int n, s)" using ns(1) d by (simp add: dtop_cpu_search_def chdir_def)
  have files: "map (\<lambda>i. g_file (cpu_stat_dpg w (cpu_file fl add i))) [0..<n] = map (\<lambda>i. fl @ show_nat 10 i @ add) [0..<n]" for w and fl add :: string
    using assms(5) by (simp add: cpu_stat_dpg_def cpu_file_small)
  obtain s1 where s1: "cpu_poll_helper E (cpu_dir @ ''cpu'') ''/cpufreq/scaling_cur_freq'' (int n) s = Some (Returns s1)" "s_cwd s1 = s_cwd s"
    "list_data (s_list s1) = rev (map (\<lambda>i. cpu_stat_dpg (e_world E (s_cwd s)) (cpu_file (cpu_dir @ ''cpu'') ''/cpufreq/scaling_cur_freq'' i)) [0..<n]) @
      list_data (s_list s)"
    using cpu_poll_helper_spec[OF assms(1), of "cpu_dir @ ''cpu''" "''/cpufreq/scaling_cur_freq''" "int n" s] by auto
  obtain s2 where s2: "cpu_poll_helper E (cpu_dir @ ''cpu'') ''/online'' (int n) s1 = Some (Returns s2)" "s_cwd s2 = s_cwd s"
    "list_data (s_list s2) = rev (map (\<lambda>i. cpu_stat_dpg (e_world E (s_cwd s)) (cpu_file (cpu_dir @ ''cpu'') ''/online'' i)) [0..<n]) @ list_data (s_list s1)"
    using cpu_poll_helper_spec[OF assms(1), of "cpu_dir @ ''cpu''" "''/online''" "int n" s1] s1(2) by auto
  show ?thesis using search s1 s2 by (simp add: dtop_cpu_stats_init_def rev_map[symmetric] comp_def files)
qed

theorem dtop_cpu_stats_init_files_witness:
  "\<exists>s'. dtop_cpu_stats_init ((dirs2 (one_file ''f'' []))\<lparr>e_opendir := (\<lambda>c p. Some [''cpu7'', ''.'', ''cpuidle'', ''cpu3'', ''..''])\<rparr>)
      \<lparr>s_cwd = ''/'', s_list = Null\<rparr> = Some (Returns s') \<and> s_cwd s' = ''/'' \<and>
    map g_file (list_data (s_list s')) =
      rev (map (\<lambda>i. ''/sys/devices/system/cpu/cpu'' @ show_nat 10 i @ ''/cpufreq/scaling_cur_freq'') [0..<2] @
           map (\<lambda>i. ''/sys/devices/system/cpu/cpu'' @ show_nat 10 i @ ''/online'') [0..<2])"
  using dtop_cpu_stats_init_files[of "(dirs2 (one_file ''f'' []))\<lparr>e_opendir := (\<lambda>c p. Some [''cpu7'', ''.'', ''cpuidle'', ''cpu3'', ''..''])\<rparr>"
      "\<lparr>s_cwd = ''/'', s_list = Null\<rparr>" "[''cpu7'', ''cpuidle'', ''cpu3'']" cpu_dir 2]
  by (simp add: dirs2_def enters_def is_dots_def is_cpu_def isdigit_def)

end
