(* ===== verification/Dt_Iptable.thy ===== *)
theory Dt_Iptable
  imports Dt_Files
begin

text \<open>
  The capture of IP tables, rules and routes (datatop_ip_table_poll.c): its gatherers, whose \<open>priv\<close>
  pointer is a command and whose \<open>file\<close> pointer is an open stream; a poll, which copies the command's
  output to the stream; and the thread that polls, against the handler that frees everything at exit.
\<close>

section \<open>Gatherers\<close>

text \<open>The prefix of a gatherer is the name of its file; \<open>ip_file\<close> is the stream's descriptor.\<close>

record ip_dpg =
  ip_prefix :: string
  ip_priv :: string
  ip_file :: "nat option"

definition ip_file_char :: "char \<Rightarrow> char" where
  "ip_file_char c = (let c = (if c = SPC then CHR ''_'' else c) in if c = CHR ''/'' then CHR ''-'' else c)"

definition ip_file_name :: "string \<Rightarrow> string \<Rightarrow> string" where
  "ip_file_name out_dir command = out_dir @ ''/'' @ map ip_file_char (command @ ''.txt'')"

definition dtop_ip_table_register :: "int \<Rightarrow> ip_dpg \<Rightarrow> ip_dpg dtop_linked_list \<Rightarrow> ip_dpg dtop_linked_list call" where
  "dtop_ip_table_register addr g list = dtop_add_linked_list addr g list"

definition construct_ip_table_dpg :: "string \<Rightarrow> int \<Rightarrow> string \<Rightarrow> ip_dpg dtop_linked_list \<Rightarrow> ip_dpg dtop_linked_list call" where
  "construct_ip_table_dpg out_dir addr command list =
    dtop_ip_table_register addr \<lparr>ip_prefix = ip_file_name (c_str out_dir) command, ip_priv = command, ip_file = None\<rparr> list"

definition ip_commands :: "string list" where
  "ip_commands =
    [''ip xfrm state show'',
     ''ip xfrm policy show'',
     ''ip addr'',
     ''iptables -t raw -L -n -v'',
     ''iptables -t mangle -L -n -v'',
     ''iptables -L -n -v'',
     ''iptables -t nat -L -n -v'',
     ''ip6tables -t raw -L -n -v'',
     ''ip6tables -t mangle -L -n -v'',
     ''ip6tables -L -n -v'',
     ''ip6tables -t nat -L -n -v'',
     ''ip rule show'',
     ''ip -6 rule show'',
     ''ip route show table all'',
     ''ip -6 route show table all'',
     ''ip route show table rmnet_data0'',
     ''ip route show table rmnet_data1'',
     ''ip route show table rmnet_data2'',
     ''ip route show table rmnet_data6'',
     ''ip route show table rmnet_data7'',
     ''ip route show table r_rmnet_data0'',
     ''ip route show table r_rmnet_data1'',
     ''ip route show table r_rmnet_data2'',
     ''ip route show table r_rmnet_data6'',
     ''ip route show table r_rmnet_data7'',
     ''ip -6 route show table rmnet_data0'',
     ''ip -6 route show table rmnet_data1'',
     ''ip -6 route show table rmnet_data2'',
     ''ip -6 route show table rmnet_data6'',
     ''ip -6 route show table rmnet_data7'',
     ''ip -6 route show table r_rmnet_data0'',
     ''ip -6 route show table r_rmnet_data1'',
     ''ip -6 route show table r_rmnet_data2'',
     ''ip -6 route show table r_rmnet_data6'',
     ''ip -6 route show table r_rmnet_data7'',
     ''ip route show table wlan0'',
     ''ip -6 route show table wlan0'',
     ''ip route show table dummy0'',
     ''ip -6 route show table dummy0'',
     ''cat /proc/net/xfrm_stat'',
     ''cat /proc/sys/net/ipv4/ip_forward'',
     ''cat /proc/sys/net/ipv6/conf/all/forwarding'']"

text \<open>\<open>M\<close> gives the address of each new node.\<close>

definition dtop_ip_table_init :: "string \<Rightarrow> (nat \<Rightarrow> int) \<Rightarrow> ip_dpg dtop_linked_list call option" where
  "dtop_ip_table_init out_dir M =
    for_loop (\<lambda>i. go_on (\<lambda>list. Some (construct_ip_table_dpg out_dir (M i) (ip_commands ! i) list))) (length ip_commands) 0 (Returns Null)"

text \<open>Opening the files stops at the first that fails.\<close>

fun dtop_ip_table_init_files :: "(string \<Rightarrow> nat option) \<Rightarrow> ip_dpg dtop_linked_list \<Rightarrow> int \<times> ip_dpg dtop_linked_list" where
  "dtop_ip_table_init_files fopen Null = (DTOP_POLL_OK, Null)"
| "dtop_ip_table_init_files fopen (Node a g next_ptr) =
    (case fopen (ip_prefix g) of
       None \<Rightarrow> (DTOP_POLL_IO_ERR, Node a g next_ptr)
     | Some fd \<Rightarrow> (case dtop_ip_table_init_files fopen next_ptr of
         (rc, next_ptr) \<Rightarrow> (rc, Node a (g\<lparr>ip_file := Some fd\<rparr>) next_ptr)))"

section \<open>A poll\<close>

text \<open>
  What has been written to each descriptor, what the stream on it still holds in its buffer, and where
  standard error, the program's own and that of the commands it starts, goes.
\<close>

record ip_io =
  io_text :: "nat \<Rightarrow> string"
  io_held :: "nat \<Rightarrow> string"
  io_stderr :: "nat option"

definition io_put :: "nat \<Rightarrow> string \<Rightarrow> ip_io \<Rightarrow> ip_io" where
  "io_put fd s io = io\<lparr>io_held := (io_held io)(fd := io_held io fd @ s)\<rparr>"

text \<open>
  The library writes a buffer out when it is full and at \<open>fflush\<close>, and a command writes to its standard
  error when it likes, both at the end of the file: the two texts arrive in some order, each in its own.
\<close>

fun interleave :: "bool list \<Rightarrow> string \<Rightarrow> string \<Rightarrow> string" where
  "interleave order [] err = err"
| "interleave order out [] = out"
| "interleave [] out err = out @ err"
| "interleave (b # order) (c # out) (d # err) =
    (if b then c # interleave order out (d # err) else d # interleave order (c # out) err)"

definition io_flush :: "bool list \<Rightarrow> string \<Rightarrow> nat \<Rightarrow> ip_io \<Rightarrow> ip_io" where
  "io_flush order err fd io =
    io\<lparr>io_text := (io_text io)(fd := io_text io fd @ interleave order (io_held io fd) err), io_held := (io_held io)(fd := [])\<rparr>"

text \<open>A message of the program itself; standard error has no buffer.\<close>

definition io_error :: "string \<Rightarrow> ip_io \<Rightarrow> ip_io" where
  "io_error s io = (case io_stderr io of None \<Rightarrow> io | Some fd \<Rightarrow> io\<lparr>io_text := (io_text io)(fd := io_text io fd @ s)\<rparr>)"

text \<open>What a command prints, what it writes to its standard error, and how the latter falls into the file.\<close>

record cmd_run =
  run_out :: string
  run_err :: string
  run_order :: "bool list"

text \<open>\<open>fgets (buf, n + 1, fd)\<close> takes a line with its end, or \<open>n\<close> characters of it.\<close>

definition fgets_take :: "nat \<Rightarrow> string \<Rightarrow> string" where
  "fgets_take n s = take n (take (Suc (length (takeWhile (\<lambda>c. c \<noteq> NL) s))) s)"

text \<open>The copying loop: \<open>fputs\<close> writes what is in the buffer up to its first NUL.\<close>

function copy_output :: "string \<Rightarrow> nat \<Rightarrow> ip_io \<Rightarrow> ip_io" where
  "copy_output s fd io =
    (if s = [] then io
     else (let buf = fgets_take 999 s in copy_output (drop (length buf) s) fd (io_put fd (c_str buf) io)))"
  by auto
termination
  by (relation "measure (\<lambda>(s, fd, io). length s)") (auto simp: fgets_take_def Let_def)

declare copy_output.simps [simp del]

text \<open>
  \<open>popen\<close> runs the command; \<open>stamp\<close> is the text of \<open>asctime\<close>. A gatherer without a stream prints a null
  pointer as a string. Standard error is the stream's file from \<open>dup2\<close> on, so that the command's own
  messages, and the program's about a command that cannot be started, go there.
\<close>

definition dtop_ip_table_poll :: "(string \<Rightarrow> cmd_run option) \<Rightarrow> string \<Rightarrow> ip_dpg \<Rightarrow> ip_io \<Rightarrow> (int \<times> ip_io) option" where
  "dtop_ip_table_poll popen stamp dpg io = do {
     fo \<leftarrow> ip_file dpg;
     let io = io_put fo (''============'' @ [NL] @ ''Start: '' @ stamp @ ''=========='' @ [NL]) io;
     let io = io_flush [] [] fo io;
     let io = io\<lparr>io_stderr := Some fo\<rparr>;
     Some (case popen (ip_priv dpg) of
        None \<Rightarrow> (DTOP_POLL_IO_ERR, io_error (''Could not popen: '' @ ip_priv dpg @ [NL]) io)
      | Some run \<Rightarrow>
          (let io = copy_output (run_out run) fo io;
               io = io_put fo (''============'' @ [NL] @ ''End: '' @ stamp @ ''=========='' @ [NL] @ [NL]) io;
               io = io_flush (run_order run) (run_err run) fo io
           in (DTOP_POLL_OK, io))) }"

section \<open>The thread and the handler at exit\<close>

text \<open>
  The list is \<open>ns\<close>, the addresses of its nodes; a pointer into it is what is left of it. The thread is
  \<open>dtop_ip_table_start_poll\<close>, in its order: the mutex, \<open>atexit\<close>, opening the files, then the loop, which
  reads the list's pointer before it takes the lock. The main thread runs until \<open>exit\<close>, which calls
  \<open>dtop_ip_table_poll_cleanup\<close> when it is registered; other handlers follow, while the thread still
  runs, until the process ends. Freed gatherers are named by their nodes.
\<close>

datatype poller_pc = P_start | P_hook | P_open "int list" | P_read | P_lock "int list" | P_poll "int list" | P_unlock | P_sleep | P_end

datatype main_pc = M_run | M_lock | M_dpgs "int list" | M_nodes "int list" | M_unlock | M_flush | M_exit

datatype thread = Poller | Main

record ip_sys =
  ps_poller :: poller_pc
  ps_main :: main_pc
  ps_holder :: "thread option"
  ps_hooked :: bool
  ps_freed_dpgs :: "int set"
  ps_freed_nodes :: "int set"

definition ip_start :: ip_sys where
  "ip_start = \<lparr>ps_poller = P_start, ps_main = M_run, ps_holder = None, ps_hooked = False, ps_freed_dpgs = {}, ps_freed_nodes = {}\<rparr>"

inductive poller_step :: "int list \<Rightarrow> ip_sys \<Rightarrow> ip_sys \<Rightarrow> bool" for ns where
  no_mutex: "ps_poller s = P_start \<Longrightarrow> poller_step ns s (s\<lparr>ps_poller := P_end\<rparr>)"
| mutex: "ps_poller s = P_start \<Longrightarrow> poller_step ns s (s\<lparr>ps_poller := P_hook\<rparr>)"
| hook: "ps_poller s = P_hook \<Longrightarrow> poller_step ns s (s\<lparr>ps_poller := P_open ns, ps_hooked := True\<rparr>)"
| open_fail: "ps_poller s = P_open (n # r) \<Longrightarrow> poller_step ns s (s\<lparr>ps_poller := P_end\<rparr>)"
| open_file: "ps_poller s = P_open (n # r) \<Longrightarrow> poller_step ns s (s\<lparr>ps_poller := P_open r\<rparr>)"
| opened: "ps_poller s = P_open [] \<Longrightarrow> poller_step ns s (s\<lparr>ps_poller := P_read\<rparr>)"
| read: "ps_poller s = P_read \<Longrightarrow> poller_step ns s (s\<lparr>ps_poller := P_lock ns\<rparr>)"
| lock_due: "ps_poller s = P_lock r \<Longrightarrow> ps_holder s = None \<Longrightarrow> poller_step ns s (s\<lparr>ps_poller := P_poll r, ps_holder := Some Poller\<rparr>)"
| lock_not_due: "ps_poller s = P_lock r \<Longrightarrow> ps_holder s = None \<Longrightarrow> poller_step ns s (s\<lparr>ps_poller := P_unlock, ps_holder := Some Poller\<rparr>)"
| poll: "ps_poller s = P_poll (n # r) \<Longrightarrow> poller_step ns s (s\<lparr>ps_poller := P_poll r\<rparr>)"
| polled: "ps_poller s = P_poll [] \<Longrightarrow> poller_step ns s (s\<lparr>ps_poller := P_unlock\<rparr>)"
| unlock: "ps_poller s = P_unlock \<Longrightarrow> poller_step ns s (s\<lparr>ps_poller := P_sleep, ps_holder := None\<rparr>)"
| wake: "ps_poller s = P_sleep \<Longrightarrow> poller_step ns s (s\<lparr>ps_poller := P_read\<rparr>)"

inductive main_step :: "int list \<Rightarrow> ip_sys \<Rightarrow> ip_sys \<Rightarrow> bool" for ns where
  cleanup: "ps_main s = M_run \<Longrightarrow> ps_hooked s \<Longrightarrow> main_step ns s (s\<lparr>ps_main := M_lock\<rparr>)"
| no_cleanup: "ps_main s = M_run \<Longrightarrow> \<not> ps_hooked s \<Longrightarrow> main_step ns s (s\<lparr>ps_main := M_flush\<rparr>)"
| lock: "ps_main s = M_lock \<Longrightarrow> ps_holder s = None \<Longrightarrow> main_step ns s (s\<lparr>ps_main := M_dpgs ns, ps_holder := Some Main\<rparr>)"
| free_dpg: "ps_main s = M_dpgs (n # r) \<Longrightarrow>
    main_step ns s (s\<lparr>ps_main := M_dpgs r, ps_freed_dpgs := insert n (ps_freed_dpgs s)\<rparr>)"
| dpgs_done: "ps_main s = M_dpgs [] \<Longrightarrow> main_step ns s (s\<lparr>ps_main := M_nodes ns\<rparr>)"
| free_node: "ps_main s = M_nodes (n # r) \<Longrightarrow>
    main_step ns s (s\<lparr>ps_main := M_nodes r, ps_freed_nodes := insert n (ps_freed_nodes s)\<rparr>)"
| nodes_done: "ps_main s = M_nodes [] \<Longrightarrow> main_step ns s (s\<lparr>ps_main := M_unlock\<rparr>)"
| unlock: "ps_main s = M_unlock \<Longrightarrow> main_step ns s (s\<lparr>ps_main := M_flush, ps_holder := None\<rparr>)"
| leave: "ps_main s = M_flush \<Longrightarrow> main_step ns s (s\<lparr>ps_main := M_exit\<rparr>)"

text \<open>Until the process has ended either thread takes a step.\<close>

inductive ip_step :: "int list \<Rightarrow> ip_sys \<Rightarrow> ip_sys \<Rightarrow> bool" for ns where
  by_poller: "ps_main s \<noteq> M_exit \<Longrightarrow> poller_step ns s t \<Longrightarrow> ip_step ns s t"
| by_main: "main_step ns s t \<Longrightarrow> ip_step ns s t"

inductive ip_reachable :: "int list \<Rightarrow> ip_sys \<Rightarrow> bool" for ns where
  start: "ip_reachable ns ip_start"
| step: "ip_reachable ns s \<Longrightarrow> ip_step ns s t \<Longrightarrow> ip_reachable ns t"

inductive_cases poller_stepE: "poller_step ns s t"
inductive_cases main_stepE: "main_step ns s t"
inductive_cases ip_stepE: "ip_step ns s t"
inductive_simps ip_step_iff: "ip_step ns s t"

end
