(* ===== verification/Dt_Iptable_Spec.thy ===== *)
theory Dt_Iptable_Spec
  imports Dt_Iptable Dt_Str_Spec
begin

text \<open>
  The capture of IP tables: what ends up in its files, and what the lock between the polling thread
  and the exit handler protects.
\<close>

section \<open>The copied output\<close>

lemma io_put_put [simp]: "io_put fd t (io_put fd s io) = io_put fd (s @ t) io"
  by (simp add: io_put_def)

lemma io_put_Nil [simp]: "io_put fd [] io = io"
  by (simp add: io_put_def)

lemma fgets_take_split: "fgets_take n s @ drop (length (fgets_take n s)) s = s"
  by (metis append_take_drop_id fgets_take_def length_take take_take min.commute min_def take_all_iff nle_le)

lemma copy_output_plain: "NUL \<notin> set s \<Longrightarrow> copy_output s fd io = io_put fd s io"
proof (induction s fd io rule: copy_output.induct)
  case (1 s fd io)
  show ?case
  proof (cases "s = []")
    case False
    let ?b = "fgets_take 999 s"
    have set: "set s = set ?b \<union> set (drop (length ?b) s)" by (metis fgets_take_split set_append)
    then have "copy_output (drop (length ?b) s) fd (io_put fd (c_str ?b) io) = io_put fd (drop (length ?b) s) (io_put fd (c_str ?b) io)"
      using 1 False by simp
    then show ?thesis
      using False set 1(2) by (subst copy_output.simps) (simp add: Let_def c_str_no_NUL fgets_take_split)
  qed (simp add: copy_output.simps)
qed

definition ip_head :: "string \<Rightarrow> string" where
  "ip_head stamp = ''============'' @ [NL] @ ''Start: '' @ stamp @ ''=========='' @ [NL]"

definition ip_tail :: "string \<Rightarrow> string" where
  "ip_tail stamp = ''============'' @ [NL] @ ''End: '' @ stamp @ ''=========='' @ [NL] @ [NL]"

text \<open>
  What one poll may leave in the file: a head; then, in their orders, what the command printed with a
  tail behind it, and what it wrote to its standard error; or a head and a message when the command
  could not be started.
\<close>

definition ip_entries :: "string \<Rightarrow> string \<times> cmd_run option \<Rightarrow> string set" where
  "ip_entries command e = (case e of
      (stamp, None) \<Rightarrow> {ip_head stamp @ ''Could not popen: '' @ command @ [NL]}
    | (stamp, Some run) \<Rightarrow> (@) (ip_head stamp) ` shuffles (run_out run @ ip_tail stamp) (run_err run))"

lemma append_in_shuffles [simp]: "xs @ ys \<in> shuffles xs ys"
  by (induction xs) (simp_all add: Cons_in_shuffles_leftI)

lemma interleave_shuffles: "interleave order out err \<in> shuffles out err"
  by (induction order out err rule: interleave.induct) (auto simp: Cons_in_shuffles_iff)

lemma interleave_Nil [simp]: "interleave order out [] = out"
  by (cases out) auto

text \<open>Polls of one gatherer at different times, with the run of the command at each.\<close>

fun ip_polls :: "ip_dpg \<Rightarrow> (string \<times> cmd_run option) list \<Rightarrow> ip_io \<Rightarrow> ip_io option" where
  "ip_polls g [] io = Some io"
| "ip_polls g ((stamp, run) # es) io = do { (_, io) \<leftarrow> dtop_ip_table_poll (\<lambda>_. run) stamp g io; ip_polls g es io }"

text \<open>Runs that print no NUL.\<close>

definition ip_runs_ok :: "(string \<times> cmd_run option) list \<Rightarrow> bool" where
  "ip_runs_ok es \<longleftrightarrow> list_all (\<lambda>(stamp, r). case r of None \<Rightarrow> True | Some run \<Rightarrow> NUL \<notin> set (run_out run)) es"

lemma ip_poll_entry:
  assumes "ip_file g = Some fd" "ip_runs_ok [(stamp, r)]" "io_held io fd = []"
  obtains w io' where "w \<in> ip_entries (ip_priv g) (stamp, r)"
    "dtop_ip_table_poll (\<lambda>_. r) stamp g io = Some (if r = None then DTOP_POLL_IO_ERR else DTOP_POLL_OK, io')"
    "io_text io' = (io_text io)(fd := io_text io fd @ w)" "io_held io' = io_held io"
proof (cases r)
  case None
  then show ?thesis
    using assms that[of "ip_head stamp @ ''Could not popen: '' @ ip_priv g @ [NL]"]
    by (simp add: dtop_ip_table_poll_def io_put_def io_flush_def io_error_def ip_entries_def ip_head_def fun_upd_idem)
next
  case (Some run)
  let ?w = "interleave (run_order run) (run_out run @ ip_tail stamp) (run_err run)"
  show ?thesis
    using assms Some interleave_shuffles that[of "ip_head stamp @ ?w"]
    by (simp add: dtop_ip_table_poll_def copy_output_plain ip_runs_ok_def io_put_def io_flush_def ip_entries_def
        ip_head_def ip_tail_def fun_upd_idem)
qed

text \<open>
  C30. The file of a command that prints no NUL: any number of polls, each from a stream that holds
  nothing back, appends one entry each, in their order: a head with the time; then what the command
  printed, however long its lines, and a tail, with what it wrote to its standard error anywhere among
  them, all of it and in its order; where the command could not be started, a head and a message. No
  other file is written, and the stream holds nothing back at the end.
\<close>

theorem dtop_ip_table_file_entries:
  assumes "ip_file g = Some fd" "ip_runs_ok es" "io_held io fd = []"
  shows "\<exists>io' ws. ip_polls g es io = Some io' \<and> list_all2 (\<lambda>w e. w \<in> ip_entries (ip_priv g) e) ws es \<and>
    io_text io' fd = io_text io fd @ concat ws \<and> io_held io' fd = [] \<and> (\<forall>fd'. fd' \<noteq> fd \<longrightarrow> io_text io' fd' = io_text io fd')"
  using assms(2,3)
proof (induction es arbitrary: io)
  case (Cons e es)
  obtain stamp r where e: "e = (stamp, r)" by (cases e)
  have ok: "ip_runs_ok [(stamp, r)]" "ip_runs_ok es" using Cons.prems e by (simp_all add: ip_runs_ok_def)
  obtain w io1 where 1: "w \<in> ip_entries (ip_priv g) (stamp, r)"
      "dtop_ip_table_poll (\<lambda>_. r) stamp g io = Some (if r = None then DTOP_POLL_IO_ERR else DTOP_POLL_OK, io1)"
      "io_text io1 = (io_text io)(fd := io_text io fd @ w)" "io_held io1 = io_held io"
    using ip_poll_entry[OF assms(1) ok(1) Cons.prems(2)] by blast
  obtain io' ws where 2: "ip_polls g es io1 = Some io'" "list_all2 (\<lambda>w e. w \<in> ip_entries (ip_priv g) e) ws es"
      "io_text io' fd = io_text io1 fd @ concat ws" "io_held io' fd = []" "\<forall>fd'. fd' \<noteq> fd \<longrightarrow> io_text io' fd' = io_text io1 fd'"
    using Cons.IH[of io1] ok(2) Cons.prems(2) 1(4) by auto
  show ?case by (intro exI[of _ io'] exI[of _ "w # ws"]) (use 1 2 e in simp)
qed simp

theorem dtop_ip_table_file_entries_witness:
  "\<exists>io'. ip_polls \<lparr>ip_prefix = ''f'', ip_priv = ''ip addr'', ip_file = Some 3\<rparr>
      [(''t1'', Some \<lparr>run_out = ''lo'', run_err = [], run_order = []\<rparr>), (''t2'', None)]
      \<lparr>io_text = \<lambda>_. [], io_held = \<lambda>_. [], io_stderr = None\<rparr> = Some io' \<and>
    io_text io' 3 = ip_head ''t1'' @ ''lo'' @ ip_tail ''t1'' @ ip_head ''t2'' @ ''Could not popen: ip addr'' @ [NL]"
proof -
  have f: "ip_file \<lparr>ip_prefix = ''f'', ip_priv = ''ip addr'', ip_file = Some 3\<rparr> = Some 3"
    "ip_runs_ok [(''t1'', Some \<lparr>run_out = ''lo'', run_err = [], run_order = []\<rparr>), (''t2'', None)]"
    "io_held \<lparr>io_text = \<lambda>_. [], io_held = \<lambda>_. [], io_stderr = None\<rparr> 3 = []" by (simp_all add: ip_runs_ok_def)
  from dtop_ip_table_file_entries[OF f] show ?thesis by (auto simp: ip_entries_def list_all2_Cons2)
qed

section \<open>The files\<close>

lemma ip_init_list:
  assumes "\<forall>i. M i \<noteq> 0"
  shows "\<exists>list. dtop_ip_table_init dir M = Some (Returns list) \<and>
    list_data list = rev (map (\<lambda>c. \<lparr>ip_prefix = ip_file_name (c_str dir) c, ip_priv = c, ip_file = None\<rparr>) ip_commands)"
proof -
  let ?g = "\<lambda>c. \<lparr>ip_prefix = ip_file_name (c_str dir) c, ip_priv = c, ip_file = None\<rparr>"
  let ?I = "\<lambda>i r. \<exists>list. r = Returns list \<and> list_data list = rev (map ?g (take i ip_commands))"
  have "\<exists>r. for_loop (\<lambda>i. go_on (\<lambda>list. Some (construct_ip_table_dpg dir (M i) (ip_commands ! i) list))) (length ip_commands) 0 (Returns Null) =
      Some r \<and> ?I (0 + length ip_commands) r"
    by (rule for_loop_rule[where I = ?I])
      (use assms in \<open>auto simp: construct_ip_table_dpg_def dtop_ip_table_register_def dtop_add_linked_list_def take_Suc_conv_app_nth\<close>)
  then show ?thesis by (auto simp: dtop_ip_table_init_def)
qed

lemma ip_commands_distinct: "distinct (map (map ip_file_char) ip_commands)"
  by code_simp

lemma ip_file_char_clean: "ip_file_char c \<noteq> CHR ''/''" "ip_file_char c \<noteq> SPC"
  by (auto simp: ip_file_char_def Let_def)

lemma ip_file_name_inj: "ip_file_name d c = ip_file_name d c' \<longleftrightarrow> map ip_file_char c = map ip_file_char c'"
  by (simp add: ip_file_name_def)

text \<open>
  The gatherers of the capture: one for each of the 42 commands, each with a file of its own,
  directly in the output directory, without a blank in its name.
\<close>

theorem dtop_ip_table_init_files_distinct:
  assumes "\<forall>i. M i \<noteq> 0"
  shows "\<exists>list. dtop_ip_table_init dir M = Some (Returns list) \<and> map ip_priv (list_data list) = rev ip_commands \<and> length (list_data list) = 42 \<and>
    distinct (map ip_prefix (list_data list)) \<and>
    (\<forall>g \<in> set (list_data list). \<exists>f. ip_prefix g = c_str dir @ ''/'' @ f \<and> CHR ''/'' \<notin> set f \<and> SPC \<notin> set f)"
proof -
  obtain list where l: "dtop_ip_table_init dir M = Some (Returns list)"
    "list_data list = rev (map (\<lambda>c. \<lparr>ip_prefix = ip_file_name (c_str dir) c, ip_priv = c, ip_file = None\<rparr>) ip_commands)"
    using ip_init_list[OF assms] by blast
  have "distinct (map (ip_file_name (c_str dir)) ip_commands)"
    using ip_commands_distinct by (simp add: distinct_map inj_on_def ip_file_name_inj)
  moreover have "length ip_commands = 42" by (simp add: ip_commands_def)
  moreover have "\<exists>f. ip_file_name (c_str dir) c = c_str dir @ ''/'' @ f \<and> CHR ''/'' \<notin> set f \<and> SPC \<notin> set f" for c
    unfolding ip_file_name_def using ip_file_char_clean[symmetric] by fastforce
  ultimately show ?thesis using l by (auto simp: rev_map[symmetric] comp_def)
qed

theorem dtop_ip_table_init_files_distinct_witness:
  "\<exists>list. dtop_ip_table_init ''/data/out'' (\<lambda>i. int i + 1) = Some (Returns list) \<and> distinct (map ip_prefix (list_data list))"
  using dtop_ip_table_init_files_distinct[of "\<lambda>i. int i + 1" "''/data/out''"] by fastforce

section \<open>The lock\<close>

definition polling :: "ip_sys \<Rightarrow> bool" where
  "polling s \<longleftrightarrow> (case ps_poller s of P_poll r \<Rightarrow> True | P_unlock \<Rightarrow> True | _ \<Rightarrow> False)"

definition freeing :: "ip_sys \<Rightarrow> bool" where
  "freeing s \<longleftrightarrow> (case ps_main s of M_dpgs r \<Rightarrow> True | M_nodes r \<Rightarrow> True | M_unlock \<Rightarrow> True | _ \<Rightarrow> False)"

text \<open>What has been freed, by where the handler is.\<close>

fun freed_at :: "int list \<Rightarrow> main_pc \<Rightarrow> int set \<Rightarrow> int set \<Rightarrow> bool" where
  "freed_at ns (M_dpgs r) D N \<longleftrightarrow> (\<exists>p. ns = p @ r \<and> D = set p) \<and> N = {}"
| "freed_at ns (M_nodes r) D N \<longleftrightarrow> D = set ns \<and> (\<exists>p. ns = p @ r \<and> N = set p)"
| "freed_at ns M_run D N \<longleftrightarrow> D = {} \<and> N = {}"
| "freed_at ns M_lock D N \<longleftrightarrow> D = {} \<and> N = {}"
| "freed_at ns M_unlock D N \<longleftrightarrow> D = set ns \<and> N = set ns"
| "freed_at ns _ D N \<longleftrightarrow> D = N \<and> N \<subseteq> set ns"

definition ip_inv :: "int list \<Rightarrow> ip_sys \<Rightarrow> bool" where
  "ip_inv ns s \<longleftrightarrow> (ps_holder s = Some Poller \<longleftrightarrow> polling s) \<and> (ps_holder s = Some Main \<longleftrightarrow> freeing s) \<and>
     freed_at ns (ps_main s) (ps_freed_dpgs s) (ps_freed_nodes s)"

lemma poller_step_inv: "poller_step ns s t \<Longrightarrow> ip_inv ns s \<Longrightarrow> ip_inv ns t"
  by (induction rule: poller_step.induct) (auto simp: ip_inv_def polling_def freeing_def split: main_pc.splits)

lemma main_step_inv: "main_step ns s t \<Longrightarrow> ip_inv ns s \<Longrightarrow> ip_inv ns t"
proof (induction rule: main_step.induct)
  case (free_dpg s n r)
  then obtain p where "ns = p @ n # r" "ps_freed_dpgs s = set p" "ps_freed_nodes s = {}" by (auto simp: ip_inv_def)
  moreover from this have "ns = (p @ [n]) @ r \<and> insert n (set p) = set (p @ [n])" by simp
  ultimately show ?case using free_dpg by (auto simp: ip_inv_def polling_def freeing_def)
next
  case (free_node s n r)
  then obtain p where "ns = p @ n # r" "ps_freed_nodes s = set p" "ps_freed_dpgs s = set ns" by (auto simp: ip_inv_def)
  moreover from this have "ns = (p @ [n]) @ r \<and> insert n (set p) = set (p @ [n])" by simp
  ultimately show ?case using free_node by (auto simp: ip_inv_def polling_def freeing_def)
qed (auto simp: ip_inv_def polling_def freeing_def split: poller_pc.splits)

lemma ip_step_inv: "ip_step ns s t \<Longrightarrow> ip_inv ns s \<Longrightarrow> ip_inv ns t"
  by (auto elim!: ip_stepE intro: poller_step_inv main_step_inv)

lemma ip_reachable_inv: "ip_reachable ns s \<Longrightarrow> ip_inv ns s"
proof (induction rule: ip_reachable.induct)
  case start
  show ?case by (simp add: ip_inv_def ip_start_def polling_def freeing_def)
qed (rule ip_step_inv)

text \<open>
  C10. The lock: in every reachable state, never does the thread poll while the handler frees; what the
  thread touches, polling or opening files, has not been freed as long as the handler has not got
  the lock; and the handler frees each gatherer and each node once.
\<close>

theorem dtop_ip_table_lock_safety:
  assumes "ip_reachable ns s" "distinct ns"
  shows "\<not> (polling s \<and> freeing s) \<and>
    (ps_main s = M_run \<or> ps_main s = M_lock \<longrightarrow> ps_freed_dpgs s = {} \<and> ps_freed_nodes s = {}) \<and>
    (\<forall>n r. ps_main s = M_dpgs (n # r) \<longrightarrow> n \<notin> ps_freed_dpgs s) \<and>
    (\<forall>n r. ps_main s = M_nodes (n # r) \<longrightarrow> n \<notin> ps_freed_nodes s \<and> ps_freed_dpgs s = set ns)"
proof -
  have inv: "ip_inv ns s" using assms(1) by (rule ip_reachable_inv)
  then have "\<not> (polling s \<and> freeing s)" by (auto simp: ip_inv_def)
  moreover have "ps_freed_dpgs s = {} \<and> ps_freed_nodes s = {}" if "ps_main s = M_run \<or> ps_main s = M_lock"
    using inv that by (auto simp: ip_inv_def)
  moreover have "n \<notin> ps_freed_dpgs s" if "ps_main s = M_dpgs (n # r)" for n r
    using inv that assms(2) by (auto simp: ip_inv_def)
  moreover have "n \<notin> ps_freed_nodes s \<and> ps_freed_dpgs s = set ns" if "ps_main s = M_nodes (n # r)" for n r
    using inv that assms(2) by (auto simp: ip_inv_def)
  ultimately show ?thesis by blast
qed

section \<open>Runs\<close>

definition runs :: "int list \<Rightarrow> ip_sys \<Rightarrow> ip_sys \<Rightarrow> bool" where
  "runs ns = (ip_step ns)\<^sup>*\<^sup>*"

lemma runs_refl [simp]: "runs ns s s"
  by (simp add: runs_def)

lemma runs_trans: "runs ns s t \<Longrightarrow> runs ns t u \<Longrightarrow> runs ns s u"
  by (simp add: runs_def)

lemma runs_poller: "ps_main s \<noteq> M_exit \<Longrightarrow> poller_step ns s t \<Longrightarrow> runs ns t u \<Longrightarrow> runs ns s u"
  unfolding runs_def by (meson converse_rtranclp_into_rtranclp ip_step.by_poller)

lemma runs_main: "main_step ns s t \<Longrightarrow> runs ns t u \<Longrightarrow> runs ns s u"
  unfolding runs_def by (meson converse_rtranclp_into_rtranclp ip_step.by_main)

lemma reachable_runs: "ip_reachable ns s \<Longrightarrow> runs ns s t \<Longrightarrow> ip_reachable ns t"
  unfolding runs_def by (rotate_tac, induction rule: rtranclp_induct) (auto intro: ip_reachable.step)

lemma poll_run:
  "ps_poller s = P_poll r \<Longrightarrow> ps_main s \<noteq> M_exit \<Longrightarrow> runs ns s (s\<lparr>ps_poller := P_unlock\<rparr>)"
proof (induction r arbitrary: s)
  case Nil
  show ?case by (rule runs_poller[OF Nil.prems(2) poller_step.polled[OF Nil.prems(1)]]) simp
next
  case (Cons n r)
  from Cons.IH[of "s\<lparr>ps_poller := P_poll r\<rparr>"] Cons.prems(2)
  have "runs ns (s\<lparr>ps_poller := P_poll r\<rparr>) (s\<lparr>ps_poller := P_unlock\<rparr>)" by simp
  then show ?case by (rule runs_poller[OF Cons.prems(2) poller_step.poll[OF Cons.prems(1)]])
qed

lemma open_run:
  "ps_poller s = P_open r \<Longrightarrow> ps_main s \<noteq> M_exit \<Longrightarrow> runs ns s (s\<lparr>ps_poller := P_read\<rparr>)"
proof (induction r arbitrary: s)
  case Nil
  show ?case by (rule runs_poller[OF Nil.prems(2) poller_step.opened[OF Nil.prems(1)]]) simp
next
  case (Cons n r)
  from Cons.IH[of "s\<lparr>ps_poller := P_open r\<rparr>"] Cons.prems(2)
  have "runs ns (s\<lparr>ps_poller := P_open r\<rparr>) (s\<lparr>ps_poller := P_read\<rparr>)" by simp
  then show ?case by (rule runs_poller[OF Cons.prems(2) poller_step.open_file[OF Cons.prems(1)]])
qed

lemma dpgs_run:
  "ps_main s = M_dpgs r \<Longrightarrow> runs ns s (s\<lparr>ps_main := M_nodes ns, ps_freed_dpgs := ps_freed_dpgs s \<union> set r\<rparr>)"
proof (induction r arbitrary: s)
  case Nil
  show ?case by (rule runs_main[OF main_step.dpgs_done[OF Nil.prems]]) simp
next
  case (Cons n r)
  from Cons.IH[of "s\<lparr>ps_main := M_dpgs r, ps_freed_dpgs := insert n (ps_freed_dpgs s)\<rparr>"]
  have "runs ns (s\<lparr>ps_main := M_dpgs r, ps_freed_dpgs := insert n (ps_freed_dpgs s)\<rparr>)
      (s\<lparr>ps_main := M_nodes ns, ps_freed_dpgs := ps_freed_dpgs s \<union> set (n # r)\<rparr>)" by simp
  then show ?case by (rule runs_main[OF main_step.free_dpg[OF Cons.prems]])
qed

lemma nodes_run:
  "ps_main s = M_nodes r \<Longrightarrow> runs ns s (s\<lparr>ps_main := M_flush, ps_freed_nodes := ps_freed_nodes s \<union> set r, ps_holder := None\<rparr>)"
proof (induction r arbitrary: s)
  case Nil
  have "runs ns (s\<lparr>ps_main := M_unlock\<rparr>) (s\<lparr>ps_main := M_flush, ps_freed_nodes := ps_freed_nodes s \<union> set [], ps_holder := None\<rparr>)"
    by (rule runs_main[OF main_step.unlock]) simp_all
  then show ?case by (rule runs_main[OF main_step.nodes_done[OF Nil.prems]])
next
  case (Cons n r)
  from Cons.IH[of "s\<lparr>ps_main := M_nodes r, ps_freed_nodes := insert n (ps_freed_nodes s)\<rparr>"]
  have "runs ns (s\<lparr>ps_main := M_nodes r, ps_freed_nodes := insert n (ps_freed_nodes s)\<rparr>)
      (s\<lparr>ps_main := M_flush, ps_freed_nodes := ps_freed_nodes s \<union> set (n # r), ps_holder := None\<rparr>)" by simp
  then show ?case by (rule runs_main[OF main_step.free_node[OF Cons.prems]])
qed

text \<open>The handler, from a free lock to its end.\<close>

lemma cleanup_run:
  assumes "ps_main s = M_lock" "ps_holder s = None"
  shows "runs ns s (s\<lparr>ps_main := M_flush, ps_freed_dpgs := ps_freed_dpgs s \<union> set ns, ps_freed_nodes := ps_freed_nodes s \<union> set ns\<rparr>)"
proof -
  let ?s1 = "s\<lparr>ps_main := M_dpgs ns, ps_holder := Some Main\<rparr>"
  let ?s2 = "?s1\<lparr>ps_main := M_nodes ns, ps_freed_dpgs := ps_freed_dpgs ?s1 \<union> set ns\<rparr>"
  have "runs ns ?s1 ?s2" by (rule dpgs_run) simp
  moreover have "runs ns ?s2 (?s2\<lparr>ps_main := M_flush, ps_freed_nodes := ps_freed_nodes ?s2 \<union> set ns, ps_holder := None\<rparr>)"
    by (rule nodes_run) simp
  ultimately have "runs ns ?s1 (?s2\<lparr>ps_main := M_flush, ps_freed_nodes := ps_freed_nodes ?s2 \<union> set ns, ps_holder := None\<rparr>)"
    by (rule runs_trans)
  then have "runs ns s (?s2\<lparr>ps_main := M_flush, ps_freed_nodes := ps_freed_nodes ?s2 \<union> set ns, ps_holder := None\<rparr>)"
    by (rule runs_main[OF main_step.lock[OF assms]])
  moreover have "?s2\<lparr>ps_main := M_flush, ps_freed_nodes := ps_freed_nodes ?s2 \<union> set ns, ps_holder := None\<rparr> =
      s\<lparr>ps_main := M_flush, ps_freed_dpgs := ps_freed_dpgs s \<union> set ns, ps_freed_nodes := ps_freed_nodes s \<union> set ns\<rparr>"
    using assms(2) by simp
  ultimately show ?thesis by simp
qed

theorem dtop_ip_table_lock_safety_witness:
  "\<exists>s. ip_reachable [8, 4] s \<and> ps_main s = M_lock \<and> \<not> (polling s \<and> freeing s) \<and> ps_freed_nodes s = {}"
proof -
  let ?a = "ip_start\<lparr>ps_poller := P_hook\<rparr>"
  let ?b = "?a\<lparr>ps_poller := P_open [8, 4], ps_hooked := True\<rparr>"
  let ?c = "?b\<lparr>ps_main := M_lock\<rparr>"
  have "runs [8, 4] ?b ?c" by (rule runs_main[OF main_step.cleanup]) (simp_all add: ip_start_def)
  then have "runs [8, 4] ?a ?c" by (rule runs_poller[OF _ poller_step.hook, rotated 2]) (simp_all add: ip_start_def)
  then have "runs [8, 4] ip_start ?c" by (rule runs_poller[OF _ poller_step.mutex, rotated 2]) (simp_all add: ip_start_def)
  then have r: "ip_reachable [8, 4] ?c" by (rule reachable_runs[OF ip_reachable.start])
  have "ps_main ?c = M_lock" by simp
  with dtop_ip_table_lock_safety[OF r] r show ?thesis by (intro exI[of _ ?c]) simp
qed

lemma flush_to_exit: "ps_main s = M_flush \<Longrightarrow> runs ns s (s\<lparr>ps_main := M_exit\<rparr>)"
  by (rule runs_main[OF main_step.leave]) simp_all

lemma poller_releases:
  assumes "polling s" "ps_main s \<noteq> M_exit"
  shows "runs ns s (s\<lparr>ps_poller := P_sleep, ps_holder := None\<rparr>)"
proof -
  have u: "runs ns t (t\<lparr>ps_poller := P_sleep, ps_holder := None\<rparr>)" if "ps_poller t = P_unlock" "ps_main t \<noteq> M_exit" for t
    by (rule runs_poller[OF that(2) poller_step.unlock[OF that(1)]]) simp
  show ?thesis
  proof (cases "ps_poller s")
    case (P_poll r)
    have "runs ns s (s\<lparr>ps_poller := P_unlock\<rparr>)" using P_poll assms(2) by (rule poll_run)
    moreover have "runs ns (s\<lparr>ps_poller := P_unlock\<rparr>) (s\<lparr>ps_poller := P_sleep, ps_holder := None\<rparr>)"
      using u[of "s\<lparr>ps_poller := P_unlock\<rparr>"] assms(2) by simp
    ultimately show ?thesis by (rule runs_trans)
  qed (use assms u in \<open>auto simp: polling_def\<close>)
qed

lemma lock_to_exit:
  assumes "ip_inv ns s" "ps_main s = M_lock"
  shows "\<exists>t. runs ns s t \<and> ps_main t = M_exit \<and> ps_freed_dpgs t = set ns \<and> ps_freed_nodes t = set ns"
proof -
  have free: "\<exists>t. runs ns u t \<and> ps_main t = M_exit \<and> ps_freed_dpgs t = set ns \<and> ps_freed_nodes t = set ns"
    if "ps_main u = M_lock" "ps_holder u = None" "ps_freed_dpgs u = {}" "ps_freed_nodes u = {}" for u
    using runs_trans[OF cleanup_run[OF that(1,2)] flush_to_exit] that(3,4) by fastforce
  have e: "ps_freed_dpgs s = {}" "ps_freed_nodes s = {}" using assms by (auto simp: ip_inv_def)
  show ?thesis
  proof (cases "ps_holder s")
    case None
    then show ?thesis using free assms(2) e by blast
  next
    case (Some h)
    have "h \<noteq> Main" using assms Some by (auto simp: ip_inv_def freeing_def)
    then have "polling s" using assms(1) Some by (cases h) (auto simp: ip_inv_def)
    then have "runs ns s (s\<lparr>ps_poller := P_sleep, ps_holder := None\<rparr>)" using assms(2) by (simp add: poller_releases)
    moreover obtain t where "runs ns (s\<lparr>ps_poller := P_sleep, ps_holder := None\<rparr>) t" "ps_main t = M_exit" "ps_freed_dpgs t = set ns"
      "ps_freed_nodes t = set ns" using free[of "s\<lparr>ps_poller := P_sleep, ps_holder := None\<rparr>"] assms(2) e by auto
    ultimately show ?thesis using runs_trans by blast
  qed
qed

text \<open>
  C11. Progress: from every reachable state the process can still end, wherever the thread is, so the
  lock is never held for good; and when the handler is registered and has not begun, it can end with
  every gatherer and every node freed.
\<close>

theorem dtop_ip_table_exit_progress:
  assumes "ip_reachable ns s"
  shows "\<exists>t. runs ns s t \<and> ps_main t = M_exit \<and>
    (ps_hooked s \<and> ps_main s = M_run \<or> ps_main s = M_lock \<longrightarrow> ps_freed_dpgs t = set ns \<and> ps_freed_nodes t = set ns)"
proof -
  have inv: "ip_inv ns s" using assms by (rule ip_reachable_inv)
  have flush: "\<exists>t. runs ns s t \<and> ps_main t = M_exit" if "runs ns s u" "ps_main u = M_flush" for u
    using runs_trans[OF that(1) flush_to_exit[OF that(2)]] by fastforce
  have nodes: "\<exists>t. runs ns s t \<and> ps_main t = M_exit" if "runs ns s u" "ps_main u = M_nodes r" for u r
    using flush[OF runs_trans[OF that(1) nodes_run[OF that(2)]]] by simp
  show ?thesis
  proof (cases "ps_main s")
    case M_run
    show ?thesis
    proof (cases "ps_hooked s")
      case True
      let ?u = "s\<lparr>ps_main := M_lock\<rparr>"
      have st: "main_step ns s ?u" by (rule main_step.cleanup[OF M_run True])
      then obtain t where "runs ns ?u t" "ps_main t = M_exit" "ps_freed_dpgs t = set ns" "ps_freed_nodes t = set ns"
        using lock_to_exit[OF main_step_inv[OF st inv]] by auto
      then show ?thesis using runs_main[OF st] by blast
    next
      case False
      have "runs ns s (s\<lparr>ps_main := M_flush\<rparr>)" by (rule runs_main[OF main_step.no_cleanup[OF M_run False]]) simp
      then show ?thesis using flush False M_run by fastforce
    qed
  next
    case M_lock
    then show ?thesis using lock_to_exit[OF inv] by blast
  next
    case (M_dpgs r)
    then show ?thesis using nodes[OF dpgs_run[OF M_dpgs], of ns] by auto
  next
    case (M_nodes r)
    then show ?thesis using nodes[OF runs_refl] by auto
  next
    case M_unlock
    have "runs ns s (s\<lparr>ps_main := M_flush, ps_holder := None\<rparr>)" by (rule runs_main[OF main_step.unlock[OF M_unlock]]) simp
    then show ?thesis using flush M_unlock by fastforce
  next
    case M_flush
    then show ?thesis using flush[OF runs_refl] by auto
  next
    case M_exit
    then show ?thesis using runs_refl by fastforce
  qed
qed

theorem dtop_ip_table_exit_progress_witness:
  "\<exists>t. runs [8, 4] ip_start t \<and> ps_main t = M_exit"
  using dtop_ip_table_exit_progress[OF ip_reachable.start] by blast

text \<open>
  C33. The handler frees the list but leaves its pointer: a thread that is not stopped takes the lock
  after the handler has let go of it, and polls gatherers that are freed. Such a state can be
  reached whatever the list.
\<close>

theorem dtop_ip_table_use_after_free:
  "\<exists>s. ip_reachable (n # ns) s \<and> ps_poller s = P_poll (n # ns) \<and> ps_holder s = Some Poller \<and>
     n \<in> ps_freed_nodes s \<and> n \<in> ps_freed_dpgs s"
proof -
  let ?ns = "n # ns"
  let ?a = "ip_start\<lparr>ps_poller := P_hook\<rparr>"
  let ?b = "?a\<lparr>ps_poller := P_open ?ns, ps_hooked := True\<rparr>"
  let ?c = "?b\<lparr>ps_poller := P_read\<rparr>"
  let ?d = "?c\<lparr>ps_poller := P_lock ?ns\<rparr>"
  let ?e = "?d\<lparr>ps_main := M_lock\<rparr>"
  let ?f = "?e\<lparr>ps_main := M_flush, ps_freed_dpgs := ps_freed_dpgs ?e \<union> set ?ns, ps_freed_nodes := ps_freed_nodes ?e \<union> set ?ns\<rparr>"
  let ?g = "?f\<lparr>ps_poller := P_poll ?ns, ps_holder := Some Poller\<rparr>"
  have s: "poller_step ?ns ip_start ?a" "poller_step ?ns ?a ?b" "poller_step ?ns ?c ?d" "main_step ?ns ?d ?e" "poller_step ?ns ?f ?g"
    by (rule poller_step.mutex, simp add: ip_start_def) (rule poller_step.hook, simp, rule poller_step.read, simp,
      rule main_step.cleanup, simp add: ip_start_def, simp, rule poller_step.lock_due, simp_all add: ip_start_def)
  have m: "ps_main ip_start \<noteq> M_exit" "ps_main ?a \<noteq> M_exit" "ps_main ?b \<noteq> M_exit" "ps_main ?c \<noteq> M_exit" "ps_main ?f \<noteq> M_exit"
    by (simp_all add: ip_start_def)
  have "runs ?ns ip_start ?b" by (rule runs_poller[OF m(1) s(1) runs_poller[OF m(2) s(2) runs_refl]])
  also have "runs ?ns ?b ?c" by (rule open_run) (simp_all add: ip_start_def)
  finally (runs_trans) have "runs ?ns ip_start ?c" .
  also have "runs ?ns ?c ?e" by (rule runs_poller[OF m(4) s(3) runs_main[OF s(4) runs_refl]])
  finally (runs_trans) have "runs ?ns ip_start ?e" .
  also have "runs ?ns ?e ?f" by (rule cleanup_run) (simp_all add: ip_start_def)
  finally (runs_trans) have "runs ?ns ip_start ?f" .
  also have "runs ?ns ?f ?g" by (rule runs_poller[OF m(5) s(5) runs_refl])
  finally (runs_trans) have "runs ?ns ip_start ?g" .
  then have "ip_reachable ?ns ?g" by (rule reachable_runs[OF ip_reachable.start])
  then show ?thesis by (intro exI[of _ ?g]) simp
qed

end
