(* ===== verification/Dt_Main.thy ===== *)
theory Dt_Main
  imports Dt_Files
begin

text \<open>
  The command-line options and the polling session of datatop (datatop/src/datatop_opt.c, datatop.c).
  \<open>getopt\<close> is its sequence of answers, an option with its argument; what happens around a round of
  the polling loop (clock, terminal, files) is a record. \<open>None\<close> is undefined behaviour.
\<close>

section \<open>Options\<close>

abbreviation (input) PARSE_SUCCESS :: int where "PARSE_SUCCESS \<equiv> 0"
abbreviation (input) PARSE_FAILURE :: int where "PARSE_FAILURE \<equiv> - 1"
abbreviation (input) PARSE_FORCE_EXIT :: int where "PARSE_FORCE_EXIT \<equiv> - 2"
abbreviation (input) POLL_NOT_SPECIFIED :: int where "POLL_NOT_SPECIFIED \<equiv> - 1"
abbreviation (input) POLL_TIME_DEFAULT :: int where "POLL_TIME_DEFAULT \<equiv> 30"
abbreviation (input) DEFAULT_POLL_INTERVAL :: int where "DEFAULT_POLL_INTERVAL \<equiv> 1000000"
abbreviation (input) DEFAULT_NICE :: int where "DEFAULT_NICE \<equiv> 19"
abbreviation (input) OUT_DIR_LEN_MAX :: nat where "OUT_DIR_LEN_MAX \<equiv> 150"

record cli_opts =
  print_cl :: bool
  poll_per :: int
  poll_time :: int
  cli_help :: bool
  file_name :: "string option"
  snapshot_file :: "string option"
  iptables_rules_routes :: bool
  out_dir :: string
  print_csv :: bool
  poll_time_selected :: bool
  priority :: int

definition dtop_load_default_options :: cli_opts where
  "dtop_load_default_options =
    \<lparr>print_cl = False, poll_per = 0, poll_time = 0, cli_help = False, file_name = None, snapshot_file = None,
     iptables_rules_routes = False, out_dir = [], print_csv = False, poll_time_selected = False, priority = DEFAULT_NICE\<rparr>"

definition tabs :: "nat \<Rightarrow> string" where
  "tabs n = replicate n TAB"

definition dtop_print_help_opts :: "string list" where
  "dtop_print_help_opts = map (\<lambda>s. s @ [NL])
    [''The following datatop commands are:'',
     tabs 1 @ ''-p'' @ tabs 3 @ ''Print output to terminal'',
     tabs 1 @ ''-i , u-seconds'' @ tabs 2 @ ''Specify polling period '',
     tabs 1 @ ''-t , seconds'' @ tabs 2 @ ''Specify polling duration'',
     tabs 1 @ ''-w , file name (.csv)'' @ tabs 1 @ ''Write output to a file'',
     tabs 1 @ ''-s , file name'' @ tabs 2 @ ''Print system snapshot to a file'',
     tabs 1 @ ''-n , nice value'' @ tabs 2 @ ''Set niceness (default 19)'',
     tabs 1 @ ''-r , '' @ tabs 3 @ ''Capture IPTables, Rules and Routes'',
     tabs 1 @ ''-o , out directory for -w options'' @ tabs 2 @ ''Out dir where the set of files are saved'',
     tabs 1 @ ''-h'' @ tabs 3 @ ''Get help'']"

definition dtop_print_interactive_opts :: "string list" where
  "dtop_print_interactive_opts = map (\<lambda>s. s @ [NL])
    [''The following interactive commands are:'',
     tabs 1 @ ''q | quit'' @ tabs 1 @ ''Terminate program at any time'',
     tabs 1 @ ''i'' @ tabs 2 @ ''Print dp differences, reset initial dp values'',
     tabs 1 @ ''l'' @ tabs 2 @ ''Print dp differences since last reset'',
     []]"

text \<open>
  One option: a result code where the parser stops, the options and what it prints. \<open>ts\<close> is the time
  stamp. The copies into \<open>out_dir\<close> need room for both texts, the slash and the terminator, one more
  than the test before them leaves.
\<close>

definition dtop_parse_opt :: "world \<Rightarrow> string \<Rightarrow> char \<times> string \<Rightarrow> cli_opts \<Rightarrow> (int option \<times> cli_opts \<times> string list) option" where
  "dtop_parse_opt w ts a o1 = (case a of (option, optarg) \<Rightarrow>
    if option = CHR ''p'' then Some (None, o1\<lparr>print_cl := True\<rparr>, [])
    else if option = CHR ''h'' then Some (Some PARSE_FORCE_EXIT, o1, dtop_print_help_opts)
    else if option = CHR ''n'' then
      (let p = sint (word_of_int (strtol 10 optarg) :: u32); o2 = o1\<lparr>priority := p\<rparr> in
       if p > 19 \<or> p < - 20
       then Some (Some PARSE_FAILURE, o2, [''Argument for -n is not valid. '', ''Must be between -20 and 19.'' @ [NL]])
       else Some (None, o2, []))
    else if option = CHR ''i'' then
      (let o2 = o1\<lparr>poll_per := strtol 10 optarg\<rparr> in
       if poll_per o2 < 200000
       then Some (Some PARSE_FAILURE, o2, [''Argument for -i is not valid. '', ''Must be atleast 200000'' @ [NL]])
       else Some (None, o2, []))
    else if option = CHR ''t'' then
      (let o2 = o1\<lparr>poll_time := strtol 10 optarg, poll_time_selected := True\<rparr> in
       if poll_time o2 \<le> 0
       then Some (Some PARSE_FAILURE, o2, [''Argument for -t is not valid. '', ''Must be positive integer.'' @ [NL]])
       else Some (None, o2, []))
    else if option = CHR ''w'' then
      (case dtop_check_writefile_access w optarg of (rc, msg) \<Rightarrow>
         if rc = VALID then Some (None, o1\<lparr>file_name := Some optarg, print_csv := True\<rparr>, msg)
         else Some (Some PARSE_FAILURE, o1, msg))
    else if option = CHR ''o'' then
      (case dtop_check_out_dir_presence w optarg of (rc, msg) \<Rightarrow>
         if rc \<noteq> VALID then Some (Some PARSE_FAILURE, o1, msg)
         else if strlen optarg + strlen ts > OUT_DIR_LEN_MAX then Some (Some PARSE_FAILURE, o1, msg @ [''Out dir too long!''])
         else if strlen optarg + 1 + strlen ts \<ge> OUT_DIR_LEN_MAX then None
         else (let o2 = o1\<lparr>out_dir := c_str optarg @ ''/'' @ c_str ts\<rparr> in
               case dtop_create_dir w (out_dir o2) of (rc, dir_msg) \<Rightarrow>
                 if rc \<noteq> INVALID then Some (Some PARSE_FAILURE, o2, msg @ dir_msg) else Some (None, o2, msg @ dir_msg)))
    else if option = CHR ''s'' then
      (case dtop_check_writefile_access w optarg of (rc, msg) \<Rightarrow>
         if rc = VALID then Some (None, o1\<lparr>snapshot_file := Some optarg\<rparr>, msg)
         else Some (Some PARSE_FAILURE, o1, msg))
    else if option = CHR ''r'' then Some (None, o1\<lparr>iptables_rules_routes := True\<rparr>, [])
    else Some (Some PARSE_FAILURE, o1, []))"

fun parse_opts_loop :: "world \<Rightarrow> string \<Rightarrow> (char \<times> string) list \<Rightarrow> cli_opts \<Rightarrow> string list \<Rightarrow> (int option \<times> cli_opts \<times> string list) option" where
  "parse_opts_loop w ts [] clopts so = Some (None, clopts, so)"
| "parse_opts_loop w ts (a # as) clopts so = do {
     (stop, clopts, msg) \<leftarrow> dtop_parse_opt w ts a clopts;
     (if stop \<noteq> None then Some (stop, clopts, so @ msg) else parse_opts_loop w ts as clopts (so @ msg)) }"

text \<open>The status, the options and what is printed; a failure ends with a hint.\<close>

definition dtop_parse_cli_opts :: "world \<Rightarrow> string \<Rightarrow> (char \<times> string) list \<Rightarrow> cli_opts \<Rightarrow> (int \<times> cli_opts \<times> string list) option" where
  "dtop_parse_cli_opts w ts as clopts = do {
     (stop, clopts, so) \<leftarrow> parse_opts_loop w ts as clopts [];
     Some (case stop of
       Some rc \<Rightarrow> (rc, clopts, if rc = PARSE_FAILURE then so @ [''See datatop -h for help'' @ [NL]] else so)
     | None \<Rightarrow>
        (let clopts = (if poll_time clopts = 0
              then clopts\<lparr>poll_time := if print_csv clopts then POLL_NOT_SPECIFIED else POLL_TIME_DEFAULT\<rparr> else clopts);
             clopts = (if poll_per clopts = 0 then clopts\<lparr>poll_per := DEFAULT_POLL_INTERVAL\<rparr> else clopts)
         in (PARSE_SUCCESS, clopts, so))) }"

section \<open>The session\<close>

fun dtop_print_terminal :: "(string list \<Rightarrow> string \<Rightarrow> bool) \<Rightarrow> 'k gatherer dtop_linked_list \<Rightarrow> string list \<Rightarrow> string list option" where
  "dtop_print_terminal W Null out = Some out"
| "dtop_print_terminal W (Node a g next_ptr) out = do { out \<leftarrow> dtop_print_dpg W g out; dtop_print_terminal W next_ptr out }"

fun gatherers_names_csv :: "(string list \<Rightarrow> string \<Rightarrow> bool) \<Rightarrow> 'k gatherer dtop_linked_list \<Rightarrow> string list \<Rightarrow> (int \<times> string list) option" where
  "gatherers_names_csv W Null out = Some (FILE_SUCCESS, out)"
| "gatherers_names_csv W (Node a g next_ptr) out = do {
     (rc, out) \<leftarrow> dtop_print_dpg_names_csv W g out;
     (if rc = FILE_ERROR then Some (FILE_ERROR, out) else gatherers_names_csv W next_ptr out) }"

definition csv_header :: "(string list \<Rightarrow> string \<Rightarrow> bool) \<Rightarrow> 'k gatherer dtop_linked_list \<Rightarrow> (int \<times> string list) option" where
  "csv_header W list =
    (case fprints W [] [[QUOTE] @ ''Time'' @ [QUOTE] @ '',''] of (rc, out) \<Rightarrow>
       if rc = FILE_ERROR then Some (FILE_ERROR, out)
       else do {
         (rc, out) \<leftarrow> gatherers_names_csv W list out;
         Some (if rc = FILE_ERROR then (FILE_ERROR, out) else fprints W out [[NL]]) })"

text \<open>
  Around a round: the clock before and after \<open>select\<close> and when the polls start, in microseconds;
  whether \<open>select\<close> finds input; the word typed, if any; the time stamp; what the files hold.
\<close>

record round =
  rd_before :: int
  rd_ready :: bool
  rd_after :: int
  rd_word :: "string option"
  rd_now :: int
  rd_stamp :: "int \<times> nat"
  rd_world :: world

text \<open>
  The interactive commands. The array for the word has four bytes, so that a word of four characters
  or more, such as \<open>quit\<close>, is written past its end; without a word it is compared uninitialised.
\<close>

definition dtop_interactive :: "string option \<Rightarrow> 'k gatherer dtop_linked_list \<Rightarrow> string list \<Rightarrow>
    (bool \<times> 'k gatherer dtop_linked_list \<times> string list) option" where
  "dtop_interactive word list so = do {
     s \<leftarrow> word;
     (if length s \<ge> 4 then None
      else if s = ''quit'' \<or> s = ''q'' then Some (True, list, so)
      else do {
        (list, so) \<leftarrow> (if s = ''i'' then do {
             d \<leftarrow> dtop_print_snapshot_diff list;
             list \<leftarrow> dtop_reset_dp_initial_values list;
             Some (list, so @ d) } else Some (list, so));
        so \<leftarrow> (if s = ''l'' then do { d \<leftarrow> dtop_print_snapshot_diff list; Some (so @ d) } else Some so);
        Some (False, list, so) }) }"

text \<open>
  \<open>select\<close> fails, which counts as input, when the timeout is negative: when the time since the last
  \<open>select\<close> is more than the polling period.
\<close>

definition has_input :: "cli_opts \<Rightarrow> int \<Rightarrow> round \<Rightarrow> bool" where
  "has_input clopts itime r \<longleftrightarrow> poll_per clopts - (rd_before r - itime) < 0 \<or> rd_ready r"

text \<open>
  The loop over the rounds given; the code is \<open>None\<close> where they are used up and the loop goes on.
\<close>

fun dtop_poll_loop :: "(string list \<Rightarrow> string \<Rightarrow> bool) \<Rightarrow> cli_opts \<Rightarrow> int \<Rightarrow> round list \<Rightarrow> int \<Rightarrow> int \<Rightarrow>
    dpg dtop_linked_list \<Rightarrow> string list \<Rightarrow> string list \<Rightarrow> (int option \<times> dpg dtop_linked_list \<times> string list \<times> string list) option" where
  "dtop_poll_loop W clopts endtime rs curtime itime list out so =
    (if \<not> (curtime < endtime \<or> poll_time clopts = POLL_NOT_SPECIFIED)
     then do { d \<leftarrow> dtop_print_snapshot_diff list; Some (Some FILE_SUCCESS, list, out, so @ d) }
     else case rs of [] \<Rightarrow> Some (None, list, out, so)
     | r # rs \<Rightarrow> do {
         (quit, list, so) \<leftarrow> (if has_input clopts itime r then dtop_interactive (rd_word r) list so else Some (False, list, so));
         (if quit then Some (Some FILE_SUCCESS, list, out, so)
          else do {
            list \<leftarrow> dtop_poll (poll_dpg (rd_world r)) list;
            (case dtop_print_time_at_poll W (fst (rd_stamp r)) (snd (rd_stamp r)) out of (rc, out) \<Rightarrow>
               if rc = FILE_ERROR then Some (Some FILE_ERROR, list, out, so)
               else do {
                 (rc, out) \<leftarrow> dtop_write_pollingdata_csv W list out;
                 (if rc = FILE_ERROR then Some (Some FILE_ERROR, list, out, so)
                  else dtop_poll_loop W clopts endtime rs (rd_now r) (rd_after r) list out so) }) }) })"

declare dtop_poll_loop.simps [simp del]

text \<open>\<open>sec\<close>, \<open>usec\<close> are the time at the start; the end time is computed in \<open>time_t\<close>.\<close>

definition dtop_poll_periodically :: "(string list \<Rightarrow> string \<Rightarrow> bool) \<Rightarrow> cli_opts \<Rightarrow> int \<times> int \<Rightarrow> int \<Rightarrow> round list \<Rightarrow>
    dpg dtop_linked_list \<Rightarrow> (int option \<times> dpg dtop_linked_list \<times> string list \<times> string list) option" where
  "dtop_poll_periodically W clopts start itime rs list =
    (let endtime = fst start * 1000000 + poll_time clopts * 1000000 in
     if \<not> (- (2 ^ 63) \<le> poll_time clopts * 1000000 \<and> poll_time clopts * 1000000 < 2 ^ 63 \<and> endtime < 2 ^ 63) then None
     else do {
       (rc, out) \<leftarrow> csv_header W list;
       (if rc = FILE_ERROR then Some (Some FILE_ERROR, list, out, [])
        else dtop_poll_loop W clopts endtime rs (fst start * 1000000 + snd start) itime list out dtop_print_interactive_opts) })"

end
