(* ===== verification/Dt_Snap.thy ===== *)
theory Dt_Snap
  imports Dt_Files
begin

text \<open>
  The system snapshot of datatop (datatop_sys_snap.c): the state is the content of the file. \<open>A\<close> says
  whether a text can be appended to it, \<open>X\<close> what a child process running a command leaves behind: what
  it appends to the file and the status \<open>waitpid\<close> gives, or that \<open>fork\<close> failed. \<open>version\<close> is the
  build's version string.
\<close>

datatype child = Fork_failed | Ran string int

definition dtop_system_snapshot_helper_print :: "(string \<Rightarrow> string \<Rightarrow> bool) \<Rightarrow> string \<Rightarrow> string \<Rightarrow> int \<times> string" where
  "dtop_system_snapshot_helper_print A str f = (if A f str then (FILE_SUCCESS, f @ str) else (FILE_ERROR, f))"

text \<open>The results of printing are not looked at: the file after printing one text after the other.\<close>

definition print_all :: "(string \<Rightarrow> string \<Rightarrow> bool) \<Rightarrow> string list \<Rightarrow> string \<Rightarrow> string" where
  "print_all A ss f = fold (\<lambda>str f. snd (dtop_system_snapshot_helper_print A str f)) ss f"

abbreviation (input) dashes :: string where
  "dashes \<equiv> replicate 62 (CHR ''-'')"

abbreviation (input) equals :: string where
  "equals \<equiv> replicate 62 (CHR ''='')"

definition dtop_run_and_log :: "(string \<Rightarrow> string \<Rightarrow> bool) \<Rightarrow> (string list \<Rightarrow> string \<Rightarrow> child) \<Rightarrow> string list \<Rightarrow> string \<Rightarrow> int \<times> string" where
  "dtop_run_and_log A X args f =
    (let f = print_all A [[NL] @ dashes @ [NL] @ ''Command: ''] f;
         f = print_all A (concat (map (\<lambda>a. [a, '' '']) args)) f;
         f = print_all A [[NL]] f
     in case X args f of
       Fork_failed \<Rightarrow> (FILE_ERROR, f)
     | Ran out return_status \<Rightarrow> (if return_status \<noteq> 0 then FILE_ERROR else FILE_SUCCESS, f @ out))"

definition snapshot_commands :: "string list list" where
  "snapshot_commands =
    [[''ip'', ''addr''],
     [''ip'', ''route''],
     [''ip'', ''route'', ''show'', ''table'', ''all''],
     [''ip'', ''rule'', ''show''],
     [''iptables'', ''-L'', ''-n'', ''-v''],
     [''iptables'', ''-t'', ''nat'', ''-L'', ''-n'', ''-v''],
     [''iptables'', ''-t'', ''mangle'', ''-L'', ''-n'', ''-v''],
     [''iptables'', ''-t'', ''raw'', ''-L'', ''-n'', ''-v''],
     [''ip'', ''-6'', ''addr''],
     [''ip'', ''-6'', ''route''],
     [''ip'', ''-6'', ''route'', ''show'', ''table'', ''all''],
     [''ip'', ''-6'', ''rule'', ''show''],
     [''ip6tables'', ''-L'', ''-n'', ''-v''],
     [''ip6tables'', ''-t'', ''nat'', ''-L'', ''-n'', ''-v''],
     [''ip6tables'', ''-t'', ''mangle'', ''-L'', ''-n'', ''-v''],
     [''ip6tables'', ''-t'', ''raw'', ''-L'', ''-n'', ''-v''],
     [''cat'', ''/sys/class/net/rmnet_mhi0/queues/rx-0/rps_cpus''],
     [''/data/busybox/busybox'', ''ifconfig''],
     [''netcfg''],
     [''cat'', ''/proc/net/softnet_stat''],
     [''ip'', ''xfrm'', ''state'', ''show''],
     [''ip'', ''xfrm'', ''policy'', ''show''],
     [''cat'', ''/proc/net/xfrm_stat'']]"

text \<open>Neither the results of printing nor those of the commands reach the result.\<close>

definition dtop_print_system_snapshot ::
  "string \<Rightarrow> (string \<Rightarrow> string \<Rightarrow> bool) \<Rightarrow> (string list \<Rightarrow> string \<Rightarrow> child) \<Rightarrow> string \<Rightarrow> int \<times> string" where
  "dtop_print_system_snapshot version A X f =
    (let f = print_all A
          [equals @ [NL] @ ''    System Data Snapshot - Captured with Data Top             '' @ [NL] @ ''    Version '',
           version, [NL] @ equals @ [NL] @ [NL]] f;
         f = fold (\<lambda>args f. snd (dtop_run_and_log A X args f)) snapshot_commands f
     in (FILE_SUCCESS, f))"

section \<open>The log\<close>

lemma print_all_ok: "\<forall>f str. A f str \<Longrightarrow> print_all A ss f = f @ concat ss"
  by (induction ss arbitrary: f) (simp_all add: print_all_def dtop_system_snapshot_helper_print_def)

definition heading :: "string list \<Rightarrow> string" where
  "heading args = [NL] @ dashes @ [NL] @ ''Command: '' @ concat (map (\<lambda>a. a @ '' '') args) @ [NL]"

text \<open>What a command appends; a failed \<open>fork\<close> appends nothing.\<close>

definition left_by :: "child \<Rightarrow> string" where
  "left_by c = (case c of Fork_failed \<Rightarrow> [] | Ran out st \<Rightarrow> out)"

lemma run_and_log_ok:
  assumes "\<forall>f str. A f str"
  shows "snd (dtop_run_and_log A X args f) = f @ heading args @ left_by (X args (f @ heading args))"
proof -
  have c: "concat (concat (map (\<lambda>a. [a, '' '']) args)) = concat (map (\<lambda>a. a @ '' '') args)" by (induction args) auto
  show ?thesis
    by (simp add: dtop_run_and_log_def Let_def print_all_ok[OF assms] c heading_def left_by_def split: child.splits)
qed

text \<open>The sections of the snapshot: each command's heading, and below it what the command printed.\<close>

fun log_sections :: "(string list \<Rightarrow> string \<Rightarrow> child) \<Rightarrow> string list list \<Rightarrow> string \<Rightarrow> string list" where
  "log_sections X [] f = []"
| "log_sections X (args # cs) f =
    (let s = heading args @ left_by (X args (f @ heading args)) in s # log_sections X cs (f @ s))"

lemma fold_run_and_log:
  "\<forall>f str. A f str \<Longrightarrow> fold (\<lambda>args f. snd (dtop_run_and_log A X args f)) cs f = f @ concat (log_sections X cs f)"
  by (induction cs arbitrary: f) (simp_all add: run_and_log_ok Let_def)

definition title :: "string \<Rightarrow> string" where
  "title version = equals @ [NL] @ ''    System Data Snapshot - Captured with Data Top             '' @ [NL] @ ''    Version '' @
     version @ [NL] @ equals @ [NL] @ [NL]"

text \<open>
  C31. The snapshot, when the file can be written: a title, then for each command in turn its heading and
  directly below it what the command printed. It reports success, and does so for every file and
  whatever fails: an unwritable file, a failed \<open>fork\<close>, a command's exit status.
\<close>

theorem dtop_snapshot_sections:
  "snd (dtop_print_system_snapshot version (\<lambda>_ _. True) X f) =
     f @ title version @ concat (log_sections X snapshot_commands (f @ title version)) \<and>
   fst (dtop_print_system_snapshot version A X f) = FILE_SUCCESS \<and>
   snd (dtop_print_system_snapshot version (\<lambda>_ _. False) (\<lambda>_ _. Fork_failed) f) = f"
proof -
  have none: "print_all (\<lambda>_ _. False) ss f = f" for ss f
    by (induction ss) (simp_all add: print_all_def dtop_system_snapshot_helper_print_def)
  have "snd (dtop_run_and_log (\<lambda>_ _. False) (\<lambda>_ _. Fork_failed) args f) = f" for args f
    by (simp add: dtop_run_and_log_def none)
  then have "fold (\<lambda>args f. snd (dtop_run_and_log (\<lambda>_ _. False) (\<lambda>_ _. Fork_failed) args f)) cs f = f" for cs
    by (induction cs arbitrary: f) simp_all
  then show ?thesis
    by (simp add: dtop_print_system_snapshot_def Let_def fold_run_and_log print_all_ok title_def none)
qed

end
