(* ===== verification/Dt_Program.thy ===== *)
theory Dt_Program
  imports Dt_Main Dt_Dirs Dt_Snap Dt_Iptable
begin

text \<open>
  The program datatop (datatop.c): registering all gatherers, and \<open>main\<close> from the options to the exit
  status. What surrounds a run is a record: the options, the directories, the files at each poll, the
  rounds of a session, which writes succeed.
\<close>

record top =
  t_version :: string
  t_argv :: "(char \<times> string) list"
  t_stamp :: string
  t_nice :: int
  t_dirs :: dirs
  t_cwd :: string
  t_depth :: nat
  t_ip_nodes :: "nat \<Rightarrow> int"
  t_thread :: bool
  t_terminal :: "string list \<Rightarrow> string \<Rightarrow> bool"
  t_shown :: world
  t_csv :: "string list \<Rightarrow> string \<Rightarrow> bool"
  t_started :: "int \<times> int"
  t_itime :: int
  t_rounds :: "round list"
  t_append :: "string \<Rightarrow> string \<Rightarrow> bool"
  t_child :: "string list \<Rightarrow> string \<Rightarrow> child"
  t_first :: world
  t_second :: world

text \<open>
  A run so far: the gatherers, once all are registered, what was printed to the terminal, the table,
  the snapshot, the gatherers of the capture, and what was freed at the end: gatherers, then nodes.
\<close>

record run =
  u_cwd :: string
  u_list :: "dpg dtop_linked_list"
  u_out :: "string list"
  u_table :: "string list option"
  u_snapshot :: "string option"
  u_ip :: "ip_dpg dtop_linked_list option"
  u_freed_dpgs :: "dpg list"
  u_freed_nodes :: "int list"

text \<open>The end of a run is its exit status; a session whose rounds are used up is still polling.\<close>

datatype outcome = Exit int | Polling | Continue

definition say :: "string list \<Rightarrow> run \<Rightarrow> run" where
  "say ss u = u\<lparr>u_out := u_out u @ ss\<rparr>"

section \<open>Gatherers\<close>

definition register_search :: "(world \<Rightarrow> (int \<times> dpg option) option) \<Rightarrow> dirs \<Rightarrow> dstate \<Rightarrow> dstate call option" where
  "register_search search E s = do { (_, g) \<leftarrow> search (e_world E (s_cwd s)); Some (dtop_register E g s) }"

definition register_dual_line :: "string \<Rightarrow> dirs \<Rightarrow> dstate \<Rightarrow> dstate call option" where
  "register_dual_line name E s = do { g \<leftarrow> dtop_dual_line_init (e_world E (s_cwd s)) name; Some (dtop_register E g s) }"

text \<open>The calls of \<open>main\<close>, in their order.\<close>

definition init_gatherers :: "nat \<Rightarrow> dirs \<Rightarrow> dstate \<Rightarrow> dstate call option" where
  "init_gatherers depth E s = do {
     s \<leftarrow> register_dual_line ''/proc/net/netstat'' E s;
     s \<leftarrow> go_on (register_dual_line ''/proc/net/snmp'' E) s;
     s \<leftarrow> go_on (register_search (\<lambda>w. dtop_single_line_init w ''/proc/net/snmp6'') E) s;
     s \<leftarrow> go_on (dtop_gen_init depth E ''/proc/sys/net/'') s;
     s \<leftarrow> go_on (dtop_gen_init depth E ''/sys/module/rmnet/parameters/'') s;
     s \<leftarrow> go_on (dtop_gen_init depth E ''/sys/module/rmnet_perf/parameters/'') s;
     s \<leftarrow> go_on (dtop_gen_init depth E ''/sys/module/rmnet_shs/parameters/'') s;
     s \<leftarrow> go_on (dtop_gen_init depth E ''/sys/module/rmnet_data/parameters/'') s;
     s \<leftarrow> go_on (dtop_gen_init depth E ''/sys/class/net/rmnet_mhi0/statistics/'') s;
     s \<leftarrow> go_on (dtop_gen_init depth E ''/sys/class/net/usb_rmnet0/statistics/'') s;
     s \<leftarrow> go_on (dtop_gen_init depth E ''/sys/class/net/rmnet_ipa0/statistics/'') s;
     s \<leftarrow> go_on (register_search dtop_meminfo_init E) s;
     s \<leftarrow> go_on (register_search dtop_dev_init E) s;
     s \<leftarrow> go_on (register_search dtop_stat_init E) s;
     s \<leftarrow> go_on (dtop_cpu_stats_init E) s;
     s \<leftarrow> go_on (dtop_gen_init depth E ''/sys/kernel/debug/clk/bimc_clk/'') s;
     s \<leftarrow> go_on (dtop_gen_init depth E ''/sys/kernel/debug/clk/snoc_clk/'') s;
     go_on (dtop_gen_init depth E ''/sys/kernel/debug/clk/pnoc_clk/'') s }"

section \<open>The end of a run\<close>

text \<open>Each gatherer has a deconstructor; the gatherers it is called on, in their order.\<close>

fun deconstruct_dpgs :: "'a dtop_linked_list \<Rightarrow> 'a list" where
  "deconstruct_dpgs Null = []"
| "deconstruct_dpgs (Node a g next_ptr) = g # deconstruct_dpgs next_ptr"

definition release :: "run \<Rightarrow> run" where
  "release u = u\<lparr>u_freed_dpgs := u_freed_dpgs u @ deconstruct_dpgs (u_list u),
     u_freed_nodes := u_freed_nodes u @ dtop_rem_linked_list (u_list u)\<rparr>"

section \<open>The parts of main\<close>

definition dtop_set_niceness :: "top \<Rightarrow> int \<Rightarrow> run \<Rightarrow> run" where
  "dtop_set_niceness T niceness u =
    say [''Requesting nice '' @ show_int niceness @ [NL], ''Running with nice '' @ show_int (t_nice T) @ ''.'' @ [NL]] u"

text \<open>Registering the gatherers of the capture exits when there is no memory for a node.\<close>

definition main_capture :: "top \<Rightarrow> cli_opts \<Rightarrow> run \<Rightarrow> (outcome \<times> run) option" where
  "main_capture T opts u =
    (if \<not> iptables_rules_routes opts then Some (Continue, u)
     else do {
       let u = say [''Datatop IP Tables, rules, routes'' @ [NL]] u;
       r \<leftarrow> dtop_ip_table_init (out_dir opts) (t_ip_nodes T);
       Some (case r of
          Exits status \<Rightarrow> (Exit status, u)
        | Returns list \<Rightarrow>
            (let u = say [''Poll for IP Tables, Rules & Routes every 5 seconds'' @ [NL]] u;
                 u = (if t_thread T then u else say [''Unable to create capture_ip_tables_rules_routes thread'' @ [NL]] u)
             in (Continue, u\<lparr>u_ip := Some list\<rparr>))) })"

definition main_print :: "top \<Rightarrow> cli_opts \<Rightarrow> run \<Rightarrow> run option" where
  "main_print T opts u =
    (if \<not> print_cl opts then Some u
     else do {
       list \<leftarrow> dtop_poll (poll_dpg (t_shown T)) (u_list u);
       so \<leftarrow> dtop_print_terminal (t_terminal T) list (u_out u);
       Some (u\<lparr>u_list := list, u_out := so\<rparr>) })"

definition main_table :: "top \<Rightarrow> cli_opts \<Rightarrow> run \<Rightarrow> (outcome \<times> run) option" where
  "main_table T opts u =
    (if \<not> print_csv opts then Some (Continue, u)
     else do {
       fw \<leftarrow> file_name opts;
       (if dtop_open_writing_file (e_world (t_dirs T) (u_cwd u)) fw = VALID
        then do {
          let u = say [[NL] @ ''Data being polled for '' @ show_int (poll_time opts) @ '' seconds.'' @ [NL]] u;
          (rc, list, out, so) \<leftarrow> dtop_poll_periodically (t_csv T) opts (t_started T) (t_itime T) (t_rounds T) (u_list u);
          let u = say so (u\<lparr>u_list := list, u_table := Some out\<rparr>);
          Some (case rc of None \<Rightarrow> (Polling, u)
            | Some rc \<Rightarrow> if rc = FILE_ERROR then (Exit EXIT_FAILURE, release u) else (Continue, u)) }
        else Some (Exit EXIT_FAILURE, say [''See datatop -h for help'' @ [NL], ''File Can Not Be Opened'' @ [NL]] u)) })"

definition main_snapshot :: "top \<Rightarrow> cli_opts \<Rightarrow> run \<Rightarrow> outcome \<times> run" where
  "main_snapshot T opts u =
    (case snapshot_file opts of None \<Rightarrow> (Continue, u)
     | Some fw \<Rightarrow>
         (case dtop_print_system_snapshot (t_version T) (t_append T) (t_child T) [] of (rc, f) \<Rightarrow>
            let u = u\<lparr>u_snapshot := Some f\<rparr>
            in if rc = FILE_ERROR then (Exit EXIT_FAILURE, release u) else (Continue, u)))"

definition main_differences :: "top \<Rightarrow> cli_opts \<Rightarrow> run \<Rightarrow> run option" where
  "main_differences T opts u =
    (if \<not> print_cl opts \<and> \<not> print_csv opts \<and> (snapshot_file opts = None \<or> poll_time_selected opts)
     then do {
       let u = say [[NL] @ ''Data will now be polled for '' @ show_int (poll_time opts) @ '' seconds.'' @ [NL]] u;
       list \<leftarrow> dtop_poll (poll_dpg (t_first T)) (u_list u);
       list \<leftarrow> dtop_poll (poll_dpg (t_second T)) list;
       so \<leftarrow> dtop_print_snapshot_diff list;
       Some (say so (u\<lparr>u_list := list\<rparr>)) }
     else Some u)"

text \<open>From the accepted options on; registering the gatherers exits in the same way.\<close>

definition main_run :: "top \<Rightarrow> cli_opts \<Rightarrow> run \<Rightarrow> (outcome \<times> run) option" where
  "main_run T opts u = do {
     r \<leftarrow> init_gatherers (t_depth T) (t_dirs T) \<lparr>s_cwd = u_cwd u, s_list = Null\<rparr>;
     (case r of Exits status \<Rightarrow> Some (Exit status, u)
      | Returns s \<Rightarrow> do {
          (stop, u) \<leftarrow> main_capture T opts (u\<lparr>u_cwd := s_cwd s, u_list := s_list s\<rparr>);
          (if stop \<noteq> Continue then Some (stop, u)
           else do {
             u \<leftarrow> main_print T opts u;
             (stop, u) \<leftarrow> main_table T opts u;
             (if stop \<noteq> Continue then Some (stop, u)
              else case main_snapshot T opts u of (stop, u) \<Rightarrow>
                if stop \<noteq> Continue then Some (stop, u)
                else do {
                  u \<leftarrow> main_differences T opts u;
                  Some (Exit EXIT_SUCCESS, release u) }) }) }) }"

definition datatop_main :: "top \<Rightarrow> (outcome \<times> run) option" where
  "datatop_main T =
    (let u = \<lparr>u_cwd = t_cwd T, u_list = Null, u_out = [''DataTop - Version '' @ t_version T @ [NL], ''(c)2014-2015 Linux Foundation'' @ [NL]],
           u_table = None, u_snapshot = None, u_ip = None, u_freed_dpgs = [], u_freed_nodes = []\<rparr>
     in do {
       (parse_status, opts, so) \<leftarrow> dtop_parse_cli_opts (e_world (t_dirs T) (t_cwd T)) (t_stamp T) (t_argv T) dtop_load_default_options;
       let u = say so u;
       (if parse_status = PARSE_FORCE_EXIT then Some (Exit EXIT_SUCCESS, u)
        else if parse_status \<noteq> PARSE_SUCCESS
        then Some (Exit EXIT_FAILURE, say [''Failed to parse command line arguments.'' @ [NL]] u)
        else let u = dtop_set_niceness T (priority opts) u in
          if iptables_rules_routes opts \<and> out_dir opts = []
          then Some (Exit EXIT_FAILURE, say [''Please provide an out directory.'' @ [NL]] u)
          else main_run T opts u) })"

end
