(* ===== verification/Dt_Api.thy ===== *)
theory Dt_Api
  imports Dt_Values Dt_Main
begin

text \<open>
  What a datatop session does: baselines and differences, options, termination of the polling loop,
  the table it writes, and polls of a file of values from the file's text to the data points.
\<close>

section \<open>The polling loop\<close>

lemma list_wf_later_poll:
  assumes "dtop_poll (poll_dpg w) list = Some list'" "\<forall>g \<in> set (list_data list). wf_dpg g"
  shows "list_all2 later (list_data list) (list_data list')" "\<forall>g \<in> set (list_data list'). wf_dpg g"
  using dispatch.poll_all[OF assms] later_list_wf[OF dispatch.poll_all[OF assms] assms(2)] by simp_all

lemma interactive_no_reset:
  "dtop_interactive word list so = Some (quit, list', so') \<Longrightarrow> word \<noteq> Some ''i'' \<Longrightarrow> list' = list"
  by (auto simp: dtop_interactive_def bind_eq_Some_conv split: if_splits)

text \<open>One round of the loop, as a function of its own: whether to go on, and the state after it.\<close>

definition poll_round :: "(string list \<Rightarrow> string \<Rightarrow> bool) \<Rightarrow> cli_opts \<Rightarrow> round \<Rightarrow> int \<Rightarrow> dpg dtop_linked_list \<Rightarrow> string list \<Rightarrow>
    string list \<Rightarrow> (int option \<times> dpg dtop_linked_list \<times> string list \<times> string list) option" where
  "poll_round W clopts r itime list out so = do {
     (quit, list, so) \<leftarrow> (if has_input clopts itime r then dtop_interactive (rd_word r) list so else Some (False, list, so));
     (if quit then Some (Some FILE_SUCCESS, list, out, so)
      else do {
        list \<leftarrow> dtop_poll (poll_dpg (rd_world r)) list;
        (case dtop_print_time_at_poll W (fst (rd_stamp r)) (snd (rd_stamp r)) out of (rc, out) \<Rightarrow>
           if rc = FILE_ERROR then Some (Some FILE_ERROR, list, out, so)
           else do {
             (rc, out) \<leftarrow> dtop_write_pollingdata_csv W list out;
             Some (if rc = FILE_ERROR then Some FILE_ERROR else None, list, out, so) }) }) }"

lemma poll_loop_Nil:
  "dtop_poll_loop W clopts endtime [] curtime itime list out so =
    (if \<not> (curtime < endtime \<or> poll_time clopts = POLL_NOT_SPECIFIED)
     then do { d \<leftarrow> dtop_print_snapshot_diff list; Some (Some FILE_SUCCESS, list, out, so @ d) }
     else Some (None, list, out, so))"
  by (simp add: dtop_poll_loop.simps)

lemma poll_loop_Cons:
  "dtop_poll_loop W clopts endtime (r # rs) curtime itime list out so =
    (if \<not> (curtime < endtime \<or> poll_time clopts = POLL_NOT_SPECIFIED)
     then do { d \<leftarrow> dtop_print_snapshot_diff list; Some (Some FILE_SUCCESS, list, out, so @ d) }
     else do {
       (stop, list, out, so) \<leftarrow> poll_round W clopts r itime list out so;
       (if stop \<noteq> None then Some (stop, list, out, so)
        else dtop_poll_loop W clopts endtime rs (rd_now r) (rd_after r) list out so) })"
  unfolding dtop_poll_loop.simps[of W clopts endtime "r # rs"] poll_round_def
  by (auto split: Option.bind_splits prod.splits)

lemma poll_round_later:
  assumes "poll_round W clopts r itime list out so = Some (stop, list', out', so')"
    "\<forall>g \<in> set (list_data list). wf_dpg g" "rd_word r \<noteq> Some ''i''"
  shows "list_all2 later (list_data list) (list_data list') \<and> (\<forall>g \<in> set (list_data list'). wf_dpg g)"
proof -
  obtain quit l1 so1 where l1: "(if has_input clopts itime r then dtop_interactive (rd_word r) list so else Some (False, list, so)) = Some (quit, l1, so1)"
    using assms(1) by (cases "if has_input clopts itime r then dtop_interactive (rd_word r) list so else Some (False, list, so)") (auto simp: poll_round_def)
  have same: "l1 = list" using l1 interactive_no_reset[OF _ assms(3)] by (auto split: if_splits)
  show ?thesis
  proof (cases quit)
    case True
    then have "list' = list" using assms(1) l1 same by (simp add: poll_round_def)
    then show ?thesis using assms(2) by (simp add: list_all2_refl)
  next
    case False
    then have "dtop_poll (poll_dpg (rd_world r)) list = Some list'"
      using assms(1) l1 same unfolding poll_round_def
      by (cases "dtop_print_time_at_poll W (fst (rd_stamp r)) (snd (rd_stamp r)) out"; cases "dtop_poll (poll_dpg (rd_world r)) list")
        (auto simp: bind_eq_Some_conv split: if_splits)
    then show ?thesis using list_wf_later_poll[OF _ assms(2)] by blast
  qed
qed

lemma poll_loop_later:
  assumes "dtop_poll_loop W clopts endtime rs curtime itime list out so = Some (stop, list', out', so')"
    "\<forall>g \<in> set (list_data list). wf_dpg g" "\<forall>r \<in> set rs. rd_word r \<noteq> Some ''i''"
  shows "list_all2 later (list_data list) (list_data list')"
  using assms
proof (induction rs arbitrary: curtime itime list out so)
  case Nil
  then show ?case by (auto simp: poll_loop_Nil bind_eq_Some_conv list_all2_refl split: if_splits)
next
  case (Cons r rs)
  show ?case
  proof (cases "curtime < endtime \<or> poll_time clopts = POLL_NOT_SPECIFIED")
    case False
    then show ?thesis using Cons.prems(1) by (auto simp: poll_loop_Cons bind_eq_Some_conv list_all2_refl)
  next
    case True
    then obtain stop1 l1 out1 so1 where r: "poll_round W clopts r itime list out so = Some (stop1, l1, out1, so1)"
      and rest: "(if stop1 \<noteq> None then Some (stop1, l1, out1, so1)
        else dtop_poll_loop W clopts endtime rs (rd_now r) (rd_after r) l1 out1 so1) = Some (stop, list', out', so')"
      using Cons.prems(1) by (auto simp: poll_loop_Cons bind_eq_Some_conv)
    have 1: "list_all2 later (list_data list) (list_data l1)" "\<forall>g \<in> set (list_data l1). wf_dpg g"
      using poll_round_later[OF r Cons.prems(2)] Cons.prems(3) by simp_all
    show ?thesis
    proof (cases stop1)
      case None
      then have "dtop_poll_loop W clopts endtime rs (rd_now r) (rd_after r) l1 out1 so1 = Some (stop, list', out', so')" using rest by simp
      from Cons.IH[OF this 1(2)] Cons.prems(3) have 2: "list_all2 later (list_data l1) (list_data list')" by simp
      show ?thesis by (rule list_all2_trans[OF later_trans 1(1) 2])
    qed (use rest 1(1) in simp)
  qed
qed

lemma poll_loop_stops:
  assumes "poll_time clopts \<noteq> POLL_NOT_SPECIFIED" "curtime \<ge> endtime \<or> (\<exists>r \<in> set rs. rd_now r \<ge> endtime)"
  shows "dtop_poll_loop W clopts endtime rs curtime itime list out so \<noteq> Some (None, s)"
  using assms(2)
proof (induction rs arbitrary: curtime itime list out so)
  case Nil
  then show ?case using assms(1) by (auto simp: poll_loop_Nil bind_eq_Some_conv)
next
  case (Cons r rs)
  show ?case
  proof (cases "curtime < endtime")
    case False
    then show ?thesis using assms(1) by (auto simp: poll_loop_Cons bind_eq_Some_conv)
  next
    case True
    then have "rd_now r \<ge> endtime \<or> (\<exists>r \<in> set rs. rd_now r \<ge> endtime)" using Cons.prems by auto
    from Cons.IH[OF this] show ?thesis
      using True by (auto simp: poll_loop_Cons bind_eq_Some_conv split: if_splits)
  qed
qed

lemma poll_loop_more:
  assumes "poll_time clopts \<noteq> POLL_NOT_SPECIFIED" "curtime \<ge> endtime \<or> (\<exists>r \<in> set rs. rd_now r \<ge> endtime)"
  shows "dtop_poll_loop W clopts endtime (rs @ rs') curtime itime list out so = dtop_poll_loop W clopts endtime rs curtime itime list out so"
  using assms(2)
proof (induction rs arbitrary: curtime itime list out so)
  case Nil
  then show ?case using assms(1) by (simp add: dtop_poll_loop.simps)
next
  case (Cons r rs)
  show ?case
  proof (cases "curtime < endtime")
    case False
    then show ?thesis using assms(1) by (simp add: poll_loop_Cons)
  next
    case True
    then have "rd_now r \<ge> endtime \<or> (\<exists>r \<in> set rs. rd_now r \<ge> endtime)" using Cons.prems by auto
    from Cons.IH[OF this] show ?thesis by (cases "poll_round W clopts r itime list out so") (auto simp: poll_loop_Cons)
  qed
qed

lemma poll_round_code: "poll_round W clopts r itime list out so = Some (rc, s) \<Longrightarrow> rc \<in> {None, Some FILE_SUCCESS, Some FILE_ERROR}"
  by (cases "dtop_print_time_at_poll W (fst (rd_stamp r)) (snd (rd_stamp r)) out") (auto simp: poll_round_def bind_eq_Some_conv split: if_splits)

lemma poll_loop_code:
  "dtop_poll_loop W clopts endtime rs curtime itime list out so = Some (rc, s) \<Longrightarrow> rc \<in> {None, Some FILE_SUCCESS, Some FILE_ERROR}"
proof (induction rs arbitrary: curtime itime list out so)
  case (Cons r rs)
  then show ?case by (auto simp: poll_loop_Cons bind_eq_Some_conv dest!: poll_round_code split: if_splits)
qed (auto simp: poll_loop_Nil bind_eq_Some_conv split: if_splits)

section \<open>Properties of a session\<close>

text \<open>
  C12. Baselines: however many rounds a session of well-formed gatherers has, with whatever file
  contents and write errors it goes through, as long as nobody types \<open>i\<close> and it ends without undefined
  behaviour, every gatherer keeps its identity and every data point the pointers to its name and
  prefix (a name's text may lie in a line that polls rewrite), and a point that had an initial value
  before the session keeps that value, so that its differences stay against it.
\<close>

theorem dtop_session_keeps_baseline:
  assumes "dtop_poll_periodically W clopts start itime rs list = Some (rc, list', out, so)"
    and "\<forall>g \<in> set (list_data list). wf_dpg g" "\<forall>r \<in> set rs. rd_word r \<noteq> Some ''i''"
  shows "list_all2 later (list_data list) (list_data list')"
proof -
  from assms(1) have "list' = list \<or> (\<exists>endtime curtime out1 so1.
      dtop_poll_loop W clopts endtime rs curtime itime list out1 so1 = Some (rc, list', out, so))"
    by (auto simp: dtop_poll_periodically_def bind_eq_Some_conv Let_def split: if_splits)
  then show ?thesis using poll_loop_later[OF _ assms(2,3)] by (auto simp: list_all2_refl)
qed

definition sample_opts :: cli_opts where
  "sample_opts = dtop_load_default_options\<lparr>poll_per := 1000000, poll_time := 1\<rparr>"

definition sample_round :: "int \<Rightarrow> round" where
  "sample_round t = \<lparr>rd_before = t, rd_ready = False, rd_after = t, rd_word = None, rd_now = t, rd_stamp = (t div 1000000, 0),
     rd_world = one_file ''other'' []\<rparr>"

lemma sample_session:
  "\<exists>list' out so. dtop_poll_periodically (\<lambda>_ _. True) sample_opts (0, 0) 0 [sample_round 1000000] (Node 1 (zero_dpg Gen 1) Null) =
    Some (Some FILE_SUCCESS, list', out, so)"
  by (simp add: dtop_poll_periodically_def sample_opts_def dtop_load_default_options_def csv_header_def dtop_print_dpg_names_csv_def
      point_at_def dtop_format_dp_names_def text_of_def poll_loop_Cons poll_loop_Nil poll_round_def has_input_def sample_round_def
      poll_dpg_def dtop_gen_poll_def dt_read_file_def one_file_def c_str_def dtop_print_time_at_poll_def
      dtop_write_pollingdata_csv_def dtop_print_dpg_csv_def dtop_print_dp_csv_def dtop_format_dp_values_def value_texts_def
      dtop_print_snapshot_diff_def dtop_handle_dp_type_for_snapshot_def snapshot_diff_def zero_dpg_def zero_point_def Let_def)

theorem dtop_session_keeps_baseline_witness:
  "\<exists>list' out so. dtop_poll_periodically (\<lambda>_ _. True) sample_opts (0, 0) 0 [sample_round 1000000] (Node 1 (zero_dpg Gen 1) Null) =
      Some (Some FILE_SUCCESS, list', out, so) \<and> list_all2 later [zero_dpg Gen 1] (list_data list')"
proof -
  obtain list' out so where run: "dtop_poll_periodically (\<lambda>_ _. True) sample_opts (0, 0) 0 [sample_round 1000000]
      (Node 1 (zero_dpg Gen 1) Null) = Some (Some FILE_SUCCESS, list', out, so)" using sample_session by blast
  from dtop_session_keeps_baseline[OF run] run show ?thesis by (auto simp: sample_round_def)
qed

text \<open>
  C39. Termination of the polling loop: with an end time, once the clock, as read in some round, has
  reached it, the session never asks for another round: what it does depends on no further round, and
  when none of what it does is undefined it is over, with success or with a file error. (Without an
  end time, the default for a table, only \<open>q\<close> or a write error ends it.)
\<close>

theorem dtop_poll_periodically_returns:
  assumes "poll_time clopts \<noteq> POLL_NOT_SPECIFIED"
    and "\<exists>r \<in> set rs. rd_now r \<ge> fst start * 1000000 + poll_time clopts * 1000000"
  shows "(\<forall>rs'. dtop_poll_periodically W clopts start itime (rs @ rs') list = dtop_poll_periodically W clopts start itime rs list) \<and>
    (\<forall>rc s. dtop_poll_periodically W clopts start itime rs list = Some (rc, s) \<longrightarrow> rc \<in> {Some FILE_SUCCESS, Some FILE_ERROR})"
proof -
  let ?until = "fst start * 1000000 + poll_time clopts * 1000000"
  have more: "dtop_poll_loop W clopts ?until (rs @ rs') c itime list out so = dtop_poll_loop W clopts ?until rs c itime list out so" for rs' c out so
    using poll_loop_more[OF assms(1) disjI2[OF assms(2)]] .
  have rc: "rc \<in> {Some FILE_SUCCESS, Some FILE_ERROR}"
    if "dtop_poll_loop W clopts ?until rs c itime list out so = Some (rc, s)" for rc s c out so
    using that poll_loop_stops[OF assms(1) disjI2[OF assms(2)], where s = s] poll_loop_code[of W clopts ?until rs c itime list out so rc s] by auto
  show ?thesis
    using more by (cases "csv_header W list") (auto simp: dtop_poll_periodically_def Let_def dest!: rc split: if_splits)
qed

theorem dtop_poll_periodically_returns_witness:
  "\<exists>s. \<forall>rs'. dtop_poll_periodically (\<lambda>_ _. True) sample_opts (0, 0) 0 ([sample_round 1000000] @ rs') (Node 1 (zero_dpg Gen 1) Null) =
      Some (Some FILE_SUCCESS, s)"
proof -
  obtain list' out so where "dtop_poll_periodically (\<lambda>_ _. True) sample_opts (0, 0) 0 [sample_round 1000000]
      (Node 1 (zero_dpg Gen 1) Null) = Some (Some FILE_SUCCESS, list', out, so)" using sample_session by blast
  then show ?thesis
    using dtop_poll_periodically_returns[of sample_opts "[sample_round 1000000]" "(0, 0)" "\<lambda>_ _. True" 0 "Node 1 (zero_dpg Gen 1) Null"]
    by (simp add: sample_opts_def sample_round_def)
qed

section \<open>Options\<close>

definition opts_inv :: "world \<Rightarrow> cli_opts \<Rightarrow> bool" where
  "opts_inv w o1 \<longleftrightarrow> - 20 \<le> priority o1 \<and> priority o1 \<le> 19 \<and> (poll_per o1 = 0 \<or> 200000 \<le> poll_per o1) \<and> 0 \<le> poll_time o1 \<and>
     length (out_dir o1) < OUT_DIR_LEN_MAX \<and> NUL \<notin> set (out_dir o1) \<and> (print_csv o1 \<longleftrightarrow> file_name o1 \<noteq> None) \<and>
     (\<forall>f. file_name o1 = Some f \<or> snapshot_file o1 = Some f \<longrightarrow> \<not> w_exists w (c_str f))"

lemma access_valid: "dtop_check_writefile_access w f = (rc, msg) \<Longrightarrow> rc = VALID \<Longrightarrow> \<not> w_exists w (c_str f)"
  by (auto simp: dtop_check_writefile_access_def split: if_splits)

lemma parse_opt_inv:
  assumes "dtop_parse_opt w ts a o1 = Some (None, o2, msg)" "opts_inv w o1"
  shows "opts_inv w o2"
proof -
  obtain c s where a: "a = (c, s)" by (cases a)
  show ?thesis
    using assms unfolding dtop_parse_opt_def a
    by (auto simp: opts_inv_def Let_def strlen_def dest: access_valid split: if_splits prod.splits)
qed

lemma parse_opts_loop_inv:
  "parse_opts_loop w ts as o1 so = Some (None, o2, so') \<Longrightarrow> opts_inv w o1 \<Longrightarrow> opts_inv w o2"
  by (induction as arbitrary: o1 so) (auto simp: bind_eq_Some_conv dest: parse_opt_inv split: if_splits)

text \<open>
  An output directory of 149 or 150 characters, counted with the time stamp, passes the test and
  overflows its array: the array has to hold the slash and the terminator as well.
\<close>

definition out_dir_overflows :: "string \<Rightarrow> char \<times> string \<Rightarrow> bool" where
  "out_dir_overflows ts a \<longleftrightarrow> fst a = CHR ''o'' \<and> (strlen (snd a) + strlen ts = 149 \<or> strlen (snd a) + strlen ts = 150)"

lemma dtop_out_dir_overflow:
  "out_dir_overflows ts a \<Longrightarrow> w_exists w (c_str (snd a)) \<Longrightarrow> dtop_parse_cli_opts w ts (a # as) clopts = None"
  by (cases a) (auto simp: out_dir_overflows_def dtop_parse_cli_opts_def dtop_parse_opt_def dtop_check_out_dir_presence_def)

lemma parse_opt_defined:
  assumes "\<not> out_dir_overflows ts a"
  shows "\<exists>stop o2 msg. dtop_parse_opt w ts a o1 = Some (stop, o2, msg) \<and> stop \<in> {None, Some PARSE_FAILURE, Some PARSE_FORCE_EXIT} \<and>
    (stop = None \<longrightarrow> fst a = CHR ''o'' \<longrightarrow> strlen (snd a) + strlen ts \<le> 148)"
  using assms by (cases a) (auto simp: dtop_parse_opt_def out_dir_overflows_def Let_def split: prod.splits)

lemma parse_opts_loop_defined:
  "\<forall>a \<in> set as. \<not> out_dir_overflows ts a \<Longrightarrow>
    \<exists>stop o2 so'. parse_opts_loop w ts as o1 so = Some (stop, o2, so') \<and> stop \<in> {None, Some PARSE_FAILURE, Some PARSE_FORCE_EXIT} \<and>
      (stop = None \<longrightarrow> (\<forall>(c, dir) \<in> set as. c = CHR ''o'' \<longrightarrow> strlen dir + strlen ts \<le> 148))"
proof (induction as arbitrary: o1 so)
  case (Cons a as)
  obtain stop o2 msg where a: "dtop_parse_opt w ts a o1 = Some (stop, o2, msg)" "stop \<in> {None, Some PARSE_FAILURE, Some PARSE_FORCE_EXIT}"
      "stop = None \<longrightarrow> fst a = CHR ''o'' \<longrightarrow> strlen (snd a) + strlen ts \<le> 148"
    using parse_opt_defined[of ts a w o1] Cons.prems by auto
  show ?case
  proof (cases stop)
    case None
    then show ?thesis using Cons.IH[of o2 "so @ msg"] Cons.prems a by (cases a) fastforce
  qed (use a in auto)
qed simp

text \<open>
  C38. Options: whatever the command line, the file system and the time stamp, as long as no output
  directory counts 149 or 150 characters with the time stamp (those overflow their array), the parser
  comes to an end with success, failure or the help. When it succeeds, the options are within their
  bounds: niceness from -20 to 19, a polling period of at least 0.2 seconds, a positive duration
  unless a table is written without end, every output directory asked for of at most 148 characters
  with the time stamp, so that it fits its array with its terminator, a table file exactly when a
  table is asked for, and no file to be written that exists.
\<close>

theorem dtop_options_valid:
  assumes "\<forall>a \<in> set as. \<not> out_dir_overflows ts a"
  shows "\<exists>rc opts so. dtop_parse_cli_opts w ts as dtop_load_default_options = Some (rc, opts, so) \<and>
    rc \<in> {PARSE_SUCCESS, PARSE_FAILURE, PARSE_FORCE_EXIT} \<and>
    (rc = PARSE_SUCCESS \<longrightarrow> - 20 \<le> priority opts \<and> priority opts \<le> 19 \<and> 200000 \<le> poll_per opts \<and>
      (0 < poll_time opts \<or> poll_time opts = POLL_NOT_SPECIFIED \<and> print_csv opts) \<and>
      (\<forall>(c, dir) \<in> set as. c = CHR ''o'' \<longrightarrow> strlen dir + strlen ts \<le> 148) \<and> length (out_dir opts) < OUT_DIR_LEN_MAX \<and>
      (print_csv opts \<longleftrightarrow> file_name opts \<noteq> None) \<and>
      (\<forall>f. file_name opts = Some f \<or> snapshot_file opts = Some f \<longrightarrow> \<not> w_exists w (c_str f)))"
proof -
  obtain stop o2 so where l: "parse_opts_loop w ts as dtop_load_default_options [] = Some (stop, o2, so)"
      "stop \<in> {None, Some PARSE_FAILURE, Some PARSE_FORCE_EXIT}"
      "stop = None \<longrightarrow> (\<forall>(c, dir) \<in> set as. c = CHR ''o'' \<longrightarrow> strlen dir + strlen ts \<le> 148)"
    using parse_opts_loop_defined[OF assms, of w dtop_load_default_options "[]"] by blast
  show ?thesis
  proof (cases stop)
    case None
    have "opts_inv w dtop_load_default_options" by (simp add: opts_inv_def dtop_load_default_options_def)
    then have "opts_inv w o2" using parse_opts_loop_inv l(1) None by blast
    then show ?thesis using l(1,3) None by (auto simp: dtop_parse_cli_opts_def Let_def opts_inv_def)
  qed (use l in \<open>auto simp: dtop_parse_cli_opts_def\<close>)
qed

theorem dtop_options_valid_witness:
  "\<exists>opts so. dtop_parse_cli_opts (one_file ''/tmp'' []) ''ts'' [(CHR ''t'', ''5''), (CHR ''o'', ''/tmp'')] dtop_load_default_options =
      Some (PARSE_SUCCESS, opts, so) \<and> 200000 \<le> poll_per opts"
proof -
  have "\<exists>opts so. dtop_parse_cli_opts (one_file ''/tmp'' []) ''ts'' [(CHR ''t'', ''5''), (CHR ''o'', ''/tmp'')] dtop_load_default_options =
      Some (PARSE_SUCCESS, opts, so)"
    by (simp add: dtop_parse_cli_opts_def dtop_parse_opt_def dtop_load_default_options_def strtol_def parse_int_def c_str_def isspace_def
        split_sign_def take_digits_def digit_val_def dtop_check_out_dir_presence_def dtop_create_dir_def one_file_def strlen_def Let_def)
  moreover have "\<forall>a \<in> set [(CHR ''t'', ''5''), (CHR ''o'', ''/tmp'')]. \<not> out_dir_overflows ''ts'' a"
    by (simp add: out_dir_overflows_def strlen_def c_str_def)
  ultimately show ?thesis using dtop_options_valid[of "[(CHR ''t'', ''5''), (CHR ''o'', ''/tmp'')]" "''ts''" "one_file ''/tmp'' []"] by auto
qed

section \<open>Commands\<close>

definition unset_points :: "'k gatherer \<Rightarrow> 'k gatherer" where
  "unset_points g = g\<lparr>g_points := map (\<lambda>dp. dp\<lparr>dp_populated := False\<rparr>) (g_points g)\<rparr>"

lemma reset_points_spec:
  assumes "wf_dpg g"
  shows "reset_points g = Some (unset_points g)"
proof -
  let ?body = "\<lambda>i g. do { dp \<leftarrow> point_at g i; set_point g i (dp\<lparr>dp_populated := False\<rparr>) }"
  let ?u = "\<lambda>dp :: dtop_data_point. dp\<lparr>dp_populated := False\<rparr>"
  let ?ps = "g_points g"
  have "for_loop ?body m i (g\<lparr>g_points := map ?u (take i ?ps) @ drop i ?ps\<rparr>) = Some (unset_points g)" if "i + m = length ?ps" for m i
    using that
  proof (induction m arbitrary: i)
    case 0
    then show ?case by (simp add: unset_points_def)
  next
    case (Suc m)
    then have i: "i < length ?ps" by simp
    have "(map ?u (take i ?ps) @ drop i ?ps)[i := ?u (?ps ! i)] = map ?u (take (Suc i) ?ps) @ drop (Suc i) ?ps"
      "(map ?u (take i ?ps) @ drop i ?ps) ! i = ?ps ! i"
      using i by (simp_all add: list_update_append take_Suc_conv_app_nth upd_conv_take_nth_drop nth_append)
    then show ?case using Suc.IH[of "Suc i"] Suc.prems i by (simp add: point_at_def set_point_def)
  qed
  from this[of 0 "length ?ps"] show ?thesis using assms by (simp add: reset_points_def wf_dpg_def)
qed

lemma reset_list_spec:
  "\<forall>g \<in> set (list_data list). wf_dpg g \<Longrightarrow> dtop_reset_dp_initial_values list = Some (map_dtop_linked_list unset_points list)"
  by (induction list) (simp_all add: reset_points_spec)

text \<open>
  The interactive commands: \<open>q\<close> ends the session; \<open>i\<close> prints the differences, then marks every
  point of every gatherer as without initial value and changes nothing else; \<open>l\<close> only prints them;
  other short words do nothing. A word of four characters or more is written past the end of its
  array, and \<open>quit\<close>, which the help offers, is one.
\<close>

theorem dtop_interactive_commands:
  assumes "\<forall>g \<in> set (list_data list). wf_dpg g"
  shows "dtop_interactive (Some s) list so =
    (if length s \<ge> 4 then None
     else if s = ''q'' then Some (True, list, so)
     else if s = ''i'' then map_option (\<lambda>d. (False, map_dtop_linked_list unset_points list, so @ d)) (dtop_print_snapshot_diff list)
     else if s = ''l'' then map_option (\<lambda>d. (False, list, so @ d)) (dtop_print_snapshot_diff list)
     else Some (False, list, so)) \<and> dtop_interactive (Some ''quit'') list so = None"
  using reset_list_spec[OF assms] by (cases "dtop_print_snapshot_diff list") (auto simp: dtop_interactive_def)

theorem dtop_interactive_commands_witness:
  "dtop_interactive (Some ''q'') (Node 1 (zero_dpg Gen 1) Null) [] = Some (True, Node 1 (zero_dpg Gen 1) Null, [])"
  using dtop_interactive_commands[of "Node 1 (zero_dpg Gen 1) Null" "''q''" "[]"] by simp

section \<open>The table\<close>

abbreviation (input) wall :: "string list \<Rightarrow> string \<Rightarrow> bool" where "wall \<equiv> \<lambda>_ _. True"

lemma fprints_wall [simp]: "fprints (\<lambda>_ _. True) out ss = (FILE_SUCCESS, out @ ss)"
  by (induction ss arbitrary: out) auto

definition commas :: "string list \<Rightarrow> nat" where
  "commas out = count_list (concat out) (CHR '','')"

lemma commas_simps [simp]:
  "commas [] = 0" "commas (s # out) = count_list s (CHR '','') + commas out" "commas (xs @ ys) = commas xs + commas ys"
  by (simp_all add: commas_def)

definition numeric :: "dtop_data_point \<Rightarrow> bool" where
  "numeric dp \<longleftrightarrow> dp_type dp = DTOP_ULONG \<or> dp_type dp = DTOP_LONG \<or> dp_type dp = DTOP_UINT \<or> dp_type dp = DTOP_INT"

definition plain_name :: "'k gatherer \<Rightarrow> dtop_data_point \<Rightarrow> bool" where
  "plain_name g dp \<longleftrightarrow> (\<forall>r t. (r = dp_name dp \<or> dp_prefix dp = Some r) \<longrightarrow> text_of g r = Some t \<longrightarrow> CHR '','' \<notin> set t)"

definition plain_table :: "'k gatherer \<Rightarrow> bool" where
  "plain_table g \<longleftrightarrow> CHR '','' \<notin> set (g_prefix g) \<and> (\<forall>dp \<in> set (g_points g). numeric dp \<and> plain_name g dp)"

lemma no_comma_show_nat: "count_list (show_nat 10 n) (CHR '','') = 0"
proof -
  have "\<not> digit_val (CHR '','') < 10" by (simp add: digit_val_def Let_def)
  then have "CHR '','' \<notin> set (show_nat 10 n)" using show_nat_in_digits by blast
  then show ?thesis by (simp add: count_list_0_iff)
qed

lemma no_comma_show_int: "count_list (show_int i) (CHR '','') = 0"
  by (simp add: show_int_def no_comma_show_nat)

lemma numeric_cell:
  assumes "numeric dp"
  shows "\<exists>t. value_texts dp = Some [t] \<and> count_list t (CHR '','') = 0"
  using assms by (auto simp: numeric_def value_texts_def Let_def show_u_def no_comma_show_nat no_comma_show_int)

lemma points_csv_commas:
  assumes "\<forall>dp \<in> set (g_points g). numeric dp"
  shows "points_csv (\<lambda>_ _. True) g n i out = Some (rc, out') \<Longrightarrow> rc = FILE_SUCCESS \<and> commas out' = commas out + n"
proof (induction n arbitrary: i out)
  case (Suc n)
  then obtain dp where dp: "point_at g i = Some dp" by (auto simp: bind_eq_Some_conv)
  then have "numeric dp" using assms by (auto simp: point_at_def split: if_splits)
  then obtain t where t: "value_texts dp = Some [t]" "count_list t (CHR '','') = 0" using numeric_cell by blast
  then show ?case using Suc.prems dp Suc.IH[of "Suc i" "out @ [t, '','']"]
    by (simp add: dtop_print_dp_csv_def dtop_format_dp_values_def)
qed simp

lemma points_names_commas:
  assumes "CHR '','' \<notin> set (g_prefix g)" "\<forall>dp \<in> set (g_points g). plain_name g dp"
  shows "points_names_csv (\<lambda>_ _. True) g n i out = Some (rc, out') \<Longrightarrow> rc = FILE_SUCCESS \<and> commas out' = commas out + n"
proof (induction n arbitrary: i out)
  case (Suc n)
  then obtain dp where dp: "point_at g i = Some dp" by (auto simp: bind_eq_Some_conv)
  then have "plain_name g dp" using assms(2) by (auto simp: point_at_def split: if_splits)
  moreover have "count_list (g_prefix g) (CHR '','') = 0" using assms(1) by (simp add: count_list_0_iff)
  ultimately have "commas out1 = commas out + 1 \<and> rc1 = FILE_SUCCESS"
    if "dtop_format_dp_names (\<lambda>_ _. True) g dp (g_prefix g) out = Some (rc1, out1)" for rc1 out1
    using that by (auto simp: dtop_format_dp_names_def plain_name_def bind_eq_Some_conv count_list_0_iff split: option.splits)
  then show ?case using Suc.prems dp Suc.IH[of "Suc i"] by (auto simp: bind_eq_Some_conv)
qed simp

lemma gatherers_names_commas:
  "\<forall>g \<in> set (list_data list). plain_table g \<Longrightarrow> gatherers_names_csv (\<lambda>_ _. True) list out = Some (rc, out') \<Longrightarrow>
    rc = FILE_SUCCESS \<and> commas out' = commas out + sum_list (map g_len (list_data list))"
proof (induction list arbitrary: out)
  case (Node a g next_ptr)
  then show ?case
    using points_names_commas[of g "g_len g" 0 out]
    by (auto simp: bind_eq_Some_conv dtop_print_dpg_names_csv_def plain_table_def)
qed simp

lemma gatherers_csv_commas:
  "\<forall>g \<in> set (list_data list). \<forall>dp \<in> set (g_points g). numeric dp \<Longrightarrow> gatherers_csv (\<lambda>_ _. True) list out = Some (rc, out') \<Longrightarrow>
    rc = FILE_SUCCESS \<and> commas out' = commas out + sum_list (map g_len (list_data list))"
proof (induction list arbitrary: out)
  case (Node a g next_ptr)
  then show ?case
    using points_csv_commas[of g "g_len g" 0 out] by (auto simp: bind_eq_Some_conv dtop_print_dpg_csv_def)
qed simp

lemma later_numeric: "list_all2 later gs gs' \<Longrightarrow> \<forall>g \<in> set gs. plain_table g \<Longrightarrow> \<forall>g \<in> set gs'. \<forall>dp \<in> set (g_points g). numeric dp"
proof (induction rule: list_all2_induct)
  case (Cons g gs g' gs')
  then have l: "list_all2 later_dp (g_points g) (g_points g')" "\<forall>dp \<in> set (g_points g). numeric dp"
    by (auto simp: later_def plain_table_def)
  then have "\<forall>dp \<in> set (g_points g'). numeric dp"
    by (induction rule: list_all2_induct) (auto simp: later_dp_def numeric_def)
  then show ?case using Cons by simp
qed simp

lemma later_lens: "list_all2 later gs gs' \<Longrightarrow> map g_len gs' = map g_len gs"
  by (induction rule: list_all2_induct) (auto simp: later_def)

text \<open>
  C36. The table is rectangular: when the gatherers' points are of the integer types and no name has a
  comma in it, each row, written after any polls since the header, has as many separators as the
  header, one per point and one for the time. (The character types print one more per value.)
\<close>

theorem dtop_table_rectangular:
  assumes "csv_header (\<lambda>_ _. True) list = Some (rc1, header)" "\<forall>g \<in> set (list_data list). plain_table g"
    and "list_all2 later (list_data list) (list_data list')"
    and "dtop_write_pollingdata_csv (\<lambda>_ _. True) list' (snd (dtop_print_time_at_poll (\<lambda>_ _. True) sec usec [])) = Some (rc2, row)"
  shows "rc1 = FILE_SUCCESS \<and> rc2 = FILE_SUCCESS \<and> commas header = 1 + sum_list (map g_len (list_data list)) \<and> commas row = commas header"
proof -
  have stamp: "commas (snd (dtop_print_time_at_poll (\<lambda>_ _. True) sec usec [])) = 1"
    by (simp add: dtop_print_time_at_poll_def pad_left_def pad0_def no_comma_show_int no_comma_show_nat count_list_0_iff)
  have "rc1 = FILE_SUCCESS \<and> commas header = 1 + sum_list (map g_len (list_data list))"
    using assms(1) gatherers_names_commas[OF assms(2)] by (fastforce simp: csv_header_def bind_eq_Some_conv)
  moreover have "rc2 = FILE_SUCCESS \<and> commas row = 1 + sum_list (map g_len (list_data list))"
    using assms(4) gatherers_csv_commas[OF later_numeric[OF assms(3,2)]] stamp later_lens[OF assms(3)]
    by (fastforce simp: dtop_write_pollingdata_csv_def bind_eq_Some_conv)
  ultimately show ?thesis by simp
qed

theorem dtop_table_rectangular_witness:
  "\<exists>header row. csv_header (\<lambda>_ _. True) (Node 1 (zero_dpg Gen 2) Null) = Some (FILE_SUCCESS, header) \<and>
    dtop_write_pollingdata_csv (\<lambda>_ _. True) (Node 1 (zero_dpg Gen 2) Null) (snd (dtop_print_time_at_poll (\<lambda>_ _. True) 5 0 [])) =
      Some (FILE_SUCCESS, row) \<and> commas row = 3 \<and> commas header = 3"
proof -
  have h: "\<exists>rc header. csv_header (\<lambda>_ _. True) (Node 1 (zero_dpg Gen 2) Null) = Some (rc, header)"
    by (simp add: csv_header_def dtop_print_dpg_names_csv_def zero_dpg_def zero_point_def point_at_def dtop_format_dp_names_def text_of_def numeral_eq_Suc)
  have r: "\<exists>rc row. dtop_write_pollingdata_csv (\<lambda>_ _. True) (Node 1 (zero_dpg Gen 2) Null)
      (snd (dtop_print_time_at_poll (\<lambda>_ _. True) 5 0 [])) = Some (rc, row)"
    by (simp add: dtop_write_pollingdata_csv_def dtop_print_dpg_csv_def dtop_print_dp_csv_def dtop_format_dp_values_def value_texts_def
        zero_dpg_def zero_point_def point_at_def numeral_eq_Suc Let_def)
  have "plain_table (zero_dpg Gen 2)"
    by (simp add: plain_table_def zero_dpg_def zero_point_def numeric_def plain_name_def text_of_def c_str_def)
  then show ?thesis
    using h r dtop_table_rectangular[of "Node 1 (zero_dpg Gen 2) Null" _ _ "Node 1 (zero_dpg Gen 2) Null" 5 0] by (fastforce simp: zero_dpg_def)
qed

end
