(* ===== verification/Dt_Program_Api.thy ===== *)
theory Dt_Program_Api
  imports Dt_Program Dt_Api Dt_Dirs_Spec
begin

text \<open>
  Properties of the program datatop: what its start registers is well-formed, so that the contract of
  the poll functions applies to it; how it ends; and what a run without options prints.
\<close>

section \<open>Well-formed gatherers\<close>

text \<open>Fresh data points have the size of the type.\<close>

definition fresh_points :: "world \<Rightarrow> bool" where
  "fresh_points w \<longleftrightarrow> (\<forall>i. wf_dp (w_point w i))"

definition wf_points :: "dtop_data_point list \<Rightarrow> bool" where
  "wf_points ps \<longleftrightarrow> (\<forall>dp \<in> set ps. wf_dp dp)"

lemma wf_dp_fields [simp]:
  "wf_dp (dp\<lparr>dp_name := n\<rparr>) = wf_dp dp" "wf_dp (dp\<lparr>dp_prefix := p\<rparr>) = wf_dp dp" "wf_dp (dp\<lparr>dp_type := t\<rparr>) = wf_dp dp"
  "wf_dp (dp\<lparr>dp_populated := b\<rparr>) = wf_dp dp" "wf_dp (dp\<lparr>dp_skip := b\<rparr>) = wf_dp dp"
  by (simp_all add: wf_dp_def)

lemma fresh_points_wf [simp, intro]: "fresh_points w \<Longrightarrow> wf_dp (w_point w i)"
  by (simp add: fresh_points_def)

lemma wf_points_simps [simp]:
  "wf_points []" "wf_points (ps @ qs) \<longleftrightarrow> wf_points ps \<and> wf_points qs" "wf_points (dp # ps) \<longleftrightarrow> wf_dp dp \<and> wf_points ps"
  "wf_points (map f xs) \<longleftrightarrow> (\<forall>x \<in> set xs. wf_dp (f x))"
  by (auto simp: wf_points_def)

lemma wf_points_update: "wf_points ps \<Longrightarrow> wf_dp dp \<Longrightarrow> wf_points (ps[i := dp])"
  by (auto simp: wf_points_def dest!: subsetD[OF set_update_subset_insert])

lemma wf_points_nth_opt: "wf_points ps \<Longrightarrow> nth_opt ps i = Some dp \<Longrightarrow> wf_dp dp"
  by (auto simp: wf_points_def nth_opt_def split: if_splits)

lemma wf_dpg_points: "g_len g = length (g_points g) \<Longrightarrow> wf_points (g_points g) \<Longrightarrow> wf_dpg g"
  by (simp add: wf_dpg_def wf_points_def)

lemmas build = bind_eq_Some_conv Let_def wf_points_update wf_points_nth_opt

lemma updates_wf:
  assumes "\<And>i ps ps'. body i ps = Some ps' \<Longrightarrow> wf_points ps \<Longrightarrow> length ps' = length ps \<and> wf_points ps'"
    and "for_loop body n i ps = Some ps'" "wf_points ps"
  shows "length ps' = length ps \<and> wf_points ps'"
  using for_loop_invar[where I = "\<lambda>qs. length qs = length ps \<and> wf_points qs", of body n i ps ps'] assms by fastforce

lemma appends_wf:
  assumes "\<And>i ps ps'. body i ps = Some ps' \<Longrightarrow> wf_points ps \<Longrightarrow> length ps' = length ps + k \<and> wf_points ps'"
  shows "for_loop body n i ps = Some ps' \<Longrightarrow> wf_points ps \<Longrightarrow> length ps' = length ps + n * k \<and> wf_points ps'"
proof (induction n arbitrary: i ps)
  case (Suc n)
  then obtain ps1 where "body i ps = Some ps1" "for_loop body n (Suc i) ps1 = Some ps'" by (auto simp: bind_eq_Some_conv)
  then show ?case using Suc assms[of i ps ps1] by fastforce
qed simp

lemma updates_dpg:
  assumes "for_loop body n i (map (w_point w) [0..<lc]) = Some ps" "fresh_points w"
    and "\<And>i ps ps'. body i ps = Some ps' \<Longrightarrow> wf_points ps \<Longrightarrow> length ps' = length ps \<and> wf_points ps'"
  shows "wf_dpg \<lparr>g_prefix = a, g_file = f, g_poll = k, g_points = ps, g_len = lc, g_line = ls, g_line2 = ls2\<rparr>"
  using updates_wf[OF assms(3,1)] assms(2) by (intro wf_dpg_points) simp_all

lemma appends_dpg:
  assumes "for_loop body n i [] = Some ps" "fresh_points w"
    and "\<And>i ps ps'. body i ps = Some ps' \<Longrightarrow> wf_points ps \<Longrightarrow> length ps' = length ps + k \<and> wf_points ps'"
    and "lc = n * k"
  shows "wf_dpg \<lparr>g_prefix = a, g_file = f, g_poll = p, g_points = ps, g_len = lc, g_line = ls, g_line2 = ls2\<rparr>"
  using appends_wf[OF assms(3,1)] assms(4) by (intro wf_dpg_points) simp_all

lemma single_line_init_wf:
  assumes "dtop_single_line_init w name = Some (rc, Some g)" "fresh_points w"
  shows "wf_dpg g"
proof -
  from assms(1) obtain lc where "dtop_single_line_search w name lc = Some (rc, Some g)" by (auto simp: dtop_single_line_init_def bind_eq_Some_conv)
  then show ?thesis using assms(2)
    by (auto simp: dtop_single_line_search_def bind_eq_Some_conv split: nat.splits option.splits prod.splits)
      (erule updates_dpg; auto simp: build)
qed

lemma meminfo_init_wf:
  assumes "dtop_meminfo_init w = Some (rc, Some g)" "fresh_points w"
  shows "wf_dpg g"
proof -
  from assms(1) obtain lc where "dtop_meminfo_search w lc = Some (rc, Some g)" by (auto simp: dtop_meminfo_init_def bind_eq_Some_conv)
  then show ?thesis using assms(2)
    by (auto simp: dtop_meminfo_search_def bind_eq_Some_conv split: nat.splits option.splits prod.splits)
      (erule updates_dpg; auto simp: build)
qed

lemma dev_init_wf:
  assumes "dtop_dev_init w = Some (rc, Some g)" "fresh_points w"
  shows "wf_dpg g"
proof -
  from assms(1) obtain lc where "dtop_dev_search w dev_file lc = Some (rc, Some g)" by (auto simp: dtop_dev_init_def bind_eq_Some_conv)
  then show ?thesis using assms(2)
    by (auto simp: dtop_dev_search_def bind_eq_Some_conv split: nat.splits option.splits prod.splits)
      (erule appends_dpg[where k = 16]; auto simp: build dev_point_def)
qed

lemma value_only_init_wf:
  assumes "dtop_value_only_init w name = Some (rc, Some g)" "fresh_points w"
  shows "wf_dpg g"
  using assms
  by (auto simp: dtop_value_only_init_def dtop_value_only_search_def bind_eq_Some_conv split: nat.splits option.splits prod.splits)
    (erule appends_dpg[where k = 1]; auto simp: build)

lemma dpg_construction_wf:
  assumes "dpg_construction w dir name = Some (Some g)" "fresh_points w"
  shows "wf_dpg g"
  using assms by (auto simp: dpg_construction_def build split: if_splits intro!: wf_dpg_points)

lemma loop_points_wf:
  assumes "for_loop body n i ps = Some ps'" "wf_points ps" "\<And>i ps ps'. body i ps = Some ps' \<Longrightarrow> wf_points ps \<Longrightarrow> wf_points ps'"
  shows "wf_points ps'"
  using assms by (rule for_loop_invar[where I = wf_points, rotated])

lemma dual_points_wf: "dual_points w mem d p ps = Some ps' \<Longrightarrow> fresh_points w \<Longrightarrow> wf_points ps \<Longrightarrow> wf_points ps'"
  unfolding dual_points_def by (auto simp: bind_eq_Some_conv) (erule loop_points_wf; auto simp: build)

lemma dual_line_init_wf:
  assumes "dtop_dual_line_init w name = Some (Some g)" "fresh_points w"
  shows "wf_dpg g"
proof -
  from assms(1) obtain rc lc where "dtop_dual_line_search w name lc = Some (rc, Some g)"
    by (auto simp: dtop_dual_line_init_def bind_eq_Some_conv split: if_splits)
  then show ?thesis using assms(2)
    by (auto simp: dtop_dual_line_search_def Let_def bind_eq_Some_conv split: nat.splits option.splits prod.splits)
      (rule wf_dpg_points; auto elim!: loop_points_wf intro: dual_points_wf)
qed

lemma stat_points_wf:
  assumes "stat_points w lines dict dp_count cnts = Some ps" "fresh_points w"
  shows "wf_points ps \<and> length ps \<le> dp_count"
proof (rule for_loop_invar[where I = "\<lambda>ps. wf_points ps \<and> length ps \<le> dp_count"])
  show "for_loop (\<lambda>i. for_loop (\<lambda>n ps. do {
        key \<leftarrow> dkey dict i;
        s \<leftarrow> deref lines key;
        (if length ps \<ge> dp_count then None
         else Some (ps @ [(w_point w (length ps))\<lparr>dp_name := Own (stat_name_of s (cnts ! i) n), dp_prefix := None,
           dp_type := DTOP_ULONG, dp_populated := False, dp_skip := False\<rparr>])) }) (cnts ! i) 0) (length cnts) 0 [] = Some ps"
    using assms(1) by (simp add: stat_points_def)
next
  fix i ps ps'
  assume "for_loop (\<lambda>n ps. do {
        key \<leftarrow> dkey dict i;
        s \<leftarrow> deref lines key;
        (if length ps \<ge> dp_count then None
         else Some (ps @ [(w_point w (length ps))\<lparr>dp_name := Own (stat_name_of s (cnts ! i) n), dp_prefix := None,
           dp_type := DTOP_ULONG, dp_populated := False, dp_skip := False\<rparr>])) }) (cnts ! i) 0 ps = Some ps'"
    "wf_points ps \<and> length ps \<le> dp_count"
  then show "wf_points ps' \<and> length ps' \<le> dp_count"
    by (rule for_loop_invar[where I = "\<lambda>ps. wf_points ps \<and> length ps \<le> dp_count", rotated])
      (use assms(2) in \<open>auto simp: build split: if_splits\<close>)
qed simp

lemma stat_init_wf:
  assumes "dtop_stat_init w = Some (rc, Some g)" "fresh_points w"
  shows "wf_dpg g"
proof -
  from assms(1) obtain lc where "dtop_stat_search w lc = Some (rc, Some g)" by (auto simp: dtop_stat_init_def bind_eq_Some_conv)
  then show ?thesis using assms(2)
    by (auto simp: dtop_stat_search_def bind_eq_Some_conv split: nat.splits option.splits prod.splits)
      (rule wf_dpg_points; auto dest: stat_points_wf)
qed

section \<open>What the start registers\<close>

definition wf_list :: "dstate \<Rightarrow> bool" where
  "wf_list s \<longleftrightarrow> (\<forall>g \<in> set (list_data (s_list s)). wf_dpg g)"

text \<open>
  What every call of the start does: it returns with well-formed gatherers, as far as those in fresh
  memory can be, or the program exits because there is no memory for a node; \<open>p\<close> finds the state.
\<close>

definition sound :: "dirs \<Rightarrow> dstate \<Rightarrow> bool" where
  "sound E s \<longleftrightarrow> (\<forall>c. fresh_points (e_world E c)) \<longrightarrow> wf_list s"

definition out_of_nodes :: "dirs \<Rightarrow> bool" where
  "out_of_nodes E \<longleftrightarrow> (\<exists>n. e_node E n = 0)"

definition ends :: "dirs \<Rightarrow> ('a \<Rightarrow> dstate) \<Rightarrow> 'a call \<Rightarrow> bool" where
  "ends E p r \<longleftrightarrow> (case r of Returns a \<Rightarrow> sound E (p a) | Exits status \<Rightarrow> status = EXIT_FAILURE \<and> out_of_nodes E)"

lemma ends_simps [simp]:
  "ends E p (Returns a) = sound E (p a)"
  "ends E p (Exits status) = (status = EXIT_FAILURE \<and> out_of_nodes E)"
  "ends E p (map_call f r) = ends E (p \<circ> f) r"
  by (simp_all add: ends_def) (cases r; simp)

lemma ends_go_on:
  assumes "go_on f r = Some r'" "ends E q r" "\<And>a r'. f a = Some r' \<Longrightarrow> sound E (q a) \<Longrightarrow> ends E p r'"
  shows "ends E p r'"
  using assms by (cases r) auto

lemma register_ends:
  assumes "\<And>d. g = Some d \<Longrightarrow> \<forall>c. fresh_points (e_world E c) \<Longrightarrow> wf_dpg d" "sound E s"
  shows "ends E (\<lambda>s. s) (dtop_register E g s)"
  using assms by (auto simp: dtop_register_def dtop_add_linked_list_def sound_def wf_list_def out_of_nodes_def split: option.split)

lemma chdir_sound [simp]: "sound E (chdir E dir s) = sound E s"
  by (simp add: chdir_def sound_def wf_list_def split: option.split)

lemma search_entries_ends:
  assumes "\<And>dir s r. rec dir s = Some r \<Longrightarrow> sound E s \<Longrightarrow> ends E snd r"
  shows "search_entries rec E dir names s = Some r \<Longrightarrow> sound E s \<Longrightarrow> ends E snd r"
proof (induction names arbitrary: s r)
  case (Cons name names)
  have registered: "ends E snd r" if "go_on (search_entries rec E dir names) (dtop_register E g s) = Some r"
    "dpg_construction (e_world E (s_cwd s)) dir name = Some g" for g
    using that(1) register_ends[of g E s] Cons.IH dpg_construction_wf that(2) Cons.prems(2) by (blast intro: ends_go_on)
  have searched: "ends E snd r" if "go_on (\<lambda>(_, s). search_entries rec E dir names s) q = Some r" "rec (dir @ name @ ''/'') s = Some q" for q
    using that(1) assms[OF that(2) Cons.prems(2)] by (rule ends_go_on) (use Cons.IH in auto)
  show ?case
    using Cons.prems Cons.IH registered searched by (auto simp: bind_eq_Some_conv split: option.splits if_splits)
qed auto

lemma dtop_search_ends: "dtop_search n E dir s = Some r \<Longrightarrow> sound E s \<Longrightarrow> ends E snd r"
proof (induction n arbitrary: dir s r)
  case (Suc n)
  have entries: "ends E (snd \<circ> (\<lambda>(failed, s'). if failed then (DIR_FAILURE, s') else (DIR_SUCCESS, chdir E (s_cwd s) s'))) q"
    if "search_entries (dtop_search n E) E dir names (chdir E dir s) = Some q" for names q
  proof -
    have "ends E snd q" using search_entries_ends[OF Suc.IH that] Suc.prems(2) by simp
    then show ?thesis by (cases q) (auto simp: case_prod_beta)
  qed
  show ?case using Suc.prems entries by (auto simp: bind_eq_Some_conv split: option.splits if_splits)
qed simp

lemma gen_init_ends: "dtop_gen_init n E dir s = Some r \<Longrightarrow> sound E s \<Longrightarrow> ends E (\<lambda>s. s) r"
  by (auto simp: dtop_gen_init_def comp_def dest: dtop_search_ends)

text \<open>The contract of a search for the gatherer of one file, and what registering its result keeps.\<close>

locale search_op =
  fixes search :: "world \<Rightarrow> (int \<times> dpg option) option"
  assumes typed: "search w = Some (rc, Some g) \<Longrightarrow> fresh_points w \<Longrightarrow> wf_dpg g"
begin

lemma registered: "register_search search E s = Some r \<Longrightarrow> sound E s \<Longrightarrow> ends E (\<lambda>s. s) r"
  using typed by (auto simp: register_search_def bind_eq_Some_conv intro!: register_ends)

end

interpretation single_line_init: search_op "\<lambda>w. dtop_single_line_init w name" for name
  by unfold_locales (rule single_line_init_wf)

interpretation meminfo_init: search_op dtop_meminfo_init
  by unfold_locales (rule meminfo_init_wf)

interpretation dev_init: search_op dtop_dev_init
  by unfold_locales (rule dev_init_wf)

interpretation stat_init: search_op dtop_stat_init
  by unfold_locales (rule stat_init_wf)

interpretation value_only_init: search_op "\<lambda>w. dtop_value_only_init w name" for name
  by unfold_locales (rule value_only_init_wf)

lemma register_dual_line_ends: "register_dual_line name E s = Some r \<Longrightarrow> sound E s \<Longrightarrow> ends E (\<lambda>s. s) r"
  by (auto simp: register_dual_line_def bind_eq_Some_conv intro!: register_ends intro: dual_line_init_wf)

lemma cpu_stat_dpg_wf: "fresh_points w \<Longrightarrow> wf_dpg (cpu_stat_dpg w name)"
  using fresh_points_wf[of w 0] by (simp add: cpu_stat_dpg_def wf_dpg_def wf_dp_def)

lemma cpu_poll_helper_ends:
  assumes "cpu_poll_helper E file add n s = Some r" "sound E s"
  shows "ends E (\<lambda>s. s) r"
proof (rule for_loop_invar[where I = "ends E (\<lambda>s. s)"])
  show "for_loop (\<lambda>i. go_on (\<lambda>s. Some (construct_cpu_stat_dpg E (cpu_file file add i) s))) (nat n) 0 (Returns s) = Some r"
    using assms(1) by (simp add: cpu_poll_helper_def)
  show "ends E (\<lambda>s. s) (Returns s)" using assms(2) by simp
next
  fix i q q'
  assume "go_on (\<lambda>s. Some (construct_cpu_stat_dpg E (cpu_file file add i) s)) q = Some q'" "ends E (\<lambda>s. s) q"
  then show "ends E (\<lambda>s. s) q'"
    by (rule ends_go_on) (auto simp: construct_cpu_stat_dpg_def intro!: register_ends intro: cpu_stat_dpg_wf)
qed

lemma cpu_init_ends:
  assumes "dtop_cpu_stats_init E s = Some r" "sound E s"
  shows "ends E (\<lambda>s. s) r"
proof -
  obtain n s1 where s1: "dtop_cpu_search E s = (n, s1)" by (cases "dtop_cpu_search E s")
  then have "sound E s1" using assms(2) by (auto simp: dtop_cpu_search_def Let_def split: if_splits option.splits)
  moreover obtain q where q: "cpu_poll_helper E (cpu_dir @ ''cpu'') ''/cpufreq/scaling_cur_freq'' n s1 = Some q"
    "go_on (cpu_poll_helper E (cpu_dir @ ''cpu'') ''/online'' n) q = Some r"
    using assms(1) s1 by (auto simp: dtop_cpu_stats_init_def bind_eq_Some_conv)
  ultimately have "ends E (\<lambda>s. s) q" by (blast intro: cpu_poll_helper_ends)
  from ends_go_on[OF q(2) this] show ?thesis by (blast intro: cpu_poll_helper_ends)
qed

lemmas init_ends = register_dual_line_ends gen_init_ends cpu_init_ends
  single_line_init.registered meminfo_init.registered dev_init.registered stat_init.registered

lemma init_gatherers_ends:
  assumes "init_gatherers depth E s = Some r" "sound E s"
  shows "ends E (\<lambda>s. s) r"
proof -
  have step: "ends E (\<lambda>s. s) r'" if "go_on f r = Some r'" "ends E (\<lambda>s. s) r" "\<And>s r'. f s = Some r' \<Longrightarrow> sound E s \<Longrightarrow> ends E (\<lambda>s. s) r'" for f r r'
    using that by (rule ends_go_on)
  show ?thesis
    using assms unfolding init_gatherers_def bind_eq_Some_conv
    by (elim exE conjE) (drule register_dual_line_ends, assumption, (drule step, assumption, erule (1) init_ends)+)
qed

lemma init_gatherers_wf:
  assumes "init_gatherers depth E s = Some (Returns s')" "\<forall>c. fresh_points (e_world E c)" "wf_list s"
  shows "wf_list s'"
  using init_gatherers_ends[OF assms(1)] assms(2,3) by (simp add: sound_def)

text \<open>
  C13. Typing of the start: whatever the directories and files, every gatherer that the start of the
  program registers has as many data points as it says, each with values of the size of the union;
  and a poll of all gatherers, on any files, keeps it so, and keeps their identity.
\<close>

theorem datatop_gatherers_well_formed:
  assumes "init_gatherers depth E \<lparr>s_cwd = c, s_list = Null\<rparr> = Some (Returns s)" "\<forall>c. fresh_points (e_world E c)"
    and "dtop_poll (poll_dpg w) (s_list s) = Some list"
  shows "(\<forall>g \<in> set (list_data (s_list s)). wf_dpg g) \<and> list_all2 later (list_data (s_list s)) (list_data list) \<and>
    (\<forall>g \<in> set (list_data list). wf_dpg g)"
proof -
  have 0: "wf_list \<lparr>s_cwd = c, s_list = Null\<rparr>" by (simp add: wf_list_def)
  from init_gatherers_wf[OF assms(1,2) 0] have wf: "\<forall>g \<in> set (list_data (s_list s)). wf_dpg g" by (simp add: wf_list_def)
  have l: "list_all2 later (list_data (s_list s)) (list_data list)" by (rule dispatch.poll_all[OF assms(3) wf])
  show ?thesis using wf l later_list_wf[OF l wf] by blast
qed

definition bare_dirs :: "string list \<Rightarrow> dirs" where
  "bare_dirs cpus = \<lparr>e_getcwd = \<lambda>_. True, e_opendir = (\<lambda>c p. if p = cpu_dir then Some cpus else None),
     e_chdir = (\<lambda>c p. Some p), e_stat = (\<lambda>c n. Some Directory), e_world = (\<lambda>_. (one_file ''f'' [])\<lparr>w_file := \<lambda>_. Some []\<rparr>),
     e_node = (\<lambda>n. int n + 1)\<rparr>"

lemma bare_dirs_fresh: "\<forall>c. fresh_points (e_world (bare_dirs cpus) c)"
  by (simp add: bare_dirs_def fresh_points_def one_file_def)

lemmas start_defs = init_gatherers_def register_dual_line_def dtop_dual_line_init_def dtop_get_file_line_amount_def bare_dirs_def one_file_def
  dtop_dual_line_search_def dt_read_file_def dtop_register_def register_search_def dtop_single_line_init_def dtop_single_line_search_def
  dtop_gen_init_def dtop_meminfo_init_def dtop_meminfo_search_def dtop_dev_init_def dtop_dev_search_def dtop_stat_init_def
  dtop_stat_search_def dtop_cpu_stats_init_def dtop_cpu_search_def chdir_def cpu_poll_helper_def

lemma bare_dirs_init:
  "init_gatherers (Suc 0) (bare_dirs [''cpu0'']) \<lparr>s_cwd = ''/'', s_list = Null\<rparr> =
     Some (Returns \<lparr>s_cwd = ''/'', s_list = Node 2 (cpu_stat_dpg (one_file ''f'' []) (cpu_file (cpu_dir @ ''cpu'') ''/online'' 0))
       (Node 1 (cpu_stat_dpg (one_file ''f'' []) (cpu_file (cpu_dir @ ''cpu'') ''/cpufreq/scaling_cur_freq'' 0)) Null)\<rparr>)"
  by (simp add: start_defs is_cpu_def isdigit_def construct_cpu_stat_dpg_def dtop_add_linked_list_def cpu_stat_dpg_def Let_def)

lemma bare_dirs_init_none:
  "init_gatherers (Suc 0) (bare_dirs []) \<lparr>s_cwd = ''/'', s_list = Null\<rparr> = Some (Returns \<lparr>s_cwd = ''/'', s_list = Null\<rparr>)"
  by (simp add: start_defs Let_def)

theorem datatop_gatherers_well_formed_witness:
  "\<exists>s. init_gatherers 1 (bare_dirs [''cpu0'']) \<lparr>s_cwd = ''/'', s_list = Null\<rparr> = Some (Returns s) \<and> length (list_data (s_list s)) = 2 \<and>
    (\<forall>g \<in> set (list_data (s_list s)). wf_dpg g)"
proof -
  obtain s where s: "init_gatherers (Suc 0) (bare_dirs [''cpu0'']) \<lparr>s_cwd = ''/'', s_list = Null\<rparr> = Some (Returns s)" "length (list_data (s_list s)) = 2"
    "dtop_poll (poll_dpg (one_file ''f'' [])) (s_list s) = Some (s_list s)"
    using bare_dirs_init by (force simp: poll_dpg_def dtop_value_only_poll_def cpu_stat_dpg_def one_file_def cpu_file_def c_str_def)
  show ?thesis using datatop_gatherers_well_formed[OF s(1) bare_dirs_fresh s(3)] s(1,2) by auto
qed

section \<open>Two polls and the difference\<close>

lemma dtop_poll_nth:
  "dtop_poll P list = Some list' \<Longrightarrow> length (list_data list') = length (list_data list) \<and>
     (\<forall>i < length (list_data list). \<exists>rc. P (list_data list ! i) = Some (rc, list_data list' ! i))"
proof (induction list arbitrary: list')
  case (Node a g next_ptr)
  then show ?case by (fastforce simp: bind_eq_Some_conv less_Suc_eq_0_disj)
qed simp

text \<open>A gatherer of values that has not been polled, and a line of numbers for it that fit \<open>int64_t\<close>.\<close>

definition new_values :: "dpg \<Rightarrow> bool" where
  "new_values g \<longleftrightarrow> (g_poll g = Gen \<or> g_poll g = ValueOnly) \<and> (\<forall>dp \<in> set (g_points g). dp_type dp = DTOP_ULONG \<and> \<not> dp_populated dp)"

definition shows_numbers :: "world \<Rightarrow> dpg \<Rightarrow> nat list \<Rightarrow> bool" where
  "shows_numbers w g vs \<longleftrightarrow> (\<exists>s. holds_line w (g_file g) s \<and> fields is_sep s = map (show_nat 10) vs) \<and>
     length vs = g_len g \<and> (\<forall>v \<in> set vs. v < 2 ^ 63)"

lemma poll_numbers:
  assumes "shows_numbers w g vs" "wf_dpg g" "g_poll g = Gen \<or> g_poll g = ValueOnly" "\<forall>dp \<in> set (g_points g). dp_type dp = DTOP_ULONG"
  obtains dps where "poll_dpg w g = Some (DTOP_POLL_OK, g\<lparr>g_points := dps\<rparr>)" "length dps = length vs"
    "\<And>j. j < length vs \<Longrightarrow> wf_dp (dps ! j) \<and> dp_populated (dps ! j) \<and> dp_type (dps ! j) = DTOP_ULONG \<and>
       d_ulong (dp_data (dps ! j)) = of_nat (vs ! j) \<and>
       d_ulong (dp_initial (dps ! j)) = (if dp_populated (g_points g ! j) then d_ulong (dp_initial (g_points g ! j)) else of_nat (vs ! j))"
proof -
  obtain s where s: "holds_line w (g_file g) s" "fields is_sep s = map (show_nat 10) vs" using assms(1) by (auto simp: shows_numbers_def)
  have v: "\<forall>v \<in> set vs. v < 2 ^ 64" "length vs = g_len g" using assms(1) by (auto simp: shows_numbers_def)
  obtain dps where d: "poll_values (g_poll g = Gen) w g = Some (DTOP_POLL_OK, g\<lparr>g_points := dps\<rparr>)" "length dps = length vs"
    "\<And>j. j < length vs \<Longrightarrow> dtop_store_dp (g_points g ! j) (show_nat 10 (vs ! j)) = Some (dps ! j)"
    using poll_values_stores[OF s v(1) assms(2) v(2) assms(4)] by blast
  have "wf_dp (dps ! j) \<and> dp_populated (dps ! j) \<and> dp_type (dps ! j) = DTOP_ULONG \<and> d_ulong (dp_data (dps ! j)) = of_nat (vs ! j) \<and>
      d_ulong (dp_initial (dps ! j)) = (if dp_populated (g_points g ! j) then d_ulong (dp_initial (g_points g ! j)) else of_nat (vs ! j))"
    if j: "j < length vs" for j
  proof -
    have dp: "wf_dp (g_points g ! j)" "dp_type (g_points g ! j) = DTOP_ULONG" "vs ! j < 2 ^ 64"
      using assms(2,4) v j by (simp_all add: wf_dpg_def)
    show ?thesis using store_ulong[OF dp(1,2) sscanf_lu_show[OF dp(3)]] d(3)[OF j] dp(2) by auto
  qed
  moreover have "poll_dpg w g = poll_values (g_poll g = Gen) w g"
    using assms(3) by (auto simp: poll_dpg_def poll_values_def)
  ultimately show thesis using that d(1,2) by auto
qed

lemma two_polls_difference:
  assumes "wf_dpg g" "new_values g" "shows_numbers w1 g vs1" "shows_numbers w2 g vs2"
    and "poll_dpg w1 g = Some (rc1, g1)" "poll_dpg w2 g1 = Some (rc2, g2)"
  shows "map snapshot_diff (g_points g2) = map2 (\<lambda>a b. Some (int b - int a)) vs1 vs2"
proof -
  have k: "g_poll g = Gen \<or> g_poll g = ValueOnly" "\<forall>dp \<in> set (g_points g). dp_type dp = DTOP_ULONG" "\<forall>dp \<in> set (g_points g). \<not> dp_populated dp"
    using assms(2) by (auto simp: new_values_def)
  have len: "length vs1 = length (g_points g)" "length vs2 = length (g_points g)" using assms(1,3,4) by (simp_all add: shows_numbers_def wf_dpg_def)
  obtain dps where d: "poll_dpg w1 g = Some (DTOP_POLL_OK, g\<lparr>g_points := dps\<rparr>)" "length dps = length vs1"
    "\<And>j. j < length vs1 \<Longrightarrow> wf_dp (dps ! j) \<and> dp_populated (dps ! j) \<and> dp_type (dps ! j) = DTOP_ULONG \<and>
       d_ulong (dp_data (dps ! j)) = of_nat (vs1 ! j) \<and>
       d_ulong (dp_initial (dps ! j)) = (if dp_populated (g_points g ! j) then d_ulong (dp_initial (g_points g ! j)) else of_nat (vs1 ! j))"
    using poll_numbers[OF assms(3,1) k(1,2)] by blast
  have g1: "g1 = g\<lparr>g_points := dps\<rparr>" using assms(5) d(1) by simp
  have "wf_dpg g1" "\<forall>dp \<in> set (g_points g1). dp_type dp = DTOP_ULONG" "shows_numbers w2 g1 vs2" "g_poll g1 = Gen \<or> g_poll g1 = ValueOnly"
    using d(2,3) len assms(1,4) k(1) by (auto simp: g1 wf_dpg_def in_set_conv_nth shows_numbers_def)
  then obtain es where e: "poll_dpg w2 g1 = Some (DTOP_POLL_OK, g1\<lparr>g_points := es\<rparr>)" "length es = length vs2"
    "\<And>j. j < length vs2 \<Longrightarrow> wf_dp (es ! j) \<and> dp_populated (es ! j) \<and> dp_type (es ! j) = DTOP_ULONG \<and>
       d_ulong (dp_data (es ! j)) = of_nat (vs2 ! j) \<and>
       d_ulong (dp_initial (es ! j)) = (if dp_populated (g_points g1 ! j) then d_ulong (dp_initial (g_points g1 ! j)) else of_nat (vs2 ! j))"
    using poll_numbers[of w2 g1 vs2] by blast
  have "snapshot_diff (es ! j) = Some (int (vs2 ! j) - int (vs1 ! j))" if j: "j < length vs2" for j
  proof -
    have b: "vs1 ! j < 2 ^ 63" "vs2 ! j < 2 ^ 63" using assms(3,4) j len by (simp_all add: shows_numbers_def)
    then have s: "sint (of_nat (vs1 ! j) :: u64) = int (vs1 ! j)" "sint (of_nat (vs2 ! j) :: u64) = int (vs2 ! j)"
      using signed_range[of "int (vs1 ! j)"] signed_range[of "int (vs2 ! j)"] by simp_all
    have "d_ulong (dp_data (es ! j)) = of_nat (vs2 ! j)" "d_ulong (dp_initial (es ! j)) = of_nat (vs1 ! j)" "dp_type (es ! j) = DTOP_ULONG"
      using d(3)[of j] e(3)[OF j] j len k(3) by (simp_all add: g1)
    then show ?thesis using s b by (simp add: snapshot_diff_def)
  qed
  then show ?thesis using e(1,2) assms(6) len by (auto intro!: nth_equalityI)
qed

text \<open>The differences of points with names of their own can be printed.\<close>

definition printable :: "dpg \<Rightarrow> bool" where
  "printable g \<longleftrightarrow> (\<forall>dp \<in> set (g_points g). dp_prefix dp = None \<and> (case dp_name dp of Own n \<Rightarrow> True | At p \<Rightarrow> False))"

lemma later_points_keep:
  assumes "list_all2 later_dp ps qs" "\<forall>dp \<in> set ps. P (dp_name dp) (dp_prefix dp)"
  shows "\<forall>dp \<in> set qs. P (dp_name dp) (dp_prefix dp)"
  using assms by (induction rule: list_all2_induct) (auto simp: later_dp_def)

lemma points_diff_defined:
  assumes "i + n \<le> length (g_points g)" "printable g" "\<forall>dp \<in> set (g_points g). snapshot_diff dp \<noteq> None"
  shows "\<exists>d. points_diff g n i = Some d"
  using assms(1)
proof (induction n arbitrary: i)
  case (Suc n)
  have i: "g_points g ! i \<in> set (g_points g)" using Suc.prems by simp
  have "dp_prefix (g_points g ! i) = None" "\<exists>m. dp_name (g_points g ! i) = Own m"
    using bspec[OF assms(2)[unfolded printable_def] i] by (auto split: text_ref.splits)
  then have "\<exists>t. dtop_handle_dp_type_for_snapshot g (g_points g ! i) = Some t"
    using assms(3) i by (auto simp: dtop_handle_dp_type_for_snapshot_def dtop_format_text_for_snapshot_def text_of_def)
  then obtain t where "dtop_handle_dp_type_for_snapshot g (g_points g ! i) = Some t" by blast
  moreover obtain d where "points_diff g n (Suc i) = Some d" using Suc.IH[of "Suc i"] Suc.prems by auto
  ultimately show ?case using Suc.prems by (simp add: point_at_def)
qed simp

lemma differences_defined:
  assumes "\<forall>g \<in> set (list_data list). wf_dpg g \<and> printable g \<and> (\<forall>dp \<in> set (g_points g). snapshot_diff dp \<noteq> None)"
  shows "\<exists>d. dtop_print_snapshot_diff list = Some d"
proof -
  have "\<exists>d. gatherers_diff list = Some d" using assms
  proof (induction list)
    case (Node a g next_ptr)
    then show ?case using points_diff_defined[of 0 "g_len g" g] by (fastforce simp: wf_dpg_def)
  qed simp
  then show ?thesis by (auto simp: dtop_print_snapshot_diff_def)
qed

lemma later_printable: "later g g' \<Longrightarrow> printable g \<Longrightarrow> printable g'"
  unfolding later_def printable_def
  using later_points_keep[of "g_points g" "g_points g'" "\<lambda>n p. p = None \<and> (case n of Own m \<Rightarrow> True | At q \<Rightarrow> False)"] by blast

text \<open>When all gatherers are of files of numbers, two polls and the differences are defined.\<close>

lemma polls_defined:
  assumes "\<forall>g \<in> set (list_data list). wf_dpg g \<and> new_values g \<and> printable g \<and> (\<exists>vs. shows_numbers w1 g vs) \<and> (\<exists>vs. shows_numbers w2 g vs)"
  shows "\<exists>l1 l2 d. dtop_poll (poll_dpg w1) list = Some l1 \<and> dtop_poll (poll_dpg w2) l1 = Some l2 \<and> dtop_print_snapshot_diff l2 = Some d"
proof -
  have one: "\<exists>g1 g2. poll_dpg w1 g = Some (DTOP_POLL_OK, g1) \<and> poll_dpg w2 g1 = Some (DTOP_POLL_OK, g2) \<and> wf_dpg g2 \<and> printable g2 \<and>
      (\<forall>dp \<in> set (g_points g2). snapshot_diff dp \<noteq> None)" if g: "g \<in> set (list_data list)" for g
  proof -
    obtain vs1 vs2 where h: "wf_dpg g" "new_values g" "printable g" "shows_numbers w1 g vs1" "shows_numbers w2 g vs2" using assms g by blast
    have t: "g_poll g = Gen \<or> g_poll g = ValueOnly" "\<forall>dp \<in> set (g_points g). dp_type dp = DTOP_ULONG" using h(2) by (auto simp: new_values_def)
    obtain dps where p1: "poll_dpg w1 g = Some (DTOP_POLL_OK, g\<lparr>g_points := dps\<rparr>)" "length dps = length vs1"
      "\<And>j. j < length vs1 \<Longrightarrow> wf_dp (dps ! j) \<and> dp_type (dps ! j) = DTOP_ULONG"
      using poll_numbers[OF h(4,1) t] by metis
    let ?g1 = "g\<lparr>g_points := dps\<rparr>"
    have g1: "wf_dpg ?g1" "\<forall>dp \<in> set (g_points ?g1). dp_type dp = DTOP_ULONG" "shows_numbers w2 ?g1 vs2" "g_poll ?g1 = Gen \<or> g_poll ?g1 = ValueOnly"
      using p1(2,3) h(1,4,5) t(1) by (auto simp: wf_dpg_def in_set_conv_nth shows_numbers_def)
    obtain es where p2: "poll_dpg w2 ?g1 = Some (DTOP_POLL_OK, ?g1\<lparr>g_points := es\<rparr>)"
      using poll_numbers[OF g1(3,1,4,2)] by metis
    have l: "later g ?g1" "later ?g1 (?g1\<lparr>g_points := es\<rparr>)" using dispatch.step[OF p1(1) h(1)] dispatch.step[OF p2 g1(1)] by simp_all
    have "map snapshot_diff es = map2 (\<lambda>a b. Some (int b - int a)) vs1 vs2"
      using two_polls_difference[OF h(1,2,4,5) p1(1) p2] by simp
    then have "snapshot_diff dp \<noteq> None" if "dp \<in> set es" for dp
      using that by (metis (no_types, lifting) in_set_conv_nth length_map nth_map case_prod_beta option.distinct(1))
    then show ?thesis using p1(1) p2 later_wf[OF l(2) g1(1)] later_printable[OF l(2) later_printable[OF l(1) h(3)]] by auto
  qed
  have "\<exists>l1 l2. dtop_poll (poll_dpg w1) list = Some l1 \<and> dtop_poll (poll_dpg w2) l1 = Some l2 \<and>
      (\<forall>g \<in> set (list_data l2). wf_dpg g \<and> printable g \<and> (\<forall>dp \<in> set (g_points g). snapshot_diff dp \<noteq> None))"
    using one
  proof (induction list)
    case (Node a g next_ptr)
    then obtain l1 l2 where "dtop_poll (poll_dpg w1) next_ptr = Some l1" "dtop_poll (poll_dpg w2) l1 = Some l2"
      "\<forall>g \<in> set (list_data l2). wf_dpg g \<and> printable g \<and> (\<forall>dp \<in> set (g_points g). snapshot_diff dp \<noteq> None)" by fastforce
    moreover from Node.prems obtain g1 g2 where "poll_dpg w1 g = Some (DTOP_POLL_OK, g1)" "poll_dpg w2 g1 = Some (DTOP_POLL_OK, g2)"
      "wf_dpg g2 \<and> printable g2 \<and> (\<forall>dp \<in> set (g_points g2). snapshot_diff dp \<noteq> None)" by fastforce
    ultimately show ?case by fastforce
  qed simp
  then show ?thesis using differences_defined by blast
qed

section \<open>A run without options\<close>

definition default_opts :: cli_opts where
  "default_opts = dtop_load_default_options\<lparr>poll_time := POLL_TIME_DEFAULT, poll_per := DEFAULT_POLL_INTERVAL\<rparr>"

lemma parse_no_options: "dtop_parse_cli_opts w ts [] dtop_load_default_options = Some (PARSE_SUCCESS, default_opts, [])"
  by (simp add: dtop_parse_cli_opts_def default_opts_def dtop_load_default_options_def)

lemma default_opts_simps [simp]:
  "\<not> iptables_rules_routes default_opts" "\<not> print_cl default_opts" "\<not> print_csv default_opts" "snapshot_file default_opts = None"
  by (simp_all add: default_opts_def dtop_load_default_options_def)

lemma deconstruct_all: "deconstruct_dpgs list = list_data list"
  by (induction list) auto

fun node_addresses :: "'a dtop_linked_list \<Rightarrow> int list" where
  "node_addresses Null = []"
| "node_addresses (Node a g next_ptr) = a # node_addresses next_ptr"

lemma rem_all: "dtop_rem_linked_list list = node_addresses list"
  by (induction list) auto

lemma dtop_poll_addresses: "dtop_poll P list = Some list' \<Longrightarrow> node_addresses list' = node_addresses list"
  by (induction list arbitrary: list') (auto simp: bind_eq_Some_conv)

lemma main_default:
  assumes "t_argv T = []" "init_gatherers (t_depth T) (t_dirs T) \<lparr>s_cwd = t_cwd T, s_list = Null\<rparr> = Some (Returns s)"
    and "dtop_poll (poll_dpg (t_first T)) (s_list s) = Some l1" "dtop_poll (poll_dpg (t_second T)) l1 = Some l2"
    and "dtop_print_snapshot_diff l2 = Some d"
  shows "\<exists>u so. datatop_main T = Some (Exit EXIT_SUCCESS, u) \<and> u_list u = l2 \<and> u_out u = so @ d \<and> u_table u = None \<and> u_snapshot u = None \<and>
    u_freed_dpgs u = list_data l2 \<and> u_freed_nodes u = node_addresses (s_list s)"
proof -
  have nodes: "node_addresses l2 = node_addresses (s_list s)"
    using dtop_poll_addresses[OF assms(3)] dtop_poll_addresses[OF assms(4)] by simp
  obtain u0 where u0: "datatop_main T = main_run T default_opts u0" "u_cwd u0 = t_cwd T" "u_table u0 = None" "u_snapshot u0 = None"
    "u_freed_dpgs u0 = []" "u_freed_nodes u0 = []"
    by (simp add: datatop_main_def parse_no_options assms(1) Let_def dtop_set_niceness_def say_def)
  show ?thesis
    using u0 assms(2-5) nodes
    by (simp add: main_run_def main_capture_def main_print_def main_table_def main_snapshot_def main_differences_def say_def
        release_def deconstruct_all rem_all)
qed

text \<open>
  C8. The program without options, end to end, as far as it is defined: suppose the start registers its
  gatherers, in fresh memory, both polls are defined, and so is printing the differences after them.
  Then the program exits with success; the last thing it prints are those differences; for every
  gatherer of a file of values whose points are new and whose file holds, at both polls, a line of as
  many numbers below $2^{63}$ as the gatherer has points, its differences are the numbers of the second
  poll less those of the first; and every gatherer and every node of the list is freed, once and in
  order. (A poll is undefined, for example, when a line is shorter than its points need.)
\<close>

theorem datatop_default_run:
  assumes "t_argv T = []" "init_gatherers (t_depth T) (t_dirs T) \<lparr>s_cwd = t_cwd T, s_list = Null\<rparr> = Some (Returns s)"
    and "\<forall>c. fresh_points (e_world (t_dirs T) c)"
    and "dtop_poll (poll_dpg (t_first T)) (s_list s) = Some l1" "dtop_poll (poll_dpg (t_second T)) l1 = Some l2"
    and "dtop_print_snapshot_diff l2 = Some d"
  shows "\<exists>u so. datatop_main T = Some (Exit EXIT_SUCCESS, u) \<and> u_out u = so @ d \<and>
    (\<forall>i vs1 vs2. i < length (list_data (s_list s)) \<longrightarrow> new_values (list_data (s_list s) ! i) \<longrightarrow>
      shows_numbers (t_first T) (list_data (s_list s) ! i) vs1 \<longrightarrow> shows_numbers (t_second T) (list_data (s_list s) ! i) vs2 \<longrightarrow>
      map snapshot_diff (g_points (list_data (u_list u) ! i)) = map2 (\<lambda>a b. Some (int b - int a)) vs1 vs2) \<and>
    u_freed_dpgs u = list_data (u_list u) \<and> u_freed_nodes u = node_addresses (s_list s)"
proof -
  have 0: "wf_list \<lparr>s_cwd = t_cwd T, s_list = Null\<rparr>" by (simp add: wf_list_def)
  have "map snapshot_diff (g_points (list_data l2 ! i)) = map2 (\<lambda>a b. Some (int b - int a)) vs1 vs2"
    if i: "i < length (list_data (s_list s))" "new_values (list_data (s_list s) ! i)"
      and n: "shows_numbers (t_first T) (list_data (s_list s) ! i) vs1" "shows_numbers (t_second T) (list_data (s_list s) ! i) vs2" for i vs1 vs2
  proof -
    from init_gatherers_wf[OF assms(2,3) 0] have wf: "wf_dpg (list_data (s_list s) ! i)" using i(1) by (simp add: wf_list_def)
    obtain rc1 where p1: "poll_dpg (t_first T) (list_data (s_list s) ! i) = Some (rc1, list_data l1 ! i)" "length (list_data l1) = length (list_data (s_list s))"
      using dtop_poll_nth[OF assms(4)] i(1) by blast
    obtain rc2 where p2: "poll_dpg (t_second T) (list_data l1 ! i) = Some (rc2, list_data l2 ! i)"
      using dtop_poll_nth[OF assms(5)] i(1) p1(2) by auto
    show ?thesis by (rule two_polls_difference[OF wf i(2) n p1(1) p2])
  qed
  then show ?thesis using main_default[OF assms(1,2,4-6)] by fastforce
qed

definition all_files :: "string \<Rightarrow> world" where
  "all_files content = (one_file ''f'' [])\<lparr>w_file := \<lambda>_. Some content\<rparr>"

definition sample_top :: "(char \<times> string) list \<Rightarrow> top" where
  "sample_top as = \<lparr>t_version = ''1.0.4'', t_argv = as, t_stamp = ''ts'', t_nice = 19, t_dirs = bare_dirs [''cpu0''], t_cwd = ''/'', t_depth = 1,
     t_ip_nodes = (\<lambda>i. int i + 1), t_thread = True, t_terminal = (\<lambda>_ _. True), t_shown = all_files (''7'' @ [NL]), t_csv = (\<lambda>_ _. True),
     t_started = (0, 0), t_itime = 0, t_rounds = [], t_append = (\<lambda>_ _. True), t_child = (\<lambda>_ _. Ran [] 0),
     t_first = all_files (''7'' @ [NL]), t_second = all_files (''12'' @ [NL])\<rparr>"

lemma cpu_stat_dpg_new: "wf_dpg (cpu_stat_dpg (one_file ''f'' []) name) \<and> new_values (cpu_stat_dpg (one_file ''f'' []) name) \<and>
    printable (cpu_stat_dpg (one_file ''f'' []) name)"
  using cpu_stat_dpg_wf[of "one_file ''f'' []"] by (simp add: fresh_points_def one_file_def new_values_def printable_def cpu_stat_dpg_def)

lemma all_files_numbers:
  "shows_numbers (all_files (''7'' @ [NL])) (cpu_stat_dpg w name) [7]" "shows_numbers (all_files (''12'' @ [NL])) (cpu_stat_dpg w name) [12]"
proof -
  have "fields is_sep ''7'' = map (show_nat 10) [7]" "fields is_sep ''12'' = map (show_nat 10) [12]" by code_simp+
  moreover have "holds_line (all_files (''7'' @ [NL])) f ''7''" "holds_line (all_files (''12'' @ [NL])) f ''12''" for f
    by (simp_all add: holds_line_def all_files_def one_file_def)
  ultimately show "shows_numbers (all_files (''7'' @ [NL])) (cpu_stat_dpg w name) [7]"
    "shows_numbers (all_files (''12'' @ [NL])) (cpu_stat_dpg w name) [12]"
    unfolding shows_numbers_def by (fastforce simp: cpu_stat_dpg_def)+
qed

theorem datatop_default_run_witness:
  "\<exists>u. datatop_main (sample_top []) = Some (Exit EXIT_SUCCESS, u) \<and> map snapshot_diff (g_points (list_data (u_list u) ! 1)) = [Some 5] \<and>
    u_freed_nodes u = [2, 1]"
proof -
  let ?T = "sample_top []"
  obtain s where s: "init_gatherers (t_depth ?T) (t_dirs ?T) \<lparr>s_cwd = t_cwd ?T, s_list = Null\<rparr> = Some (Returns s)"
    "length (list_data (s_list s)) = 2" "node_addresses (s_list s) = [2, 1]" "\<forall>g \<in> set (list_data (s_list s)). \<exists>n. g = cpu_stat_dpg (one_file ''f'' []) n"
    using bare_dirs_init by (auto simp: sample_top_def)
  have fresh: "\<forall>c. fresh_points (e_world (t_dirs ?T) c)" using bare_dirs_fresh by (simp add: sample_top_def)
  have all: "\<forall>g \<in> set (list_data (s_list s)). wf_dpg g \<and> new_values g \<and> printable g \<and> shows_numbers (t_first ?T) g [7] \<and> shows_numbers (t_second ?T) g [12]"
    using s(4) cpu_stat_dpg_new all_files_numbers by (fastforce simp: sample_top_def)
  then obtain l1 l2 d where d: "dtop_poll (poll_dpg (t_first ?T)) (s_list s) = Some l1" "dtop_poll (poll_dpg (t_second ?T)) l1 = Some l2"
    "dtop_print_snapshot_diff l2 = Some d" using polls_defined[of "s_list s" "t_first ?T" "t_second ?T"] by blast
  have "new_values (list_data (s_list s) ! 1)" "shows_numbers (t_first ?T) (list_data (s_list s) ! 1) [7]"
    "shows_numbers (t_second ?T) (list_data (s_list s) ! 1) [12]" using all s(2) by simp_all
  moreover have "t_argv ?T = []" by (simp add: sample_top_def)
  then obtain u where "datatop_main ?T = Some (Exit EXIT_SUCCESS, u)" "u_freed_nodes u = [2, 1]"
    "\<forall>i vs1 vs2. i < length (list_data (s_list s)) \<longrightarrow> new_values (list_data (s_list s) ! i) \<longrightarrow>
      shows_numbers (t_first ?T) (list_data (s_list s) ! i) vs1 \<longrightarrow> shows_numbers (t_second ?T) (list_data (s_list s) ! i) vs2 \<longrightarrow>
      map snapshot_diff (g_points (list_data (u_list u) ! i)) = map2 (\<lambda>a b. Some (int b - int a)) vs1 vs2"
    using datatop_default_run[OF _ s(1) fresh d] s(3) by auto
  ultimately show ?thesis using s(2) by (intro exI[of _ u]) force
qed

section \<open>The exit status\<close>

definition clean :: "run \<Rightarrow> bool" where
  "clean u \<longleftrightarrow> u_table u = None \<and> u_freed_nodes u = [] \<and> u_freed_dpgs u = []"

definition released :: "run \<Rightarrow> bool" where
  "released u \<longleftrightarrow> u_freed_nodes u = node_addresses (u_list u) \<and> u_freed_dpgs u = list_data (u_list u)"

lemma release_spec: "u_freed_nodes u = [] \<Longrightarrow> u_freed_dpgs u = [] \<Longrightarrow> released (release u)"
  by (simp add: released_def release_def deconstruct_all rem_all)

text \<open>There is no memory for a node of one of the gatherers asked for.\<close>

definition no_node :: "top \<Rightarrow> cli_opts \<Rightarrow> bool" where
  "no_node T opts \<longleftrightarrow> out_of_nodes (t_dirs T) \<or> iptables_rules_routes opts \<and> (\<exists>n. t_ip_nodes T n = 0)"

lemma ip_table_init_exits: "dtop_ip_table_init dir M = Some (Exits status) \<Longrightarrow> status = EXIT_FAILURE \<and> (\<exists>n. M n = 0)"
  unfolding dtop_ip_table_init_def
  by (drule for_loop_invar[where I = "\<lambda>r. \<forall>status. r = Exits status \<longrightarrow> status = EXIT_FAILURE \<and> (\<exists>n. M n = 0)", rotated])
    (auto simp: go_on_def construct_ip_table_dpg_def dtop_ip_table_register_def dtop_add_linked_list_def split: call.splits if_splits)

lemma main_capture_ends:
  assumes "main_capture T opts u = Some (stop, u')" "clean u"
  shows "clean u' \<and> (stop = Continue \<or> stop = Exit EXIT_FAILURE \<and> no_node T opts)"
proof (cases "iptables_rules_routes opts")
  case False
  then show ?thesis using assms by (simp add: main_capture_def)
next
  case True
  then obtain r where r: "dtop_ip_table_init (out_dir opts) (t_ip_nodes T) = Some r"
    using assms(1) by (auto simp: main_capture_def bind_eq_Some_conv Let_def)
  show ?thesis
  proof (cases r)
    case (Returns list)
    then show ?thesis using assms True r by (auto simp: main_capture_def Let_def say_def clean_def)
  next
    case (Exits status)
    then show ?thesis using assms True r ip_table_init_exits by (auto simp: main_capture_def Let_def say_def clean_def no_node_def)
  qed
qed

lemma main_print_clean: "main_print T opts u = Some u' \<Longrightarrow> clean u \<Longrightarrow> clean u'"
  by (auto simp: main_print_def bind_eq_Some_conv clean_def split: if_splits)

lemma main_differences_keeps:
  "main_differences T opts u = Some u' \<Longrightarrow> u_freed_nodes u' = u_freed_nodes u \<and> u_freed_dpgs u' = u_freed_dpgs u \<and> u_table u' = u_table u"
  by (auto simp: main_differences_def bind_eq_Some_conv Let_def say_def split: if_splits)

lemma main_snapshot_continues:
  "\<exists>f. main_snapshot T opts u = (Continue, u\<lparr>u_snapshot := f\<rparr>) \<or> main_snapshot T opts u = (Continue, u)"
  by (auto simp: main_snapshot_def dtop_print_system_snapshot_def Let_def split: option.split)

definition cannot_open :: "top \<Rightarrow> cli_opts \<Rightarrow> run \<Rightarrow> bool" where
  "cannot_open T opts u \<longleftrightarrow>
    (\<exists>fw. file_name opts = Some fw \<and> dtop_open_writing_file (e_world (t_dirs T) (u_cwd u)) fw \<noteq> VALID)"

lemma main_table_ends:
  assumes "main_table T opts u = Some (stop, u')" "clean u"
  shows "stop = Continue \<and> u_freed_nodes u' = [] \<and> u_freed_dpgs u' = [] \<or>
    print_csv opts \<and> (stop = Exit EXIT_FAILURE \<and> clean u' \<and> cannot_open T opts u' \<or>
      stop = Exit EXIT_FAILURE \<and> u_table u' \<noteq> None \<and> released u' \<or>
      stop = Polling \<and> u_table u' \<noteq> None \<and> u_freed_nodes u' = [] \<and> u_freed_dpgs u' = [])"
proof (cases "print_csv opts")
  case False
  then show ?thesis using assms by (simp add: main_table_def clean_def)
next
  case True
  then obtain fw where fw: "file_name opts = Some fw" using assms(1) by (cases "file_name opts") (simp_all add: main_table_def)
  show ?thesis
  proof (cases "dtop_open_writing_file (e_world (t_dirs T) (u_cwd u)) fw = VALID")
    case False
    then show ?thesis using True fw assms by (auto simp: main_table_def say_def clean_def cannot_open_def)
  next
    case ok: True
    let ?m = "[[NL] @ ''Data being polled for '' @ show_int (poll_time opts) @ '' seconds.'' @ [NL]]"
    obtain rc list out so where p: "dtop_poll_periodically (t_csv T) opts (t_started T) (t_itime T) (t_rounds T) (u_list u) = Some (rc, list, out, so)"
      using assms(1) True fw ok
      by (cases "dtop_poll_periodically (t_csv T) opts (t_started T) (t_itime T) (t_rounds T) (u_list u)") (auto simp: main_table_def say_def Let_def)
    let ?u = "say so ((say ?m u)\<lparr>u_list := list, u_table := Some out\<rparr>)"
    have "(stop, u') = (case rc of None \<Rightarrow> (Polling, ?u) | Some rc \<Rightarrow> if rc = FILE_ERROR then (Exit EXIT_FAILURE, release ?u) else (Continue, ?u))"
      using assms(1) True fw ok p by (auto simp: main_table_def say_def Let_def split: option.splits)
    moreover have "u_freed_nodes ?u = []" "u_freed_dpgs ?u = []" "u_table ?u \<noteq> None" using assms(2) by (simp_all add: say_def clean_def)
    moreover from this have "released (release ?u)" "u_table (release ?u) \<noteq> None" using release_spec by (simp_all add: release_def)
    ultimately show ?thesis using True by (auto split: option.splits if_splits)
  qed
qed

text \<open>
  C32. How the program ends, from accepted options on and with nothing freed before, when what it does
  is defined: with success and everything freed; with failure, no table and nothing freed, when the
  table asked for cannot be opened or there is no memory for a node of a gatherer; or, when a table
  was asked for, with failure once its writing has begun and everything freed, or it is still polling
  and nothing is freed. There is no other ending, so that a snapshot that failed does not show.
\<close>

theorem datatop_exit_status:
  assumes "main_run T opts u0 = Some (e, u)" "clean u0"
  shows "e = Exit EXIT_SUCCESS \<and> released u \<or>
    e = Exit EXIT_FAILURE \<and> clean u \<and> (print_csv opts \<and> cannot_open T opts u \<or> no_node T opts) \<or>
    print_csv opts \<and> u_table u \<noteq> None \<and>
      (e = Exit EXIT_FAILURE \<and> released u \<or> e = Polling \<and> u_freed_nodes u = [] \<and> u_freed_dpgs u = [])"
proof -
  obtain r where r: "init_gatherers (t_depth T) (t_dirs T) \<lparr>s_cwd = u_cwd u0, s_list = Null\<rparr> = Some r"
    using assms(1) by (auto simp: main_run_def bind_eq_Some_conv)
  have start: "ends (t_dirs T) (\<lambda>s. s) r" by (rule init_gatherers_ends[OF r]) (simp add: sound_def wf_list_def)
  show ?thesis
  proof (cases r)
    case (Exits status)
    then show ?thesis using assms r start by (auto simp: main_run_def no_node_def)
  next
    case (Returns s)
    obtain stop u1 where u1: "main_capture T opts (u0\<lparr>u_cwd := s_cwd s, u_list := s_list s\<rparr>) = Some (stop, u1)"
      using assms(1) r Returns by (auto simp: main_run_def bind_eq_Some_conv Let_def)
    have c: "clean u1" "stop = Continue \<or> stop = Exit EXIT_FAILURE \<and> no_node T opts"
      using main_capture_ends[OF u1] assms(2) by (simp_all add: clean_def)
    show ?thesis
    proof (cases "stop = Continue")
      case False
      then show ?thesis using assms(1) r Returns u1 c by (auto simp: main_run_def Let_def)
    next
      case True
      then obtain u2 stop2 u3 where t: "main_print T opts u1 = Some u2" "main_table T opts u2 = Some (stop2, u3)"
        and rest: "(if stop2 \<noteq> Continue then Some (stop2, u3)
          else case main_snapshot T opts u3 of (stop, u) \<Rightarrow>
            if stop \<noteq> Continue then Some (stop, u)
            else do { u \<leftarrow> main_differences T opts u; Some (Exit EXIT_SUCCESS, release u) }) = Some (e, u)"
        using assms(1) r Returns u1 by (auto simp: main_run_def Let_def bind_eq_Some_conv)
      note t3 = main_table_ends[OF t(2) main_print_clean[OF t(1) c(1)]]
      show ?thesis
      proof (cases "stop2 = Continue")
        case True
        then obtain u4 u5 where "main_snapshot T opts u3 = (Continue, u4)" "u_freed_nodes u4 = [] \<and> u_freed_dpgs u4 = []"
          "main_differences T opts u4 = Some u5" "e = Exit EXIT_SUCCESS" "u = release u5"
          using rest t3 main_snapshot_continues[of T opts u3] by (auto simp: bind_eq_Some_conv)
        then show ?thesis using main_differences_keeps release_spec by metis
      qed (use rest t3 in auto)
    qed
  qed
qed

theorem datatop_exit_status_witness:
  "\<exists>u. main_run (sample_top []\<lparr>t_dirs := bare_dirs [], t_append := \<lambda>_ _. False\<rparr>) (default_opts\<lparr>snapshot_file := Some ''f''\<rparr>)
     \<lparr>u_cwd = ''/'', u_list = Null, u_out = [], u_table = None, u_snapshot = None, u_ip = None, u_freed_dpgs = [], u_freed_nodes = []\<rparr> =
       Some (Exit EXIT_SUCCESS, u) \<and> released u"
proof -
  let ?T = "sample_top []\<lparr>t_dirs := bare_dirs [], t_append := \<lambda>_ _. False\<rparr>"
  let ?o = "default_opts\<lparr>snapshot_file := Some ''f''\<rparr>"
  let ?u = "\<lparr>u_cwd = ''/'', u_list = Null, u_out = [], u_table = None, u_snapshot = None, u_ip = None, u_freed_dpgs = [], u_freed_nodes = []\<rparr>"
  have i: "init_gatherers (t_depth ?T) (t_dirs ?T) \<lparr>s_cwd = ''/'', s_list = Null\<rparr> = Some (Returns \<lparr>s_cwd = ''/'', s_list = Null\<rparr>)"
    using bare_dirs_init_none by (simp add: sample_top_def)
  have "\<not> poll_time_selected default_opts" by (simp add: default_opts_def dtop_load_default_options_def)
  then obtain u where r: "main_run ?T ?o ?u = Some (Exit EXIT_SUCCESS, u)"
    using i by (auto simp: main_run_def main_capture_def main_print_def main_table_def main_snapshot_def main_differences_def
        dtop_print_system_snapshot_def Let_def)
  have "clean ?u" by (simp add: clean_def)
  with datatop_exit_status[OF r] r show ?thesis by auto
qed

end
