(* ===== verification/Dt_Release.thy ===== *)
theory Dt_Release
  imports Main
begin

text \<open>
  The heap blocks of datatop's gatherers: the calls of \<open>malloc\<close> and \<open>free\<close> in the functions that
  search files and build gatherers, and in the deconstructors, in their order, as functions of what
  decides them: the numbers of lines and of data points, and how far reading the file gets. Blocks
  are named by the variables that hold them.
\<close>

datatype block = Vars | LineLen | LineLen2 | Lines | Lines2 | Line nat | Line2 nat | Buffer | Dict | PrefixDict | PerLine
  | Points | Name nat | NewName nat | Suffix nat | Prefix nat | File | Dir | Gatherer

datatype mem_event = Malloc block | Free block

text \<open>How \<open>dt_read_file\<close> ends: without a file, with an empty one, with data. Only the first frees the buffer.\<close>

datatype read_end = No_file | Empty_file | Data

definition dt_read_file_mem :: "read_end \<Rightarrow> mem_event list" where
  "dt_read_file_mem r = Malloc Buffer # (if r = No_file then [Free Buffer] else [])"

definition line_buffers :: "nat \<Rightarrow> mem_event list" where
  "line_buffers n = Malloc Lines # map (Malloc \<circ> Line) [0..<n]"

section \<open>Searches\<close>

definition single_line_mem :: "nat \<Rightarrow> read_end \<Rightarrow> mem_event list" where
  "single_line_mem n r = [Malloc Vars, Malloc LineLen] @ line_buffers n @ dt_read_file_mem r @
    (if r = Data then [Malloc Points, Malloc Gatherer, Free LineLen, Free Buffer] else [])"

definition meminfo_mem :: "nat \<Rightarrow> read_end \<Rightarrow> mem_event list" where
  "meminfo_mem n r = [Malloc Vars, Malloc LineLen] @ line_buffers n @ dt_read_file_mem r @
    (if r = Data then [Malloc Points, Malloc Gatherer, Free LineLen, Free Buffer] else [])"

definition dual_line_mem :: "nat \<Rightarrow> read_end \<Rightarrow> mem_event list" where
  "dual_line_mem n r = Malloc Vars #
    (if odd n then []
     else [Malloc LineLen, Malloc LineLen2, Malloc Lines, Malloc Lines2] @ concat (map (\<lambda>i. [Malloc (Line i), Malloc (Line2 i)]) [0..<n]) @
       [Malloc Dict, Malloc PrefixDict] @ dt_read_file_mem r @
       (if r = Data then [Malloc Points, Malloc Gatherer, Free LineLen, Free LineLen2, Free Dict, Free PrefixDict, Free Buffer] else []))"

text \<open>Line \<open>i\<close> of the processor statistics has \<open>cs ! i\<close> points; a name is made by way of a copy, and of a suffix unless it is alone.\<close>

definition stat_name_mem :: "bool \<Rightarrow> nat \<Rightarrow> mem_event list" where
  "stat_name_mem alone k =
    (if alone then [Malloc (NewName k), Malloc (Name k), Free (NewName k)]
     else [Malloc (Suffix k), Malloc (NewName k), Malloc (Name k), Free (NewName k), Free (Suffix k)])"

fun stat_names_mem :: "nat list \<Rightarrow> nat \<Rightarrow> mem_event list" where
  "stat_names_mem [] k = []"
| "stat_names_mem (c # cs) k = concat (map (stat_name_mem (c = 1)) [k..<k + c]) @ stat_names_mem cs (k + c)"

definition stat_mem :: "nat \<Rightarrow> nat list \<Rightarrow> read_end \<Rightarrow> mem_event list" where
  "stat_mem n cs r = [Malloc Vars, Malloc LineLen] @ line_buffers n @ dt_read_file_mem r @
    (if r = Data then Malloc PerLine # Malloc Points # stat_names_mem cs 0 @
       [Malloc Gatherer, Free PerLine, Free LineLen, Free Buffer] else [])"

text \<open>
  Sixteen points for every line after the two of the heading. With fewer lines than the heading the
  size is negative, so that \<open>malloc\<close> is asked for almost all memory and gives a null pointer, whose
  \<open>free\<close> does nothing.
\<close>

definition dev_points :: "nat \<Rightarrow> nat" where
  "dev_points n = 16 * (n - 2)"

definition dev_array :: "nat \<Rightarrow> block list" where
  "dev_array n = (if n < 2 then [] else [Points])"

definition dev_mem :: "nat \<Rightarrow> read_end \<Rightarrow> mem_event list" where
  "dev_mem n r = [Malloc Vars, Malloc LineLen] @ map Malloc (dev_array n) @ line_buffers n @ dt_read_file_mem r @
    (if r = Data then Malloc Gatherer # map (Malloc \<circ> Prefix) [0..<dev_points n] @ [Free LineLen, Free Buffer] else [])"

definition value_only_mem :: "nat \<Rightarrow> read_end \<Rightarrow> mem_event list" where
  "value_only_mem m r = Malloc File # dt_read_file_mem r @
    (if r = Data then Malloc Points # concat (map (\<lambda>i. [Malloc (NewName i), Malloc (Name i), Free (NewName i)]) [0..<m]) @
       [Malloc Gatherer, Free Buffer] else [Free File])"

text \<open>\<open>get_number_of_values\<close> frees its buffer unless the file is empty; \<open>m\<close> is what it returns.\<close>

definition gen_name_mem :: "nat \<Rightarrow> nat \<Rightarrow> mem_event list" where
  "gen_name_mem m i =
    (if m = 1 then [Malloc (Name i)]
     else [Malloc (Suffix i), Malloc (NewName i), Malloc (Name i), Free (Suffix i), Free (NewName i)])"

definition gen_mem :: "nat \<Rightarrow> read_end \<Rightarrow> mem_event list" where
  "gen_mem m r = [Malloc File, Malloc Gatherer, Malloc Dir] @ dt_read_file_mem r @ (if r = Data then [Free Buffer] else []) @
    (if r = Data \<and> m \<noteq> 0 then Malloc Points # concat (map (gen_name_mem m) [0..<m]) else [Free Dir, Free File, Free Gatherer])"

definition cpu_mem :: "mem_event list" where
  "cpu_mem = [Malloc File, Malloc Points, Malloc Gatherer, Malloc (Name 0)]"

section \<open>Polls\<close>

text \<open>Single line, meminfo and processor statistics files; dual line files; devices; files of values alone.\<close>

definition line_poll_mem :: "read_end \<Rightarrow> mem_event list" where
  "line_poll_mem r = Malloc LineLen # dt_read_file_mem r @ (if r = Data then [Free Buffer, Free LineLen] else [])"

definition dual_line_poll_mem :: "read_end \<Rightarrow> mem_event list" where
  "dual_line_poll_mem r = [Malloc LineLen, Malloc LineLen2, Malloc Dict, Malloc PrefixDict] @ dt_read_file_mem r @
    (if r = Data then [Free Buffer, Free LineLen, Free LineLen2, Free Dict, Free PrefixDict] else [])"

text \<open>The size of the dictionaries is two less than so many; for no lines that is negative again.\<close>

definition dev_dicts :: "nat \<Rightarrow> block list" where
  "dev_dicts n = (if n = 0 then [] else [Dict])"

definition dev_poll_mem :: "nat \<Rightarrow> read_end \<Rightarrow> mem_event list" where
  "dev_poll_mem n r = Malloc LineLen # map Malloc (dev_dicts n) @ dt_read_file_mem r @
    (if r = Data then [Free Buffer, Free LineLen] @ map Free (dev_dicts n) else [])"

definition value_poll_mem :: "read_end \<Rightarrow> mem_event list" where
  "value_poll_mem r = dt_read_file_mem r @ (if r = Data then [Free Buffer] else [])"

section \<open>Deconstructors\<close>

definition dtop_value_only_dpg_deconstructor :: "nat \<Rightarrow> mem_event list" where
  "dtop_value_only_dpg_deconstructor m = map (Free \<circ> Name) [0..<m] @ [Free Points, Free File, Free Gatherer]"

definition dtop_gen_dpg_deconstructor :: "nat \<Rightarrow> mem_event list" where
  "dtop_gen_dpg_deconstructor m = map (Free \<circ> Name) [0..<m] @ [Free Points, Free File, Free Dir, Free Gatherer]"

definition dtop_single_line_dpg_deconstructor :: "nat \<Rightarrow> mem_event list" where
  "dtop_single_line_dpg_deconstructor n = Free Points # map (Free \<circ> Line) [0..<n] @ [Free Lines, Free Vars, Free Gatherer]"

definition dtop_meminfo_dpg_deconstructor :: "nat \<Rightarrow> mem_event list" where
  "dtop_meminfo_dpg_deconstructor n = Free Points # map (Free \<circ> Line) [0..<n] @ [Free Lines, Free Vars, Free Gatherer]"

definition dtop_dual_line_dpg_deconstructor :: "nat \<Rightarrow> mem_event list" where
  "dtop_dual_line_dpg_deconstructor n =
    Free Points # concat (map (\<lambda>i. [Free (Line i), Free (Line2 i)]) [0..<n]) @ [Free Lines, Free Lines2, Free Vars, Free Gatherer]"

definition dtop_stat_dpg_deconstructor :: "nat \<Rightarrow> nat \<Rightarrow> mem_event list" where
  "dtop_stat_dpg_deconstructor n m =
    map (Free \<circ> Name) [0..<m] @ Free Points # map (Free \<circ> Line) [0..<n] @ [Free Lines, Free Vars, Free Gatherer]"

definition dtop_dev_dpg_deconstructor :: "nat \<Rightarrow> mem_event list" where
  "dtop_dev_dpg_deconstructor n =
    map (Free \<circ> Prefix) [0..<dev_points n] @ map Free (dev_array n) @ map (Free \<circ> Line) [0..<n] @ [Free Lines, Free Vars, Free Gatherer]"

section \<open>The heap\<close>

text \<open>The live blocks after a sequence; \<open>None\<close> when something is freed that is not live, or taken twice.\<close>

fun heap_run :: "mem_event list \<Rightarrow> block set \<Rightarrow> block set option" where
  "heap_run [] H = Some H"
| "heap_run (Malloc b # es) H = (if b \<in> H then None else heap_run es (insert b H))"
| "heap_run (Free b # es) H = (if b \<in> H then heap_run es (H - {b}) else None)"

lemma heap_run_append: "heap_run (es @ es') H = Option.bind (heap_run es H) (heap_run es')"
  by (induction es H rule: heap_run.induct) auto

lemma heap_run_mallocs:
  "distinct bs \<Longrightarrow> set bs \<inter> H = {} \<Longrightarrow> heap_run (map Malloc bs) H = Some (H \<union> set bs)"
  by (induction bs arbitrary: H) auto

lemma heap_run_frees: "distinct bs \<Longrightarrow> set bs \<subseteq> H \<Longrightarrow> heap_run (map Free bs) H = Some (H - set bs)"
proof (induction bs arbitrary: H)
  case (Cons b bs)
  have "set bs \<subseteq> H - {b}" "b \<in> H" "distinct bs" using Cons.prems by auto
  then have "heap_run (map Free bs) (H - {b}) = Some (H - {b} - set bs)" by (intro Cons.IH)
  moreover have "H - {b} - set bs = H - set (b # bs)" by auto
  ultimately show ?case using \<open>b \<in> H\<close> by simp
qed simp

lemma heap_run_malloc_map:
  assumes "inj f" "\<forall>k \<in> {i..<j}. f k \<notin> H"
  shows "heap_run (map (Malloc \<circ> f) [i..<j]) H = Some (H \<union> f ` {i..<j})"
proof -
  have "distinct (map f [i..<j])" using assms(1) by (simp add: distinct_map inj_on_subset[OF _ subset_UNIV])
  then show ?thesis using heap_run_mallocs[of "map f [i..<j]" H] assms(2) by (auto simp: disjoint_iff image_subset_iff)
qed

lemma heap_run_free_map:
  assumes "inj f" "\<forall>k \<in> {i..<j}. f k \<in> H"
  shows "heap_run (map (Free \<circ> f) [i..<j]) H = Some (H - f ` {i..<j})"
proof -
  have "distinct (map f [i..<j])" using assms(1) by (simp add: distinct_map inj_on_subset[OF _ subset_UNIV])
  then show ?thesis using heap_run_frees[of "map f [i..<j]" H] assms(2) by (auto simp: disjoint_iff image_subset_iff)
qed

text \<open>A loop each round of which leaves the blocks \<open>f k\<close> behind, and one that frees them.\<close>

lemma heap_run_gains:
  assumes "\<And>k H. B k \<inter> H = {} \<Longrightarrow> \<forall>k'. T k' \<inter> H = {} \<Longrightarrow> heap_run (g k) H = Some (H \<union> B k)"
    and "\<And>k k'. B k \<inter> T k' = {}" "\<And>k k'. k \<noteq> k' \<Longrightarrow> B k \<inter> B k' = {}"
    and "distinct ks" "(\<Union>k \<in> set ks. B k) \<inter> H = {}" "\<forall>k'. T k' \<inter> H = {}"
  shows "heap_run (concat (map g ks)) H = Some (H \<union> (\<Union>k \<in> set ks. B k))"
  using assms(4-6)
proof (induction ks arbitrary: H)
  case (Cons k ks)
  have "\<And>j. j \<in> set ks \<Longrightarrow> B j \<inter> B k = {}" using Cons.prems(1) assms(3) by (metis distinct.simps(2))
  then have "(\<Union>k \<in> set ks. B k) \<inter> (H \<union> B k) = {}" using Cons.prems(2) by (simp add: Int_Un_distrib Int_Un_distrib2) blast
  moreover have "\<forall>k'. T k' \<inter> (H \<union> B k) = {}" using Cons.prems(3) assms(2) by blast
  ultimately have "heap_run (concat (map g ks)) (H \<union> B k) = Some (H \<union> B k \<union> (\<Union>k \<in> set ks. B k))"
    using Cons.IH Cons.prems(1) by simp
  moreover have "heap_run (g k) H = Some (H \<union> B k)" by (rule assms(1)) (use Cons.prems(2,3) in \<open>simp_all add: Int_Un_distrib2\<close>)
  ultimately show ?case by (simp add: heap_run_append Un_assoc)
qed simp

lemma heap_run_loses:
  assumes "\<And>k H. B k \<subseteq> H \<Longrightarrow> heap_run (g k) H = Some (H - B k)" "\<And>k k'. k \<noteq> k' \<Longrightarrow> B k \<inter> B k' = {}"
    and "distinct ks" "(\<Union>k \<in> set ks. B k) \<subseteq> H"
  shows "heap_run (concat (map g ks)) H = Some (H - (\<Union>k \<in> set ks. B k))"
  using assms(3,4)
proof (induction ks arbitrary: H)
  case (Cons k ks)
  have "\<And>j. j \<in> set ks \<Longrightarrow> B j \<inter> B k = {}" using Cons.prems(1) assms(2) by (metis distinct.simps(2))
  then have "(\<Union>k \<in> set ks. B k) \<subseteq> H - B k" using Cons.prems(2) by auto
  then have "heap_run (concat (map g ks)) (H - B k) = Some (H - B k - (\<Union>k \<in> set ks. B k))"
    using Cons.IH Cons.prems(1) by simp
  moreover have "heap_run (g k) H = Some (H - B k)" by (rule assms(1)) (use Cons.prems(2) in simp)
  ultimately show ?case by (simp add: heap_run_append Diff_eq Int_assoc)
qed simp

lemma inj_blocks [simp]: "inj Line" "inj Line2" "inj Name" "inj Prefix"
  by (simp_all add: inj_def)

section \<open>Balance\<close>

lemma stat_names_run:
  "Name ` {k..<k + sum_list cs} \<inter> H = {} \<Longrightarrow> \<forall>i. NewName i \<notin> H \<and> Suffix i \<notin> H \<Longrightarrow>
     heap_run (stat_names_mem cs k) H = Some (H \<union> Name ` {k..<k + sum_list cs})"
proof (induction cs arbitrary: k H)
  case (Cons c cs)
  have new: "Name i \<notin> H" if "k \<le> i" "i < k + (c + sum_list cs)" for i using Cons.prems(1) that by (auto simp: disjoint_iff)
  have 1: "heap_run (concat (map (stat_name_mem (c = 1)) [k..<k + c])) H = Some (H \<union> (\<Union>i \<in> set [k..<k + c]. {Name i}))"
    by (rule heap_run_gains[where T = "\<lambda>i. {NewName i, Suffix i}"])
      (use new Cons.prems(2) in \<open>auto simp: stat_name_mem_def insert_commute\<close>)
  have "(\<Union>i \<in> set [k..<k + c]. {Name i}) = Name ` {k..<k + c}" by auto
  moreover have "heap_run (stat_names_mem cs (k + c)) (H \<union> Name ` {k..<k + c}) =
      Some (H \<union> Name ` {k..<k + c} \<union> Name ` {k + c..<k + c + sum_list cs})"
    by (rule Cons.IH) (use new Cons.prems(2) in auto)
  moreover have "{k..<k + c} \<union> {k + c..<k + c + sum_list cs} = {k..<k + (c + sum_list cs)}" by auto
  ultimately show ?case using 1 by (simp add: heap_run_append image_Un[symmetric] Un_assoc)
qed simp

lemma heap_run_pairs:
  assumes "\<forall>k. Line k \<notin> H \<and> Line2 k \<notin> H"
  shows "heap_run (concat (map (\<lambda>i. [Malloc (Line i), Malloc (Line2 i)]) [0..<n])) H = Some (H \<union> Line ` {0..<n} \<union> Line2 ` {0..<n})"
proof -
  have "heap_run (concat (map (\<lambda>i. [Malloc (Line i), Malloc (Line2 i)]) [0..<n])) H = Some (H \<union> (\<Union>k \<in> set [0..<n]. {Line k, Line2 k}))"
    by (rule heap_run_gains[where T = "\<lambda>i. {}"]) (use assms in auto)
  moreover have "H \<union> (\<Union>k \<in> set [0..<n]. {Line k, Line2 k}) = H \<union> Line ` {0..<n} \<union> Line2 ` {0..<n}" by auto
  ultimately show ?thesis by simp
qed

lemma heap_run_unpairs:
  assumes "\<forall>k \<in> {0..<n}. Line k \<in> H \<and> Line2 k \<in> H"
  shows "heap_run (concat (map (\<lambda>i. [Free (Line i), Free (Line2 i)]) [0..<n])) H = Some (H - Line ` {0..<n} - Line2 ` {0..<n})"
proof -
  have "heap_run (concat (map (\<lambda>i. [Free (Line i), Free (Line2 i)]) [0..<n])) H = Some (H - (\<Union>k \<in> set [0..<n]. {Line k, Line2 k}))"
    by (rule heap_run_loses) (use assms in auto)
  moreover have "H - (\<Union>k \<in> set [0..<n]. {Line k, Line2 k}) = H - Line ` {0..<n} - Line2 ` {0..<n}" by auto
  ultimately show ?thesis by simp
qed

lemma heap_run_names:
  assumes "\<And>k H. Name k \<notin> H \<Longrightarrow> \<forall>i. NewName i \<notin> H \<and> Suffix i \<notin> H \<Longrightarrow> heap_run (g k) H = Some (insert (Name k) H)"
    and "\<forall>i. Name i \<notin> H \<and> NewName i \<notin> H \<and> Suffix i \<notin> H"
  shows "heap_run (concat (map g [0..<n])) H = Some (H \<union> Name ` {0..<n})"
proof -
  have "heap_run (concat (map g [0..<n])) H = Some (H \<union> (\<Union>k \<in> set [0..<n]. {Name k}))"
    by (rule heap_run_gains[where T = "\<lambda>i. {NewName i, Suffix i}"]) (use assms in auto)
  moreover have "(\<Union>k \<in> set [0..<n]. {Name k}) = Name ` {0..<n}" by auto
  ultimately show ?thesis by simp
qed

lemma stat_names_run_0 [simp]:
  "\<forall>i. Name i \<notin> H \<and> NewName i \<notin> H \<and> Suffix i \<notin> H \<Longrightarrow>
     heap_run (stat_names_mem cs 0) H = Some (H \<union> Name ` {0..<sum_list cs})"
  using stat_names_run[of 0 cs H] by (auto simp: disjoint_iff)

lemmas heap_loops = heap_run_malloc_map heap_run_free_map heap_run_pairs heap_run_unpairs

lemma single_line_kept:
  "heap_run (single_line_mem n Data) {} = Some ({Vars, Lines, Points, Gatherer} \<union> Line ` {0..<n})"
  by (auto simp: single_line_mem_def line_buffers_def dt_read_file_mem_def heap_run_append heap_loops image_iff)

lemma meminfo_kept:
  "heap_run (meminfo_mem n Data) {} = Some ({Vars, Lines, Points, Gatherer} \<union> Line ` {0..<n})"
  using single_line_kept[of n] by (simp add: single_line_mem_def meminfo_mem_def)

lemma stat_kept:
  "heap_run (stat_mem n cs Data) {} = Some ({Vars, Lines, Points, Gatherer} \<union> Line ` {0..<n} \<union> Name ` {0..<sum_list cs})"
  by (auto simp: stat_mem_def line_buffers_def dt_read_file_mem_def heap_run_append heap_loops image_iff)

lemma dev_kept:
  "heap_run (dev_mem n Data) {} = Some ({Vars, Lines, Gatherer} \<union> set (dev_array n) \<union> Line ` {0..<n} \<union> Prefix ` {0..<dev_points n})"
  by (auto simp: dev_mem_def dev_array_def line_buffers_def dt_read_file_mem_def heap_run_append heap_loops image_iff)

lemma dual_line_kept:
  "even n \<Longrightarrow> heap_run (dual_line_mem n Data) {} =
     Some ({Vars, Lines, Lines2, Points, Gatherer} \<union> Line ` {0..<n} \<union> Line2 ` {0..<n})"
  by (auto simp: dual_line_mem_def dt_read_file_mem_def heap_run_append heap_loops image_iff)

lemma value_only_kept:
  "heap_run (value_only_mem m Data) {} = Some ({File, Points, Gatherer} \<union> Name ` {0..<m})"
proof -
  have "heap_run (concat (map (\<lambda>i. [Malloc (NewName i), Malloc (Name i), Free (NewName i)]) [0..<m])) H = Some (H \<union> Name ` {0..<m})"
    if "\<forall>i. Name i \<notin> H \<and> NewName i \<notin> H \<and> Suffix i \<notin> H" for H
    by (rule heap_run_names) (use that in \<open>auto simp: insert_commute\<close>)
  then show ?thesis by (auto simp: value_only_mem_def dt_read_file_mem_def heap_run_append)
qed

lemma gen_kept:
  assumes "m \<noteq> 0"
  shows "heap_run (gen_mem m Data) {} = Some ({File, Dir, Points, Gatherer} \<union> Name ` {0..<m})"
proof -
  have "heap_run (concat (map (gen_name_mem m) [0..<m])) H = Some (H \<union> Name ` {0..<m})"
    if "\<forall>i. Name i \<notin> H \<and> NewName i \<notin> H \<and> Suffix i \<notin> H" for H
    by (rule heap_run_names) (use that in \<open>auto simp: gen_name_mem_def insert_commute\<close>)
  then show ?thesis using assms by (auto simp: gen_mem_def dt_read_file_mem_def heap_run_append)
qed

lemma dev_released:
  "heap_run (dtop_dev_dpg_deconstructor n) ({Vars, Lines, Gatherer} \<union> set (dev_array n) \<union> Line ` {0..<n} \<union> Prefix ` {0..<dev_points n}) = Some {}"
  by (auto simp: dtop_dev_dpg_deconstructor_def dev_array_def heap_run_append heap_loops image_iff)

text \<open>
  C35. Every gatherer that is built is given back exactly: the blocks of a search that reads its file,
  followed by the gatherer's deconstructor, leave nothing, free nothing twice and nothing foreign,
  for every number of lines and of data points, in all the kinds of files.
\<close>

theorem dtop_gatherers_release:
  "heap_run (single_line_mem n Data @ dtop_single_line_dpg_deconstructor n) {} = Some {} \<and>
   heap_run (meminfo_mem n Data @ dtop_meminfo_dpg_deconstructor n) {} = Some {} \<and>
   heap_run (dual_line_mem (2 * n) Data @ dtop_dual_line_dpg_deconstructor (2 * n)) {} = Some {} \<and>
   heap_run (stat_mem n cs Data @ dtop_stat_dpg_deconstructor n (sum_list cs)) {} = Some {} \<and>
   heap_run (dev_mem n Data @ dtop_dev_dpg_deconstructor n) {} = Some {} \<and>
   heap_run (value_only_mem m Data @ dtop_value_only_dpg_deconstructor m) {} = Some {} \<and>
   heap_run (gen_mem (Suc m) Data @ dtop_gen_dpg_deconstructor (Suc m)) {} = Some {} \<and>
   heap_run (cpu_mem @ dtop_value_only_dpg_deconstructor 1) {} = Some {}"
proof (intro conjI)
  show "heap_run (single_line_mem n Data @ dtop_single_line_dpg_deconstructor n) {} = Some {}"
    by (auto simp: heap_run_append single_line_kept dtop_single_line_dpg_deconstructor_def heap_loops image_iff)
  show "heap_run (meminfo_mem n Data @ dtop_meminfo_dpg_deconstructor n) {} = Some {}"
    by (auto simp: heap_run_append meminfo_kept dtop_meminfo_dpg_deconstructor_def heap_loops image_iff)
  show "heap_run (dual_line_mem (2 * n) Data @ dtop_dual_line_dpg_deconstructor (2 * n)) {} = Some {}"
    by (auto simp: heap_run_append dual_line_kept dtop_dual_line_dpg_deconstructor_def heap_loops image_iff)
  show "heap_run (stat_mem n cs Data @ dtop_stat_dpg_deconstructor n (sum_list cs)) {} = Some {}"
    by (auto simp: heap_run_append stat_kept dtop_stat_dpg_deconstructor_def heap_loops image_iff)
  show "heap_run (dev_mem n Data @ dtop_dev_dpg_deconstructor n) {} = Some {}"
    by (simp only: heap_run_append dev_kept dev_released Option.bind.simps)
  show "heap_run (value_only_mem m Data @ dtop_value_only_dpg_deconstructor m) {} = Some {}"
    by (auto simp: heap_run_append value_only_kept dtop_value_only_dpg_deconstructor_def heap_loops image_iff)
  show "heap_run (gen_mem (Suc m) Data @ dtop_gen_dpg_deconstructor (Suc m)) {} = Some {}"
    by (auto simp: heap_run_append gen_kept dtop_gen_dpg_deconstructor_def heap_loops image_iff)
qed (auto simp: cpu_mem_def dtop_value_only_dpg_deconstructor_def)

text \<open>
  What failures leave. A search that finds no data keeps its line buffers, and with an empty file the
  read buffer too; a dual line file with an odd number of lines leaves its record; the searches of
  single values free their names. A failed poll loses its line lengths and dictionaries, and with an
  empty file the read buffer.
\<close>

definition unread :: "read_end \<Rightarrow> block set" where
  "unread r = (if r = Empty_file then {Buffer} else {})"

lemmas failure_simps = dt_read_file_mem_def line_buffers_def unread_def heap_run_append heap_loops image_iff

lemma dtop_failed_searches_leak:
  assumes "r \<noteq> Data"
  shows "heap_run (single_line_mem n r) {} = Some ({Vars, LineLen, Lines} \<union> unread r \<union> Line ` {0..<n}) \<and>
    heap_run (meminfo_mem n r) {} = Some ({Vars, LineLen, Lines} \<union> unread r \<union> Line ` {0..<n}) \<and>
    heap_run (stat_mem n cs r) {} = Some ({Vars, LineLen, Lines} \<union> unread r \<union> Line ` {0..<n}) \<and>
    heap_run (dev_mem n r) {} = Some ({Vars, LineLen, Lines} \<union> set (dev_array n) \<union> unread r \<union> Line ` {0..<n}) \<and>
    heap_run (dual_line_mem (2 * n) r) {} =
      Some ({Vars, LineLen, LineLen2, Lines, Lines2, Dict, PrefixDict} \<union> unread r \<union> Line ` {0..<2 * n} \<union> Line2 ` {0..<2 * n}) \<and>
    heap_run (value_only_mem m r) {} = Some (unread r) \<and> heap_run (gen_mem m r) {} = Some (unread r)"
  using assms
  by (cases r)
    (auto simp: single_line_mem_def meminfo_mem_def stat_mem_def dev_mem_def dev_array_def dual_line_mem_def value_only_mem_def gen_mem_def
      failure_simps)

lemma dtop_odd_dual_line_leaks: "heap_run (dual_line_mem (2 * n + 1) r) {} = Some {Vars}"
  by (simp add: dual_line_mem_def)

lemma dtop_failed_polls_leak:
  "heap_run (line_poll_mem r) {} = Some (if r = Data then {} else {LineLen} \<union> unread r) \<and>
   heap_run (dual_line_poll_mem r) {} = Some (if r = Data then {} else {LineLen, LineLen2, Dict, PrefixDict} \<union> unread r) \<and>
   heap_run (dev_poll_mem n r) {} = Some (if r = Data then {} else {LineLen} \<union> set (dev_dicts n) \<union> unread r) \<and>
   heap_run (value_poll_mem r) {} = Some (unread r)"
  by (cases r)
    (auto simp: line_poll_mem_def dual_line_poll_mem_def dev_poll_mem_def dev_dicts_def value_poll_mem_def failure_simps)

end
