(* ===== verification/Json_Hash.thy ===== *)
theory Json_Hash
  imports "HOL-Library.Word"
begin

unbundle bit_operations_syntax

text \<open>
  The hash functions of json-c's table (src/json-c/linkhash.c): \<open>hashlittle\<close> in its three ways of
  reading the key, and the hashes of pointers and of strings. The key is memory \<open>m\<close> from its address
  on, of which \<open>n\<close> bytes are its own: the first two ways read behind them.
\<close>

definition LH_PRIME :: "64 word" where
  "LH_PRIME = 0x9e370001"

definition lh_ptr_hash :: "64 word \<Rightarrow> 64 word" where
  "lh_ptr_hash k = drop_bit 4 (k * LH_PRIME) AND mask 64"

definition lh_ptr_equal :: "64 word \<Rightarrow> 64 word \<Rightarrow> bool" where
  "lh_ptr_equal k1 k2 \<longleftrightarrow> k1 = k2"

definition rot :: "32 word \<Rightarrow> nat \<Rightarrow> 32 word" where
  "rot x k = push_bit k x OR drop_bit (32 - k) x"

text \<open>The macros \<open>mix\<close> and \<open>final\<close>, line by line.\<close>

definition mix :: "32 word \<times> 32 word \<times> 32 word \<Rightarrow> 32 word \<times> 32 word \<times> 32 word" where
  "mix = (\<lambda>(a, b, c).
    let a = a - c; a = a XOR rot c 4; c = c + b;
        b = b - a; b = b XOR rot a 6; a = a + c;
        c = c - b; c = c XOR rot b 8; b = b + a;
        a = a - c; a = a XOR rot c 16; c = c + b;
        b = b - a; b = b XOR rot a 19; a = a + c;
        c = c - b; c = c XOR rot b 4; b = b + a
    in (a, b, c))"

definition final :: "32 word \<times> 32 word \<times> 32 word \<Rightarrow> 32 word \<times> 32 word \<times> 32 word" where
  "final = (\<lambda>(a, b, c).
    let c = c XOR b; c = c - rot b 14;
        a = a XOR c; a = a - rot c 11;
        b = b XOR a; b = b - rot a 25;
        c = c XOR b; c = c - rot b 16;
        a = a XOR c; a = a - rot c 4;
        b = b XOR a; b = b - rot a 14;
        c = c XOR b; c = c - rot b 24
    in (a, b, c))"

type_synonym hash_state = "32 word \<times> 32 word \<times> 32 word"

text \<open>Loads of 8, 16 and 32 bits, at an offset in their own size.\<close>

definition k8 :: "(nat \<Rightarrow> 8 word) \<Rightarrow> nat \<Rightarrow> 32 word" where
  "k8 m i = ucast (m i)"

definition k16 :: "(nat \<Rightarrow> 8 word) \<Rightarrow> nat \<Rightarrow> 32 word" where
  "k16 m i = k8 m (2 * i) + push_bit 8 (k8 m (2 * i + 1))"

definition k32 :: "(nat \<Rightarrow> 8 word) \<Rightarrow> nat \<Rightarrow> 32 word" where
  "k32 m i = k8 m (4 * i) + push_bit 8 (k8 m (4 * i + 1)) + push_bit 16 (k8 m (4 * i + 2)) + push_bit 24 (k8 m (4 * i + 3))"

section \<open>Blocks of twelve bytes, and what is left\<close>

definition block32 :: "(nat \<Rightarrow> 8 word) \<Rightarrow> hash_state \<Rightarrow> hash_state" where
  "block32 m = (\<lambda>(a, b, c). (a + k32 m 0, b + k32 m 1, c + k32 m 2))"

definition block16 :: "(nat \<Rightarrow> 8 word) \<Rightarrow> hash_state \<Rightarrow> hash_state" where
  "block16 m = (\<lambda>(a, b, c).
    (a + (k16 m 0 + push_bit 16 (k16 m 1)), b + (k16 m 2 + push_bit 16 (k16 m 3)), c + (k16 m 4 + push_bit 16 (k16 m 5))))"

definition block8 :: "(nat \<Rightarrow> 8 word) \<Rightarrow> hash_state \<Rightarrow> hash_state" where
  "block8 m = (\<lambda>(a, b, c).
    (a + k8 m 0 + push_bit 8 (k8 m 1) + push_bit 16 (k8 m 2) + push_bit 24 (k8 m 3),
     b + k8 m 4 + push_bit 8 (k8 m 5) + push_bit 16 (k8 m 6) + push_bit 24 (k8 m 7),
     c + k8 m 8 + push_bit 8 (k8 m 9) + push_bit 16 (k8 m 10) + push_bit 24 (k8 m 11)))"

text \<open>The switch of the 32-bit reads: loads masked where the key ends.\<close>

definition tail32 :: "(nat \<Rightarrow> 8 word) \<Rightarrow> nat \<Rightarrow> hash_state \<Rightarrow> hash_state" where
  "tail32 m n = (\<lambda>(a, b, c).
    if n = 12 then (a + k32 m 0, b + k32 m 1, c + k32 m 2)
    else if n = 11 then (a + k32 m 0, b + k32 m 1, c + (k32 m 2 AND 0xffffff))
    else if n = 10 then (a + k32 m 0, b + k32 m 1, c + (k32 m 2 AND 0xffff))
    else if n = 9 then (a + k32 m 0, b + k32 m 1, c + (k32 m 2 AND 0xff))
    else if n = 8 then (a + k32 m 0, b + k32 m 1, c)
    else if n = 7 then (a + k32 m 0, b + (k32 m 1 AND 0xffffff), c)
    else if n = 6 then (a + k32 m 0, b + (k32 m 1 AND 0xffff), c)
    else if n = 5 then (a + k32 m 0, b + (k32 m 1 AND 0xff), c)
    else if n = 4 then (a + k32 m 0, b, c)
    else if n = 3 then (a + (k32 m 0 AND 0xffffff), b, c)
    else if n = 2 then (a + (k32 m 0 AND 0xffff), b, c)
    else if n = 1 then (a + (k32 m 0 AND 0xff), b, c)
    else (a, b, c))"

text \<open>The switch of the 16-bit reads, where some cases fall through to the next one.\<close>

definition tail16 :: "(nat \<Rightarrow> 8 word) \<Rightarrow> nat \<Rightarrow> hash_state \<Rightarrow> hash_state" where
  "tail16 m n = (\<lambda>(a, b, c).
    if n = 12 then (a + (k16 m 0 + push_bit 16 (k16 m 1)), b + (k16 m 2 + push_bit 16 (k16 m 3)), c + (k16 m 4 + push_bit 16 (k16 m 5)))
    else if n = 11 \<or> n = 10 then
      (a + (k16 m 0 + push_bit 16 (k16 m 1)), b + (k16 m 2 + push_bit 16 (k16 m 3)), (if n = 11 then c + push_bit 16 (k8 m 10) else c) + k16 m 4)
    else if n = 9 \<or> n = 8 then
      (a + (k16 m 0 + push_bit 16 (k16 m 1)), b + (k16 m 2 + push_bit 16 (k16 m 3)), if n = 9 then c + k8 m 8 else c)
    else if n = 7 \<or> n = 6 then (a + (k16 m 0 + push_bit 16 (k16 m 1)), (if n = 7 then b + push_bit 16 (k8 m 6) else b) + k16 m 2, c)
    else if n = 5 \<or> n = 4 then (a + (k16 m 0 + push_bit 16 (k16 m 1)), if n = 5 then b + k8 m 4 else b, c)
    else if n = 3 \<or> n = 2 then ((if n = 3 then a + push_bit 16 (k8 m 2) else a) + k16 m 0, b, c)
    else if n = 1 then (a + k8 m 0, b, c)
    else (a, b, c))"

text \<open>The switch of the bytewise reads: every case falls through.\<close>

definition tail8 :: "(nat \<Rightarrow> 8 word) \<Rightarrow> nat \<Rightarrow> hash_state \<Rightarrow> hash_state" where
  "tail8 m n = (\<lambda>(a, b, c).
    let c = (if 12 \<le> n then c + push_bit 24 (k8 m 11) else c); c = (if 11 \<le> n then c + push_bit 16 (k8 m 10) else c);
        c = (if 10 \<le> n then c + push_bit 8 (k8 m 9) else c); c = (if 9 \<le> n then c + k8 m 8 else c);
        b = (if 8 \<le> n then b + push_bit 24 (k8 m 7) else b); b = (if 7 \<le> n then b + push_bit 16 (k8 m 6) else b);
        b = (if 6 \<le> n then b + push_bit 8 (k8 m 5) else b); b = (if 5 \<le> n then b + k8 m 4 else b);
        a = (if 4 \<le> n then a + push_bit 24 (k8 m 3) else a); a = (if 3 \<le> n then a + push_bit 16 (k8 m 2) else a);
        a = (if 2 \<le> n then a + push_bit 8 (k8 m 1) else a); a = (if 1 \<le> n then a + k8 m 0 else a)
    in (a, b, c))"

text \<open>
  The loop over whole blocks, the rest and the last mixing: an empty rest is returned unmixed. The
  loop leaves the last block, even a whole one, to the switch.
\<close>

fun hash_loop ::
  "((nat \<Rightarrow> 8 word) \<Rightarrow> hash_state \<Rightarrow> hash_state) \<Rightarrow> ((nat \<Rightarrow> 8 word) \<Rightarrow> nat \<Rightarrow> hash_state \<Rightarrow> hash_state) \<Rightarrow>
   (nat \<Rightarrow> 8 word) \<Rightarrow> nat \<Rightarrow> hash_state \<Rightarrow> 32 word" where
  "hash_loop block tail m n s =
    (if 12 < n then hash_loop block tail (\<lambda>i. m (i + 12)) (n - 12) (mix (block m s))
     else if n = 0 then snd (snd s)
     else snd (snd (final (tail m n s))))"

text \<open>\<open>little\<close> is \<open>HASH_LITTLE_ENDIAN\<close>, \<open>addr\<close> the address of the key.\<close>

definition hashlittle :: "bool \<Rightarrow> nat \<Rightarrow> (nat \<Rightarrow> 8 word) \<Rightarrow> nat \<Rightarrow> 32 word \<Rightarrow> 32 word" where
  "hashlittle little addr m n initval =
    (let s0 = 0xdeadbeef + of_nat n + initval; s = (s0, s0, s0) in
     if little \<and> addr mod 4 = 0 then hash_loop block32 tail32 m n s
     else if little \<and> addr mod 2 = 0 then hash_loop block16 tail16 m n s
     else hash_loop block8 tail8 m n s)"

text \<open>
  The hash of a string: the seed is the first random number that is not -1, of those the system
  gives; afterwards it is kept. \<open>None\<close>: the numbers given are all -1, and the loop goes on.
\<close>

fun first_seed :: "32 word list \<Rightarrow> 32 word option" where
  "first_seed [] = None"
| "first_seed (s # seeds) = (if s = - 1 then first_seed seeds else Some s)"

definition lh_char_hash :: "bool \<Rightarrow> nat \<Rightarrow> 32 word list \<Rightarrow> 32 word \<Rightarrow> (nat \<Rightarrow> 8 word) \<Rightarrow> nat \<Rightarrow> (64 word \<times> 32 word) option" where
  "lh_char_hash little addr seeds random_seed m n =
    map_option (\<lambda>seed. (ucast (hashlittle little addr m n seed), seed))
      (if random_seed = - 1 then first_seed seeds else Some random_seed)"

section \<open>The three ways agree\<close>

text \<open>A reference definition on the bytes of the key alone: blocks of twelve bytes, the last one filled with zeros.\<close>

definition le32 :: "8 word list \<Rightarrow> nat \<Rightarrow> 32 word" where
  "le32 ks i = ucast (ks ! i) + 256 * ucast (ks ! (i + 1)) + 65536 * ucast (ks ! (i + 2)) + 16777216 * ucast (ks ! (i + 3))"

definition absorb :: "8 word list \<Rightarrow> hash_state \<Rightarrow> hash_state" where
  "absorb ks = (\<lambda>(a, b, c). (a + le32 ks 0, b + le32 ks 4, c + le32 ks 8))"

fun jenkins :: "8 word list \<Rightarrow> hash_state \<Rightarrow> 32 word" where
  "jenkins ks s =
    (if ks = [] then snd (snd s)
     else if length ks \<le> 12 then snd (snd (final (absorb (ks @ replicate (12 - length ks) 0) s)))
     else jenkins (drop 12 ks) (mix (absorb ks s)))"

declare hash_loop.simps [simp del] jenkins.simps [simp del]

lemma push_bits: "push_bit 8 (w :: 32 word) = 256 * w" "push_bit 16 (w :: 32 word) = 65536 * w" "push_bit 24 (w :: 32 word) = 16777216 * w"
  by (simp_all add: push_bit_eq_mult)

lemma byte_int: "\<exists>x. (ucast (a :: 8 word) :: 32 word) = of_int x \<and> 0 \<le> x \<and> x < 256"
  using uint_lt2p[of a] by (intro exI[of _ "uint a"] conjI) (rule ucast_eq, simp_all)

lemma mask_of_int: "(of_int N :: 32 word) AND mask n = of_int (N mod 2 ^ n)"
  by (simp only: take_bit_eq_mask[symmetric] take_bit_of_int) (simp only: take_bit_eq_mod)

lemma masks:
  fixes a b c d :: "8 word"
  defines "w \<equiv> (ucast a :: 32 word) + 256 * ucast b + 65536 * ucast c + 16777216 * ucast d"
  shows "w AND 0xffffff = ucast a + 256 * ucast b + 65536 * ucast c" "w AND 0xffff = ucast a + 256 * ucast b" "w AND 0xff = ucast a"
proof -
  have m: "(0xffffff :: 32 word) = mask 24" "(0xffff :: 32 word) = mask 16" "(0xff :: 32 word) = mask 8" by (simp_all add: mask_eq_exp_minus_1)
  obtain x y z v where bytes: "(ucast a :: 32 word) = of_int x" "(ucast b :: 32 word) = of_int y" "(ucast c :: 32 word) = of_int z"
      "(ucast d :: 32 word) = of_int v" and bounds: "0 \<le> x" "x < 256" "0 \<le> y" "y < 256" "0 \<le> z" "z < 256"
    using byte_int[of a] byte_int[of b] byte_int[of c] byte_int[of d] by metis
  have w: "w = of_int (x + 256 * y + 65536 * z + 16777216 * v)" by (simp add: w_def bytes)
  have low: "(r + m * q) mod m = r" if "0 \<le> r" "r < m" for r m q :: int using that by simp
  have "(x + 256 * y + 65536 * z + 16777216 * v) mod 2 ^ 24 = x + 256 * y + 65536 * z"
    using low[of "x + 256 * y + 65536 * z" 16777216 v] bounds by simp
  moreover have "(x + 256 * y + 65536 * z + 16777216 * v) mod 2 ^ 16 = x + 256 * y"
    using low[of "x + 256 * y" 65536 "z + 256 * v"] bounds by (simp add: algebra_simps)
  moreover have "(x + 256 * y + 65536 * z + 16777216 * v) mod 2 ^ 8 = x"
    using low[of x 256 "y + 256 * z + 65536 * v"] bounds by (simp add: algebra_simps)
  ultimately show "w AND 0xffffff = ucast a + 256 * ucast b + 65536 * ucast c" "w AND 0xffff = ucast a + 256 * ucast b" "w AND 0xff = ucast a"
    unfolding m w mask_of_int by (simp_all add: bytes)
qed

text \<open>What a way of reading has to do with blocks and rests to agree with the reference.\<close>

locale hash_reads =
  fixes block :: "(nat \<Rightarrow> 8 word) \<Rightarrow> hash_state \<Rightarrow> hash_state" and tail :: "(nat \<Rightarrow> 8 word) \<Rightarrow> nat \<Rightarrow> hash_state \<Rightarrow> hash_state"
  assumes block_reads: "12 < length ks \<Longrightarrow> (\<And>i. i < length ks \<Longrightarrow> m i = ks ! i) \<Longrightarrow> block m s = absorb ks s"
    and tail_reads: "0 < n \<Longrightarrow> n \<le> 12 \<Longrightarrow> length ks = n \<Longrightarrow> (\<And>i. i < n \<Longrightarrow> m i = ks ! i) \<Longrightarrow>
      tail m n s = absorb (ks @ replicate (12 - n) 0) s"
begin

lemma loop_reads: "(\<And>i. i < length ks \<Longrightarrow> m i = ks ! i) \<Longrightarrow> hash_loop block tail m (length ks) s = jenkins ks s"
proof (induction "length ks" arbitrary: ks m s rule: less_induct)
  case less
  show ?case
  proof (cases "12 < length ks")
    case True
    have "hash_loop block tail (\<lambda>i. m (i + 12)) (length (drop 12 ks)) (mix (block m s)) = jenkins (drop 12 ks) (mix (block m s))"
      by (rule less.hyps) (use True less.prems in \<open>auto simp: add.commute\<close>)
    then show ?thesis
      using True block_reads[OF True less.prems] by (subst hash_loop.simps, subst jenkins.simps) auto
  next
    case False
    then show ?thesis using tail_reads[of "length ks" ks m s] less.prems by (subst hash_loop.simps, subst jenkins.simps) auto
  qed
qed

end

lemma up_to_12:
  assumes "0 < n" "n \<le> (12 :: nat)"
  obtains "n = 1" | "n = 2" | "n = 3" | "n = 4" | "n = 5" | "n = 6" | "n = 7" | "n = 8" | "n = 9" | "n = 10" | "n = 11" | "n = 12"
proof -
  have "n \<in> {1, 2, 3, 4, 5, 6, 7, 8, 9, 10, 11, 12}" using assms by (simp add: eval_nat_numeral le_Suc_eq)
  then show thesis using that by blast
qed

interpretation bytewise: hash_reads block8 tail8
proof
  fix ks and m :: "nat \<Rightarrow> 8 word" and s
  assume "12 < length ks" "\<And>i. i < length ks \<Longrightarrow> m i = ks ! i"
  then have "\<And>i. i < 12 \<Longrightarrow> m i = ks ! i" by simp
  then show "block8 m s = absorb ks s" by (simp add: block8_def absorb_def le32_def k8_def push_bits eval_nat_numeral split: prod.split)
next
  fix n :: nat and ks and m :: "nat \<Rightarrow> 8 word" and s
  assume "0 < n" "n \<le> 12" "length ks = n" "\<And>i. i < n \<Longrightarrow> m i = ks ! i"
  then show "tail8 m n s = absorb (ks @ replicate (12 - n) 0) s"
    by (elim up_to_12) (simp_all add: tail8_def absorb_def le32_def k8_def push_bits nth_append eval_nat_numeral split: prod.split)
qed

lemma k32_reads: "(\<And>i. i < n \<Longrightarrow> m i = ks ! i) \<Longrightarrow> 4 * i + 3 < n \<Longrightarrow> k32 m i = le32 ks (4 * i)"
  by (simp add: k32_def le32_def k8_def push_bits)

interpretation halfwords: hash_reads block16 tail16
proof
  fix ks and m :: "nat \<Rightarrow> 8 word" and s
  assume "12 < length ks" "\<And>i. i < length ks \<Longrightarrow> m i = ks ! i"
  then have "\<And>i. i < 12 \<Longrightarrow> m i = ks ! i" by simp
  then show "block16 m s = absorb ks s"
    by (simp add: block16_def absorb_def le32_def k16_def k8_def push_bits eval_nat_numeral split: prod.split)
next
  fix n :: nat and ks and m :: "nat \<Rightarrow> 8 word" and s
  assume "0 < n" "n \<le> 12" "length ks = n" "\<And>i. i < n \<Longrightarrow> m i = ks ! i"
  then show "tail16 m n s = absorb (ks @ replicate (12 - n) 0) s"
    by (elim up_to_12) (simp_all add: tail16_def absorb_def le32_def k16_def k8_def push_bits nth_append eval_nat_numeral split: prod.split)
qed

text \<open>The loads of 32 bits, masked to the bytes of the key.\<close>

lemma k32_masked:
  "k32 m i AND 0xffffff = k8 m (4 * i) + 256 * k8 m (4 * i + 1) + 65536 * k8 m (4 * i + 2)"
  "k32 m i AND 0xffff = k8 m (4 * i) + 256 * k8 m (4 * i + 1)" "k32 m i AND 0xff = k8 m (4 * i)"
  unfolding k32_def k8_def push_bits masks by simp_all

interpretation fullwords: hash_reads block32 tail32
proof
  fix ks and m :: "nat \<Rightarrow> 8 word" and s
  assume "12 < length ks" "\<And>i. i < length ks \<Longrightarrow> m i = ks ! i"
  then have "\<And>i. i < 12 \<Longrightarrow> m i = ks ! i" by simp
  then show "block32 m s = absorb ks s"
    by (simp add: block32_def absorb_def le32_def k32_def k8_def push_bits eval_nat_numeral split: prod.split)
next
  fix n :: nat and ks and m :: "nat \<Rightarrow> 8 word" and s
  assume "0 < n" "n \<le> 12" "length ks = n" "\<And>i. i < n \<Longrightarrow> m i = ks ! i"
  then show "tail32 m n s = absorb (ks @ replicate (12 - n) 0) s"
    by (elim up_to_12)
      (simp_all add: tail32_def absorb_def le32_def k32_masked, simp_all add: k32_def k8_def push_bits nth_append eval_nat_numeral split: prod.split)
qed

text \<open>
  C23. The three ways of reading a key compute the same hash, the one of the reference definition on
  the bytes of the key: it depends neither on the address of the key, nor on the byte order macro,
  nor on the memory behind the key, which the reads of 32 bits touch.
\<close>

theorem hashlittle_reads_agree:
  "hashlittle little addr (\<lambda>i. if i < length ks then ks ! i else behind i) (length ks) initval =
    (let s = 0xdeadbeef + of_nat (length ks) + initval in jenkins ks (s, s, s))"
  unfolding hashlittle_def Let_def
  by (simp add: bytewise.loop_reads halfwords.loop_reads fullwords.loop_reads)

end
