(* ===== verification/Json_Linkhash.thy ===== *)
theory Json_Linkhash
  imports "HOL-Library.Word" "HOL-Library.Monad_Syntax"
begin

text \<open>
  The hash table of json-c (src/json-c/linkhash.c, linkhash.h): open addressing with linear probing,
  and a doubly linked list through the slots that keeps the order of insertion. A pointer to an entry
  is the index of its slot. \<open>None\<close> is undefined behaviour or a loop that does not end; memory is
  there (\<open>lh_abort\<close> ends the program otherwise). The statistics are counted without bound.
\<close>

datatype 'k lh_key = LH_EMPTY | LH_FREED | Key 'k

record ('k, 'v) lh_entry =
  e_k :: "'k lh_key"
  e_v :: "'v option"
  e_next :: "nat option"
  e_prev :: "nat option"

text \<open>The callback for entries that are dropped may be missing; what it is called on is a result of the operations.\<close>

record ('k, 'v) lh_table =
  lh_size :: nat
  lh_count :: nat
  lh_collisions :: nat
  lh_resizes :: nat
  lh_lookups :: nat
  lh_inserts :: nat
  lh_deletes :: nat
  lh_head :: "nat option"
  lh_tail :: "nat option"
  lh_tab :: "('k, 'v) lh_entry list"
  lh_free_fn :: bool
  lh_hash_fn :: "'k \<Rightarrow> 64 word"
  lh_equal_fn :: "'k \<Rightarrow> 'k \<Rightarrow> bool"

definition lh_empty_entry :: "('k, 'v) lh_entry" where
  "lh_empty_entry = \<lparr>e_k = LH_EMPTY, e_v = None, e_next = None, e_prev = None\<rparr>"

definition lh_table_new :: "nat \<Rightarrow> bool \<Rightarrow> ('k \<Rightarrow> 64 word) \<Rightarrow> ('k \<Rightarrow> 'k \<Rightarrow> bool) \<Rightarrow> ('k, 'v) lh_table" where
  "lh_table_new sz free hash eq =
    \<lparr>lh_size = sz, lh_count = 0, lh_collisions = 0, lh_resizes = 0, lh_lookups = 0, lh_inserts = 0, lh_deletes = 0,
     lh_head = None, lh_tail = None, lh_tab = replicate sz lh_empty_entry,
     lh_free_fn = free, lh_hash_fn = hash, lh_equal_fn = eq\<rparr>"

definition next_slot :: "nat \<Rightarrow> nat \<Rightarrow> nat" where
  "next_slot sz n = (if n + 1 = sz then 0 else n + 1)"

section \<open>The list through the slots\<close>

text \<open>
  The slots from a pointer on, by the pointers to the next one. A list of more nodes than the table
  has slots comes back to one of them, and the loop over it does not end.
\<close>

fun lh_chain :: "('k, 'v) lh_entry list \<Rightarrow> nat \<Rightarrow> nat option \<Rightarrow> nat list option" where
  "lh_chain T n None = Some []"
| "lh_chain T 0 (Some i) = None"
| "lh_chain T (Suc n) (Some i) = (if i < length T then map_option ((#) i) (lh_chain T n (e_next (T ! i))) else None)"

definition lh_slots :: "('k, 'v) lh_table \<Rightarrow> nat list option" where
  "lh_slots t = lh_chain (lh_tab t) (length (lh_tab t)) (lh_head t)"

section \<open>Insertion\<close>

text \<open>The loop that looks for a slot that is empty or freed, from slot \<open>n\<close> on.\<close>

partial_function (option) free_slot :: "nat \<Rightarrow> ('k, 'v) lh_entry list \<Rightarrow> nat \<Rightarrow> nat \<Rightarrow> (nat \<times> nat) option" where
  [code]: "free_slot sz T n collisions =
    (if length T \<le> n then None
     else if e_k (T ! n) = LH_EMPTY \<or> e_k (T ! n) = LH_FREED then Some (n, collisions)
     else free_slot sz T (next_slot sz n) (collisions + 1))"

text \<open>The links of the new last entry \<open>n\<close>.\<close>

definition lh_append :: "('k, 'v) lh_table \<Rightarrow> nat \<Rightarrow> ('k, 'v) lh_table option" where
  "lh_append t n =
    (let T = lh_tab t in
     case lh_head t of
       None \<Rightarrow> Some (t\<lparr>lh_head := Some n, lh_tail := Some n, lh_tab := T[n := (T ! n)\<lparr>e_next := None, e_prev := None\<rparr>]\<rparr>)
     | Some h \<Rightarrow>
         (case lh_tail t of
            None \<Rightarrow> None
          | Some l \<Rightarrow>
              if l < length T then
                let T1 = T[l := (T ! l)\<lparr>e_next := Some n\<rparr>] in
                Some (t\<lparr>lh_tail := Some n, lh_tab := T1[n := (T1 ! n)\<lparr>e_prev := Some l, e_next := None\<rparr>]\<rparr>)
              else None))"

text \<open>Insertion once there is room.\<close>

definition lh_insert_entry :: "('k, 'v) lh_table \<Rightarrow> 'k \<Rightarrow> 'v option \<Rightarrow> ('k, 'v) lh_table option" where
  "lh_insert_entry t k v =
    (if lh_size t = 0 then None
     else do {
       (n, collisions) \<leftarrow> free_slot (lh_size t) (lh_tab t) (unat (lh_hash_fn t k) mod lh_size t) (lh_collisions t);
       let T = lh_tab t;
       lh_append (t\<lparr>lh_collisions := collisions, lh_count := lh_count t + 1, lh_tab := T[n := (T ! n)\<lparr>e_k := Key k, e_v := v\<rparr>]\<rparr>) n
     })"

fun lh_reinsert ::
  "(('k, 'v) lh_table \<Rightarrow> 'k \<Rightarrow> 'v option \<Rightarrow> ('k, 'v) lh_table option) \<Rightarrow> ('k, 'v) lh_entry list \<Rightarrow> ('k, 'v) lh_table \<Rightarrow> ('k, 'v) lh_table option" where
  "lh_reinsert ins [] new_t = Some new_t"
| "lh_reinsert ins (e # es) new_t =
    (case e_k e of Key k \<Rightarrow> Option.bind (ins new_t k (e_v e)) (lh_reinsert ins es) | _ \<Rightarrow> None)"

text \<open>
  Insertion and resizing call one another: \<open>ins\<close> is the insertion that resizing uses. The new table
  counts its entries itself, and its count and its statistics are dropped.
\<close>

definition lh_resize_by ::
  "(('k, 'v) lh_table \<Rightarrow> 'k \<Rightarrow> 'v option \<Rightarrow> ('k, 'v) lh_table option) \<Rightarrow> ('k, 'v) lh_table \<Rightarrow> nat \<Rightarrow> ('k, 'v) lh_table option" where
  "lh_resize_by ins t new_size = do {
     xs \<leftarrow> lh_slots t;
     new_t \<leftarrow> lh_reinsert ins (map ((!) (lh_tab t)) xs) (lh_table_new new_size False (lh_hash_fn t) (lh_equal_fn t));
     Some (t\<lparr>lh_tab := lh_tab new_t, lh_size := new_size, lh_head := lh_head new_t, lh_tail := lh_tail new_t,
             lh_resizes := lh_resizes t + 1\<rparr>)
   }"

text \<open>The load factor is 0.66: the comparison in \<open>double\<close> decides as the one of integers does.\<close>

primrec lh_table_insert :: "nat \<Rightarrow> ('k, 'v) lh_table \<Rightarrow> 'k \<Rightarrow> 'v option \<Rightarrow> ('k, 'v) lh_table option" where
  "lh_table_insert 0 t k v = None"
| "lh_table_insert (Suc depth) t k v = do {
     let t = t\<lparr>lh_inserts := lh_inserts t + 1\<rparr>;
     t \<leftarrow> (if 66 * lh_size t \<le> 100 * lh_count t
          then if 2 * lh_size t < 2 ^ 31 then lh_resize_by (lh_table_insert depth) t (2 * lh_size t) else None
          else Some t);
     lh_insert_entry t k v
   }"

definition lh_table_resize :: "nat \<Rightarrow> ('k, 'v) lh_table \<Rightarrow> nat \<Rightarrow> ('k, 'v) lh_table option" where
  "lh_table_resize depth = lh_resize_by (lh_table_insert depth)"

section \<open>Lookup\<close>

text \<open>At most \<open>left\<close> slots from slot \<open>n\<close> on.\<close>

primrec lookup_loop :: "nat \<Rightarrow> ('k, 'v) lh_table \<Rightarrow> 'k \<Rightarrow> nat \<Rightarrow> nat option option" where
  "lookup_loop 0 t k n = Some None"
| "lookup_loop (Suc left) t k n =
    (if length (lh_tab t) \<le> n then None
     else case e_k (lh_tab t ! n) of
       LH_EMPTY \<Rightarrow> Some None
     | LH_FREED \<Rightarrow> lookup_loop left t k (next_slot (lh_size t) n)
     | Key k' \<Rightarrow> if lh_equal_fn t k' k then Some (Some n) else lookup_loop left t k (next_slot (lh_size t) n))"

definition lh_table_lookup_entry :: "('k, 'v) lh_table \<Rightarrow> 'k \<Rightarrow> (('k, 'v) lh_table \<times> nat option) option" where
  "lh_table_lookup_entry t k =
    (if lh_size t = 0 then None
     else map_option (Pair (t\<lparr>lh_lookups := lh_lookups t + 1\<rparr>))
       (lookup_loop (lh_size t) t k (unat (lh_hash_fn t k) mod lh_size t)))"

definition lh_table_lookup_ex :: "('k, 'v) lh_table \<Rightarrow> 'k \<Rightarrow> (('k, 'v) lh_table \<times> bool \<times> 'v option) option" where
  "lh_table_lookup_ex t k = do {
     (t', e) \<leftarrow> lh_table_lookup_entry t k;
     Some (t', case e of Some n \<Rightarrow> (True, e_v (lh_tab t' ! n)) | None \<Rightarrow> (False, None))
   }"

definition lh_table_lookup :: "('k, 'v) lh_table \<Rightarrow> 'k \<Rightarrow> (('k, 'v) lh_table \<times> 'v option) option" where
  "lh_table_lookup t k = map_option (\<lambda>(t', found, v). (t', v)) (lh_table_lookup_ex t k)"

section \<open>Deletion\<close>

text \<open>Taking slot \<open>n\<close> out of the list, in the four cases of the code.\<close>

definition set_link :: "(nat option \<Rightarrow> ('k, 'v) lh_entry \<Rightarrow> ('k, 'v) lh_entry) \<Rightarrow> nat option \<Rightarrow> nat option \<Rightarrow> ('k, 'v) lh_entry list \<Rightarrow> ('k, 'v) lh_entry list option" where
  "set_link upd p q T = (case p of None \<Rightarrow> None | Some i \<Rightarrow> if i < length T then Some (T[i := upd q (T ! i)]) else None)"

abbreviation set_next :: "nat option \<Rightarrow> nat option \<Rightarrow> ('k, 'v) lh_entry list \<Rightarrow> ('k, 'v) lh_entry list option" where
  "set_next \<equiv> set_link (\<lambda>q. e_next_update (\<lambda>_. q))"

abbreviation set_prev :: "nat option \<Rightarrow> nat option \<Rightarrow> ('k, 'v) lh_entry list \<Rightarrow> ('k, 'v) lh_entry list option" where
  "set_prev \<equiv> set_link (\<lambda>q. e_prev_update (\<lambda>_. q))"

definition lh_unlink :: "('k, 'v) lh_table \<Rightarrow> nat \<Rightarrow> ('k, 'v) lh_table option" where
  "lh_unlink t n =
    (let T = lh_tab t; e = T ! n in
     if lh_tail t = Some n \<and> lh_head t = Some n then Some (t\<lparr>lh_head := None, lh_tail := None\<rparr>)
     else if lh_head t = Some n then
       do { T1 \<leftarrow> set_prev (e_next e) None T; Some (t\<lparr>lh_head := e_next (T1 ! n), lh_tab := T1\<rparr>) }
     else if lh_tail t = Some n then
       do { T1 \<leftarrow> set_next (e_prev e) None T; Some (t\<lparr>lh_tail := e_prev (T1 ! n), lh_tab := T1\<rparr>) }
     else
       do { T1 \<leftarrow> set_next (e_prev e) (e_next e) T; T2 \<leftarrow> set_prev (e_next (T1 ! n)) (e_prev (T1 ! n)) T1; Some (t\<lparr>lh_tab := T2\<rparr>) })"

text \<open>The result is the table, the returned code and the entries the callback was called on.\<close>

definition lh_table_delete_entry :: "('k, 'v) lh_table \<Rightarrow> int \<Rightarrow> (('k, 'v) lh_table \<times> int \<times> ('k, 'v) lh_entry list) option" where
  "lh_table_delete_entry t e =
    (let n = nat e; T = lh_tab t in
     if e < 0 then Some (t, - 2, [])
     else if length T \<le> n then None
     else if e_k (T ! n) = LH_EMPTY \<or> e_k (T ! n) = LH_FREED then Some (t, - 1, [])
     else do {
       let called = (if lh_free_fn t then [T ! n] else []);
       t1 \<leftarrow> lh_unlink (t\<lparr>lh_count := lh_count t - 1, lh_tab := T[n := (T ! n)\<lparr>e_v := None, e_k := LH_FREED\<rparr>]\<rparr>) n;
       let T1 = lh_tab t1;
       Some (t1\<lparr>lh_tab := T1[n := (T1 ! n)\<lparr>e_next := None, e_prev := None\<rparr>]\<rparr>, 0, called)
     })"

definition lh_table_delete :: "('k, 'v) lh_table \<Rightarrow> 'k \<Rightarrow> (('k, 'v) lh_table \<times> int \<times> ('k, 'v) lh_entry list) option" where
  "lh_table_delete t k = do {
     (t', e) \<leftarrow> lh_table_lookup_entry t k;
     case e of None \<Rightarrow> Some (t', - 1, []) | Some n \<Rightarrow> lh_table_delete_entry t' (int n)
   }"

definition lh_table_free :: "('k, 'v) lh_table \<Rightarrow> ('k, 'v) lh_entry list option" where
  "lh_table_free t = map_option (\<lambda>xs. if lh_free_fn t then map ((!) (lh_tab t)) xs else []) (lh_slots t)"

definition lh_table_length :: "('k, 'v) lh_table \<Rightarrow> nat" where
  "lh_table_length t = lh_count t"

end
