(* ===== verification/Json_Linkhash_Spec.thy ===== *)
theory Json_Linkhash_Spec
  imports Json_Linkhash
begin

text \<open>
  What the hash table represents: the list of its entries in the order of insertion. The invariant
  ties the list through the slots, the slots in use and the probe sequences together.
\<close>

section \<open>Lists through slots\<close>

fun seg :: "('k, 'v) lh_entry list \<Rightarrow> nat option \<Rightarrow> nat list \<Rightarrow> nat option \<Rightarrow> bool" where
  "seg T p [] q = True"
| "seg T p (x # xs) q = (e_prev (T ! x) = p \<and> e_next (T ! x) = (if xs = [] then q else Some (hd xs)) \<and> seg T (Some x) xs q)"

lemma seg_append:
  "seg T p (xs @ ys) q \<longleftrightarrow>
     seg T p xs (if ys = [] then q else Some (hd ys)) \<and> seg T (if xs = [] then p else Some (last xs)) ys q"
  by (induction xs arbitrary: p) auto

lemma seg_update_other [simp]: "y \<notin> set xs \<Longrightarrow> seg (T[y := e]) p xs q = seg T p xs q"
  by (induction xs arbitrary: p) auto

lemma seg_same_links:
  "(\<And>x. x \<in> set xs \<Longrightarrow> e_next (T' ! x) = e_next (T ! x) \<and> e_prev (T' ! x) = e_prev (T ! x)) \<Longrightarrow> seg T' p xs q = seg T p xs q"
  by (induction xs arbitrary: p) auto

lemma lh_chain_seg:
  "seg T p xs None \<Longrightarrow> set xs \<subseteq> {..<length T} \<Longrightarrow> length xs \<le> n \<Longrightarrow>
     lh_chain T n (if xs = [] then None else Some (hd xs)) = Some xs"
proof (induction xs arbitrary: p n)
  case (Cons x xs)
  then obtain m where "n = Suc m" by (cases n) auto
  then show ?case using Cons.IH[of "Some x" m] Cons.prems by (auto split: if_splits)
qed simp

section \<open>Probe sequences\<close>

definition probe :: "('k, 'v) lh_table \<Rightarrow> 'k \<Rightarrow> nat \<Rightarrow> nat" where
  "probe t k d = (unat (lh_hash_fn t k) + d) mod lh_size t"

lemma next_slot_mod: "0 < s \<Longrightarrow> next_slot s (a mod s) = Suc a mod s"
  unfolding next_slot_def by (metis Suc_eq_plus1 mod_Suc)

lemma next_probe [simp]: "0 < lh_size t \<Longrightarrow> next_slot (lh_size t) (probe t k d) = probe t k (Suc d)"
  by (simp add: probe_def next_slot_mod)

lemma probe_less [simp]: "0 < lh_size t \<Longrightarrow> probe t k d < lh_size t"
  by (simp add: probe_def)

lemma probe_0: "probe t k 0 = unat (lh_hash_fn t k) mod lh_size t"
  by (simp add: probe_def)

lemma probe_onto:
  assumes "i < lh_size t"
  shows "\<exists>d < lh_size t. probe t k d = i"
proof -
  let ?s = "lh_size t" and ?h = "unat (lh_hash_fn t k) mod lh_size t"
  have h: "?h < ?s" using assms by simp
  let ?d = "if ?h \<le> i then i - ?h else i + ?s - ?h"
  have "?h + ?d = (if ?h \<le> i then i else i + ?s)" using h by (auto split: if_splits)
  then have "(?h + ?d) mod ?s = i" using assms by auto
  then have "probe t k ?d = i" by (simp add: probe_def mod_add_left_eq)
  moreover have "?d < ?s" using assms h by auto
  ultimately show ?thesis by blast
qed

section \<open>Invariant\<close>

definition the_key :: "('k, 'v) lh_entry \<Rightarrow> 'k" where
  "the_key e = (case e_k e of Key k \<Rightarrow> k)"

definition used :: "('k, 'v) lh_entry \<Rightarrow> bool" where
  "used e \<longleftrightarrow> e_k e \<noteq> LH_EMPTY \<and> e_k e \<noteq> LH_FREED"

lemma used_key: "used e \<longleftrightarrow> e_k e = Key (the_key e)"
  by (cases "e_k e") (auto simp: used_def the_key_def)

definition reached :: "('k, 'v) lh_table \<Rightarrow> nat \<Rightarrow> bool" where
  "reached t i \<longleftrightarrow> (\<exists>d < lh_size t. probe t (the_key (lh_tab t ! i)) d = i \<and>
     (\<forall>j < d. e_k (lh_tab t ! probe t (the_key (lh_tab t ! i)) j) \<noteq> LH_EMPTY))"

text \<open>\<open>xs\<close> are the slots in use, in the order of insertion.\<close>

definition lh_ok :: "('k, 'v) lh_table \<Rightarrow> nat list \<Rightarrow> bool" where
  "lh_ok t xs \<longleftrightarrow> length (lh_tab t) = lh_size t \<and> 0 < lh_size t \<and> lh_size t < 2 ^ 31 \<and> lh_equal_fn t = (=) \<and>
     distinct xs \<and> (\<forall>i. i \<in> set xs \<longleftrightarrow> i < lh_size t \<and> used (lh_tab t ! i)) \<and> lh_count t = length xs \<and>
     lh_head t = (if xs = [] then None else Some (hd xs)) \<and> lh_tail t = (if xs = [] then None else Some (last xs)) \<and>
     seg (lh_tab t) None xs None \<and> (\<forall>i \<in> set xs. reached t i)"

definition lh_items :: "('k, 'v) lh_table \<Rightarrow> nat list \<Rightarrow> ('k \<times> 'v option) list" where
  "lh_items t xs = map (\<lambda>i. (the_key (lh_tab t ! i), e_v (lh_tab t ! i))) xs"

definition lh_rep :: "('k, 'v) lh_table \<Rightarrow> ('k \<times> 'v option) list \<Rightarrow> bool" where
  "lh_rep t es \<longleftrightarrow> (\<exists>xs. lh_ok t xs \<and> es = lh_items t xs \<and> distinct (map fst es))"

lemma lh_ok_bound: "lh_ok t xs \<Longrightarrow> set xs \<subseteq> {..<lh_size t}"
  by (auto simp: lh_ok_def)

lemma lh_ok_count:
  assumes "lh_ok t xs"
  shows "length xs \<le> lh_size t"
proof -
  have "distinct xs" using assms by (simp add: lh_ok_def)
  then show ?thesis using card_mono[OF _ lh_ok_bound[OF assms]] by (simp add: distinct_card)
qed

lemma lh_ok_slots: 
  assumes "lh_ok t xs"
  shows "lh_slots t = Some xs"
proof -
  have "seg (lh_tab t) None xs None" "length (lh_tab t) = lh_size t" "lh_head t = (if xs = [] then None else Some (hd xs))"
    using assms by (auto simp: lh_ok_def)
  then show ?thesis
    using lh_chain_seg[of "lh_tab t" None xs "lh_size t"] lh_ok_bound[OF assms] lh_ok_count[OF assms] by (simp add: lh_slots_def)
qed

lemma lh_ok_new: "0 < n \<Longrightarrow> n < 2 ^ 31 \<Longrightarrow> lh_ok (lh_table_new n free hash (=)) []"
  by (auto simp: lh_ok_def lh_table_new_def used_def lh_empty_entry_def)

section \<open>The search for a free slot\<close>

declare free_slot.simps [simp del]

lemma free_slot_probe:
  "length (lh_tab t) = lh_size t \<Longrightarrow> 0 < lh_size t \<Longrightarrow> \<not> used (lh_tab t ! probe t k (j + d)) \<Longrightarrow>
     (\<forall>i < d. used (lh_tab t ! probe t k (j + i))) \<Longrightarrow>
     free_slot (lh_size t) (lh_tab t) (probe t k j) c = Some (probe t k (j + d), c + d)"
proof (induction d arbitrary: j c)
  case 0
  then show ?case by (subst free_slot.simps) (auto simp: used_def not_le)
next
  case (Suc d)
  have "free_slot (lh_size t) (lh_tab t) (probe t k (Suc j)) (Suc c) = Some (probe t k (Suc j + d), Suc c + d)"
    by (rule Suc.IH) (use Suc.prems in \<open>auto dest: spec[of _ "Suc _"]\<close>)
  moreover have "used (lh_tab t ! probe t k j)" using Suc.prems(4) by (metis add_0_right zero_less_Suc)
  ultimately show ?case using Suc.prems by (subst free_slot.simps) (simp add: used_def not_le)
qed

lemma free_slot_finds:
  assumes "lh_ok t xs" "length xs < lh_size t"
  obtains d where "d < lh_size t" "\<not> used (lh_tab t ! probe t k d)" "\<forall>j < d. used (lh_tab t ! probe t k j)"
    "free_slot (lh_size t) (lh_tab t) (unat (lh_hash_fn t k) mod lh_size t) c = Some (probe t k d, c + d)"
proof -
  have "\<exists>i < lh_size t. i \<notin> set xs"
  proof (rule ccontr)
    assume "\<not> ?thesis"
    then have "{..<lh_size t} \<subseteq> set xs" by auto
    then have "card {..<lh_size t} \<le> card (set xs)" by (intro card_mono) auto
    then show False using card_length[of xs] assms(2) by simp
  qed
  then obtain i where "i < lh_size t" "\<not> used (lh_tab t ! i)" using assms(1) by (auto simp: lh_ok_def)
  then obtain d' where d': "d' < lh_size t" "\<not> used (lh_tab t ! probe t k d')" using probe_onto by metis
  define d where "d = (LEAST d. \<not> used (lh_tab t ! probe t k d))"
  have d: "\<not> used (lh_tab t ! probe t k d)" "d \<le> d'" "\<forall>j < d. used (lh_tab t ! probe t k j)"
    unfolding d_def using LeastI[of "\<lambda>d. \<not> used (lh_tab t ! probe t k d)" d'] d'(2) by (auto intro: Least_le dest: not_less_Least)
  show thesis
    by (rule that[of d]) (use d d' free_slot_probe[of t k 0 d c] assms(1) in \<open>auto simp: lh_ok_def probe_0\<close>)
qed

section \<open>Insertion\<close>

definition same_frame :: "('k, 'v) lh_table \<Rightarrow> ('k, 'v) lh_table \<Rightarrow> bool" where
  "same_frame t t' \<longleftrightarrow> lh_size t' = lh_size t \<and> lh_hash_fn t' = lh_hash_fn t \<and> lh_equal_fn t' = lh_equal_fn t \<and>
     lh_free_fn t' = lh_free_fn t"

lemma probe_frame: "same_frame t t' \<Longrightarrow> probe t' = probe t"
  by (auto simp: same_frame_def probe_def fun_eq_iff)

lemma reached_keeps:
  assumes "reached t i" "same_frame t t'" "e_k (lh_tab t' ! i) = e_k (lh_tab t ! i)"
    and "\<And>j. e_k (lh_tab t ! j) \<noteq> LH_EMPTY \<Longrightarrow> e_k (lh_tab t' ! j) \<noteq> LH_EMPTY"
  shows "reached t' i"
proof -
  have "the_key (lh_tab t' ! i) = the_key (lh_tab t ! i)" using assms(3) by (simp add: the_key_def)
  then show ?thesis using assms(1,2,4) probe_frame[OF assms(2)] by (fastforce simp: reached_def same_frame_def)
qed

text \<open>The table after a new last entry in slot \<open>n\<close>.\<close>

definition appended :: "('k, 'v) lh_entry list \<Rightarrow> nat list \<Rightarrow> nat \<Rightarrow> 'k \<Rightarrow> 'v option \<Rightarrow> ('k, 'v) lh_entry list" where
  "appended T xs n k v =
    (let e = \<lparr>e_k = Key k, e_v = v, e_next = None, e_prev = (if xs = [] then None else Some (last xs))\<rparr> in
     if xs = [] then T[n := e] else T[last xs := (T ! last xs)\<lparr>e_next := Some n\<rparr>, n := e])"

lemma entry_filled [simp]:
  "(e :: ('k, 'v) lh_entry)\<lparr>e_k := a, e_v := b, e_next := c, e_prev := d\<rparr> = \<lparr>e_k = a, e_v = b, e_next = c, e_prev = d\<rparr>"
  "(e :: ('k, 'v) lh_entry)\<lparr>e_k := a, e_v := b, e_prev := d, e_next := c\<rparr> = \<lparr>e_k = a, e_v = b, e_next = c, e_prev = d\<rparr>"
  by (cases e, simp)+

lemma lh_append_ok:
  assumes "lh_ok t xs" "n < lh_size t" "n \<notin> set xs"
  shows "lh_append (t\<lparr>lh_collisions := c, lh_count := lh_count t + 1, lh_tab := (lh_tab t)[n := (lh_tab t ! n)\<lparr>e_k := Key k, e_v := v\<rparr>]\<rparr>) n =
    Some (t\<lparr>lh_collisions := c, lh_count := lh_count t + 1, lh_head := Some (hd (xs @ [n])), lh_tail := Some n,
      lh_tab := appended (lh_tab t) xs n k v\<rparr>)"
proof (cases "xs = []")
  case True
  then show ?thesis using assms by (simp add: lh_ok_def lh_append_def appended_def)
next
  case False
  then have "last xs \<in> set xs" by simp
  then have "last xs \<noteq> n" "last xs < lh_size t" using assms by (auto simp: lh_ok_def)
  then show ?thesis using assms(1,2) False by (cases t) (simp add: lh_ok_def lh_append_def appended_def list_update_swap)
qed

lemma appended_nth:
  assumes "n < length T" "n \<notin> set xs"
  shows "appended T xs n k v ! n = \<lparr>e_k = Key k, e_v = v, e_next = None, e_prev = (if xs = [] then None else Some (last xs))\<rparr>"
    and "i \<noteq> n \<Longrightarrow> e_k (appended T xs n k v ! i) = e_k (T ! i)"
    and "i \<noteq> n \<Longrightarrow> e_v (appended T xs n k v ! i) = e_v (T ! i)"
    and "length (appended T xs n k v) = length T"
  using assms by (cases "last xs < length T"; auto simp: appended_def Let_def nth_list_update list_update_beyond)+

lemma appended_seg:
  assumes "seg T None xs None" "n < length T" "n \<notin> set xs" "distinct xs" "set xs \<subseteq> {..<length T}"
  shows "seg (appended T xs n k v) None (xs @ [n]) None"
proof (cases xs rule: rev_cases)
  case Nil
  then show ?thesis using assms by (simp add: appended_def)
next
  case (snoc ys l)
  then have "l \<noteq> n" "l < length T" "l \<notin> set ys" "n \<notin> set ys" using assms by auto
  then show ?thesis using assms(1,2) snoc by (simp add: appended_def seg_append Let_def split: if_splits)
qed

lemma used_key_only: "e_k e = e_k e' \<Longrightarrow> used e = used e'"
  by (simp add: used_def)

lemma lh_insert_entry_ok:
  assumes "lh_ok t xs" "length xs < lh_size t"
  obtains t' n where "lh_insert_entry t k v = Some t'" "lh_ok t' (xs @ [n])"
    "lh_items t' (xs @ [n]) = lh_items t xs @ [(k, v)]" "same_frame t t'"
proof -
  obtain d where d: "d < lh_size t" "\<not> used (lh_tab t ! probe t k d)" "\<forall>j < d. used (lh_tab t ! probe t k j)"
    "free_slot (lh_size t) (lh_tab t) (unat (lh_hash_fn t k) mod lh_size t) (lh_collisions t) = Some (probe t k d, lh_collisions t + d)"
    using free_slot_finds[OF assms] by metis
  let ?n = "probe t k d" and ?T = "lh_tab t"
  have ok: "length ?T = lh_size t" "0 < lh_size t" "lh_size t < 2 ^ 31" "distinct xs" "seg ?T None xs None" "set xs \<subseteq> {..<length ?T}"
    "\<And>i. i \<in> set xs \<longleftrightarrow> i < lh_size t \<and> used (?T ! i)" "lh_count t = length xs" "lh_equal_fn t = (=)" "\<And>i. i \<in> set xs \<Longrightarrow> reached t i"
    "xs \<noteq> [] \<Longrightarrow> lh_head t = Some (hd xs)"
    using assms(1) by (auto simp: lh_ok_def)
  have n: "?n < lh_size t" "?n \<notin> set xs" using ok(2) d(2) ok(7) by auto
  define t' where "t' = t\<lparr>lh_collisions := lh_collisions t + d, lh_count := lh_count t + 1, lh_head := Some (hd (xs @ [?n])),
    lh_tail := Some ?n, lh_tab := appended ?T xs ?n k v\<rparr>"
  have frame: "same_frame t t'" by (simp add: same_frame_def t'_def)
  have nth: "lh_tab t' ! ?n = \<lparr>e_k = Key k, e_v = v, e_next = None, e_prev = (if xs = [] then None else Some (last xs))\<rparr>"
    "\<And>i. i \<noteq> ?n \<Longrightarrow> e_k (lh_tab t' ! i) = e_k (?T ! i)" "\<And>i. i \<noteq> ?n \<Longrightarrow> e_v (lh_tab t' ! i) = e_v (?T ! i)" "length (lh_tab t') = lh_size t"
    using n ok(1) by (simp_all add: t'_def appended_nth)
  have filled: "e_k (lh_tab t' ! j) \<noteq> LH_EMPTY" if "e_k (?T ! j) \<noteq> LH_EMPTY" for j
    using nth(1,2) that by (cases "j = ?n") auto
  have "reached t' i" if "i \<in> set xs" for i
    by (rule reached_keeps[OF ok(10)[OF that] frame nth(2) filled]) (use that n in auto)
  moreover have "reached t' ?n" unfolding reached_def
    by (rule exI[of _ d]) (use d(1,3) nth(1) filled frame probe_frame[OF frame] in \<open>auto simp: the_key_def used_def same_frame_def\<close>)
  moreover have "(i \<in> set (xs @ [?n])) = (i < lh_size t' \<and> used (lh_tab t' ! i))" for i
    using n ok(7) nth(1) used_key_only[OF nth(2)[of i]] frame by (cases "i = ?n") (auto simp: used_def same_frame_def)
  moreover have "seg (lh_tab t') None (xs @ [?n]) None"
    using appended_seg[OF ok(5) _ n(2) ok(4,6)] n(1) ok(1) by (simp add: t'_def)
  ultimately have "lh_ok t' (xs @ [?n])"
    using ok(2,3,4,8,9,11) n nth(4) frame by (simp add: lh_ok_def same_frame_def) (simp add: t'_def)
  moreover have "lh_items t' (xs @ [?n]) = lh_items t xs @ [(k, v)]"
  proof -
    have "i \<noteq> ?n" if "i \<in> set xs" for i using that n(2) by blast
    then show ?thesis using nth(1-3) by (simp add: lh_items_def the_key_def)
  qed
  moreover have "lh_insert_entry t k v = Some t'"
    using d(4) ok(2) lh_append_ok[OF assms(1) n] by (simp add: lh_insert_entry_def t'_def)
  ultimately show thesis using that frame by blast
qed

section \<open>Resizing\<close>

lemma lh_ok_cong:
  assumes "lh_size t' = lh_size t" "lh_count t' = lh_count t" "lh_head t' = lh_head t" "lh_tail t' = lh_tail t"
    "lh_tab t' = lh_tab t" "lh_hash_fn t' = lh_hash_fn t" "lh_equal_fn t' = lh_equal_fn t"
  shows "lh_ok t' xs = lh_ok t xs"
  using assms by (simp add: lh_ok_def reached_def probe_def)

lemma lh_items_counters [simp]:
  "lh_items (t\<lparr>lh_inserts := c\<rparr>) xs = lh_items t xs" "lh_items (t\<lparr>lh_lookups := c\<rparr>) xs = lh_items t xs"
  by (simp_all add: lh_items_def)

declare lh_table_insert.simps [simp del]

lemma lh_insert_room:
  assumes "lh_ok t xs" "100 * length xs < 66 * lh_size t"
  obtains t' n where "lh_table_insert (Suc depth) t k v = Some t'" "lh_ok t' (xs @ [n])"
    "lh_items t' (xs @ [n]) = lh_items t xs @ [(k, v)]" "same_frame t t'"
proof -
  let ?t = "t\<lparr>lh_inserts := lh_inserts t + 1\<rparr>"
  have ok: "lh_ok ?t xs" using assms(1) lh_ok_cong[of ?t t xs] by simp
  have room: "length xs < lh_size ?t" using assms(2) by simp
  obtain t' n where *: "lh_insert_entry ?t k v = Some t'" "lh_ok t' (xs @ [n])"
      "lh_items t' (xs @ [n]) = lh_items ?t xs @ [(k, v)]" "same_frame ?t t'"
    by (rule lh_insert_entry_ok[OF ok room])
  have "lh_count t = length xs" using assms(1) by (simp add: lh_ok_def)
  with * show thesis
    by (intro that[of t' n]) (use assms(2) in \<open>simp_all add: lh_table_insert.simps same_frame_def\<close>)
qed

lemma lh_reinsert_ok:
  assumes "lh_ok t xs" "\<forall>e \<in> set es. used e" "100 * (length xs + length es) < 66 * lh_size t + 100"
  shows "\<exists>t' ys. lh_reinsert (lh_table_insert (Suc depth)) es t = Some t' \<and> lh_ok t' ys \<and>
    lh_items t' ys = lh_items t xs @ map (\<lambda>e. (the_key e, e_v e)) es \<and> same_frame t t'"
  using assms
proof (induction es arbitrary: t xs)
  case (Cons e es)
  have room: "100 * length xs < 66 * lh_size t" using Cons.prems(3) by simp
  obtain t1 n where 1: "lh_table_insert (Suc depth) t (the_key e) (e_v e) = Some t1" "lh_ok t1 (xs @ [n])"
      "lh_items t1 (xs @ [n]) = lh_items t xs @ [(the_key e, e_v e)]" "same_frame t t1"
    by (rule lh_insert_room[OF Cons.prems(1) room])
  have "lh_size t1 = lh_size t" using 1(4) by (simp add: same_frame_def)
  then obtain t' ys where 2: "lh_reinsert (lh_table_insert (Suc depth)) es t1 = Some t'" "lh_ok t' ys"
      "lh_items t' ys = lh_items t1 (xs @ [n]) @ map (\<lambda>e. (the_key e, e_v e)) es" "same_frame t1 t'"
    using Cons.IH[OF 1(2)] Cons.prems(2,3) by auto
  have "e_k e = Key (the_key e)" using Cons.prems(2) used_key by auto
  with 1 2 show ?case by (auto simp: same_frame_def)
qed (auto simp: same_frame_def)

lemma new_items: "lh_items t [] = []" "lh_size (lh_table_new sz free hash eq) = sz"
  by (simp_all add: lh_items_def lh_table_new_def)

lemma lh_resize_ok:
  assumes "lh_ok t xs" "0 < sz" "sz < 2 ^ 31" "100 * length xs < 66 * sz + 100"
  obtains t' ys where "lh_resize_by (lh_table_insert (Suc depth)) t sz = Some t'" "lh_ok t' ys" "lh_items t' ys = lh_items t xs"
    "lh_size t' = sz" "lh_hash_fn t' = lh_hash_fn t" "lh_free_fn t' = lh_free_fn t"
proof -
  let ?new = "lh_table_new sz False (lh_hash_fn t) (=) :: ('a, 'b) lh_table" and ?es = "map ((!) (lh_tab t)) xs"
  have ok: "lh_equal_fn t = (=)" "lh_count t = length xs" "\<forall>e \<in> set ?es. used e" using assms(1) by (auto simp: lh_ok_def)
  obtain u ys where u: "lh_reinsert (lh_table_insert (Suc depth)) ?es ?new = Some u" "lh_ok u ys"
      "lh_items u ys = map (\<lambda>e. (the_key e, e_v e)) ?es" "same_frame ?new u"
    using lh_reinsert_ok[OF lh_ok_new[OF assms(2,3)] ok(3), of False "lh_hash_fn t" depth] assms(4) by (auto simp: new_items)
  let ?t = "t\<lparr>lh_tab := lh_tab u, lh_size := sz, lh_head := lh_head u, lh_tail := lh_tail u, lh_resizes := lh_resizes t + 1\<rparr>"
  have "length ys = length xs" using arg_cong[OF u(3), of length] by (simp add: lh_items_def)
  moreover have "lh_count u = length ys" using u(2) by (simp add: lh_ok_def)
  ultimately have "lh_ok ?t ys"
    using u(2,4) lh_ok_cong[of ?t u ys] ok(1,2) by (simp add: same_frame_def lh_table_new_def)
  moreover have "lh_items ?t ys = lh_items t xs" using u(3) by (simp add: lh_items_def comp_def)
  moreover have "lh_resize_by (lh_table_insert (Suc depth)) t sz = Some ?t"
    using u(1) ok(1) lh_ok_slots[OF assms(1)] by (simp add: lh_resize_by_def )
  ultimately show thesis by (intro that[of ?t ys]) simp_all
qed

lemma lh_insert_ok:
  assumes "lh_ok t xs" "2 * lh_size t < 2 ^ 31"
  obtains t' ys where "lh_table_insert (Suc (Suc depth)) t k v = Some t'" "lh_ok t' ys" "lh_items t' ys = lh_items t xs @ [(k, v)]"
    "lh_hash_fn t' = lh_hash_fn t" "lh_free_fn t' = lh_free_fn t" "lh_size t' \<le> max (lh_size t) (4 * length xs)"
proof (cases "100 * length xs < 66 * lh_size t")
  case True
  obtain t' n where "lh_table_insert (Suc (Suc depth)) t k v = Some t'" "lh_ok t' (xs @ [n])"
      "lh_items t' (xs @ [n]) = lh_items t xs @ [(k, v)]" "same_frame t t'"
    by (rule lh_insert_room[OF assms(1) True])
  then show thesis by (intro that[of t' "xs @ [n]"]) (simp_all add: same_frame_def)
next
  case False
  let ?t = "t\<lparr>lh_inserts := lh_inserts t + 1\<rparr>"
  have ok: "lh_ok ?t xs" "0 < 2 * lh_size ?t" "2 * lh_size ?t < 2 ^ 31" "100 * length xs < 66 * (2 * lh_size ?t) + 100"
    using assms lh_ok_cong[of ?t t xs] lh_ok_count[OF assms(1)] by (auto simp: lh_ok_def)
  obtain u ys where u: "lh_resize_by (lh_table_insert (Suc depth)) ?t (2 * lh_size ?t) = Some u" "lh_ok u ys" "lh_items u ys = lh_items ?t xs"
      "lh_size u = 2 * lh_size ?t" "lh_hash_fn u = lh_hash_fn ?t" "lh_free_fn u = lh_free_fn ?t"
    by (rule lh_resize_ok[OF ok])
  have "length ys = length xs" using arg_cong[OF u(3), of length] by (simp add: lh_items_def)
  then have room: "length ys < lh_size u" using u(4) ok(2) lh_ok_count[OF ok(1)] by simp
  obtain t' n where t': "lh_insert_entry u k v = Some t'" "lh_ok t' (ys @ [n])"
      "lh_items t' (ys @ [n]) = lh_items u ys @ [(k, v)]" "same_frame u t'"
    by (rule lh_insert_entry_ok[OF u(2) room])
  have "lh_count t = length xs" using assms(1) by (simp add: lh_ok_def)
  then have "lh_table_insert (Suc (Suc depth)) t k v = Some t'"
    using False u(1) t'(1) ok(3) by (simp add: lh_table_insert.simps(2)[of "Suc depth"])
  then show thesis
    using t' u False by (intro that[of t' "ys @ [n]"]) (simp_all add: same_frame_def)
qed

section \<open>Lookup\<close>

lemma lookup_loop_found:
  assumes "length (lh_tab t) = lh_size t" "0 < lh_size t" "lh_equal_fn t = (=)"
    and "e_k (lh_tab t ! i) = Key k" "\<And>i'. i' < lh_size t \<Longrightarrow> e_k (lh_tab t ! i') = Key k \<Longrightarrow> i' = i"
  shows "probe t k (j + d) = i \<Longrightarrow> d < left \<Longrightarrow> \<forall>m < d. e_k (lh_tab t ! probe t k (j + m)) \<noteq> LH_EMPTY \<Longrightarrow>
    lookup_loop left t k (probe t k j) = Some (Some i)"
proof (induction left arbitrary: j d)
  case (Suc left)
  show ?case
  proof (cases d)
    case 0
    then have "probe t k j = i" using Suc.prems(1) by simp
    then show ?thesis using assms(1-4) probe_less[OF assms(2), of k j] by (simp add: not_le)
  next
    case (Suc d')
    have rec: "lookup_loop left t k (probe t k (Suc j)) = Some (Some i)"
      by (rule Suc.IH[of _ d']) (use Suc Suc.prems in \<open>simp_all, metis add_Suc_right not_less_eq\<close>)
    have "e_k (lh_tab t ! probe t k j) \<noteq> LH_EMPTY" using Suc Suc.prems(3) by (metis add_0_right zero_less_Suc)
    then show ?thesis
      using rec assms(1-3) assms(5)[of "probe t k j"] by (auto simp: not_le split: lh_key.splits)
  qed
qed simp

lemma lookup_loop_absent:
  assumes "length (lh_tab t) = lh_size t" "0 < lh_size t" "lh_equal_fn t = (=)" "\<And>i. i < lh_size t \<Longrightarrow> e_k (lh_tab t ! i) \<noteq> Key k"
  shows "lookup_loop left t k (probe t k j) = Some None"
proof (induction left arbitrary: j)
  case (Suc left)
  have "e_k (lh_tab t ! probe t k j) \<noteq> Key k" using assms(2,4) by simp
  then show ?case using assms(1-3) Suc.IH[of "Suc j"] by (auto simp: not_le split: lh_key.splits)
qed simp

lemma lh_lookup_ok:
  assumes ok: "lh_ok t xs" and dist: "distinct (map fst (lh_items t xs))"
  shows "lh_table_lookup_entry t k = Some (t\<lparr>lh_lookups := lh_lookups t + 1\<rparr>, find (\<lambda>i. the_key (lh_tab t ! i) = k) xs)"
proof -
  have base: "length (lh_tab t) = lh_size t" "0 < lh_size t" "lh_equal_fn t = (=)" "\<And>i. i \<in> set xs \<longleftrightarrow> i < lh_size t \<and> used (lh_tab t ! i)"
    using ok by (auto simp: lh_ok_def)
  have "lookup_loop (lh_size t) t k (probe t k 0) = Some (find (\<lambda>i. the_key (lh_tab t ! i) = k) xs)"
  proof (cases "find (\<lambda>i. the_key (lh_tab t ! i) = k) xs")
    case None
    then have "\<forall>i \<in> set xs. the_key (lh_tab t ! i) \<noteq> k" by (simp add: find_None_iff)
    then have "e_k (lh_tab t ! i) \<noteq> Key k" if "i < lh_size t" for i using base(4)[of i] that by (auto simp: used_def the_key_def)
    then show ?thesis using lookup_loop_absent[of t k "lh_size t" 0] base None by simp
  next
    case (Some i)
    then have i: "i \<in> set xs" "the_key (lh_tab t ! i) = k" by (auto simp: find_Some_iff)
    then have key: "e_k (lh_tab t ! i) = Key k" using base(4) by (simp add: used_key)
    have inj: "inj_on (\<lambda>i. the_key (lh_tab t ! i)) (set xs)" using dist by (simp add: lh_items_def distinct_map comp_def)
    have unique: "i' = i" if "i' < lh_size t" "e_k (lh_tab t ! i') = Key k" for i'
    proof -
      have "i' \<in> set xs" "the_key (lh_tab t ! i') = k" using that base(4) by (auto simp: used_def the_key_def)
      then show ?thesis using inj i by (simp add: inj_on_def)
    qed
    obtain d where d: "d < lh_size t" "probe t k d = i" "\<forall>j < d. e_k (lh_tab t ! probe t k j) \<noteq> LH_EMPTY"
      using ok i unfolding lh_ok_def reached_def by blast
    show ?thesis using lookup_loop_found[OF base(1-3) key unique, of 0 d "lh_size t"] d Some by simp
  qed
  then show ?thesis using base(2) by (simp add: lh_table_lookup_entry_def probe_0)
qed

lemma find_items:
  "(case find (\<lambda>i. the_key (lh_tab t ! i) = k) xs of Some i \<Rightarrow> Some (e_v (lh_tab t ! i)) | None \<Rightarrow> None) = map_of (lh_items t xs) k"
  by (induction xs) (auto simp: lh_items_def)

section \<open>Deletion\<close>

lemma set_link_ok [simp]: "i < length T \<Longrightarrow> set_link upd (Some i) q T = Some (T[i := upd q (T ! i)])"
  by (simp add: set_link_def)

text \<open>The list without the entry in slot \<open>n\<close>; its keys and values are untouched.\<close>

lemma lh_unlink_ok:
  assumes "seg (lh_tab t) None (as @ n # bs) None" "distinct (as @ n # bs)" "set (as @ n # bs) \<subseteq> {..<length (lh_tab t)}"
    and "lh_head t = Some (hd (as @ n # bs))" "lh_tail t = Some (last (as @ n # bs))"
  obtains t' where "lh_unlink t n = Some t'" "seg (lh_tab t') None (as @ bs) None"
    "lh_head t' = (if as @ bs = [] then None else Some (hd (as @ bs)))" "lh_tail t' = (if as @ bs = [] then None else Some (last (as @ bs)))"
    "length (lh_tab t') = length (lh_tab t)"
    "\<And>i. e_k (lh_tab t' ! i) = e_k (lh_tab t ! i)" "\<And>i. e_v (lh_tab t' ! i) = e_v (lh_tab t ! i)" "same_frame t t'" "lh_count t' = lh_count t"
proof -
  let ?T = "lh_tab t"
  have n: "e_prev (?T ! n) = (if as = [] then None else Some (last as))" "e_next (?T ! n) = (if bs = [] then None else Some (hd bs))"
    "seg ?T None as (Some n)" "seg ?T (Some n) bs None" using assms(1) by (auto simp: seg_append)
  show thesis
  proof (cases as rule: rev_cases)
    case Nil
    show thesis
    proof (cases bs)
      case Nil
      then show thesis using \<open>as = []\<close> assms by (intro that[of "t\<lparr>lh_head := None, lh_tail := None\<rparr>"]) (auto simp: lh_unlink_def same_frame_def)
    next
      case (Cons b cs)
      then have b: "b < length ?T" "b \<noteq> n" "b \<notin> set cs" "last bs \<noteq> n" using assms(2,3) last_in_set[of bs] by auto
      then show thesis using \<open>as = []\<close> Cons n assms(2-5)
        by (intro that[of "t\<lparr>lh_head := Some b, lh_tab := ?T[b := (?T ! b)\<lparr>e_prev := None\<rparr>]\<rparr>"])
          (auto simp: lh_unlink_def same_frame_def nth_list_update Let_def split: if_splits)
    qed
  next
    case (snoc cs a)
    then have a: "a < length ?T" "a \<noteq> n" "a \<notin> set cs" "a \<notin> set bs" "as \<noteq> []" using assms(2,3) by auto
    have hd_n: "hd (as @ n # bs) \<noteq> n" using a(5) assms(2) by (cases as) auto
    show thesis
    proof (cases bs)
      case Nil
      then show thesis using snoc n a hd_n assms(2-5)
        by (intro that[of "t\<lparr>lh_tail := Some a, lh_tab := ?T[a := (?T ! a)\<lparr>e_next := None\<rparr>]\<rparr>"])
          (auto simp: lh_unlink_def same_frame_def nth_list_update seg_append Let_def split: if_splits)
    next
      case (Cons b ds)
      then have b: "b < length ?T" "b \<noteq> n" "b \<notin> set ds" "b \<notin> set cs" "b \<noteq> a" "last bs \<noteq> n" using assms(2,3) snoc last_in_set[of bs] by auto
      let ?T1 = "?T[a := (?T ! a)\<lparr>e_next := Some b\<rparr>]"
      show thesis using snoc Cons n a b hd_n assms(2-5)
        by (intro that[of "t\<lparr>lh_tab := ?T1[b := (?T1 ! b)\<lparr>e_prev := Some a\<rparr>]\<rparr>"])
          (auto simp: lh_unlink_def same_frame_def nth_list_update seg_append Let_def split: if_splits)
    qed
  qed
qed

lemma lh_delete_entry_ok:
  assumes "lh_ok t (as @ n # bs)"
  obtains t' where "lh_table_delete_entry t (int n) = Some (t', 0, if lh_free_fn t then [lh_tab t ! n] else [])"
    "lh_ok t' (as @ bs)" "lh_items t' (as @ bs) = lh_items t (as @ bs)" "same_frame t t'"
proof -
  let ?T = "lh_tab t" and ?xs = "as @ n # bs"
  have ok: "length ?T = lh_size t" "0 < lh_size t" "lh_size t < 2 ^ 31" "distinct ?xs" "seg ?T None ?xs None" "lh_count t = length ?xs"
    "lh_equal_fn t = (=)" "lh_head t = Some (hd ?xs)" "lh_tail t = Some (last ?xs)"
    and mem: "\<And>i. i \<in> set ?xs \<longleftrightarrow> i < lh_size t \<and> used (?T ! i)" and rea: "\<And>i. i \<in> set ?xs \<Longrightarrow> reached t i"
    using assms by (auto simp: lh_ok_def simp del: set_append)
  have n: "n < length ?T" "used (?T ! n)" "set ?xs \<subseteq> {..<length ?T}" using mem[of n] mem ok(1) by auto
  have new: "n \<notin> set (as @ bs)" "distinct (as @ bs)" using ok(4) by auto
  define t1 where "t1 = t\<lparr>lh_count := lh_count t - 1, lh_tab := ?T[n := (?T ! n)\<lparr>e_v := None, e_k := LH_FREED\<rparr>]\<rparr>"
  have t1: "seg (lh_tab t1) None ?xs None" "set ?xs \<subseteq> {..<length (lh_tab t1)}" "lh_head t1 = Some (hd ?xs)" "lh_tail t1 = Some (last ?xs)"
    using ok n seg_same_links[of ?xs "lh_tab t1" ?T None None] by (auto simp: t1_def nth_list_update)
  obtain t2 where t2: "lh_unlink t1 n = Some t2" "seg (lh_tab t2) None (as @ bs) None"
    "lh_head t2 = (if as @ bs = [] then None else Some (hd (as @ bs)))" "lh_tail t2 = (if as @ bs = [] then None else Some (last (as @ bs)))"
    "length (lh_tab t2) = length (lh_tab t1)" "\<And>i. e_k (lh_tab t2 ! i) = e_k (lh_tab t1 ! i)"
    "\<And>i. e_v (lh_tab t2 ! i) = e_v (lh_tab t1 ! i)" "same_frame t1 t2" "lh_count t2 = lh_count t1"
    by (rule lh_unlink_ok[OF t1(1) ok(4) t1(2-4)]) (rule that, assumption+)
  define t' where "t' = t2\<lparr>lh_tab := (lh_tab t2)[n := (lh_tab t2 ! n)\<lparr>e_next := None, e_prev := None\<rparr>]\<rparr>"
  have len: "length (lh_tab t') = lh_size t" using t2(5) ok(1) by (simp add: t'_def t1_def)
  have key: "e_k (lh_tab t' ! i) = (if i = n then LH_FREED else e_k (?T ! i))" for i
    using t2(5,6) n(1) by (cases "i = n") (simp_all add: t'_def t1_def)
  have val: "i \<noteq> n \<Longrightarrow> e_v (lh_tab t' ! i) = e_v (?T ! i)" for i using t2(7) by (simp add: t'_def t1_def)
  have frame: "same_frame t t'" using t2(8) by (simp add: same_frame_def t'_def t1_def)
  have "reached t' i" if "i \<in> set (as @ bs)" for i
    by (rule reached_keeps[OF rea frame]) (use that new key in \<open>auto split: if_splits\<close>)
  moreover have "i \<in> set (as @ bs) \<longleftrightarrow> i < lh_size t \<and> used (lh_tab t' ! i)" for i
    using mem[of i] new(1) key[of i] by (cases "i = n") (auto simp: used_def)
  moreover have "seg (lh_tab t') None (as @ bs) None" using t2(2) new(1) by (simp add: t'_def)
  moreover have "lh_head t' = lh_head t2" "lh_tail t' = lh_tail t2" "lh_count t' = length (as @ bs)"
    using t2(9) ok(6) by (simp_all add: t'_def t1_def)
  ultimately have "lh_ok t' (as @ bs)"
    using ok(2,3,7) new(2) len frame t2(3,4) by (simp add: lh_ok_def same_frame_def)
  moreover have "lh_items t' (as @ bs) = lh_items t (as @ bs)"
    using new(1) key val by (auto simp: lh_items_def the_key_def)
  moreover have "lh_table_delete_entry t (int n) = Some (t', 0, if lh_free_fn t then [?T ! n] else [])"
    using n(1,2) t2(1) by (simp add: lh_table_delete_entry_def used_def t'_def Let_def t1_def)
  ultimately show thesis using that frame by blast
qed

section \<open>The table as a list of entries\<close>

lemma lh_ok_lookups [simp]: "lh_ok (t\<lparr>lh_lookups := c\<rparr>) xs = lh_ok t xs"
  by (rule lh_ok_cong) simp_all

lemma lh_rep_new: "0 < n \<Longrightarrow> n < 2 ^ 31 \<Longrightarrow> lh_rep (lh_table_new n free hash (=)) []"
  unfolding lh_rep_def using lh_ok_new by (intro exI[of _ "[]"]) (auto simp: new_items)

lemma lh_rep_insert:
  assumes "lh_rep t es" "k \<notin> fst ` set es" "2 * lh_size t < 2 ^ 31"
  shows "\<exists>t'. lh_table_insert (Suc (Suc depth)) t k v = Some t' \<and> lh_rep t' (es @ [(k, v)]) \<and>
    lh_free_fn t' = lh_free_fn t \<and> lh_size t' \<le> max (lh_size t) (4 * length es)"
proof -
  obtain xs where xs: "lh_ok t xs" "es = lh_items t xs" "distinct (map fst es)" using assms(1) by (auto simp: lh_rep_def)
  obtain t' ys where "lh_table_insert (Suc (Suc depth)) t k v = Some t'" "lh_ok t' ys" "lh_items t' ys = lh_items t xs @ [(k, v)]"
      "lh_free_fn t' = lh_free_fn t" "lh_size t' \<le> max (lh_size t) (4 * length xs)"
    by (rule lh_insert_ok[OF xs(1) assms(3)])
  moreover have "length es = length xs" using xs(2) by (simp add: lh_items_def)
  ultimately show ?thesis unfolding lh_rep_def using xs(2,3) assms(2) by (auto intro!: exI[of _ ys])
qed

lemma lh_rep_lookup:
  assumes "lh_rep t es"
  shows "\<exists>t'. lh_table_lookup_ex t k = Some (t', k \<in> fst ` set es, Option.bind (map_of es k) id) \<and> lh_rep t' es \<and>
    lh_size t' = lh_size t \<and> lh_free_fn t' = lh_free_fn t"
proof -
  obtain xs where xs: "lh_ok t xs" "es = lh_items t xs" "distinct (map fst (lh_items t xs))" using assms by (auto simp: lh_rep_def)
  let ?t = "t\<lparr>lh_lookups := lh_lookups t + 1\<rparr>"
  have "(case find (\<lambda>i. the_key (lh_tab t ! i) = k) xs of Some n \<Rightarrow> (True, e_v (lh_tab t ! n)) | None \<Rightarrow> (False, None)) =
      (k \<in> fst ` set es, Option.bind (map_of es k) id)"
  proof (cases "find (\<lambda>i. the_key (lh_tab t ! i) = k) xs")
    case None
    then show ?thesis using find_items[of t k xs] xs(2) map_of_eq_None_iff[of es k] by simp
  next
    case (Some n)
    then have "map_of es k = Some (e_v (lh_tab t ! n))" using find_items[of t k xs] xs(2) by simp
    then show ?thesis using Some map_of_eq_None_iff[of es k] by simp
  qed
  then have "lh_table_lookup_ex t k = Some (?t, k \<in> fst ` set es, Option.bind (map_of es k) id)"
    using lh_lookup_ok[OF xs(1,3), of k] by (simp add: lh_table_lookup_ex_def cong: option.case_cong)
  moreover have "lh_rep ?t es" unfolding lh_rep_def using xs by (intro exI[of _ xs]) simp
  ultimately show ?thesis by auto
qed

lemma lh_rep_delete:
  assumes "lh_rep t es"
  shows "\<exists>t' called. lh_table_delete t k = Some (t', if k \<in> fst ` set es then 0 else - 1, called) \<and>
    lh_rep t' (filter (\<lambda>e. fst e \<noteq> k) es) \<and> lh_size t' = lh_size t \<and> lh_free_fn t' = lh_free_fn t \<and>
    map (\<lambda>e. (the_key e, e_v e)) called = (if lh_free_fn t then filter (\<lambda>e. fst e = k) es else [])"
proof -
  obtain xs where xs: "lh_ok t xs" "es = lh_items t xs" "distinct (map fst (lh_items t xs))" using assms by (auto simp: lh_rep_def)
  let ?t = "t\<lparr>lh_lookups := lh_lookups t + 1\<rparr>"
  note look = lh_lookup_ok[OF xs(1,3), of k]
  show ?thesis
  proof (cases "find (\<lambda>i. the_key (lh_tab t ! i) = k) xs")
    case None
    then have no: "\<forall>e \<in> set es. fst e \<noteq> k" using xs(2) by (auto simp: find_None_iff lh_items_def)
    then have "k \<notin> fst ` set es" "filter (\<lambda>e. fst e \<noteq> k) es = es" "filter (\<lambda>e. fst e = k) es = []" by (auto simp: filter_empty_conv)
    moreover have "lh_rep ?t es" unfolding lh_rep_def using xs by (intro exI[of _ xs]) simp
    ultimately show ?thesis using look None by (simp add: lh_table_delete_def)
  next
    case (Some n)
    then have "n \<in> set xs" and k: "the_key (lh_tab t ! n) = k" by (auto simp: find_Some_iff)
    then obtain as bs where split: "xs = as @ n # bs" by (auto simp: in_set_conv_decomp)
    have "lh_ok ?t (as @ n # bs)" using xs(1) split by simp
    then obtain t' where t': "lh_table_delete_entry ?t (int n) = Some (t', 0, if lh_free_fn ?t then [lh_tab ?t ! n] else [])"
      "lh_ok t' (as @ bs)" "lh_items t' (as @ bs) = lh_items ?t (as @ bs)" "same_frame ?t t'"
      by (rule lh_delete_entry_ok)
    have es: "es = lh_items t as @ (k, e_v (lh_tab t ! n)) # lh_items t bs" using xs(2) split k by (simp add: lh_items_def)
    have others: "\<forall>e \<in> set (lh_items t as @ lh_items t bs). fst e \<noteq> k" using xs(2,3) es by force
    have "filter (\<lambda>e. fst e \<noteq> k) es = lh_items t (as @ bs)" "filter (\<lambda>e. fst e = k) es = [(k, e_v (lh_tab t ! n))]"
      using es others by (auto simp: lh_items_def filter_id_conv filter_empty_conv)
    moreover have "lh_rep t' (lh_items t (as @ bs))" unfolding lh_rep_def
      using t'(2,3) xs(3) split by (intro exI[of _ "as @ bs"]) (auto simp: lh_items_def)
    moreover have "k \<in> fst ` set es" using es by simp
    ultimately show ?thesis using look Some t'(1,4) k by (simp add: lh_table_delete_def same_frame_def)
  qed
qed

lemma lh_rep_length: "lh_rep t es \<Longrightarrow> lh_table_length t = length es"
  by (auto simp: lh_rep_def lh_ok_def lh_table_length_def lh_items_def)

lemma lh_rep_free: "lh_rep t es \<Longrightarrow>
    map_option (map (\<lambda>e. (the_key e, e_v e))) (lh_table_free t) = Some (if lh_free_fn t then es else [])"
  by (auto simp: lh_rep_def lh_table_free_def lh_ok_slots lh_items_def)

end
