(* ===== verification/Json_Table.thy ===== *)
theory Json_Table
  imports Json_Linkhash_Spec
begin

text \<open>
  JSON objects as hash tables (src/json-c/json_object.c): adding, getting and deleting members, and
  going through them. The interface between objects and tables is the locale \<open>entry_table\<close>; the hash
  table is interpreted in it.
\<close>

section \<open>Operations of objects\<close>

text \<open>
  An existing entry keeps its key and place and gets the new value; the old value is what is released
  (\<open>None\<close> is the null pointer). The operations of the table are arguments.
\<close>

definition object_add ::
  "('t \<Rightarrow> 'k \<Rightarrow> ('t \<times> 'e option) option) \<Rightarrow> ('t \<Rightarrow> 'e \<Rightarrow> 'v option) \<Rightarrow> ('t \<Rightarrow> 'e \<Rightarrow> 'v option \<Rightarrow> 't) \<Rightarrow>
   ('t \<Rightarrow> 'k \<Rightarrow> 'v option \<Rightarrow> 't option) \<Rightarrow> 't \<Rightarrow> 'k \<Rightarrow> 'v option \<Rightarrow> ('t \<times> 'v option) option" where
  "object_add find_entry value_of set_value insert_entry t key val = do {
     (t, existing_entry) \<leftarrow> find_entry t key;
     case existing_entry of
       None \<Rightarrow> map_option (\<lambda>t. (t, None)) (insert_entry t key val)
     | Some e \<Rightarrow> Some (set_value t e val, value_of t e)
   }"

definition entry_value :: "('k, 'v) lh_table \<Rightarrow> nat \<Rightarrow> 'v option" where
  "entry_value t n = e_v (lh_tab t ! n)"

definition set_entry_value :: "('k, 'v) lh_table \<Rightarrow> nat \<Rightarrow> 'v option \<Rightarrow> ('k, 'v) lh_table" where
  "set_entry_value t n v = t\<lparr>lh_tab := (lh_tab t)[n := (lh_tab t ! n)\<lparr>e_v := v\<rparr>]\<rparr>"

definition json_object_object_add :: "('k, 'v) lh_table \<Rightarrow> 'k \<Rightarrow> 'v option \<Rightarrow> (('k, 'v) lh_table \<times> 'v option) option" where
  "json_object_object_add = object_add lh_table_lookup_entry entry_value set_entry_value (lh_table_insert 2)"

definition JSON_OBJECT_DEF_HASH_ENTRIES :: nat where
  "JSON_OBJECT_DEF_HASH_ENTRIES = 16"

definition json_object_new_object :: "('k \<Rightarrow> 64 word) \<Rightarrow> ('k, 'v) lh_table" where
  "json_object_new_object hash = lh_table_new JSON_OBJECT_DEF_HASH_ENTRIES True hash (=)"

text \<open>Getting from an object, and from any value: the null pointer, a value of another type, an object.\<close>

definition object_get_ex :: "('k, 'v) lh_table \<Rightarrow> 'k \<Rightarrow> (('k, 'v) lh_table \<times> bool \<times> 'v option) option" where
  "object_get_ex t key = lh_table_lookup_ex t key"

datatype ('k, 'v) json_ref = Ref_null | Ref_other | Ref_object "('k, 'v) lh_table"

fun json_object_object_get_ex :: "('k, 'v) json_ref \<Rightarrow> 'k \<Rightarrow> (('k, 'v) json_ref \<times> bool \<times> 'v option) option" where
  "json_object_object_get_ex Ref_null key = Some (Ref_null, False, None)"
| "json_object_object_get_ex (Ref_object t) key = map_option (\<lambda>(t, found, v). (Ref_object t, found, v)) (object_get_ex t key)"
| "json_object_object_get_ex Ref_other key = Some (Ref_other, False, None)"

definition json_object_object_get :: "('k, 'v) json_ref \<Rightarrow> 'k \<Rightarrow> (('k, 'v) json_ref \<times> 'v option) option" where
  "json_object_object_get jso key = map_option (\<lambda>(jso, found, v). (jso, v)) (json_object_object_get_ex jso key)"

definition json_object_object_del :: "('k, 'v) lh_table \<Rightarrow> 'k \<Rightarrow> (('k, 'v) lh_table \<times> 'v option list) option" where
  "json_object_object_del t key = map_option (\<lambda>(t, code, called). (t, map e_v called)) (lh_table_delete t key)"

definition json_object_object_length :: "('k, 'v) lh_table \<Rightarrow> nat" where
  "json_object_object_length t = lh_table_length t"

text \<open>\<open>json_object_object_foreach\<close>: the keys and values the loop goes through.\<close>

definition json_object_object_foreach :: "('k, 'v) lh_table \<Rightarrow> ('k lh_key \<times> 'v option) list option" where
  "json_object_object_foreach t = map_option (map (\<lambda>n. (e_k (lh_tab t ! n), e_v (lh_tab t ! n)))) (lh_slots t)"

section \<open>Sequences of operations\<close>

datatype ('k, 'v) object_op = Add 'k "'v option" | Get 'k | Del 'k

datatype 'v object_answer = Released "'v option list" | Found bool "'v option"

text \<open>A released null pointer is not released.\<close>

definition released_value :: "'v option \<Rightarrow> 'v object_answer" where
  "released_value v = Released (if v = None then [] else [v])"

fun object_ops ::
  "('t \<Rightarrow> 'k \<Rightarrow> 'v option \<Rightarrow> ('t \<times> 'v option) option) \<Rightarrow> ('t \<Rightarrow> 'k \<Rightarrow> ('t \<times> bool \<times> 'v option) option) \<Rightarrow>
   ('t \<Rightarrow> 'k \<Rightarrow> ('t \<times> 'v option list) option) \<Rightarrow> ('k, 'v) object_op list \<Rightarrow> 't \<Rightarrow> ('t \<times> 'v object_answer list) option" where
  "object_ops add get del [] t = Some (t, [])"
| "object_ops add get del (Add k v # ops) t =
     do { (t, old) \<leftarrow> add t k v; (t, as) \<leftarrow> object_ops add get del ops t; Some (t, released_value old # as) }"
| "object_ops add get del (Get k # ops) t =
     do { (t, found, v) \<leftarrow> get t k; (t, as) \<leftarrow> object_ops add get del ops t; Some (t, Found found v # as) }"
| "object_ops add get del (Del k # ops) t =
     do { (t, old) \<leftarrow> del t k; (t, as) \<leftarrow> object_ops add get del ops t; Some (t, Released old # as) }"

text \<open>The same on a list of members.\<close>

definition members_add :: "('k \<times> 'v option) list \<Rightarrow> 'k \<Rightarrow> 'v option \<Rightarrow> ('k \<times> 'v option) list" where
  "members_add es k v = (if k \<in> fst ` set es then map (\<lambda>e. if fst e = k then (k, v) else e) es else es @ [(k, v)])"

definition members_get :: "('k \<times> 'v option) list \<Rightarrow> 'k \<Rightarrow> 'v option" where
  "members_get es k = Option.bind (map_of es k) id"

fun members_ops :: "('k, 'v) object_op list \<Rightarrow> ('k \<times> 'v option) list \<Rightarrow> ('k \<times> 'v option) list \<times> 'v object_answer list" where
  "members_ops [] es = (es, [])"
| "members_ops (Add k v # ops) es =
     (let (es', as) = members_ops ops (members_add es k v) in (es', released_value (members_get es k) # as))"
| "members_ops (Get k # ops) es =
     (let (es', as) = members_ops ops es in (es', Found (k \<in> fst ` set es) (members_get es k) # as))"
| "members_ops (Del k # ops) es =
     (let (es', as) = members_ops ops (filter (\<lambda>e. fst e \<noteq> k) es) in
      (es', Released (map snd (filter (\<lambda>e. fst e = k) es)) # as))"

section \<open>What objects need of a table\<close>

text \<open>
  \<open>rep t es\<close>: the table has the entries \<open>es\<close>, in this order, with distinct keys. \<open>cap\<close> bounds its
  size: an insertion needs room to double it, and leaves it below four times the entries.
\<close>

locale entry_table =
  fixes rep :: "'t \<Rightarrow> ('k \<times> 'v option) list \<Rightarrow> bool" and cap :: "'t \<Rightarrow> nat"
    and find_entry :: "'t \<Rightarrow> 'k \<Rightarrow> ('t \<times> 'e option) option" and value_of :: "'t \<Rightarrow> 'e \<Rightarrow> 'v option"
    and set_value :: "'t \<Rightarrow> 'e \<Rightarrow> 'v option \<Rightarrow> 't" and insert_entry :: "'t \<Rightarrow> 'k \<Rightarrow> 'v option \<Rightarrow> 't option"
    and get :: "'t \<Rightarrow> 'k \<Rightarrow> ('t \<times> bool \<times> 'v option) option" and del :: "'t \<Rightarrow> 'k \<Rightarrow> ('t \<times> 'v option list) option"
  assumes find_absent: "rep t es \<Longrightarrow> k \<notin> fst ` set es \<Longrightarrow> \<exists>t'. find_entry t k = Some (t', None) \<and> rep t' es \<and> cap t' = cap t"
    and find_present: "rep t es \<Longrightarrow> k \<in> fst ` set es \<Longrightarrow>
      \<exists>t' e. find_entry t k = Some (t', Some e) \<and> value_of t' e = members_get es k \<and>
        rep (set_value t' e v) (map (\<lambda>e. if fst e = k then (k, v) else e) es) \<and> cap (set_value t' e v) = cap t"
    and insert_new: "rep t es \<Longrightarrow> k \<notin> fst ` set es \<Longrightarrow> 2 * cap t < 2 ^ 31 \<Longrightarrow>
      \<exists>t'. insert_entry t k v = Some t' \<and> rep t' (es @ [(k, v)]) \<and> cap t' \<le> max (cap t) (4 * length es)"
    and get_answers: "rep t es \<Longrightarrow> \<exists>t'. get t k = Some (t', k \<in> fst ` set es, members_get es k) \<and> rep t' es \<and> cap t' = cap t"
    and del_removes: "rep t es \<Longrightarrow>
      \<exists>t'. del t k = Some (t', map snd (filter (\<lambda>e. fst e = k) es)) \<and> rep t' (filter (\<lambda>e. fst e \<noteq> k) es) \<and> cap t' = cap t"
begin

lemma add_updates:
  assumes "rep t es" "2 * cap t < 2 ^ 31"
  shows "\<exists>t'. object_add find_entry value_of set_value insert_entry t k v = Some (t', members_get es k) \<and> rep t' (members_add es k v) \<and>
    cap t' \<le> max (cap t) (4 * length es)"
proof (cases "k \<in> fst ` set es")
  case True
  then show ?thesis using find_present[OF assms(1) True, of v] by (auto simp: object_add_def members_add_def)
next
  case False
  then obtain t1 where t1: "find_entry t k = Some (t1, None)" "rep t1 es" "cap t1 = cap t" using find_absent assms(1) by blast
  have "members_get es k = None" using False by (simp add: members_get_def map_of_eq_None_iff[THEN iffD2])
  then show ?thesis using insert_new[OF t1(2) False, of v] t1 assms(2) False by (auto simp: object_add_def members_add_def)
qed

lemma ops_refine:
  "rep t es \<Longrightarrow> length es + length ops < 2 ^ 28 \<Longrightarrow> cap t < 2 ^ 30 \<Longrightarrow>
     \<exists>t'. object_ops (object_add find_entry value_of set_value insert_entry) get del ops t = Some (t', snd (members_ops ops es)) \<and>
       rep t' (fst (members_ops ops es))"
proof (induction ops arbitrary: t es)
  case (Cons op ops)
  have step: "\<exists>t'. object_ops (object_add find_entry value_of set_value insert_entry) get del ops t1 = Some (t', snd (members_ops ops es1)) \<and>
       rep t' (fst (members_ops ops es1))" if "rep t1 es1" "length es1 \<le> Suc (length es)" "cap t1 \<le> max (cap t) (4 * length es)" for t1 es1
    by (rule Cons.IH) (use that Cons.prems in auto)
  show ?case
  proof (cases op)
    case (Add k v)
    obtain t1 where t1: "object_add find_entry value_of set_value insert_entry t k v = Some (t1, members_get es k)" "rep t1 (members_add es k v)"
        "cap t1 \<le> max (cap t) (4 * length es)"
      using add_updates[OF Cons.prems(1)] Cons.prems(3) by auto
    have "length (members_add es k v) \<le> Suc (length es)" by (simp add: members_add_def)
    then show ?thesis using step[OF t1(2) _ t1(3)] t1(1) Add by (auto simp: split_beta)
  next
    case (Get k)
    obtain t1 where "get t k = Some (t1, k \<in> fst ` set es, members_get es k)" "rep t1 es" "cap t1 = cap t"
      using get_answers[OF Cons.prems(1)] by blast
    then show ?thesis using step[of t1 es] Get by (auto simp: split_beta)
  next
    case (Del k)
    obtain t1 where "del t k = Some (t1, map snd (filter (\<lambda>e. fst e = k) es))" "rep t1 (filter (\<lambda>e. fst e \<noteq> k) es)" "cap t1 = cap t"
      using del_removes[OF Cons.prems(1)] by blast
    then show ?thesis using step[of t1 "filter (\<lambda>e. fst e \<noteq> k) es"] Del by (auto simp: split_beta le_Suc_eq)
  qed
qed simp

end

section \<open>Hash tables are such tables\<close>

lemma lh_ok_set_value:
  assumes "lh_ok t xs" "n \<in> set xs"
  shows "lh_ok (set_entry_value t n v) xs"
    and "lh_items (set_entry_value t n v) xs = map (\<lambda>i. (the_key (lh_tab t ! i), if i = n then v else e_v (lh_tab t ! i))) xs"
proof -
  let ?t = "set_entry_value t n v"
  have n: "n < length (lh_tab t)" using assms by (auto simp: lh_ok_def)
  have same: "e_k (lh_tab ?t ! i) = e_k (lh_tab t ! i)" "e_next (lh_tab ?t ! i) = e_next (lh_tab t ! i)"
    "e_prev (lh_tab ?t ! i) = e_prev (lh_tab t ! i)" "e_v (lh_tab ?t ! i) = (if i = n then v else e_v (lh_tab t ! i))" for i
    using n by (simp_all add: set_entry_value_def nth_list_update)
  have "same_frame t ?t" by (simp add: same_frame_def set_entry_value_def)
  then have "reached ?t i" if "reached t i" for i by (rule reached_keeps[OF that]) (simp_all add: same)
  moreover have "used (lh_tab ?t ! i) = used (lh_tab t ! i)" for i using used_key_only[OF same(1)] .
  moreover have "seg (lh_tab ?t) None xs None = seg (lh_tab t) None xs None" by (rule seg_same_links) (simp add: same)
  moreover have "lh_size ?t = lh_size t" "lh_count ?t = lh_count t" "lh_head ?t = lh_head t" "lh_tail ?t = lh_tail t"
    "lh_equal_fn ?t = lh_equal_fn t" "length (lh_tab ?t) = length (lh_tab t)" by (simp_all add: set_entry_value_def)
  ultimately show "lh_ok ?t xs" using assms(1) by (simp add: lh_ok_def)
  show "lh_items ?t xs = map (\<lambda>i. (the_key (lh_tab t ! i), if i = n then v else e_v (lh_tab t ! i))) xs"
    by (simp add: lh_items_def the_key_def same)
qed

lemma members_get_map_of: "map_of es k = Some v \<Longrightarrow> members_get es k = v"
  by (simp add: members_get_def)

lemma lh_rep_find:
  assumes "lh_rep t es"
  obtains e where "lh_table_lookup_entry t k = Some (t\<lparr>lh_lookups := lh_lookups t + 1\<rparr>, e)" "lh_rep (t\<lparr>lh_lookups := lh_lookups t + 1\<rparr>) es"
    "e = None \<longleftrightarrow> k \<notin> fst ` set es"
    "\<And>n v. e = Some n \<Longrightarrow> entry_value t n = members_get es k \<and>
       lh_rep (set_entry_value (t\<lparr>lh_lookups := lh_lookups t + 1\<rparr>) n v) (map (\<lambda>e. if fst e = k then (k, v) else e) es)"
proof -
  obtain xs where xs: "lh_ok t xs" "es = lh_items t xs" "distinct (map fst (lh_items t xs))" using assms by (auto simp: lh_rep_def)
  let ?t = "t\<lparr>lh_lookups := lh_lookups t + 1\<rparr>" and ?e = "find (\<lambda>i. the_key (lh_tab t ! i) = k) xs"
  have "?e = None \<longleftrightarrow> k \<notin> fst ` set es" using xs(2) by (auto simp: find_None_iff lh_items_def image_image image_iff)
  moreover have "entry_value t n = members_get es k \<and> lh_rep (set_entry_value ?t n v) (map (\<lambda>e. if fst e = k then (k, v) else e) es)"
    if "?e = Some n" for n v
  proof
    have n: "n \<in> set xs" "the_key (lh_tab t ! n) = k" using that by (auto simp: find_Some_iff)
    show "entry_value t n = members_get es k"
      using find_items[of t k xs] that xs(2) members_get_map_of[of es k "entry_value t n"] by (simp add: entry_value_def)
    have inj: "inj_on (\<lambda>i. the_key (lh_tab t ! i)) (set xs)" using xs(3) by (simp add: lh_items_def distinct_map comp_def)
    then have "the_key (lh_tab t ! i) = k \<longleftrightarrow> i = n" if "i \<in> set xs" for i using that n by (auto simp: inj_on_def)
    then have items: "lh_items (set_entry_value ?t n v) xs = map (\<lambda>e. if fst e = k then (k, v) else e) es"
      using lh_ok_set_value(2)[of ?t xs n v] xs(1,2) n by (auto simp: lh_items_def)
    moreover have "map fst (map (\<lambda>e. if fst e = k then (k, v) else e) es) = map fst es" by (induction es) auto
    ultimately have "distinct (map fst (lh_items (set_entry_value ?t n v) xs))" using xs(2,3) by (simp only:)
    with items show "lh_rep (set_entry_value ?t n v) (map (\<lambda>e. if fst e = k then (k, v) else e) es)"
      unfolding lh_rep_def using lh_ok_set_value(1)[of ?t xs n v] xs(1) n(1) by (intro exI[of _ xs]) simp
  qed
  moreover have "lh_rep ?t es" unfolding lh_rep_def using xs by (intro exI[of _ xs]) simp
  ultimately show thesis by (intro that[of ?e] lh_lookup_ok[OF xs(1,3)])
qed

interpretation objects: entry_table "\<lambda>t es. lh_rep t es \<and> lh_free_fn t" lh_size lh_table_lookup_entry entry_value set_entry_value
  "lh_table_insert 2" object_get_ex json_object_object_del
proof
  fix t :: "('k, 'v) lh_table" and es k and v :: "'v option"
  assume rep: "lh_rep t es \<and> lh_free_fn t"
  let ?t = "t\<lparr>lh_lookups := lh_lookups t + 1\<rparr>"
  obtain e where e: "lh_table_lookup_entry t k = Some (?t, e)" "lh_rep ?t es" "e = None \<longleftrightarrow> k \<notin> fst ` set es"
    "\<And>n v. e = Some n \<Longrightarrow> entry_value t n = members_get es k \<and>
       lh_rep (set_entry_value ?t n v) (map (\<lambda>e. if fst e = k then (k, v) else e) es)"
    by (rule lh_rep_find[OF rep[THEN conjunct1], of k]) (rule that, assumption+)
  show "\<exists>t'. lh_table_lookup_entry t k = Some (t', None) \<and> (lh_rep t' es \<and> lh_free_fn t') \<and> lh_size t' = lh_size t" if "k \<notin> fst ` set es"
    using e rep that by auto
  show "\<exists>t' n. lh_table_lookup_entry t k = Some (t', Some n) \<and> entry_value t' n = members_get es k \<and>
      (lh_rep (set_entry_value t' n v) (map (\<lambda>e. if fst e = k then (k, v) else e) es) \<and> lh_free_fn (set_entry_value t' n v)) \<and>
      lh_size (set_entry_value t' n v) = lh_size t" if k: "k \<in> fst ` set es"
  proof -
    obtain n where "e = Some n" using e(3) k by (cases e) auto
    then show ?thesis using e(1) e(4)[of n v] rep by (auto simp: set_entry_value_def entry_value_def)
  qed
  show "\<exists>t'. lh_table_insert 2 t k v = Some t' \<and> (lh_rep t' (es @ [(k, v)]) \<and> lh_free_fn t') \<and> lh_size t' \<le> max (lh_size t) (4 * length es)"
    if "k \<notin> fst ` set es" "2 * lh_size t < 2 ^ 31"
    using lh_rep_insert[of t es k 0 v, folded numeral_2_eq_2] rep that by auto
  show "\<exists>t'. object_get_ex t k = Some (t', k \<in> fst ` set es, members_get es k) \<and> (lh_rep t' es \<and> lh_free_fn t') \<and> lh_size t' = lh_size t"
    using lh_rep_lookup[of t es k] rep by (auto simp: object_get_ex_def members_get_def)
  obtain t' called where "lh_table_delete t k = Some (t', if k \<in> fst ` set es then 0 else - 1, called)"
      "lh_rep t' (filter (\<lambda>e. fst e \<noteq> k) es)" "lh_size t' = lh_size t" "lh_free_fn t' = lh_free_fn t"
      "map (\<lambda>e. (the_key e, e_v e)) called = filter (\<lambda>e. fst e = k) es"
    using lh_rep_delete[of t es k] rep by auto
  moreover from this(5) have "map e_v called = map snd (filter (\<lambda>e. fst e = k) es)"
    by (metis (no_types, lifting) comp_def map_eq_conv map_map snd_conv)
  ultimately show "\<exists>t'. json_object_object_del t k = Some (t', map snd (filter (\<lambda>e. fst e = k) es)) \<and>
      (lh_rep t' (filter (\<lambda>e. fst e \<noteq> k) es) \<and> lh_free_fn t') \<and> lh_size t' = lh_size t"
    using rep by (auto simp: json_object_object_del_def)
qed

section \<open>Properties\<close>

text \<open>
  C5. A JSON object is the list of its members in the order of insertion: for every hash function
  and every sequence of operations, adding (in place for a key that is there), getting and deleting
  never fail or loop and answer as on a list; the members released, the length and what iteration
  goes through are those of the list. (Below \<open>2 ^ 28\<close> operations the size of the table is an \<open>int\<close>.)
\<close>

theorem json_object_object_refines:
  assumes "length ops < 2 ^ 28"
  shows "\<exists>t. object_ops json_object_object_add object_get_ex json_object_object_del ops (json_object_new_object hash) =
      Some (t, snd (members_ops ops [])) \<and>
    json_object_object_length t = length (fst (members_ops ops [])) \<and>
    json_object_object_foreach t = Some (map (\<lambda>(k, v). (Key k, v)) (fst (members_ops ops [])))"
proof -
  let ?new = "json_object_new_object hash :: ('a, 'b) lh_table"
  have "lh_rep ?new [] \<and> lh_free_fn ?new" "lh_size ?new = 16"
    using lh_rep_new[of 16 True hash] by (simp_all add: json_object_new_object_def JSON_OBJECT_DEF_HASH_ENTRIES_def lh_table_new_def)
  then obtain t where t: "object_ops json_object_object_add object_get_ex json_object_object_del ops ?new =
      Some (t, snd (members_ops ops []))" "lh_rep t (fst (members_ops ops []))"
    using objects.ops_refine[of ?new "[]" ops] assms by (auto simp: json_object_object_add_def)
  then obtain xs where xs: "lh_ok t xs" "fst (members_ops ops []) = lh_items t xs" by (auto simp: lh_rep_def)
  then have "used (lh_tab t ! i)" if "i \<in> set xs" for i using that by (auto simp: lh_ok_def)
  then have "json_object_object_foreach t = Some (map (\<lambda>(k, v). (Key k, v)) (fst (members_ops ops [])))"
    using xs lh_ok_slots[OF xs(1)] by (auto simp: json_object_object_foreach_def lh_items_def used_key)
  then show ?thesis using t lh_rep_length by (auto simp: json_object_object_length_def)
qed

theorem json_object_object_refines_witness:
  "\<exists>t. object_ops json_object_object_add object_get_ex json_object_object_del
      [Add ''a'' (Some (1 :: nat)), Add ''b'' (Some 2), Add ''a'' None, Get ''a'', Del ''b'', Get ''b''] (json_object_new_object (\<lambda>k. of_nat (length k))) =
      Some (t, [Released [], Released [], Released [Some 1], Found True None, Released [Some 2], Found False None]) \<and>
    json_object_object_length t = 1"
  using json_object_object_refines[of "[Add ''a'' (Some (1 :: nat)), Add ''b'' (Some 2), Add ''a'' None, Get ''a'', Del ''b'', Get ''b'']"
      "\<lambda>k. of_nat (length k)"]
  by (simp add: members_add_def members_get_def released_value_def) blast

end
