(* ===== verification/Json_Value.thy ===== *)
theory Json_Value
  imports C_Lib Json_Table
begin

unbundle bit_operations_syntax

text \<open>
  JSON values and their text (src/json-c/json_object.c, json_util.c). A value is a tree: \<open>J_null\<close> is
  the null pointer, an object is the list of its members (what its hash table stands for, by
  \<open>json_object_object_refines\<close>), an array the list of its elements. Floating-point numbers are a type
  \<open>'d\<close> with the library's operations on it. Text goes to buffers with memory (\<open>Json_Printbuf\<close>): the
  functions here give the text they append.
\<close>

datatype 'd json =
    J_null
  | J_boolean bool
  | J_double 'd "string option"
  | J_int "64 word"
  | J_object "(string \<times> 'd json) list"
  | J_array "'d json list"
  | J_string string

datatype json_type = json_type_null | json_type_boolean | json_type_double | json_type_int | json_type_object | json_type_array | json_type_string

record 'd c_double =
  d_isnan :: "'d \<Rightarrow> bool"
  d_isinf :: "'d \<Rightarrow> bool"
  d_positive :: "'d \<Rightarrow> bool"
  d_zero :: "'d \<Rightarrow> bool"
  d_format17 :: "'d \<Rightarrow> string"
  d_scan :: "string \<Rightarrow> 'd option"
  d_to_int64 :: "'d \<Rightarrow> 64 word"
  d_to_int32 :: "'d \<Rightarrow> 32 word"
  d_NAN :: 'd
  d_INFINITY :: 'd
  d_NEG_INFINITY :: 'd

section \<open>json_util.c\<close>

text \<open>
  \<open>sscanf\<close> of a 64-bit integer, an argument: the number and whether \<open>errno\<close> became \<open>ERANGE\<close>, or nothing
  for no match. The library's saturates and reports it; the workaround is for others.
\<close>

type_synonym int_scan = "string \<Rightarrow> (64 word \<times> bool) option"

definition INT64_MIN :: "64 word" where "INT64_MIN = 0x8000000000000000"
definition INT64_MAX :: "64 word" where "INT64_MAX = 0x7FFFFFFFFFFFFFFF"

definition in_int64 :: "bool \<Rightarrow> nat \<Rightarrow> bool" where
  "in_int64 neg m \<longleftrightarrow> (if neg then m \<le> 2 ^ 63 else m < 2 ^ 63)"

definition int64_of :: "bool \<Rightarrow> nat \<Rightarrow> 64 word" where
  "int64_of neg m = (if neg then - of_nat m else of_nat m)"

definition sscanf_int64 :: int_scan where
  "sscanf_int64 s = (case parse_int 10 s of
      None \<Rightarrow> None
    | Some (neg, m) \<Rightarrow> Some (if in_int64 neg m then (int64_of neg m, False) else (if neg then INT64_MIN else INT64_MAX, True)))"

definition sscanf_is_broken_test :: "int_scan \<Rightarrow> bool" where
  "sscanf_is_broken_test scan =
    (case (scan '' -01234567890123456789012345'', scan '' 01234567890123456789012345'') of
       (Some (n1, e1), Some (n2, e2)) \<Rightarrow> \<not> e1 \<or> n1 \<noteq> INT64_MIN \<or> \<not> e2 \<or> n2 \<noteq> INT64_MAX
     | _ \<Rightarrow> True)"

fun skip_zeros :: "string \<Rightarrow> string" where
  "skip_zeros (a # b # cs) = (if a = CHR ''0'' then skip_zeros (b # cs) else a # b # cs)"
| "skip_zeros s = s"

text \<open>The check of a number read against its text: whether it was out of range after all.\<close>

definition recheck_int64 :: "string \<Rightarrow> bool \<Rightarrow> 64 word \<Rightarrow> bool" where
  "recheck_int64 buf_sig_digits orig_has_neg num64 =
    (let buf_sig_digits = skip_zeros buf_sig_digits;
         orig_has_neg = (if num64 = 0 then False else orig_has_neg);
         buf_cmp = show_int (sint num64);
         recheck_has_neg = (hd buf_cmp = CHR ''-'');
         buf_cmp_start = (if recheck_has_neg then tl buf_cmp else buf_cmp);
         buf_cmp_len = length buf_cmp_start
     in orig_has_neg \<noteq> recheck_has_neg \<or> take buf_cmp_len buf_sig_digits \<noteq> buf_cmp_start \<or>
        length buf_sig_digits \<noteq> buf_cmp_len \<and> isdigit (buf_sig_digits ! buf_cmp_len))"

definition json_parse_int64 :: "int_scan \<Rightarrow> string \<Rightarrow> 64 word option" where
  "json_parse_int64 scan buf =
    (let buf = dropWhile isspace (c_str buf) in
     case scan buf of
       None \<Rightarrow> None
     | Some (num64, erange) \<Rightarrow>
         let orig_has_neg = (buf \<noteq> [] \<and> hd buf = CHR ''-'');
             buf_sig_digits = (if orig_has_neg then tl buf else buf);
             range = (if sscanf_is_broken_test scan \<and> \<not> erange then recheck_int64 buf_sig_digits orig_has_neg num64 else erange)
         in Some (if range then if (if sscanf_is_broken_test scan \<and> \<not> erange \<and> num64 = 0 then False else orig_has_neg) then INT64_MIN else INT64_MAX
                  else num64))"

definition json_parse_double :: "'d c_double \<Rightarrow> string \<Rightarrow> 'd option" where
  "json_parse_double D buf = d_scan D (c_str buf)"

definition json_type_to_name :: "int \<Rightarrow> string option" where
  "json_type_to_name o_type =
    (let json_type_name = [''null'', ''boolean'', ''double'', ''int'', ''object'', ''array'', ''string''] in
     if o_type < 0 \<or> int (length json_type_name) \<le> o_type then None else Some (json_type_name ! nat o_type))"

section \<open>Types and contents\<close>

fun json_object_get_type :: "'d json \<Rightarrow> json_type" where
  "json_object_get_type J_null = json_type_null"
| "json_object_get_type (J_boolean b) = json_type_boolean"
| "json_object_get_type (J_double d ds) = json_type_double"
| "json_object_get_type (J_int i) = json_type_int"
| "json_object_get_type (J_object ms) = json_type_object"
| "json_object_get_type (J_array vs) = json_type_array"
| "json_object_get_type (J_string s) = json_type_string"

definition json_object_is_type :: "'d json \<Rightarrow> json_type \<Rightarrow> bool" where
  "json_object_is_type jso type = (if jso = J_null then type = json_type_null else json_object_get_type jso = type)"

fun json_object_get_boolean :: "'d c_double \<Rightarrow> 'd json \<Rightarrow> bool" where
  "json_object_get_boolean D (J_boolean b) = b"
| "json_object_get_boolean D (J_int i) = (i \<noteq> 0)"
| "json_object_get_boolean D (J_double d ds) = (\<not> d_zero D d)"
| "json_object_get_boolean D (J_string s) = (length s \<noteq> 0)"
| "json_object_get_boolean D _ = False"

definition INT32_MIN :: int where "INT32_MIN = - (2 ^ 31)"
definition INT32_MAX :: int where "INT32_MAX = 2 ^ 31 - 1"

text \<open>A 64-bit number as an \<open>int32_t\<close>.\<close>

definition int32_of :: "64 word \<Rightarrow> int" where
  "int32_of cint64 = (if sint cint64 \<le> INT32_MIN then INT32_MIN else if INT32_MAX \<le> sint cint64 then INT32_MAX else sint cint64)"

fun json_object_get_int :: "'d c_double \<Rightarrow> int_scan \<Rightarrow> 'd json \<Rightarrow> int" where
  "json_object_get_int D scan (J_string s) = (case json_parse_int64 scan s of None \<Rightarrow> 0 | Some cint64 \<Rightarrow> int32_of cint64)"
| "json_object_get_int D scan (J_int i) = int32_of i"
| "json_object_get_int D scan (J_double d ds) = sint (d_to_int32 D d)"
| "json_object_get_int D scan (J_boolean b) = (if b then 1 else 0)"
| "json_object_get_int D scan _ = 0"

fun json_object_get_int64 :: "'d c_double \<Rightarrow> int_scan \<Rightarrow> 'd json \<Rightarrow> int" where
  "json_object_get_int64 D scan (J_int i) = sint i"
| "json_object_get_int64 D scan (J_double d ds) = sint (d_to_int64 D d)"
| "json_object_get_int64 D scan (J_boolean b) = (if b then 1 else 0)"
| "json_object_get_int64 D scan (J_string s) = (case json_parse_int64 scan s of None \<Rightarrow> 0 | Some cint \<Rightarrow> sint cint)"
| "json_object_get_int64 D scan _ = 0"

fun json_object_get_string_len :: "'d json \<Rightarrow> nat" where
  "json_object_get_string_len (J_string s) = length s"
| "json_object_get_string_len _ = 0"

section \<open>Text\<close>

definition JSON_C_TO_STRING_PLAIN :: "32 word" where "JSON_C_TO_STRING_PLAIN = 0"
definition JSON_C_TO_STRING_SPACED :: "32 word" where "JSON_C_TO_STRING_SPACED = 1"
definition JSON_C_TO_STRING_PRETTY :: "32 word" where "JSON_C_TO_STRING_PRETTY = 2"
definition JSON_C_TO_STRING_NOZERO :: "32 word" where "JSON_C_TO_STRING_NOZERO = 4"

definition spaced :: "32 word \<Rightarrow> bool" where "spaced flags \<longleftrightarrow> flags AND JSON_C_TO_STRING_SPACED \<noteq> 0"
definition pretty :: "32 word \<Rightarrow> bool" where "pretty flags \<longleftrightarrow> flags AND JSON_C_TO_STRING_PRETTY \<noteq> 0"
definition nozero :: "32 word \<Rightarrow> bool" where "nozero flags \<longleftrightarrow> flags AND JSON_C_TO_STRING_NOZERO \<noteq> 0"

abbreviation BSL :: char where "BSL \<equiv> CHR 0x5C"
abbreviation QUOTE :: char where "QUOTE \<equiv> CHR 0x22"

definition json_hex_chars :: string where
  "json_hex_chars = ''0123456789abcdefABCDEF''"

text \<open>The short escapes: the character behind the backslash.\<close>

definition short_escape :: "char \<Rightarrow> char option" where
  "short_escape c =
    (if c = CHR 0x08 then Some (CHR ''b'') else if c = NL then Some (CHR ''n'') else if c = CHR 0x0D then Some (CHR ''r'')
     else if c = TAB then Some (CHR ''t'') else if c = CHR 0x0C then Some (CHR ''f'') else if c = QUOTE then Some QUOTE
     else if c = BSL then Some BSL else if c = CHR ''/'' then Some (CHR ''/'') else None)"

definition unicode_escape :: "char \<Rightarrow> string" where
  "unicode_escape c = [BSL] @ ''u00'' @ [json_hex_chars ! (of_char c div 16), json_hex_chars ! (of_char c mod 16)]"

text \<open>The loop: \<open>left\<close> characters from \<open>pos\<close> on; those from \<open>start_offset\<close> to \<open>pos\<close> are not yet appended.\<close>

primrec escape_loop :: "nat \<Rightarrow> string \<Rightarrow> nat \<Rightarrow> nat \<Rightarrow> string \<Rightarrow> string" where
  "escape_loop 0 str pos start_offset pb = (if start_offset < pos then pb @ get_at start_offset (pos - start_offset) str else pb)"
| "escape_loop (Suc left) str pos start_offset pb =
    (let c = str ! pos; flushed = (if start_offset < pos then pb @ get_at start_offset (pos - start_offset) str else pb) in
     case short_escape c of
       Some e \<Rightarrow> escape_loop left str (pos + 1) (pos + 1) (flushed @ [BSL, e])
     | None \<Rightarrow>
         if (of_char c :: nat) < 32 then escape_loop left str (pos + 1) (pos + 1) (flushed @ unicode_escape c)
         else escape_loop left str (pos + 1) start_offset pb)"

definition json_escape_str :: "string \<Rightarrow> string" where
  "json_escape_str str = escape_loop (length str) str 0 0 []"

definition indent :: "nat \<Rightarrow> 32 word \<Rightarrow> string" where
  "indent level flags = (if pretty flags then replicate (level * 2) SPC else [])"

definition newline :: "32 word \<Rightarrow> string" where
  "newline flags = (if pretty flags then [NL] else [])"

text \<open>What stands before a child: a separator but before the first, and white space.\<close>

definition before_child :: "nat \<Rightarrow> 32 word \<Rightarrow> bool \<Rightarrow> string" where
  "before_child level flags had_children =
    (if had_children then '','' @ newline flags else []) @ (if spaced flags then '' '' else []) @ indent (level + 1) flags"

fun members_text :: "nat \<Rightarrow> 32 word \<Rightarrow> bool \<Rightarrow> (string \<times> string) list \<Rightarrow> string" where
  "members_text level flags had_children [] = []"
| "members_text level flags had_children ((key, val) # members) =
    before_child level flags had_children @ [QUOTE] @ json_escape_str (c_str key) @
    (if spaced flags then [QUOTE] @ '': '' else [QUOTE] @ '':'') @ val @ members_text level flags True members"

text \<open>\<open>members\<close> are the keys with the text of their values, printed one level deeper.\<close>

definition json_object_object_to_json_string :: "(string \<times> string) list \<Rightarrow> nat \<Rightarrow> 32 word \<Rightarrow> string" where
  "json_object_object_to_json_string members level flags =
    ''{'' @ newline flags @ members_text level flags False members @
    (if pretty flags then (if members \<noteq> [] then [NL] else []) @ indent level flags else []) @
    (if spaced flags then '' }'' else ''}'')"

fun elements_text :: "nat \<Rightarrow> 32 word \<Rightarrow> bool \<Rightarrow> string list \<Rightarrow> string" where
  "elements_text level flags had_children [] = []"
| "elements_text level flags had_children (val # elements) =
    before_child level flags had_children @ val @ elements_text level flags True elements"

definition json_object_array_to_json_string :: "string list \<Rightarrow> nat \<Rightarrow> 32 word \<Rightarrow> string" where
  "json_object_array_to_json_string elements level flags =
    ''['' @ newline flags @ elements_text level flags False elements @
    (if pretty flags then (if elements \<noteq> [] then [NL] else []) @ indent level flags else []) @
    (if spaced flags then '' ]'' else '']'')"

definition json_object_boolean_to_json_string :: "bool \<Rightarrow> string" where
  "json_object_boolean_to_json_string b = (if b then ''true'' else ''false'')"

definition json_object_int_to_json_string :: "64 word \<Rightarrow> string" where
  "json_object_int_to_json_string i = show_int (sint i)"

text \<open>
  The text of a double: the first comma becomes a point; without trailing zeros, but for one digit
  behind the point, when the flag says so.
\<close>

definition split_point :: "string \<Rightarrow> (string \<times> string) option" where
  "split_point buf =
    (let sep = (if CHR '','' \<in> set buf then CHR '','' else CHR ''.'') in
     if sep \<in> set buf then Some (takeWhile (\<lambda>c. c \<noteq> sep) buf, tl (dropWhile (\<lambda>c. c \<noteq> sep) buf)) else None)"

definition drop_zeros :: "string \<Rightarrow> string" where
  "drop_zeros q = (let kept = rev (dropWhile (\<lambda>c. c = CHR ''0'') (rev q)) in if kept = [] then take 1 (q @ [NUL]) else kept)"

definition json_object_double_to_json_string :: "'d c_double \<Rightarrow> 'd \<Rightarrow> 32 word \<Rightarrow> string" where
  "json_object_double_to_json_string D d flags =
    (let buf = (if d_isnan D d then ''NaN'' else if d_isinf D d then if d_positive D d then ''Infinity'' else ''-Infinity'' else d_format17 D d)
     in case split_point buf of
          None \<Rightarrow> buf
        | Some (p, q) \<Rightarrow> p @ ''.'' @ (if nozero flags then drop_zeros q else q))"

definition json_object_userdata_to_json_string :: "string \<Rightarrow> string" where
  "json_object_userdata_to_json_string userdata = c_str userdata"

definition json_object_string_to_json_string :: "string \<Rightarrow> string" where
  "json_object_string_to_json_string s = [QUOTE] @ json_escape_str s @ [QUOTE]"

text \<open>The serializer of a value, by the pointer its constructor sets.\<close>

fun to_json_string :: "'d c_double \<Rightarrow> 'd json \<Rightarrow> nat \<Rightarrow> 32 word \<Rightarrow> string" where
  "to_json_string D J_null level flags = ''null''"
| "to_json_string D (J_boolean b) level flags = json_object_boolean_to_json_string b"
| "to_json_string D (J_double d None) level flags = json_object_double_to_json_string D d flags"
| "to_json_string D (J_double d (Some ds)) level flags = json_object_userdata_to_json_string ds"
| "to_json_string D (J_int i) level flags = json_object_int_to_json_string i"
| "to_json_string D (J_object ms) level flags =
    json_object_object_to_json_string (map (\<lambda>(k, v). (k, to_json_string D v (level + 1) flags)) ms) level flags"
| "to_json_string D (J_array vs) level flags =
    json_object_array_to_json_string (map (\<lambda>v. to_json_string D v (level + 1) flags) vs) level flags"
| "to_json_string D (J_string s) level flags = json_object_string_to_json_string s"

definition json_object_to_json_string_ext :: "'d c_double \<Rightarrow> 'd json \<Rightarrow> 32 word \<Rightarrow> string" where
  "json_object_to_json_string_ext D jso flags = (if jso = J_null then ''null'' else c_str (to_json_string D jso 0 flags))"

definition json_object_to_json_string :: "'d c_double \<Rightarrow> 'd json \<Rightarrow> string" where
  "json_object_to_json_string D jso = json_object_to_json_string_ext D jso JSON_C_TO_STRING_SPACED"

definition json_object_get_string :: "'d c_double \<Rightarrow> 'd json \<Rightarrow> string option" where
  "json_object_get_string D jso = (case jso of
      J_null \<Rightarrow> None
    | J_string s \<Rightarrow> Some (c_str s)
    | _ \<Rightarrow> Some (json_object_to_json_string D jso))"

end
