(* ===== verification/Json_Access.thy ===== *)
theory Json_Access
  imports Json_Value
begin

text \<open>
  Making values and taking their contents (src/json-c/json_object.c), where memory is there. \<open>None\<close> is
  memory outside an array or a string; the null pointer as a value is \<open>J_null\<close>.
\<close>

section \<open>Constructors\<close>

definition json_object_new_boolean :: "bool \<Rightarrow> 'd json" where
  "json_object_new_boolean b = J_boolean b"

definition json_object_new_int :: "32 word \<Rightarrow> 'd json" where
  "json_object_new_int i = J_int (scast i)"

definition json_object_new_int64 :: "64 word \<Rightarrow> 'd json" where
  "json_object_new_int64 i = J_int i"

definition json_object_new_double :: "'d \<Rightarrow> 'd json" where
  "json_object_new_double d = J_double d None"

definition json_object_new_double_s :: "'d \<Rightarrow> string \<Rightarrow> 'd json" where
  "json_object_new_double_s d ds = J_double d (Some (c_str ds))"

definition json_object_new_string :: "string \<Rightarrow> 'd json" where
  "json_object_new_string s = J_string (c_str s)"

definition json_object_new_string_len :: "string \<Rightarrow> int \<Rightarrow> 'd json option" where
  "json_object_new_string_len s len = (if len < 0 \<or> int (length s) < len then None else Some (J_string (take (nat len) s)))"

definition json_object_new_array :: "'d json" where
  "json_object_new_array = J_array []"

section \<open>Contents\<close>

definition json_object_get_object :: "'d json \<Rightarrow> (string \<times> 'd json) list option" where
  "json_object_get_object jso = (case jso of J_object ms \<Rightarrow> Some ms | _ \<Rightarrow> None)"

definition json_object_get_array :: "'d json \<Rightarrow> 'd json list option" where
  "json_object_get_array jso = (case jso of J_array vs \<Rightarrow> Some vs | _ \<Rightarrow> None)"

definition json_object_array_length :: "'d json \<Rightarrow> int option" where
  "json_object_array_length jso = map_option (\<lambda>vs. int (length vs)) (json_object_get_array jso)"

definition json_object_array_get_idx :: "'d json \<Rightarrow> int \<Rightarrow> 'd json option" where
  "json_object_array_get_idx jso idx =
    (case json_object_get_array jso of
       None \<Rightarrow> None
     | Some vs \<Rightarrow> if int (length vs) \<le> idx then Some J_null else if idx < 0 then None else Some (vs ! nat idx))"

text \<open>
  \<open>strtod\<close> is an argument: the number, how many characters it was read from, and whether \<open>errno\<close> became
  \<open>ERANGE\<close>; so are the number of an integer and, in its place for 0.0, the number of 0.
\<close>

definition json_object_get_double :: "'d c_double \<Rightarrow> (int \<Rightarrow> 'd) \<Rightarrow> (string \<Rightarrow> 'd \<times> nat \<times> bool) \<Rightarrow> 'd json \<Rightarrow> 'd" where
  "json_object_get_double D of_integer strtod jso = (case jso of
      J_double d ds \<Rightarrow> d
    | J_int i \<Rightarrow> of_integer (sint i)
    | J_boolean b \<Rightarrow> of_integer (if b then 1 else 0)
    | J_string s \<Rightarrow>
        (let (cdouble, len, erange) = strtod (c_str s) in
         if len = 0 then of_integer 0
         else if len \<noteq> length (c_str s) then of_integer 0
         else if d_isinf D cdouble \<and> erange then of_integer 0
         else cdouble)
    | _ \<Rightarrow> of_integer 0)"

section \<open>What was put in is taken out\<close>

lemma sint_scast_64: "sint (scast (i :: 32 word) :: 64 word) = sint i"
  by (simp add: sint_up_scast is_up)

lemma sint_32_bounds: "INT32_MIN \<le> sint (i :: 32 word)" "sint (i :: 32 word) \<le> INT32_MAX"
  using sint_range_size[of i] by (simp_all add: INT32_MIN_def INT32_MAX_def word_size)

lemma int32_of_scast: "int32_of (scast (i :: 32 word)) = sint i"
  using sint_32_bounds[of i] by (simp add: int32_of_def sint_scast_64)

lemma json_object_new_get:
  "json_object_get_int D scan (json_object_new_int i) = sint i"
  "json_object_get_int64 D scan (json_object_new_int64 n) = sint n"
  "json_object_get_boolean D (json_object_new_boolean b) = b"
  "json_object_get_double D of_integer strtod (json_object_new_double_s d ds) = d"
  "json_object_to_json_string D (json_object_new_double_s d ds) = c_str ds"
  "json_object_get_string D (json_object_new_string s) = Some (c_str s)"
  by (simp_all add: json_object_new_int_def json_object_new_int64_def json_object_new_boolean_def json_object_new_double_s_def
      json_object_new_string_def json_object_get_double_def json_object_get_string_def json_object_to_json_string_def
      json_object_to_json_string_ext_def json_object_userdata_to_json_string_def int32_of_scast)

lemma json_object_new_string_len_get:
  assumes "json_object_new_string_len s len = Some v"
  shows "int (json_object_get_string_len v) = len"
  using assms by (auto simp: json_object_new_string_len_def split: if_splits)

lemma json_object_array_get_element:
  assumes "json_object_get_array jso = Some vs" "0 \<le> i" "i < int (length vs)"
  shows "json_object_array_get_idx jso i = Some (vs ! nat i)"
  using assms by (simp add: json_object_array_get_idx_def)

end
