(* ===== verification/Json_Tokener.thy ===== *)
theory Json_Tokener
  imports Json_Value
begin

text \<open>
  The parser of JSON text (src/json-c/json_tokener.c), a state machine over the characters. \<open>None\<close> is
  undefined behaviour, or a loop that does not end. Text of a given length is read to its end
  (\<open>bounded\<close>); otherwise it ends with the null character, which is parsed as a character.
\<close>

datatype json_tokener_error =
    json_tokener_success | json_tokener_continue | json_tokener_error_depth | json_tokener_error_parse_eof
  | json_tokener_error_parse_unexpected | json_tokener_error_parse_null | json_tokener_error_parse_boolean
  | json_tokener_error_parse_number | json_tokener_error_parse_array | json_tokener_error_parse_object_key_name
  | json_tokener_error_parse_object_key_sep | json_tokener_error_parse_object_value_sep | json_tokener_error_parse_string
  | json_tokener_error_parse_comment | json_tokener_error_size

datatype json_tokener_state =
    state_eatws | state_start | state_finish | state_null | state_comment_start | state_comment | state_comment_eol
  | state_comment_end | state_string | state_string_escape | state_escape_unicode | state_boolean | state_number
  | state_array | state_array_add | state_array_sep | state_object_field_start | state_object_field | state_object_field_end
  | state_object_value | state_object_value_add | state_object_sep | state_array_after_sep | state_object_field_start_after_sep
  | state_inf

record 'd srec =
  s_state :: json_tokener_state
  s_saved :: json_tokener_state
  s_current :: "'d json"
  s_field :: "string option"

text \<open>
  The stack is the current level and those below it; its entries above the current level are set
  anew before they are used. \<open>tk_pb\<close> is the text of the buffer.
\<close>

record 'd tokener =
  tk_pb :: string
  tk_max_depth :: int
  tk_is_double :: bool
  tk_st_pos :: nat
  tk_offset :: nat
  tk_err :: json_tokener_error
  tk_ucs :: "32 word"
  tk_quote :: char
  tk_top :: "'d srec"
  tk_below :: "'d srec list"
  tk_strict :: bool

definition json_tokener_reset_level :: "'d srec" where
  "json_tokener_reset_level = \<lparr>s_state = state_eatws, s_saved = state_start, s_current = J_null, s_field = None\<rparr>"

definition json_tokener_reset :: "'d tokener \<Rightarrow> 'd tokener" where
  "json_tokener_reset tok = tok\<lparr>tk_top := json_tokener_reset_level, tk_below := [], tk_err := json_tokener_success\<rparr>"

definition json_tokener_new_ex :: "int \<Rightarrow> 'd tokener" where
  "json_tokener_new_ex depth =
    \<lparr>tk_pb = [], tk_max_depth = depth, tk_is_double = False, tk_st_pos = 0, tk_offset = 0, tk_err = json_tokener_success,
     tk_ucs = 0, tk_quote = NUL, tk_top = json_tokener_reset_level, tk_below = [], tk_strict = False\<rparr>"

definition JSON_TOKENER_DEFAULT_DEPTH :: int where
  "JSON_TOKENER_DEFAULT_DEPTH = 32"

definition json_tokener_set_flags :: "'d tokener \<Rightarrow> 32 word \<Rightarrow> 'd tokener" where
  "json_tokener_set_flags tok flags = tok\<lparr>tk_strict := flags AND 1 \<noteq> 0\<rparr>"

section \<open>Steps\<close>

text \<open>
  What a round of the loop ends with: parse the same character again, go on to the next one, or
  leave the loop with the last character read. A configuration is the tokener, the finished value
  \<open>obj\<close> and the text from the current character on.
\<close>

datatype 'd action = Redo "'d tokener" "'d json" string | Advance "'d tokener" "'d json" string | Out "'d tokener" char

abbreviation set_state :: "json_tokener_state \<Rightarrow> 'd tokener \<Rightarrow> 'd tokener" where
  "set_state s tok \<equiv> tok\<lparr>tk_top := (tk_top tok)\<lparr>s_state := s\<rparr>\<rparr>"

text \<open>Leave white space, then go to \<open>s\<close>.\<close>

definition eat_then :: "json_tokener_state \<Rightarrow> 'd tokener \<Rightarrow> 'd tokener" where
  "eat_then s tok = tok\<lparr>tk_top := (tk_top tok)\<lparr>s_saved := s, s_state := state_eatws\<rparr>\<rparr>"

definition set_current :: "'d json \<Rightarrow> 'd tokener \<Rightarrow> 'd tokener" where
  "set_current v tok = tok\<lparr>tk_top := (tk_top tok)\<lparr>s_current := v\<rparr>\<rparr>"

definition finish_with :: "'d json \<Rightarrow> 'd tokener \<Rightarrow> 'd tokener" where
  "finish_with v tok = eat_then state_finish (set_current v tok)"

abbreviation append_pb :: "string \<Rightarrow> 'd tokener \<Rightarrow> 'd tokener" where
  "append_pb s tok \<equiv> tok\<lparr>tk_pb := tk_pb tok @ s\<rparr>"

definition fail_out :: "json_tokener_error \<Rightarrow> 'd tokener \<Rightarrow> char \<Rightarrow> 'd action" where
  "fail_out e tok c = Out (tok\<lparr>tk_err := e\<rparr>) c"

text \<open>\<open>PEEK_CHAR\<close> at the end of the text.\<close>

definition peek_end :: "'d tokener \<Rightarrow> 'd tokener" where
  "peek_end tok = tok\<lparr>tk_err :=
     (if tk_below tok = [] \<and> s_state (tk_top tok) = state_eatws \<and> s_saved (tk_top tok) = state_finish
      then json_tokener_success else json_tokener_continue)\<rparr>"

definition skip :: "nat \<Rightarrow> 'd tokener \<Rightarrow> 'd tokener" where
  "skip n tok = tok\<lparr>tk_offset := tk_offset tok + n\<rparr>"

text \<open>A new level; the stack has \<open>tk_max_depth\<close> entries.\<close>

definition push_level :: "json_tokener_state \<Rightarrow> 'd tokener \<Rightarrow> 'd json \<Rightarrow> string \<Rightarrow> 'd action" where
  "push_level s tok obj rest =
    (if tk_max_depth tok - 1 \<le> int (length (tk_below tok)) then fail_out json_tokener_error_depth tok (hd rest)
     else Redo (tok\<lparr>tk_top := json_tokener_reset_level, tk_below := (tk_top tok)\<lparr>s_state := s\<rparr> # tk_below tok\<rparr>) obj rest)"

subsection \<open>White space, comments and the first character\<close>

definition step_eatws :: "'d tokener \<Rightarrow> 'd json \<Rightarrow> string \<Rightarrow> 'd action" where
  "step_eatws tok obj rest =
    (let ws = takeWhile isspace rest; rest' = dropWhile isspace rest; tok = skip (length ws) tok in
     case rest' of
       [] \<Rightarrow> Out (peek_end tok) (last ws)
     | c # cs \<Rightarrow>
         if c = CHR ''/'' \<and> \<not> tk_strict tok then Advance (set_state state_comment_start (tok\<lparr>tk_pb := [c]\<rparr>)) obj rest'
         else Redo (set_state (s_saved (tk_top tok)) tok) obj rest')"

definition json_number_chars :: string where
  "json_number_chars = ''0123456789.+-eE''"

definition step_start :: "'d tokener \<Rightarrow> 'd json \<Rightarrow> string \<Rightarrow> 'd action" where
  "step_start tok obj rest =
    (let c = hd rest in
     if c = CHR ''{'' then Advance (set_current (J_object []) (eat_then state_object_field_start tok)) obj rest
     else if c = CHR ''['' then Advance (set_current (J_array []) (eat_then state_array tok)) obj rest
     else if c = CHR ''I'' \<or> c = CHR ''i'' then Redo (set_state state_inf (tok\<lparr>tk_pb := [], tk_st_pos := 0\<rparr>)) obj rest
     else if c = CHR ''N'' \<or> c = CHR ''n'' then Redo (set_state state_null (tok\<lparr>tk_pb := [], tk_st_pos := 0\<rparr>)) obj rest
     else if c = CHR 0x27 \<and> tk_strict tok then fail_out json_tokener_error_parse_unexpected tok c
     else if c = CHR 0x27 \<or> c = QUOTE then Advance (set_state state_string (tok\<lparr>tk_pb := [], tk_quote := c\<rparr>)) obj rest
     else if c \<in> set ''TtFf'' then Redo (set_state state_boolean (tok\<lparr>tk_pb := [], tk_st_pos := 0\<rparr>)) obj rest
     else if isdigit c \<or> c = CHR ''-'' then Redo (set_state state_number (tok\<lparr>tk_pb := [], tk_is_double := False\<rparr>)) obj rest
     else fail_out json_tokener_error_parse_unexpected tok c)"

definition step_comment_start :: "'d tokener \<Rightarrow> 'd json \<Rightarrow> string \<Rightarrow> 'd action" where
  "step_comment_start tok obj rest =
    (let c = hd rest in
     if c = CHR ''*'' then Advance (append_pb [c] (set_state state_comment tok)) obj rest
     else if c = CHR ''/'' then Advance (append_pb [c] (set_state state_comment_eol tok)) obj rest
     else fail_out json_tokener_error_parse_comment tok c)"

text \<open>
  Reading on while \<open>p\<close> holds, into the buffer: at the end of the text, and behind the null character,
  the loop is left. \<open>k\<close> continues at the first other character with the tokener and the text from it on.
\<close>

definition read_while :: "(char \<Rightarrow> bool) \<Rightarrow> ('d tokener \<Rightarrow> string \<Rightarrow> 'd action) \<Rightarrow> 'd tokener \<Rightarrow> string \<Rightarrow> 'd action" where
  "read_while p k tok rest =
    (let xs = takeWhile (\<lambda>c. p c \<and> c \<noteq> NUL) rest; rest' = dropWhile (\<lambda>c. p c \<and> c \<noteq> NUL) rest;
         tok = skip (length xs) (append_pb xs tok) in
     case rest' of
       [] \<Rightarrow> Out (peek_end tok) (last xs)
     | c # cs \<Rightarrow> if p c then Out (skip 1 (append_pb [NUL] tok)) NUL else k tok rest')"

definition step_comment :: "'d tokener \<Rightarrow> 'd json \<Rightarrow> string \<Rightarrow> 'd action" where
  "step_comment tok obj rest =
    read_while (\<lambda>c. c \<noteq> CHR ''*'') (\<lambda>tok rest. Advance (set_state state_comment_end (append_pb ''*'' tok)) obj rest) tok rest"

definition step_comment_eol :: "'d tokener \<Rightarrow> 'd json \<Rightarrow> string \<Rightarrow> 'd action" where
  "step_comment_eol tok obj rest = read_while (\<lambda>c. c \<noteq> NL) (\<lambda>tok rest. Advance (set_state state_eatws tok) obj rest) tok rest"

definition step_comment_end :: "'d tokener \<Rightarrow> 'd json \<Rightarrow> string \<Rightarrow> 'd action" where
  "step_comment_end tok obj rest =
    (let c = hd rest in
     Advance (set_state (if c = CHR ''/'' then state_eatws else state_comment) (append_pb [c] tok)) obj rest)"

subsection \<open>Names\<close>

definition tolower :: "char \<Rightarrow> char" where
  "tolower c = (if 65 \<le> (of_char c :: nat) \<and> (of_char c :: nat) \<le> 90 then char_of (of_char c + 32 :: nat) else c)"

text \<open>\<open>strncasecmp\<close>, or in strict mode \<open>strncmp\<close>, of a name and the buffer, equal in their first \<open>n\<close> characters.\<close>

definition name_matches :: "bool \<Rightarrow> string \<Rightarrow> string \<Rightarrow> nat \<Rightarrow> bool" where
  "name_matches strict name buf n \<longleftrightarrow>
    (\<not> strict \<and> map tolower (take n buf) = map tolower (take n name)) \<or> take n buf = take n name"

definition step_inf :: "'d c_double \<Rightarrow> 'd tokener \<Rightarrow> 'd json \<Rightarrow> string \<Rightarrow> 'd action" where
  "step_inf D tok obj rest =
    (let c = hd rest; tok = append_pb [c] tok; size_inf = min (tk_st_pos tok + 1) 8;
         is_negative = (hd (tk_pb tok) = CHR ''-''); infbuf = (if is_negative then tl (tk_pb tok) else tk_pb tok) in
     if name_matches (tk_strict tok) ''Infinity'' infbuf size_inf
     then if tk_st_pos tok = 8 then Redo (finish_with (J_double (if is_negative then d_NEG_INFINITY D else d_INFINITY D) None) tok) obj rest
          else Advance (tok\<lparr>tk_st_pos := tk_st_pos tok + 1\<rparr>) obj rest
     else fail_out json_tokener_error_parse_unexpected tok c)"

definition step_null :: "'d c_double \<Rightarrow> 'd tokener \<Rightarrow> 'd json \<Rightarrow> string \<Rightarrow> 'd action" where
  "step_null D tok obj rest =
    (let c = hd rest; tok = append_pb [c] tok; size' = min (tk_st_pos tok + 1) 4; size_nan = min (tk_st_pos tok + 1) 3 in
     if name_matches (tk_strict tok) ''null'' (tk_pb tok) size'
     then if tk_st_pos tok = 4 then Redo (finish_with J_null tok) obj rest
          else Advance (tok\<lparr>tk_st_pos := tk_st_pos tok + 1\<rparr>) obj rest
     else if name_matches (tk_strict tok) ''NaN'' (tk_pb tok) size_nan
     then if tk_st_pos tok = 3 then Redo (finish_with (J_double (d_NAN D) None) tok) obj rest
          else Advance (tok\<lparr>tk_st_pos := tk_st_pos tok + 1\<rparr>) obj rest
     else fail_out json_tokener_error_parse_null tok c)"

definition step_boolean :: "'d tokener \<Rightarrow> 'd json \<Rightarrow> string \<Rightarrow> 'd action" where
  "step_boolean tok obj rest =
    (let c = hd rest; tok = append_pb [c] tok; size1 = min (tk_st_pos tok + 1) 4; size2 = min (tk_st_pos tok + 1) 5 in
     if name_matches (tk_strict tok) ''true'' (tk_pb tok) size1
     then if tk_st_pos tok = 4 then Redo (finish_with (J_boolean True) tok) obj rest
          else Advance (tok\<lparr>tk_st_pos := tk_st_pos tok + 1\<rparr>) obj rest
     else if name_matches (tk_strict tok) ''false'' (tk_pb tok) size2
     then if tk_st_pos tok = 5 then Redo (finish_with (J_boolean False) tok) obj rest
          else Advance (tok\<lparr>tk_st_pos := tk_st_pos tok + 1\<rparr>) obj rest
     else fail_out json_tokener_error_parse_boolean tok c)"

subsection \<open>Strings\<close>

definition step_string :: "'d tokener \<Rightarrow> 'd json \<Rightarrow> string \<Rightarrow> 'd action" where
  "step_string tok obj rest =
    read_while (\<lambda>c. c \<noteq> tk_quote tok \<and> c \<noteq> BSL)
      (\<lambda>tok rest.
        if hd rest = tk_quote tok then Advance (finish_with (J_string (tk_pb tok)) tok) obj rest
        else Advance (tok\<lparr>tk_top := (tk_top tok)\<lparr>s_saved := state_string, s_state := state_string_escape\<rparr>\<rparr>) obj rest)
      tok rest"

definition step_string_escape :: "'d tokener \<Rightarrow> 'd json \<Rightarrow> string \<Rightarrow> 'd action" where
  "step_string_escape tok obj rest =
    (let c = hd rest; back = (\<lambda>s. Advance (set_state (s_saved (tk_top tok)) (append_pb s tok)) obj rest) in
     if c = QUOTE \<or> c = BSL \<or> c = CHR ''/'' then back [c]
     else if c = CHR ''b'' then back [CHR 0x08] else if c = CHR ''n'' then back [NL] else if c = CHR ''r'' then back [CHR 0x0D]
     else if c = CHR ''t'' then back [TAB] else if c = CHR ''f'' then back [CHR 0x0C]
     else if c = CHR ''u'' then Advance (set_state state_escape_unicode (tok\<lparr>tk_ucs := 0, tk_st_pos := 0\<rparr>)) obj rest
     else fail_out json_tokener_error_parse_string tok c)"

text \<open>The macros: digits by arithmetic on the character, surrogates by a mask of 16 bits.\<close>

definition jt_hexdigit :: "char \<Rightarrow> 32 word" where
  "jt_hexdigit c = (if (of_char c :: nat) \<le> 57 then of_nat (of_char c) - 48 else (of_nat (of_char c) AND 7) + 9)"

definition IS_HIGH_SURROGATE :: "32 word \<Rightarrow> bool" where
  "IS_HIGH_SURROGATE uc \<longleftrightarrow> uc AND 0xFC00 = 0xD800"

definition IS_LOW_SURROGATE :: "32 word \<Rightarrow> bool" where
  "IS_LOW_SURROGATE uc \<longleftrightarrow> uc AND 0xFC00 = 0xDC00"

definition DECODE_SURROGATE_PAIR :: "32 word \<Rightarrow> 32 word \<Rightarrow> 32 word" where
  "DECODE_SURROGATE_PAIR hi lo = push_bit 10 (hi AND 0x3FF) + (lo AND 0x3FF) + 0x10000"

definition utf8_replacement_char :: string where
  "utf8_replacement_char = [CHR 0xEF, CHR 0xBF, CHR 0xBD]"

definition uchar :: "32 word \<Rightarrow> char" where
  "uchar w = char_of (unat (w AND 0xFF))"

text \<open>The bytes of a code that is not a high surrogate.\<close>

definition unescaped_utf :: "32 word \<Rightarrow> string" where
  "unescaped_utf ucs =
    (if ucs < 0x80 then [uchar ucs]
     else if ucs < 0x800 then [uchar (0xc0 OR drop_bit 6 ucs), uchar (0x80 OR (ucs AND 0x3f))]
     else if IS_LOW_SURROGATE ucs then utf8_replacement_char
     else if ucs < 0x10000 then [uchar (0xe0 OR drop_bit 12 ucs), uchar (0x80 OR (drop_bit 6 ucs AND 0x3f)), uchar (0x80 OR (ucs AND 0x3f))]
     else if ucs < 0x110000 then
       [uchar (0xf0 OR (drop_bit 18 ucs AND 0x07)), uchar (0x80 OR (drop_bit 12 ucs AND 0x3f)),
        uchar (0x80 OR (drop_bit 6 ucs AND 0x3f)), uchar (0x80 OR (ucs AND 0x3f))]
     else utf8_replacement_char)"

text \<open>
  Whether a second escape follows, \<open>cs\<close> being the text behind the current character: in text that ends
  with the null character the code looks behind the current one in any case.
\<close>

definition pair_follows :: "bool \<Rightarrow> string \<Rightarrow> bool option" where
  "pair_follows bounded cs =
    (if bounded then Some (2 \<le> length cs \<and> cs ! 0 = BSL \<and> cs ! 1 = CHR ''u'')
     else case cs of [] \<Rightarrow> None | c # _ \<Rightarrow> if c \<noteq> BSL then Some False else if length cs < 2 then None else Some (cs ! 1 = CHR ''u''))"

text \<open>
  Four digits, and four more when they are a high surrogate that another escape follows; \<open>hi\<close> is the
  pending one, 0 for none. The null character counts as a digit (\<open>strchr\<close> finds the terminator), and
  a fifth digit, after a text that ended within a pair, would shift by a negative amount.
\<close>

fun unicode_loop :: "bool \<Rightarrow> 32 word \<Rightarrow> 'd tokener \<Rightarrow> 'd json \<Rightarrow> string \<Rightarrow> 'd action option" where
  "unicode_loop bounded hi tok obj [] = None"
| "unicode_loop bounded hi tok obj (c # cs) =
    (if c \<in> set json_hex_chars \<or> c = NUL then
       if 3 < tk_st_pos tok then None
       else
         let tok = tok\<lparr>tk_ucs := tk_ucs tok + push_bit ((3 - tk_st_pos tok) * 4) (jt_hexdigit c), tk_st_pos := tk_st_pos tok + 1\<rparr> in
         if tk_st_pos tok = 4 then
           let tok = (if hi = 0 then tok
                      else if IS_LOW_SURROGATE (tk_ucs tok) then tok\<lparr>tk_ucs := DECODE_SURROGATE_PAIR hi (tk_ucs tok)\<rparr>
                      else append_pb utf8_replacement_char tok);
               ucs = tk_ucs tok; back = (\<lambda>s. Some (Advance (set_state (s_saved (tk_top tok)) (append_pb s tok)) obj (c # cs))) in
           if 0x800 \<le> ucs \<and> IS_HIGH_SURROGATE ucs then
             (case pair_follows bounded cs of
                None \<Rightarrow> None
              | Some False \<Rightarrow> back utf8_replacement_char
              | Some True \<Rightarrow>
                  if c = NUL then Some (Out (skip 2 (append_pb (utf8_replacement_char @ utf8_replacement_char) tok)) NUL)
                  else if drop 2 cs = [] then Some (Out (peek_end (skip 3 (append_pb utf8_replacement_char tok))) c)
                  else unicode_loop bounded ucs (skip 3 (tok\<lparr>tk_ucs := 0, tk_st_pos := 0\<rparr>)) obj (drop 2 cs))
           else back (unescaped_utf ucs)
         else
           let pending = (if hi = 0 then [] else utf8_replacement_char) in
           if c = NUL then Some (Out (skip 1 (append_pb pending tok)) NUL)
           else if cs = [] then Some (Out (append_pb pending (peek_end (skip 1 tok))) c)
           else unicode_loop bounded hi (skip 1 tok) obj cs
     else Some (fail_out json_tokener_error_parse_string tok c))"

declare unicode_loop.simps [simp del]

subsection \<open>Numbers\<close>

definition step_number :: "'d c_double \<Rightarrow> int_scan \<Rightarrow> 'd tokener \<Rightarrow> 'd json \<Rightarrow> string \<Rightarrow> 'd action" where
  "step_number D scan tok obj rest =
    (let xs = takeWhile (\<lambda>c. c \<in> set json_number_chars) rest; rest' = dropWhile (\<lambda>c. c \<in> set json_number_chars) rest;
         tok = skip (length xs) (append_pb xs (tok\<lparr>tk_is_double := tk_is_double tok \<or> (\<exists>c \<in> set xs. c \<in> set ''.eE'')\<rparr>)) in
     case rest' of
       [] \<Rightarrow> Out (peek_end tok) (last xs)
     | c # cs \<Rightarrow>
         if hd (tk_pb tok @ [NUL]) = CHR ''-'' \<and> length xs = 1 \<and> (c = CHR ''i'' \<or> c = CHR ''I'')
         then Redo (set_state state_inf tok) obj rest'
         else
           let num64 = (if tk_is_double tok then None else json_parse_int64 scan (tk_pb tok));
               numd = (if tk_is_double tok then json_parse_double D (tk_pb tok) else None) in
           (case (num64, numd) of
              (Some n, _) \<Rightarrow>
                if n \<noteq> 0 \<and> hd (tk_pb tok @ [NUL]) = CHR ''0'' \<and> tk_strict tok then fail_out json_tokener_error_parse_number tok c
                else Redo (finish_with (J_int n) tok) obj rest'
            | (None, Some d) \<Rightarrow> Redo (finish_with (J_double d (Some (c_str (tk_pb tok)))) tok) obj rest'
            | (None, None) \<Rightarrow> fail_out json_tokener_error_parse_number tok c))"

subsection \<open>Arrays and objects\<close>

definition step_array :: "bool \<Rightarrow> 'd tokener \<Rightarrow> 'd json \<Rightarrow> string \<Rightarrow> 'd action" where
  "step_array after_sep tok obj rest =
    (if hd rest = CHR '']'' then
       if after_sep \<and> tk_strict tok then fail_out json_tokener_error_parse_unexpected tok (hd rest)
       else Advance (eat_then state_finish tok) obj rest
     else push_level state_array_add tok obj rest)"

definition json_object_array_add :: "'d json \<Rightarrow> 'd json \<Rightarrow> 'd json option" where
  "json_object_array_add jso val = (case jso of J_array vs \<Rightarrow> Some (J_array (vs @ [val])) | _ \<Rightarrow> None)"

definition step_array_add :: "'d tokener \<Rightarrow> 'd json \<Rightarrow> string \<Rightarrow> 'd action option" where
  "step_array_add tok obj rest =
    map_option (\<lambda>v. Redo (eat_then state_array_sep (set_current v tok)) obj rest) (json_object_array_add (s_current (tk_top tok)) obj)"

definition step_array_sep :: "'d tokener \<Rightarrow> 'd json \<Rightarrow> string \<Rightarrow> 'd action" where
  "step_array_sep tok obj rest =
    (let c = hd rest in
     if c = CHR '']'' then Advance (eat_then state_finish tok) obj rest
     else if c = CHR '','' then Advance (eat_then state_array_after_sep tok) obj rest
     else fail_out json_tokener_error_parse_array tok c)"

definition step_object_field_start :: "bool \<Rightarrow> 'd tokener \<Rightarrow> 'd json \<Rightarrow> string \<Rightarrow> 'd action" where
  "step_object_field_start after_sep tok obj rest =
    (let c = hd rest in
     if c = CHR ''}'' then
       if after_sep \<and> tk_strict tok then fail_out json_tokener_error_parse_unexpected tok c
       else Advance (eat_then state_finish tok) obj rest
     else if c = QUOTE \<or> c = CHR 0x27 then Advance (set_state state_object_field (tok\<lparr>tk_quote := c, tk_pb := []\<rparr>)) obj rest
     else fail_out json_tokener_error_parse_object_key_name tok c)"

definition step_object_field :: "'d tokener \<Rightarrow> 'd json \<Rightarrow> string \<Rightarrow> 'd action" where
  "step_object_field tok obj rest =
    read_while (\<lambda>c. c \<noteq> tk_quote tok \<and> c \<noteq> BSL)
      (\<lambda>tok rest.
        if hd rest = tk_quote tok
        then Advance (eat_then state_object_field_end (tok\<lparr>tk_top := (tk_top tok)\<lparr>s_field := Some (c_str (tk_pb tok))\<rparr>\<rparr>)) obj rest
        else Advance (tok\<lparr>tk_top := (tk_top tok)\<lparr>s_saved := state_object_field, s_state := state_string_escape\<rparr>\<rparr>) obj rest)
      tok rest"

definition step_object_field_end :: "'d tokener \<Rightarrow> 'd json \<Rightarrow> string \<Rightarrow> 'd action" where
  "step_object_field_end tok obj rest =
    (if hd rest = CHR '':'' then Advance (eat_then state_object_value tok) obj rest
     else fail_out json_tokener_error_parse_object_key_sep tok (hd rest))"

definition step_object_value_add :: "'d tokener \<Rightarrow> 'd json \<Rightarrow> string \<Rightarrow> 'd action option" where
  "step_object_value_add tok obj rest =
    (case (s_current (tk_top tok), s_field (tk_top tok)) of
       (J_object ms, Some k) \<Rightarrow>
         Some (Redo (eat_then state_object_sep
           (tok\<lparr>tk_top := (tk_top tok)\<lparr>s_current := J_object (map (\<lambda>(k, v). (k, case v of None \<Rightarrow> J_null | Some v \<Rightarrow> v))
                (members_add (map (\<lambda>(k, v). (k, Some v)) ms) k (Some obj))), s_field := None\<rparr>\<rparr>)) obj rest)
     | _ \<Rightarrow> None)"

definition step_object_sep :: "'d tokener \<Rightarrow> 'd json \<Rightarrow> string \<Rightarrow> 'd action" where
  "step_object_sep tok obj rest =
    (let c = hd rest in
     if c = CHR ''}'' then Advance (eat_then state_finish tok) obj rest
     else if c = CHR '','' then Advance (eat_then state_object_field_start_after_sep tok) obj rest
     else fail_out json_tokener_error_parse_object_value_sep tok c)"

text \<open>The value of a level is done: at the bottom the loop is left, otherwise it goes to the level below.\<close>

definition step_finish :: "'d tokener \<Rightarrow> 'd json \<Rightarrow> string \<Rightarrow> 'd action" where
  "step_finish tok obj rest =
    (case tk_below tok of
       [] \<Rightarrow> Out tok (hd rest)
     | level # below \<Rightarrow> Redo (tok\<lparr>tk_top := level, tk_below := below\<rparr>) (s_current (tk_top tok)) rest)"

section \<open>The loop\<close>

definition tok_step :: "'d c_double \<Rightarrow> int_scan \<Rightarrow> bool \<Rightarrow> 'd tokener \<Rightarrow> 'd json \<Rightarrow> string \<Rightarrow> 'd action option" where
  "tok_step D scan bounded tok obj rest =
    (case s_state (tk_top tok) of
       state_eatws \<Rightarrow> Some (step_eatws tok obj rest)
     | state_start \<Rightarrow> Some (step_start tok obj rest)
     | state_finish \<Rightarrow> Some (step_finish tok obj rest)
     | state_inf \<Rightarrow> Some (step_inf D tok obj rest)
     | state_null \<Rightarrow> Some (step_null D tok obj rest)
     | state_comment_start \<Rightarrow> Some (step_comment_start tok obj rest)
     | state_comment \<Rightarrow> Some (step_comment tok obj rest)
     | state_comment_eol \<Rightarrow> Some (step_comment_eol tok obj rest)
     | state_comment_end \<Rightarrow> Some (step_comment_end tok obj rest)
     | state_string \<Rightarrow> Some (step_string tok obj rest)
     | state_string_escape \<Rightarrow> Some (step_string_escape tok obj rest)
     | state_escape_unicode \<Rightarrow> unicode_loop bounded 0 tok obj rest
     | state_boolean \<Rightarrow> Some (step_boolean tok obj rest)
     | state_number \<Rightarrow> Some (step_number D scan tok obj rest)
     | state_array \<Rightarrow> Some (step_array False tok obj rest)
     | state_array_after_sep \<Rightarrow> Some (step_array True tok obj rest)
     | state_array_add \<Rightarrow> step_array_add tok obj rest
     | state_array_sep \<Rightarrow> Some (step_array_sep tok obj rest)
     | state_object_field_start \<Rightarrow> Some (step_object_field_start False tok obj rest)
     | state_object_field_start_after_sep \<Rightarrow> Some (step_object_field_start True tok obj rest)
     | state_object_field \<Rightarrow> Some (step_object_field tok obj rest)
     | state_object_field_end \<Rightarrow> Some (step_object_field_end tok obj rest)
     | state_object_value \<Rightarrow> Some (push_level state_object_value_add tok obj rest)
     | state_object_value_add \<Rightarrow> step_object_value_add tok obj rest
     | state_object_sep \<Rightarrow> Some (step_object_sep tok obj rest))"

text \<open>\<open>c\<close> is the last character read. Behind the null character there is nothing to read.\<close>

partial_function (option) tok_loop ::
  "'d c_double \<Rightarrow> int_scan \<Rightarrow> bool \<Rightarrow> 'd tokener \<Rightarrow> 'd json \<Rightarrow> char \<Rightarrow> string \<Rightarrow> ('d tokener \<times> char) option" where
  [code]: "tok_loop D scan bounded tok obj c rest =
    (if rest = [] then Some (peek_end tok, c)
     else case tok_step D scan bounded tok obj rest of
       None \<Rightarrow> None
     | Some (Out tok c) \<Rightarrow> Some (tok, c)
     | Some (Redo tok obj rest) \<Rightarrow> tok_loop D scan bounded tok obj (hd rest) rest
     | Some (Advance tok obj rest) \<Rightarrow>
         if hd rest = NUL then Some (skip 1 tok, NUL) else tok_loop D scan bounded (skip 1 tok) obj (hd rest) (tl rest))"

text \<open>Behind the loop: errors for what follows the value in strict mode, and for an end within it.\<close>

definition tok_out :: "'d tokener \<Rightarrow> char \<Rightarrow> 'd tokener \<times> 'd json" where
  "tok_out tok c =
    (let tok = (if c \<noteq> NUL \<and> s_state (tk_top tok) = state_finish \<and> tk_below tok = [] \<and> tk_strict tok
                then tok\<lparr>tk_err := json_tokener_error_parse_unexpected\<rparr> else tok);
         tok = (if c = NUL \<and> s_state (tk_top tok) \<noteq> state_finish \<and> s_saved (tk_top tok) \<noteq> state_finish
                then tok\<lparr>tk_err := json_tokener_error_parse_eof\<rparr> else tok) in
     if tk_err tok = json_tokener_success
     then (tok\<lparr>tk_top := json_tokener_reset_level, tk_below := map (\<lambda>_. json_tokener_reset_level) (tk_below tok)\<rparr>,
           s_current (tk_top tok))
     else (tok, J_null))"

text \<open>\<open>len\<close> is the number of characters of \<open>str\<close> to parse, or -1 for the text up to its null character.\<close>

definition json_tokener_parse_ex ::
  "'d c_double \<Rightarrow> int_scan \<Rightarrow> 'd tokener \<Rightarrow> string \<Rightarrow> int \<Rightarrow> ('d tokener \<times> 'd json) option" where
  "json_tokener_parse_ex D scan tok str len =
    (let tok = tok\<lparr>tk_offset := 0, tk_err := json_tokener_success\<rparr> in
     if len < - 1 \<or> len = - 1 \<and> 2 ^ 31 - 1 < int (strlen str) then Some (tok\<lparr>tk_err := json_tokener_error_size\<rparr>, J_null)
     else map_option (\<lambda>(tok, c). tok_out tok c)
       (tok_loop D scan (len \<noteq> - 1) tok J_null (CHR 0x01) (if len = - 1 then c_str str @ [NUL] else take (nat len) str)))"

definition json_tokener_parse_verbose :: "'d c_double \<Rightarrow> int_scan \<Rightarrow> string \<Rightarrow> ('d json \<times> json_tokener_error) option" where
  "json_tokener_parse_verbose D scan str =
    map_option (\<lambda>(tok, obj). (if tk_err tok = json_tokener_success then obj else J_null, tk_err tok))
      (json_tokener_parse_ex D scan (json_tokener_new_ex JSON_TOKENER_DEFAULT_DEPTH) str (- 1))"

definition json_tokener_parse :: "'d c_double \<Rightarrow> int_scan \<Rightarrow> string \<Rightarrow> 'd json option" where
  "json_tokener_parse D scan str = map_option fst (json_tokener_parse_verbose D scan str)"

fun json_tokener_error_desc :: "json_tokener_error \<Rightarrow> string" where
  "json_tokener_error_desc json_tokener_success = ''success''"
| "json_tokener_error_desc json_tokener_continue = ''continue''"
| "json_tokener_error_desc json_tokener_error_depth = ''nesting too deep''"
| "json_tokener_error_desc json_tokener_error_parse_eof = ''unexpected end of data''"
| "json_tokener_error_desc json_tokener_error_parse_unexpected = ''unexpected character''"
| "json_tokener_error_desc json_tokener_error_parse_null = ''null expected''"
| "json_tokener_error_desc json_tokener_error_parse_boolean = ''boolean expected''"
| "json_tokener_error_desc json_tokener_error_parse_number = ''number expected''"
| "json_tokener_error_desc json_tokener_error_parse_array = ''array value separator ',' expected''"
| "json_tokener_error_desc json_tokener_error_parse_object_key_name = ''quoted object property name expected''"
| "json_tokener_error_desc json_tokener_error_parse_object_key_sep = ''object property name separator ':' expected''"
| "json_tokener_error_desc json_tokener_error_parse_object_value_sep = ''object value separator ',' expected''"
| "json_tokener_error_desc json_tokener_error_parse_string = ''invalid string sequence''"
| "json_tokener_error_desc json_tokener_error_parse_comment = ''expected comment''"
| "json_tokener_error_desc json_tokener_error_size = ''buffer size overflow''"

end
