(* ===== verification/Json_Escape.thy ===== *)
theory Json_Escape
  imports Json_Tokener
begin

text \<open>
  Escaped text: \<open>json_escape_str\<close> appends runs of unescaped characters at once; it is the escape of each
  character in turn. How the parser goes through such text, character by character.
\<close>

section \<open>The loop against a map over the characters\<close>

definition unescaped :: "char \<Rightarrow> bool" where
  "unescaped c \<longleftrightarrow> short_escape c = None \<and> 32 \<le> (of_char c :: nat)"

definition escape_char :: "char \<Rightarrow> string" where
  "escape_char c = (case short_escape c of
      Some e \<Rightarrow> [BSL, e]
    | None \<Rightarrow> if (of_char c :: nat) < 32 then unicode_escape c else [c])"

definition escaped :: "string \<Rightarrow> string" where
  "escaped str = concat (map escape_char str)"

lemma escape_char_plain: "unescaped c \<Longrightarrow> escape_char c = [c]"
  by (simp add: unescaped_def escape_char_def)

lemma escaped_simps [simp]: "escaped [] = []" "escaped (c # cs) = escape_char c @ escaped cs"
  by (simp_all add: escaped_def)

lemma escaped_append [simp]: "escaped (xs @ ys) = escaped xs @ escaped ys"
  by (simp add: escaped_def)

lemma escaped_plain: "(\<And>c. c \<in> set xs \<Longrightarrow> unescaped c) \<Longrightarrow> escaped xs = xs"
  by (induction xs) (simp_all add: escape_char_plain)

lemma get_at_snoc:
  assumes "start \<le> pos" "pos < length str"
  shows "get_at start (pos + 1 - start) str = get_at start (pos - start) str @ [str ! pos]"
  using assms by (simp add: get_at_def Suc_diff_le take_Suc_conv_app_nth)

lemma escape_loop_escaped:
  assumes "pos + left = length str" "start \<le> pos" "\<And>c. c \<in> set (get_at start (pos - start) str) \<Longrightarrow> unescaped c"
  shows "escape_loop left str pos start pb = pb @ get_at start (pos - start) str @ escaped (drop pos str)"
  using assms
proof (induction left arbitrary: pos start pb)
  case 0
  then show ?case by (simp add: get_at_def)
next
  case (Suc left)
  let ?run = "get_at start (pos - start) str"
  have pos: "pos < length str" using Suc.prems(1) by simp
  then have rest: "drop pos str = str ! pos # drop (pos + 1) str" by (simp add: Cons_nth_drop_Suc)
  have flushed: "(if start < pos then pb @ ?run else pb) = pb @ ?run" using Suc.prems(2) by (simp add: get_at_def)
  show ?case
  proof (cases "short_escape (str ! pos)")
    case (Some e)
    then show ?thesis
      using Suc.IH[of "pos + 1" "pos + 1" "pb @ ?run @ [BSL, e]"] Suc.prems(1)
      by (simp add: flushed rest escape_char_def get_at_def)
  next
    case None
    show ?thesis
    proof (cases "(of_char (str ! pos) :: nat) < 32")
      case True
      then show ?thesis
        using None Suc.IH[of "pos + 1" "pos + 1" "pb @ ?run @ unicode_escape (str ! pos)"] Suc.prems(1)
        by (simp add: flushed rest escape_char_def get_at_def)
    next
      case False
      have run: "get_at start (pos + 1 - start) str = ?run @ [str ! pos]" by (rule get_at_snoc) (fact Suc.prems(2), fact pos)
      have "unescaped c" if "c \<in> set (get_at start (pos + 1 - start) str)" for c
        using that Suc.prems(3) None False unfolding run by (auto simp: unescaped_def)
      then have "escape_loop left str (pos + 1) start pb =
          pb @ get_at start (pos + 1 - start) str @ escaped (drop (pos + 1) str)"
        using Suc.prems(1,2) by (intro Suc.IH) simp_all
      then show ?thesis using None False run by (simp add: rest escape_char_def)
    qed
  qed
qed

lemma json_escape_str_eq: "json_escape_str str = escaped str"
  using escape_loop_escaped[of 0 "length str" str 0 "[]"] by (simp add: json_escape_str_def get_at_def)

text \<open>
  C24. The escaping of a string, which appends each run of characters that need no escape at once,
  gives the concatenation of the escapes of its characters.
\<close>
theorem json_escape_str_escapes_each: "json_escape_str str = concat (map escape_char str)"
  by (simp add: json_escape_str_eq escaped_def)

text \<open>Escaped text has no null character and no quote that ends a string.\<close>

lemma NUL_notin_escape_char: "NUL \<notin> set (escape_char c)"
proof -
  have "short_escape c \<noteq> Some NUL" by (simp add: short_escape_def)
  moreover have "NUL \<notin> set (unicode_escape c)" if "(of_char c :: nat) < 32"
  proof -
    have "\<And>i. i < 22 \<Longrightarrow> json_hex_chars ! i \<noteq> NUL"
      by (auto simp: json_hex_chars_def less_Suc_eq numeral_eq_Suc)
    moreover have "(of_char c :: nat) mod 16 < 22" "(of_char c :: nat) div 16 < 22"
      using that by (auto intro: less_trans[of _ 16])
    ultimately have "json_hex_chars ! ((of_char c :: nat) div 16) \<noteq> NUL" "json_hex_chars ! ((of_char c :: nat) mod 16) \<noteq> NUL" by blast+
    then show ?thesis by (simp add: unicode_escape_def)
  qed
  ultimately show ?thesis by (auto simp: escape_char_def split: option.splits)
qed

lemma NUL_notin_escaped [simp]: "NUL \<notin> set (escaped str)"
  by (induction str) (simp_all add: NUL_notin_escape_char)

end
