(* ===== verification/Json_Reads.thy ===== *)
theory Json_Reads
  imports Json_Escape
begin

text \<open>
  How the parser goes through a piece of text: \<open>reads\<close> relates the tokener before and after it, whatever
  follows, as long as its first character is one of a set. Pieces compose; those of JSON's grammar are
  the steps of \<open>Json_Tokener\<close>, one lemma each.
\<close>

definition tok_at :: "int \<Rightarrow> bool \<Rightarrow> 'd srec \<Rightarrow> 'd srec list \<Rightarrow> 'd tokener \<Rightarrow> bool" where
  "tok_at m st lev below tok \<longleftrightarrow>
    tk_max_depth tok = m \<and> tk_strict tok = st \<and> tk_err tok = json_tokener_success \<and> tk_top tok = lev \<and> tk_below tok = below"

definition reads :: "'d c_double \<Rightarrow> char set \<Rightarrow> ('d tokener \<Rightarrow> bool) \<Rightarrow> string \<Rightarrow> ('d tokener \<Rightarrow> bool) \<Rightarrow> bool" where
  "reads D F P txt Q \<longleftrightarrow> (\<forall>tok obj c t. P tok \<longrightarrow> t \<noteq> [] \<longrightarrow> hd t \<in> F \<longrightarrow>
    (\<exists>tok' obj' c'. Q tok' \<and> tok_loop D sscanf_int64 False tok obj c (txt @ t) = tok_loop D sscanf_int64 False tok' obj' c' t))"

abbreviation lv :: "json_tokener_state \<Rightarrow> json_tokener_state \<Rightarrow> 'd json \<Rightarrow> string option \<Rightarrow> 'd srec" where
  "lv s saved v field \<equiv> \<lparr>s_state = s, s_saved = saved, s_current = v, s_field = field\<rparr>"

text \<open>Behind white space in state \<open>s\<close>.\<close>

abbreviation before :: "json_tokener_state \<Rightarrow> 'd json \<Rightarrow> 'd srec" where
  "before s v \<equiv> lv state_eatws s v None"

section \<open>Composition\<close>

lemma readsI:
  assumes "\<And>tok obj c t. P tok \<Longrightarrow> t \<noteq> [] \<Longrightarrow> hd t \<in> F \<Longrightarrow>
    \<exists>tok' obj' c'. Q tok' \<and> tok_loop D sscanf_int64 False tok obj c (txt @ t) = tok_loop D sscanf_int64 False tok' obj' c' t"
  shows "reads D F P txt Q"
  using assms by (simp add: reads_def)

lemma readsE:
  assumes "reads D F P txt Q" "P tok" "t \<noteq> []" "hd t \<in> F"
  obtains tok' obj' c' where "Q tok'"
    "tok_loop D sscanf_int64 False tok obj c (txt @ t) = tok_loop D sscanf_int64 False tok' obj' c' t"
  using assms unfolding reads_def by blast

lemma reads_append:
  assumes "reads D F P xs Q" "reads D G Q ys R" "ys \<noteq> [] \<Longrightarrow> hd ys \<in> F" "ys = [] \<Longrightarrow> G \<subseteq> F"
  shows "reads D G P (xs @ ys) R"
proof (rule readsI)
  fix tok :: "'a tokener" and obj c t
  assume a: "P tok" "t \<noteq> []" "hd t \<in> G"
  have f: "ys @ t \<noteq> []" "hd (ys @ t) \<in> F" using a assms(3,4) by (cases ys; auto)+
  obtain tok1 obj1 c1 where 1: "Q tok1"
      "tok_loop D sscanf_int64 False tok obj c (xs @ (ys @ t)) = tok_loop D sscanf_int64 False tok1 obj1 c1 (ys @ t)"
    by (rule readsE[OF assms(1) a(1) f])
  obtain tok2 obj2 c2 where 2: "R tok2"
      "tok_loop D sscanf_int64 False tok1 obj1 c1 (ys @ t) = tok_loop D sscanf_int64 False tok2 obj2 c2 t"
    by (rule readsE[OF assms(2) 1(1) a(2,3)])
  show "\<exists>tok' obj' c'. R tok' \<and>
      tok_loop D sscanf_int64 False tok obj c ((xs @ ys) @ t) = tok_loop D sscanf_int64 False tok' obj' c' t"
    using 1 2 by (intro exI[of _ tok2] exI[of _ obj2] exI[of _ c2]) simp
qed

lemma reads_then: "reads D UNIV P xs Q \<Longrightarrow> reads D G Q ys R \<Longrightarrow> reads D G P (xs @ ys) R"
  by (rule reads_append) auto

lemma reads_then_token: "reads D F P xs Q \<Longrightarrow> reads D G Q ys R \<Longrightarrow> ys \<noteq> [] \<Longrightarrow> hd ys \<in> F \<Longrightarrow> reads D G P (xs @ ys) R"
  by (rule reads_append) auto

lemma reads_Nil_append: "reads D F P [] Q \<Longrightarrow> reads D G Q ys R \<Longrightarrow> ys \<noteq> [] \<Longrightarrow> hd ys \<in> F \<Longrightarrow> reads D G P ys R"
  using reads_then_token[of D F P "[]" Q G ys R] by simp

lemma reads_mono: "reads D F P txt Q \<Longrightarrow> (\<And>tok. P' tok \<Longrightarrow> P tok) \<Longrightarrow> (\<And>tok. Q tok \<Longrightarrow> Q' tok) \<Longrightarrow> G \<subseteq> F \<Longrightarrow> reads D G P' txt Q'"
  unfolding reads_def by blast

lemma reads_refl: "reads D F P [] P"
  by (rule readsI) auto

section \<open>Rounds of the loop\<close>

lemma loop_redo:
  assumes "tok_step D scan b tok obj rest = Some (Redo tok' obj' rest')" "rest \<noteq> []"
  shows "tok_loop D scan b tok obj c rest = tok_loop D scan b tok' obj' (hd rest') rest'"
  using assms by (subst tok_loop.simps) simp

lemma loop_advance:
  assumes "tok_step D scan b tok obj rest = Some (Advance tok' obj' (x # rest'))" "rest \<noteq> []" "x \<noteq> NUL"
  shows "tok_loop D scan b tok obj c rest = tok_loop D scan b (skip 1 tok') obj' x rest'"
  using assms by (subst tok_loop.simps) simp

lemma reads_redo:
  assumes "\<And>tok obj t. P tok \<Longrightarrow> t \<noteq> [] \<Longrightarrow> hd t \<in> F \<Longrightarrow>
    \<exists>tok' obj'. tok_step D sscanf_int64 False tok obj t = Some (Redo tok' obj' t) \<and> Q tok'"
  shows "reads D F P [] Q"
proof (rule readsI)
  fix tok :: "'a tokener" and obj c t
  assume a: "P tok" "t \<noteq> []" "hd t \<in> F"
  obtain tok' obj' where "tok_step D sscanf_int64 False tok obj t = Some (Redo tok' obj' t)" "Q tok'" using assms[OF a] by blast
  then show "\<exists>tok' obj' c'. Q tok' \<and>
      tok_loop D sscanf_int64 False tok obj c ([] @ t) = tok_loop D sscanf_int64 False tok' obj' c' t"
    using loop_redo a(2) by fastforce
qed

lemma reads_advance:
  assumes "\<And>tok obj t. P tok \<Longrightarrow> t \<noteq> [] \<Longrightarrow>
    \<exists>tok' obj'. tok_step D sscanf_int64 False tok obj (x # t) = Some (Advance tok' obj' (x # t)) \<and> Q (skip 1 tok')"
    and "x \<noteq> NUL"
  shows "reads D F P [x] Q"
proof (rule readsI)
  fix tok :: "'a tokener" and obj c t
  assume a: "P tok" "t \<noteq> []" "hd t \<in> F"
  obtain tok' obj' where "tok_step D sscanf_int64 False tok obj (x # t) = Some (Advance tok' obj' (x # t))" "Q (skip 1 tok')"
    using assms(1)[OF a(1,2)] by blast
  then show "\<exists>tok' obj' c'. Q tok' \<and>
      tok_loop D sscanf_int64 False tok obj c ([x] @ t) = tok_loop D sscanf_int64 False tok' obj' c' t"
    using loop_advance assms(2) by fastforce
qed

named_theorems tok_steps

lemma tok_at_skip [simp]: "tok_at m st lev below (skip n tok) \<longleftrightarrow> tok_at m st lev below tok"
  by (simp add: tok_at_def skip_def)

lemma skip_simps [simp]:
  "skip 0 tok = tok" "skip a (skip b tok) = skip (b + a) tok"
  "tk_pb (skip n tok) = tk_pb tok" "tk_quote (skip n tok) = tk_quote tok" "tk_st_pos (skip n tok) = tk_st_pos tok"
  "tk_top (skip n tok) = tk_top tok" "tk_below (skip n tok) = tk_below tok" "tk_strict (skip n tok) = tk_strict tok"
  "tk_is_double (skip n tok) = tk_is_double tok" "tk_ucs (skip n tok) = tk_ucs tok" "tk_max_depth (skip n tok) = tk_max_depth tok"
  "tk_err (skip n tok) = tk_err tok"
  by (simp_all add: skip_def)

lemmas set_defs = eat_then_def set_current_def finish_with_def

section \<open>White space\<close>

text \<open>White space leaves the tokener where it is.\<close>

lemma step_eatws_append:
  assumes "\<And>c. c \<in> set ws \<Longrightarrow> isspace c" "t \<noteq> []"
  shows "step_eatws tok obj (ws @ t) = step_eatws (skip (length ws) tok) obj t"
proof -
  have ws: "takeWhile isspace (ws @ t) = ws @ takeWhile isspace t" "dropWhile isspace (ws @ t) = dropWhile isspace t"
    using assms(1) by (simp_all add: takeWhile_append2 dropWhile_append2)
  show ?thesis
  proof (cases "dropWhile isspace t")
    case Nil
    then have all: "takeWhile isspace t = t" by (simp add: takeWhile_eq_all_conv)
    show ?thesis unfolding step_eatws_def Let_def ws Nil all using assms(2) by (simp add: add.commute)
  next
    case (Cons c cs)
    then show ?thesis unfolding step_eatws_def Let_def ws Cons by (simp add: add.commute)
  qed
qed

lemma reads_ws:
  assumes "\<And>c. c \<in> set ws \<Longrightarrow> isspace c"
  shows "reads D F (tok_at m st (lv state_eatws s v f) below) ws (tok_at m st (lv state_eatws s v f) below)"
proof (rule readsI)
  fix tok :: "'a tokener" and obj c t
  assume a: "tok_at m st (lv state_eatws s v f) below tok" "t \<noteq> []" "hd t \<in> F"
  have "tok_step D sscanf_int64 False tok obj (ws @ t) = tok_step D sscanf_int64 False (skip (length ws) tok) obj t"
    using a(1) step_eatws_append[OF assms a(2), where tok = tok and obj = obj] by (simp add: tok_step_def tok_at_def)
  then have "tok_loop D sscanf_int64 False tok obj c (ws @ t) = tok_loop D sscanf_int64 False (skip (length ws) tok) obj c t"
    using a(2) by (subst (1 2) tok_loop.simps) simp
  then show "\<exists>tok' obj' c'. tok_at m st (lv state_eatws s v f) below tok' \<and>
      tok_loop D sscanf_int64 False tok obj c (ws @ t) = tok_loop D sscanf_int64 False tok' obj' c' t"
    using a(1) by (intro exI[of _ "skip (length ws) tok"] exI[of _ obj] exI[of _ c]) simp
qed

text \<open>The characters a token begins with.\<close>

definition token_chars :: "char set" where
  "token_chars = {c. \<not> isspace c \<and> c \<noteq> CHR ''/''}"

lemma step_eatws_token:
  assumes "s_state (tk_top tok) = state_eatws" "t \<noteq> []" "hd t \<in> token_chars"
  shows "tok_step D scan b tok obj t = Some (Redo (set_state (s_saved (tk_top tok)) tok) obj t)"
  using assms by (cases t) (auto simp: tok_step_def step_eatws_def token_chars_def)

lemma reads_token:
  "reads D token_chars (tok_at m st (lv state_eatws s v f) below) [] (tok_at m st (lv s s v f) below)"
proof (rule reads_redo)
  fix tok :: "'a tokener" and obj t
  assume a: "tok_at m st (lv state_eatws s v f) below tok" "t \<noteq> []" "hd t \<in> token_chars"
  show "\<exists>tok' obj'. tok_step D sscanf_int64 False tok obj t = Some (Redo tok' obj' t) \<and> tok_at m st (lv s s v f) below tok'"
    using a step_eatws_token[of tok t D sscanf_int64 False obj] by (simp add: tok_at_def)
qed

text \<open>A token of one character: what its step does, behind white space.\<close>

lemma reads_char:
  assumes "x \<in> token_chars" "x \<noteq> NUL"
    and "\<And>tok obj t. tok_at m st (lv s s v f) below tok \<Longrightarrow> t \<noteq> [] \<Longrightarrow>
      \<exists>tok' obj'. tok_step D sscanf_int64 False tok obj (x # t) = Some (Advance tok' obj' (x # t)) \<and> Q (skip 1 tok')"
  shows "reads D F (tok_at m st (lv state_eatws s v f) below) [x] Q"
  by (rule reads_Nil_append[OF reads_token reads_advance[OF assms(3,2)]]) (simp_all add: assms(1))

section \<open>Brackets, separators and levels\<close>

lemma token_chars [simp]:
  "CHR ''{'' \<in> token_chars" "CHR ''['' \<in> token_chars" "CHR ''}'' \<in> token_chars" "CHR '']'' \<in> token_chars"
  "CHR '','' \<in> token_chars" "CHR '':'' \<in> token_chars" "QUOTE \<in> token_chars" "NUL \<in> token_chars"
  by (simp_all add: token_chars_def isspace_def)

lemma reads_bracket [tok_steps]:
  "reads D F (tok_at m st (before state_start J_null) below) ''{'' (tok_at m st (before state_object_field_start (J_object [])) below)"
  "reads D F (tok_at m st (before state_start J_null) below) ''['' (tok_at m st (before state_array (J_array [])) below)"
  by (rule reads_char; auto simp: tok_step_def tok_at_def step_start_def set_defs)+

lemma reads_close [tok_steps]:
  "reads D F (tok_at m st (before state_array v) below) '']'' (tok_at m st (before state_finish v) below)"
  "reads D F (tok_at m st (before state_array_sep v) below) '']'' (tok_at m st (before state_finish v) below)"
  "reads D F (tok_at m st (before state_object_field_start v) below) ''}'' (tok_at m st (before state_finish v) below)"
  "reads D F (tok_at m st (before state_object_sep v) below) ''}'' (tok_at m st (before state_finish v) below)"
  by (rule reads_char; auto simp: tok_step_def tok_at_def step_array_def step_array_sep_def
      step_object_field_start_def step_object_sep_def set_defs)+

lemma reads_separator [tok_steps]:
  "reads D F (tok_at m st (before state_array_sep v) below) '','' (tok_at m st (before state_array_after_sep v) below)"
  "reads D F (tok_at m st (before state_object_sep v) below) '','' (tok_at m st (before state_object_field_start_after_sep v) below)"
  by (rule reads_char; auto simp: tok_step_def tok_at_def step_array_sep_def step_object_sep_def set_defs)+

lemma reads_colon [tok_steps]:
  "reads D F (tok_at m st (lv state_eatws state_object_field_end v f) below) '':'' (tok_at m st (lv state_eatws state_object_value v f) below)"
  by (rule reads_char; auto simp: tok_step_def tok_at_def step_object_field_end_def set_defs)

text \<open>The beginning of an element and of a member's value opens a level; the end of a value closes it.\<close>

lemma reads_push_element:
  assumes "s = state_array \<or> s = state_array_after_sep" "int (length below) < m - 1"
  shows "reads D (token_chars - {CHR '']''}) (tok_at m st (lv state_eatws s v f) below) []
    (tok_at m st (before state_start J_null) (lv state_array_add s v f # below))"
proof -
  have "reads D (token_chars - {CHR '']''}) (tok_at m st (lv s s v f) below) []
      (tok_at m st (before state_start J_null) (lv state_array_add s v f # below))"
    using assms by (intro reads_redo)
      (auto simp: tok_step_def tok_at_def step_array_def push_level_def json_tokener_reset_level_def)
  from reads_append[OF reads_token this] show ?thesis by simp
qed

lemma reads_push_value:
  assumes "int (length below) < m - 1"
  shows "reads D token_chars (tok_at m st (lv state_eatws state_object_value v f) below) []
    (tok_at m st (before state_start J_null) (lv state_object_value_add state_object_value v f # below))"
proof -
  have "reads D token_chars (tok_at m st (lv state_object_value state_object_value v f) below) []
      (tok_at m st (before state_start J_null) (lv state_object_value_add state_object_value v f # below))"
    using assms by (intro reads_redo) (auto simp: tok_step_def tok_at_def push_level_def json_tokener_reset_level_def)
  from reads_append[OF reads_token this] show ?thesis by simp
qed

lemma reads_pop:
  assumes add: "\<And>tok t. tok_at m st lev below tok \<Longrightarrow> t \<noteq> [] \<Longrightarrow>
      \<exists>tok'. tok_step D sscanf_int64 False tok w t = Some (Redo tok' w t) \<and> tok_at m st lev' below tok'"
  shows "reads D token_chars (tok_at m st (lv state_eatws state_finish w f) (lev # below)) [] (tok_at m st lev' below)"
proof (rule readsI)
  fix tok :: "'a tokener" and obj c t
  assume a: "tok_at m st (lv state_eatws state_finish w f) (lev # below) tok" "t \<noteq> []" "hd t \<in> token_chars"
  define tok1 where "tok1 = set_state state_finish tok"
  define tok2 where "tok2 = tok1\<lparr>tk_top := lev, tk_below := below\<rparr>"
  have 1: "tok_step D sscanf_int64 False tok obj t = Some (Redo tok1 obj t)"
    using a step_eatws_token[of tok t D sscanf_int64 False obj] by (simp add: tok_at_def tok1_def)
  have 2: "tok_step D sscanf_int64 False tok1 obj t = Some (Redo tok2 w t)"
    using a(1) by (simp add: tok_step_def tok_at_def step_finish_def tok1_def tok2_def)
  have "tok_at m st lev below tok2" using a(1) by (simp add: tok_at_def tok1_def tok2_def)
  then obtain tok3 where 3: "tok_step D sscanf_int64 False tok2 w t = Some (Redo tok3 w t)" "tok_at m st lev' below tok3"
    using add a(2) by blast
  have "tok_loop D sscanf_int64 False tok obj c t = tok_loop D sscanf_int64 False tok3 w (hd t) t"
    using loop_redo[OF 1 a(2)] loop_redo[OF 2 a(2)] loop_redo[OF 3(1) a(2)] by simp
  then show "\<exists>tok' obj' c'. tok_at m st lev' below tok' \<and>
      tok_loop D sscanf_int64 False tok obj c ([] @ t) = tok_loop D sscanf_int64 False tok' obj' c' t"
    using 3(2) by (intro exI[of _ tok3] exI[of _ w] exI[of _ "hd t"]) simp
qed

lemma reads_pop_element:
  "reads D token_chars (tok_at m st (lv state_eatws state_finish w f) (lv state_array_add s (J_array vs) g # below)) []
     (tok_at m st (lv state_eatws state_array_sep (J_array (vs @ [w])) g) below)"
  by (rule reads_pop) (auto simp: tok_step_def tok_at_def step_array_add_def json_object_array_add_def set_defs)

lemma reads_pop_value:
  assumes "k \<notin> fst ` set ms"
  shows "reads D token_chars
     (tok_at m st (lv state_eatws state_finish w f) (lv state_object_value_add s (J_object ms) (Some k) # below)) []
     (tok_at m st (before state_object_sep (J_object (ms @ [(k, w)]))) below)"
proof (rule reads_pop)
  fix tok :: "'a tokener" and t :: string
  assume a: "tok_at m st (lv state_object_value_add s (J_object ms) (Some k)) below tok" "t \<noteq> []"
  have "k \<notin> fst ` set (map (\<lambda>(k, v). (k, Some v)) ms)" using assms by (auto simp: image_image split_beta)
  then have "members_add (map (\<lambda>(k, v). (k, Some v)) ms) k (Some w) = map (\<lambda>(k, v). (k, Some v)) (ms @ [(k, w)])"
    by (simp add: members_add_def)
  then have "map (\<lambda>(k, v). (k, case v of None \<Rightarrow> J_null | Some v \<Rightarrow> v)) (members_add (map (\<lambda>(k, v). (k, Some v)) ms) k (Some w))
      = ms @ [(k, w)]"
    by (simp only: map_map) (simp add: split_beta o_def)
  then show "\<exists>tok'. tok_step D sscanf_int64 False tok w t = Some (Redo tok' w t) \<and>
      tok_at m st (before state_object_sep (J_object (ms @ [(k, w)]))) below tok'"
    using a by (simp add: tok_step_def tok_at_def step_object_value_add_def set_defs)
qed

end
