(* ===== verification/Json_Scalars.thy ===== *)
theory Json_Scalars
  imports Json_Reads
begin

text \<open>
  The parser on the text of values without parts: strings through their escapes, names, numbers.
\<close>

section \<open>Strings\<close>

definition str_at :: "int \<Rightarrow> bool \<Rightarrow> json_tokener_state \<Rightarrow> 'd json \<Rightarrow> string option \<Rightarrow> 'd srec list \<Rightarrow> string \<Rightarrow> 'd tokener \<Rightarrow> bool" where
  "str_at m st s v f below p tok \<longleftrightarrow>
    (\<exists>saved. tok_at m st (lv s saved v f) below tok) \<and> tk_pb tok = p \<and> tk_quote tok = QUOTE"

definition esc_at :: "int \<Rightarrow> bool \<Rightarrow> json_tokener_state \<Rightarrow> json_tokener_state \<Rightarrow> 'd json \<Rightarrow> string option \<Rightarrow> 'd srec list \<Rightarrow> string \<Rightarrow>
    'd tokener \<Rightarrow> bool" where
  "esc_at m st s s' v f below p tok \<longleftrightarrow> tok_at m st (lv s s' v f) below tok \<and> tk_pb tok = p \<and> tk_quote tok = QUOTE"

definition string_state :: "json_tokener_state \<Rightarrow> bool" where
  "string_state s \<longleftrightarrow> s = state_string \<or> s = state_object_field"

lemma read_while_Cons:
  assumes "p c" "c \<noteq> NUL" "t \<noteq> []"
  shows "read_while p k tok (c # t) = read_while p k (skip 1 (append_pb [c] tok)) t"
proof -
  let ?q = "\<lambda>c. p c \<and> c \<noteq> NUL"
  have tok: "skip (length (c # xs)) (append_pb (c # xs) tok) = skip (length xs) (append_pb xs (skip 1 (append_pb [c] tok)))" for xs
    by (simp add: skip_def)
  have q: "takeWhile ?q (c # t) = c # takeWhile ?q t" "dropWhile ?q (c # t) = dropWhile ?q t" using assms by simp_all
  show ?thesis
  proof (cases "dropWhile ?q t")
    case Nil
    then have all: "takeWhile ?q t = t" by (simp add: takeWhile_eq_all_conv)
    show ?thesis using assms(3) unfolding read_while_def Let_def q Nil all tok by simp
  next
    case (Cons d ds)
    then show ?thesis unfolding read_while_def Let_def q Cons tok by simp
  qed
qed

lemma unescaped_facts:
  assumes "unescaped c"
  shows "c \<noteq> QUOTE" "c \<noteq> BSL" "c \<noteq> NUL"
  using assms by (auto simp: unescaped_def short_escape_def)

lemma reads_plain:
  assumes "unescaped c" "string_state s"
  shows "reads D F (str_at m st s v f below p) [c] (str_at m st s v f below (p @ [c]))"
proof (rule readsI)
  fix tok :: "'a tokener" and obj x and t :: string
  assume a: "str_at m st s v f below p tok" "t \<noteq> []" "hd t \<in> F"
  let ?tok = "skip 1 (append_pb [c] tok)"
  have "tok_step D sscanf_int64 False tok obj (c # t) = tok_step D sscanf_int64 False ?tok obj t"
    using a unescaped_facts[OF assms(1)] assms(2)
    by (auto simp: str_at_def string_state_def tok_step_def tok_at_def step_string_def step_object_field_def read_while_Cons)
  then have "tok_loop D sscanf_int64 False tok obj x ([c] @ t) = tok_loop D sscanf_int64 False ?tok obj x t"
    using a(2) by (subst (1 2) tok_loop.simps) simp
  then show "\<exists>tok' obj' c'. str_at m st s v f below (p @ [c]) tok' \<and>
      tok_loop D sscanf_int64 False tok obj x ([c] @ t) = tok_loop D sscanf_int64 False tok' obj' c' t"
    using a(1) by (intro exI[of _ ?tok] exI[of _ obj] exI[of _ x]) (simp add: str_at_def tok_at_def)
qed

lemma read_while_stop: "\<not> p c \<Longrightarrow> read_while p k tok (c # t) = k (tok\<lparr>tk_pb := tk_pb tok\<rparr>) (c # t)"
  by (simp add: read_while_def)

lemma reads_backslash:
  assumes "string_state s"
  shows "reads D F (str_at m st s v f below p) [BSL] (esc_at m st state_string_escape s v f below p)"
  by (rule reads_advance, insert assms)
    (auto simp: str_at_def esc_at_def string_state_def tok_step_def tok_at_def step_string_def step_object_field_def read_while_stop)

lemma reads_short_escape:
  assumes "short_escape c = Some e" "string_state s"
  shows "reads D F (esc_at m st state_string_escape s v f below p) [e] (str_at m st s v f below (p @ [c]))"
  by (rule reads_advance, insert assms)
    (auto simp: short_escape_def str_at_def esc_at_def tok_step_def tok_at_def step_string_escape_def split: if_splits)

lemma jt_hexdigit_hex: "i < 16 \<Longrightarrow> jt_hexdigit (json_hex_chars ! i) = of_nat i"
  by (auto simp: jt_hexdigit_def json_hex_chars_def less_Suc_eq numeral_eq_Suc)

lemma hex_char: "i < 16 \<Longrightarrow> json_hex_chars ! i \<in> set json_hex_chars \<and> json_hex_chars ! i \<noteq> NUL"
  by (auto simp: json_hex_chars_def less_Suc_eq numeral_eq_Suc)

definition uni_at :: "int \<Rightarrow> bool \<Rightarrow> json_tokener_state \<Rightarrow> 'd json \<Rightarrow> string option \<Rightarrow> 'd srec list \<Rightarrow> string \<Rightarrow> 'd tokener \<Rightarrow> bool" where
  "uni_at m st s v f below p tok \<longleftrightarrow> esc_at m st state_escape_unicode s v f below p tok \<and> tk_ucs tok = 0 \<and> tk_st_pos tok = 0"

lemma reads_u:
  "reads D F (esc_at m st state_string_escape s v f below p) ''u'' (uni_at m st s v f below p)"
  by (rule reads_advance) (auto simp: uni_at_def esc_at_def tok_step_def tok_at_def step_string_escape_def)

lemma of_nat_hex: "n < 32 \<Longrightarrow> push_bit 4 (of_nat (n div 16)) + of_nat (n mod 16) = (of_nat n :: 32 word)"
proof -
  have "push_bit 4 (of_nat a) + of_nat b = (of_nat (a * 16 + b) :: 32 word)" for a b :: nat
    by (simp add: push_bit_eq_mult)
  from this[of "n div 16" "n mod 16"] show ?thesis by (simp only: div_mult_mod_eq)
qed

lemma unescaped_utf_control:
  assumes "(of_char c :: nat) < 32"
  shows "unescaped_utf (of_nat (of_char c)) = [c]"
proof -
  let ?n = "of_char c :: nat" and ?w = "of_nat (of_char c) :: 32 word"
  have n: "unat ?w = ?n" using assms by (simp add: unat_of_nat take_bit_nat_eq_self)
  have "?w < 0x80" using assms n by (simp add: word_less_nat_alt)
  moreover have "unat (?w AND 0xFF) = ?n"
  proof -
    have "?w AND 0xFF = take_bit 8 ?w" by (simp add: take_bit_eq_mask mask_eq_exp_minus_1)
    then have "unat (?w AND 0xFF) = take_bit 8 ?n" using n by (simp add: unsigned_take_bit_eq)
    then show ?thesis using assms by (simp add: take_bit_nat_eq_self)
  qed
  ultimately show ?thesis by (simp add: unescaped_utf_def uchar_def)
qed

lemma reads_digits:
  assumes "(of_char c :: nat) < 32"
  shows "reads D F (uni_at m st s v f below p) [CHR ''0'', CHR ''0'', json_hex_chars ! (of_char c div 16), json_hex_chars ! (of_char c mod 16)]
    (str_at m st s v f below (p @ [c]))"
proof (rule readsI)
  fix tok :: "'a tokener" and obj x and t :: string
  assume a: "uni_at m st s v f below p tok" "t \<noteq> []" "hd t \<in> F"
  let ?h = "json_hex_chars ! (of_char c div 16)" and ?l = "json_hex_chars ! (of_char c mod 16)"
  have hl: "(of_char c :: nat) div 16 < 16" "(of_char c :: nat) mod 16 < 16" using assms by simp_all
  have z: "jt_hexdigit CHR ''0'' = 0" "CHR ''0'' \<in> set json_hex_chars" by (simp_all add: jt_hexdigit_def json_hex_chars_def)
  let ?ucs = "of_nat (of_char c) :: 32 word"
  let ?tok = "set_state s (append_pb [c] (skip 3 (tok\<lparr>tk_ucs := ?ucs, tk_st_pos := 4\<rparr>)))"
  have "\<not> IS_HIGH_SURROGATE ?ucs \<or> \<not> 0x800 \<le> ?ucs"
    using assms by (simp add: word_le_nat_alt unat_of_nat take_bit_nat_eq_self)
  then have "tok_step D sscanf_int64 False tok obj ([CHR ''0'', CHR ''0'', ?h, ?l] @ t) = Some (Advance ?tok obj (?l # t))"
    using a(1) hex_char[OF hl(1)] hex_char[OF hl(2)] jt_hexdigit_hex[OF hl(1)] jt_hexdigit_hex[OF hl(2)] z of_nat_hex[OF assms]
      unescaped_utf_control[OF assms]
    by (auto simp: uni_at_def esc_at_def tok_step_def tok_at_def unicode_loop.simps skip_def)
  from loop_advance[OF this] hex_char[OF hl(2)]
  have "tok_loop D sscanf_int64 False tok obj x ([CHR ''0'', CHR ''0'', ?h, ?l] @ t) =
      tok_loop D sscanf_int64 False (skip 1 ?tok) obj ?l t" by simp
  then show "\<exists>tok' obj' c'. str_at m st s v f below (p @ [c]) tok' \<and>
      tok_loop D sscanf_int64 False tok obj x ([CHR ''0'', CHR ''0'', ?h, ?l] @ t) = tok_loop D sscanf_int64 False tok' obj' c' t"
    using a(1) by (intro exI[of _ "skip 1 ?tok"] exI[of _ obj] exI[of _ ?l]) (simp add: str_at_def uni_at_def esc_at_def tok_at_def skip_def)
qed

lemma reads_escape_char:
  assumes "string_state s"
  shows "reads D UNIV (str_at m st s v f below p) (escape_char c) (str_at m st s v f below (p @ [c]))"
proof (cases "short_escape c")
  case (Some e)
  then show ?thesis
    using reads_append[OF reads_backslash[OF assms] reads_short_escape[OF Some assms], of UNIV UNIV] by (simp add: escape_char_def)
next
  case None
  show ?thesis
  proof (cases "(of_char c :: nat) < 32")
    case True
    have "reads D UNIV (str_at m st s v f below p) ([BSL] @ ''u'' @ ''00'' @ [json_hex_chars ! (of_char c div 16), json_hex_chars ! (of_char c mod 16)])
        (str_at m st s v f below (p @ [c]))"
      using reads_append[OF reads_backslash[OF assms] reads_append[OF reads_u reads_digits[OF True], of UNIV UNIV], of UNIV] by simp
    then show ?thesis using None True by (simp add: escape_char_def unicode_escape_def)
  next
    case False
    then have "unescaped c" using None by (simp add: unescaped_def)
    from reads_plain[OF this assms] show ?thesis using None False by (simp add: escape_char_def)
  qed
qed

lemma reads_escaped:
  assumes "string_state s"
  shows "reads D UNIV (str_at m st s v f below p) (escaped str) (str_at m st s v f below (p @ str))"
proof (induction str arbitrary: p)
  case Nil
  then show ?case by (simp add: reads_refl)
next
  case (Cons c cs)
  from reads_append[OF reads_escape_char[OF assms] Cons.IH[of "p @ [c]"]] show ?case by simp
qed

text \<open>A string value, and the key of a member.\<close>

lemma reads_string:
  "reads D UNIV (tok_at m st (before state_start J_null) below) (json_object_string_to_json_string s)
    (tok_at m st (before state_finish (J_string s)) below)"
proof -
  have 1: "reads D UNIV (tok_at m st (before state_start J_null) below) [QUOTE] (str_at m st state_string J_null None below [])"
    by (rule reads_char) (auto simp: str_at_def tok_step_def tok_at_def step_start_def Let_def)
  have 3: "reads D UNIV (str_at m st state_string J_null None below s) [QUOTE] (tok_at m st (before state_finish (J_string s)) below)"
    by (rule reads_advance) (auto simp: str_at_def tok_step_def tok_at_def step_string_def read_while_stop set_defs)
  have "reads D UNIV (str_at m st state_string J_null None below []) (escaped s) (str_at m st state_string J_null None below s)"
    using reads_escaped[of state_string D m st J_null None below "[]" s] by (simp add: string_state_def)
  from reads_append[OF 1 reads_append[OF this 3]] show ?thesis
    by (simp add: json_object_string_to_json_string_def json_escape_str_eq)
qed

lemma reads_key:
  assumes "NUL \<notin> set k" "s = state_object_field_start \<or> s = state_object_field_start_after_sep"
  shows "reads D UNIV (tok_at m st (before s v) below) ([QUOTE] @ json_escape_str (c_str k) @ [QUOTE])
    (tok_at m st (lv state_eatws state_object_field_end v (Some k)) below)"
proof -
  have 1: "reads D UNIV (tok_at m st (before s v) below) [QUOTE] (str_at m st state_object_field v None below [])"
    using assms(2) by (intro reads_char) (auto simp: str_at_def tok_step_def tok_at_def step_object_field_start_def Let_def)
  have 3: "reads D UNIV (str_at m st state_object_field v None below k) [QUOTE] (tok_at m st (lv state_eatws state_object_field_end v (Some k)) below)"
    using c_str_no_NUL[OF assms(1)]
    by (intro reads_advance) (auto simp: str_at_def tok_step_def tok_at_def step_object_field_def read_while_stop set_defs)
  have "reads D UNIV (str_at m st state_object_field v None below []) (escaped k) (str_at m st state_object_field v None below k)"
    using reads_escaped[of state_object_field D m st v None below "[]" k] by (simp add: string_state_def)
  from reads_append[OF 1 reads_append[OF this 3]] show ?thesis
    by (simp add: json_escape_str_eq c_str_no_NUL[OF assms(1)])
qed

section \<open>Names\<close>

definition name_at :: "int \<Rightarrow> bool \<Rightarrow> json_tokener_state \<Rightarrow> 'd srec list \<Rightarrow> string \<Rightarrow> 'd tokener \<Rightarrow> bool" where
  "name_at m st s below p tok \<longleftrightarrow>
    tok_at m st (lv s state_start J_null None) below tok \<and> tk_pb tok = p \<and> tk_st_pos tok = length p"

lemma reads_start:
  assumes "c \<in> token_chars"
    and "\<And>tok obj t. tok_at m st (lv state_start state_start J_null None) below tok \<Longrightarrow>
      \<exists>tok' obj'. tok_step D sscanf_int64 False tok obj (c # t) = Some (Redo tok' obj' (c # t)) \<and> Q tok'"
  shows "reads D {c} (tok_at m st (before state_start J_null) below) [] Q"
proof -
  have "reads D {c} (tok_at m st (lv state_start state_start J_null None) below) [] Q"
  proof (rule reads_redo)
    fix tok :: "'a tokener" and obj t
    assume "tok_at m st (lv state_start state_start J_null None) below tok" "t \<noteq> []" "hd t \<in> {c}"
    then show "\<exists>tok' obj'. tok_step D sscanf_int64 False tok obj t = Some (Redo tok' obj' t) \<and> Q tok'"
      using assms(2) by (cases t) auto
  qed
  from reads_append[OF reads_token this] show ?thesis using assms(1) by simp
qed

text \<open>The characters of a name, and the first one behind it.\<close>

definition spelled :: "json_tokener_state \<Rightarrow> string \<Rightarrow> 'd json \<Rightarrow> bool" where
  "spelled s name v \<longleftrightarrow> (s = state_null \<and> name = ''null'' \<and> v = J_null) \<or>
    (s = state_boolean \<and> name = ''true'' \<and> v = J_boolean True) \<or> (s = state_boolean \<and> name = ''false'' \<and> v = J_boolean False)"

lemma reads_name_char:
  assumes "spelled s name (v :: 'a json)" "p @ c # q = name"
  shows "reads (D :: 'a c_double) F (name_at m st s below p) [c] (name_at m st s below (p @ [c]))"
proof (rule reads_advance)
  fix tok :: "'a tokener" and obj and t :: string
  assume a: "name_at m st s below p tok" "t \<noteq> []"
  have t: "take (Suc (length p)) name = p @ [c]" "length p < length name" using assms(2) by auto
  have f: "name = ''false'' \<Longrightarrow> take (min (Suc (length p)) 4) (p @ [c]) \<noteq> take (min (Suc (length p)) 4) ''true''"
      "name = ''false'' \<Longrightarrow> map tolower (take (min (Suc (length p)) 4) (p @ [c])) \<noteq> map tolower (take (min (Suc (length p)) 4) ''true'')"
    using assms(2) by (auto simp: Cons_eq_append_conv append_eq_Cons_conv tolower_def)
  show "\<exists>tok' obj'. tok_step D sscanf_int64 False tok obj (c # t) = Some (Advance tok' obj' (c # t)) \<and>
      name_at m st s below (p @ [c]) (skip 1 tok')"
    using a(1) assms(1) t f
    by (auto simp: spelled_def name_at_def tok_step_def tok_at_def step_null_def step_boolean_def name_matches_def Let_def min_def skip_def)
next
  show "c \<noteq> NUL" using assms by (auto simp: spelled_def append_eq_Cons_conv Cons_eq_append_conv)
qed

lemma reads_name_chars:
  assumes "spelled s name (v :: 'a json)"
  shows "p @ q = name \<Longrightarrow> reads (D :: 'a c_double) UNIV (name_at m st s below p) q (name_at m st s below name)"
proof (induction q arbitrary: p)
  case Nil
  then show ?case by (simp add: reads_refl)
next
  case (Cons c q)
  then have "reads D UNIV (name_at m st s below (p @ [c])) q (name_at m st s below name)" by simp
  from reads_append[OF reads_name_char[OF assms Cons.prems, where F = UNIV] this] show ?case by simp
qed

lemma reads_name_end:
  assumes "spelled s name (v :: 'a json)"
  shows "reads (D :: 'a c_double) UNIV (name_at m st s below name) [] (tok_at m st (before state_finish v) below)"
proof (rule reads_redo)
  fix tok :: "'a tokener" and obj and t :: string
  assume a: "name_at m st s below name tok" "t \<noteq> []"
  have "map tolower ''fals'' \<noteq> map tolower ''true''" by (simp add: tolower_def)
  then show "\<exists>tok' obj'. tok_step D sscanf_int64 False tok obj t = Some (Redo tok' obj' t) \<and> tok_at m st (before state_finish v) below tok'"
    using a assms by (auto simp: spelled_def name_at_def tok_step_def tok_at_def step_null_def step_boolean_def name_matches_def Let_def set_defs)
qed

lemma reads_name:
  assumes "spelled s name (v :: 'a json)"
  shows "reads (D :: 'a c_double) UNIV (tok_at m st (before state_start J_null) below) name (tok_at m st (before state_finish v) below)"
proof -
  have "reads D {hd name} (tok_at m st (before state_start J_null) below) [] (name_at m st s below [])"
    using assms by (intro reads_start)
      (auto simp: spelled_def name_at_def tok_step_def tok_at_def step_start_def Let_def token_chars_def isspace_def)
  moreover have "name \<noteq> []" using assms by (auto simp: spelled_def)
  ultimately show ?thesis
    using reads_append[OF _ reads_append[OF reads_name_chars[OF assms, of "[]" name D] reads_name_end[OF assms]]] by fastforce
qed

section \<open>Numbers\<close>

definition num_at :: "int \<Rightarrow> bool \<Rightarrow> 'd srec list \<Rightarrow> 'd tokener \<Rightarrow> bool" where
  "num_at m st below tok \<longleftrightarrow>
    tok_at m st (lv state_number state_start J_null None) below tok \<and> tk_pb tok = [] \<and> \<not> tk_is_double tok"

definition is_fraction :: "string \<Rightarrow> bool" where
  "is_fraction xs \<longleftrightarrow> (\<exists>c \<in> set xs. c \<in> set ''.eE'')"

text \<open>The text of a number and its value: as the code tells integers from doubles.\<close>

definition number_reads :: "'d c_double \<Rightarrow> bool \<Rightarrow> string \<Rightarrow> 'd json \<Rightarrow> bool" where
  "number_reads D st xs v \<longleftrightarrow> xs \<noteq> [] \<and> set xs \<subseteq> set json_number_chars \<and> (isdigit (hd xs) \<or> hd xs = CHR ''-'') \<and> xs \<noteq> ''-'' \<and>
    (if is_fraction xs then \<exists>d. json_parse_double D xs = Some d \<and> v = J_double d (Some xs)
     else \<exists>n. json_parse_int64 sscanf_int64 xs = Some n \<and> v = J_int n \<and> (st \<longrightarrow> n \<noteq> 0 \<longrightarrow> hd xs \<noteq> CHR ''0''))"

lemma number_chars: "c \<in> set json_number_chars \<Longrightarrow> c \<noteq> NUL \<and> c \<in> token_chars"
  by (auto simp: json_number_chars_def token_chars_def isspace_def)

lemma step_number_reads:
  assumes "number_reads D st xs v" "num_at m st below tok" "t \<noteq> []" "hd t \<notin> set json_number_chars"
  shows "\<exists>tok'. tok_step D sscanf_int64 b tok obj (xs @ t) = Some (Redo tok' obj t) \<and> tok_at m st (before state_finish v) below tok'"
proof -
  have xs: "xs \<noteq> []" "set xs \<subseteq> set json_number_chars" "xs \<noteq> ''-''" using assms(1) by (simp_all add: number_reads_def)
  obtain c cs where t: "t = c # cs" "c \<notin> set json_number_chars" using assms(3,4) by (cases t) auto
  have span: "takeWhile (\<lambda>c. c \<in> set json_number_chars) (xs @ t) = xs" "dropWhile (\<lambda>c. c \<in> set json_number_chars) (xs @ t) = c # cs"
    using xs(2) t by (auto simp: takeWhile_append dropWhile_append)
  have no_inf: "\<not> (hd (xs @ [NUL]) = CHR ''-'' \<and> length xs = 1)"
    using xs(1,3) by (cases xs) auto
  have NUL: "c_str xs = xs" using xs(2) number_chars by (intro c_str_no_NUL) blast
  let ?tok = "skip (length xs) (append_pb xs (tok\<lparr>tk_is_double := is_fraction xs\<rparr>))"
  have tok: "tk_pb tok = []" "\<not> tk_is_double tok" "s_state (tk_top tok) = state_number" "tk_strict tok = st"
    using assms(2) by (simp_all add: num_at_def tok_at_def)
  have "step_number D sscanf_int64 tok obj (xs @ t) = Redo (finish_with v ?tok) obj t"
  proof (cases "is_fraction xs")
    case True
    then obtain d where "json_parse_double D xs = Some d" "v = J_double d (Some xs)" using assms(1) by (auto simp: number_reads_def)
    then show ?thesis using tok True no_inf NUL t(1) unfolding step_number_def Let_def span by (auto simp: is_fraction_def)
  next
    case False
    then obtain n where n: "json_parse_int64 sscanf_int64 xs = Some n" "v = J_int n" "st \<longrightarrow> n \<noteq> 0 \<longrightarrow> hd xs \<noteq> CHR ''0''"
      using assms(1) by (auto simp: number_reads_def)
    moreover have "hd (xs @ [NUL]) = hd xs" using xs(1) by simp
    ultimately show ?thesis using tok False no_inf NUL t(1) unfolding step_number_def Let_def span by (auto simp: is_fraction_def)
  qed
  moreover have "tok_at m st (before state_finish v) below (finish_with v ?tok)"
    using assms(2) by (simp add: num_at_def tok_at_def set_defs)
  ultimately show ?thesis using tok(3) by (simp add: tok_step_def)
qed

lemma reads_number:
  assumes "number_reads D st xs v"
  shows "reads D (- set json_number_chars) (tok_at m st (before state_start J_null) below) xs (tok_at m st (before state_finish v) below)"
proof -
  have xs: "xs \<noteq> []" "isdigit (hd xs) \<or> hd xs = CHR ''-''" "hd xs \<in> token_chars"
    using assms number_chars[of "hd xs"] hd_in_set[of xs] unfolding number_reads_def by blast+
  have "hd xs \<notin> set ''{[IiNnTtFf'' \<and> hd xs \<noteq> CHR 0x27 \<and> hd xs \<noteq> QUOTE" using xs(2) by (auto simp: isdigit_def)
  then have 1: "reads D {hd xs} (tok_at m st (before state_start J_null) below) [] (num_at m st below)"
    using xs by (intro reads_start) (auto simp: num_at_def tok_step_def tok_at_def step_start_def Let_def)
  have 2: "reads D (- set json_number_chars) (num_at m st below) xs (tok_at m st (before state_finish v) below)"
  proof (rule readsI)
    fix tok :: "'a tokener" and obj c t
    assume a: "num_at m st below tok" "t \<noteq> []" "hd t \<in> - set json_number_chars"
    obtain tok' where "tok_step D sscanf_int64 False tok obj (xs @ t) = Some (Redo tok' obj t)" "tok_at m st (before state_finish v) below tok'"
      using step_number_reads[OF assms a(1,2)] a(3) by blast
    then show "\<exists>tok' obj' c'. tok_at m st (before state_finish v) below tok' \<and>
        tok_loop D sscanf_int64 False tok obj c (xs @ t) = tok_loop D sscanf_int64 False tok' obj' c' t"
      using loop_redo xs(1) by fastforce
  qed
  from reads_append[OF 1 2] xs(1) show ?thesis by simp
qed

text \<open>The text of an integer.\<close>

lemma sscanf_int64_show: "sscanf_int64 (show_int (sint (i :: 64 word))) = Some (i, False)"
proof -
  have b: "- (2 ^ 63) \<le> sint i" "sint i < 2 ^ 63" using sint_greater_eq[of i] sint_less[of i] by simp_all
  show ?thesis
  proof (cases "sint i < 0")
    case True
    have "nat (- sint i) \<le> 2 ^ 63" using b by simp
    moreover have "- of_nat (nat (- sint i)) = i" using True by simp
    ultimately show ?thesis using True by (simp add: sscanf_int64_def show_int_def parse_int_show_neg in_int64_def int64_of_def)
  next
    case False
    have "nat (sint i) < 2 ^ 63" using b False by simp
    moreover have "of_nat (nat (sint i)) = i" using False by simp
    ultimately show ?thesis using False by (simp add: sscanf_int64_def show_int_def in_int64_def int64_of_def)
  qed
qed

lemma sscanf_int64_not_broken: "\<not> sscanf_is_broken_test sscanf_int64"
  by (simp add: sscanf_is_broken_test_def sscanf_int64_def parse_int_def c_str_def isspace_def split_sign_def take_digits_def
      digit_val_def in_int64_def INT64_MIN_def INT64_MAX_def)

lemma digit_val_isdigit: "digit_val c < 10 \<longleftrightarrow> isdigit c"
  by (auto simp: digit_val_def isdigit_def Let_def)

lemma isdigit_number_char: "isdigit c \<Longrightarrow> c \<in> set json_number_chars"
proof -
  assume "isdigit c"
  then obtain n :: nat where n: "48 \<le> n" "n \<le> 57" "c = char_of n"
    using that[of "of_char c"] by (simp add: isdigit_def)
  then have "n = 48 \<or> n = 49 \<or> n = 50 \<or> n = 51 \<or> n = 52 \<or> n = 53 \<or> n = 54 \<or> n = 55 \<or> n = 56 \<or> n = 57" by presburger
  then show ?thesis using n(3) by (elim disjE) (simp_all add: json_number_chars_def char_of_def bit_0)
qed

lemma show_int_facts:
  "show_int n \<noteq> []" "set (show_int n) \<subseteq> set json_number_chars" "isdigit (hd (show_int n)) \<or> hd (show_int n) = CHR ''-''"
  "show_int n \<noteq> ''-''" "\<not> is_fraction (show_int n)"
proof -
  have d: "c \<in> set (show_nat 10 k) \<Longrightarrow> isdigit c" for c k using show_nat_in_digits digit_val_isdigit by blast
  have "CHR ''-'' \<in> set json_number_chars" by (simp add: json_number_chars_def)
  then show "set (show_int n) \<subseteq> set json_number_chars" using d isdigit_number_char by (auto simp: show_int_def)
  have "isdigit (hd (show_nat 10 k))" for k using d hd_in_set[OF show_nat_not_Nil] by blast
  then show "isdigit (hd (show_int n)) \<or> hd (show_int n) = CHR ''-''" by (simp add: show_int_def)
  have "\<not> isdigit CHR ''.''" "\<not> isdigit CHR ''e''" "\<not> isdigit CHR ''E''" by (simp_all add: isdigit_def)
  then show "\<not> is_fraction (show_int n)" using d by (auto simp: show_int_def is_fraction_def)
  have "\<not> isdigit CHR ''-''" by (simp add: isdigit_def)
  then have "show_nat 10 k \<noteq> ''-''" for k using d[of "CHR ''-''" k] by force
  then show "show_int n \<noteq> ''-''" by (simp add: show_int_def)
qed (simp add: show_int_def)

end
