(* ===== verification/Json_Roundtrip.thy ===== *)
theory Json_Roundtrip
  imports Json_Scalars
begin

text \<open>
  The parser on the text that \<open>json_object_to_json_string_ext\<close> gives of a value, whatever its flags: by
  induction on the value, it gives the value.
\<close>

section \<open>Values\<close>

text \<open>
  The levels a value takes of the stack, and the values whose text gives them back: the keys of an object
  are distinct and have no null character, a double carries the text of a number that is read as it.
\<close>

fun json_depth :: "'d json \<Rightarrow> nat" where
  "json_depth (J_object ms) = Suc (foldr max (map (\<lambda>(k, v). json_depth v) ms) 0)"
| "json_depth (J_array vs) = Suc (foldr max (map json_depth vs) 0)"
| "json_depth _ = 1"

definition double_text :: "'d c_double \<Rightarrow> 'd \<Rightarrow> string \<Rightarrow> bool" where
  "double_text D d s \<longleftrightarrow> s \<noteq> [] \<and> set s \<subseteq> set json_number_chars \<and> (isdigit (hd s) \<or> hd s = CHR ''-'') \<and> is_fraction s \<and> d_scan D s = Some d"

fun json_readable :: "'d c_double \<Rightarrow> 'd json \<Rightarrow> bool" where
  "json_readable D (J_double d ds) = (case ds of None \<Rightarrow> False | Some s \<Rightarrow> double_text D d s)"
| "json_readable D (J_object ms) = (distinct (map fst ms) \<and> (\<forall>(k, v) \<in> set ms. NUL \<notin> set k \<and> json_readable D v))"
| "json_readable D (J_array vs) = (\<forall>v \<in> set vs. json_readable D v)"
| "json_readable D _ = True"

lemma foldr_max: "x \<in> set xs \<Longrightarrow> x \<le> foldr max xs (0 :: nat)"
  by (induction xs) auto

lemma json_depth_element: "v \<in> set vs \<Longrightarrow> json_depth v < json_depth (J_array vs)"
  using foldr_max[of "json_depth v" "map json_depth vs"] by simp

lemma json_depth_member: "(k, v) \<in> set ms \<Longrightarrow> json_depth v < json_depth (J_object ms)"
  using foldr_max[of "json_depth v" "map (\<lambda>(k, v). json_depth v) ms"] by (force simp: less_Suc_eq_le)

subsection \<open>Scalars\<close>

definition value_end :: "char set" where
  "value_end = - set json_number_chars"

lemma value_end [simp]: "CHR '','' \<in> value_end" "CHR '']'' \<in> value_end" "CHR ''}'' \<in> value_end" "SPC \<in> value_end" "NL \<in> value_end" "NUL \<in> value_end"
  by (simp_all add: value_end_def json_number_chars_def)

lemma number_reads_int: "number_reads D st (show_int (sint (i :: 64 word))) (J_int i)"
proof -
  let ?s = "show_int (sint i)"
  have NUL: "NUL \<notin> set ?s" using show_int_facts(2) number_chars by blast
  have sp: "dropWhile isspace ?s = ?s"
    using show_int_facts(1,3)[of "sint i"] by (cases ?s) (auto simp: isdigit_def isspace_def)
  have "hd ?s = CHR ''0'' \<Longrightarrow> i = 0"
  proof -
    assume 0: "hd ?s = CHR ''0''"
    then have pos: "\<not> sint i < 0" by (auto simp: show_int_def)
    have "hd (show_nat 10 n) = CHR ''0'' \<Longrightarrow> n = 0" for n
    proof (induction "10 :: nat" n rule: show_nat.induct)
      case (1 n)
      have "digit_char k \<noteq> CHR ''0''" if "0 < k" "k < 10" for k
      proof -
        have "(of_char (digit_char k) :: nat) = 48 + k" using that by (simp add: digit_char_def)
        then show ?thesis using that by auto
      qed
      then show ?case using 1 show_nat.simps[of 10 n] by (auto split: if_splits)
    qed
    moreover have "hd (show_nat 10 (nat (sint i))) = CHR ''0''" using 0 pos by (simp add: show_int_def)
    ultimately have "nat (sint i) = 0" by blast
    then show "i = 0" using pos by (simp add: signed_eq_0_iff)
  qed
  then show ?thesis
    using show_int_facts[of "sint i"] c_str_no_NUL[OF NUL] sp sscanf_int64_not_broken
    by (auto simp: number_reads_def json_parse_int64_def sscanf_int64_show)
qed

lemma number_reads_double:
  assumes "double_text D d s"
  shows "number_reads D st s (J_double d (Some s))"
proof -
  have "NUL \<notin> set s" using assms number_chars by (auto simp: double_text_def)
  moreover have "s \<noteq> ''-''" using assms by (auto simp: double_text_def is_fraction_def)
  ultimately show ?thesis using assms by (simp add: double_text_def number_reads_def json_parse_double_def c_str_no_NUL)
qed

subsection \<open>White space in the text\<close>

definition white :: "string \<Rightarrow> bool" where
  "white ws \<longleftrightarrow> (\<forall>c \<in> set ws. c = SPC \<or> c = NL)"

lemma white_simps [simp]:
  "white []" "white (xs @ ys) \<longleftrightarrow> white xs \<and> white ys" "white (c # xs) \<longleftrightarrow> (c = SPC \<or> c = NL) \<and> white xs"
  "white (newline flags)" "white (indent level flags)"
  by (simp_all add: white_def newline_def indent_def ball_Un)

lemma reads_white:
  "white ws \<Longrightarrow> reads D F (tok_at m st (lv state_eatws s v f) below) ws (tok_at m st (lv state_eatws s v f) below)"
proof (rule reads_ws)
  fix c assume "white ws" "c \<in> set ws"
  then have "c = SPC \<or> c = NL" by (simp only: white_def)
  then show "isspace c" by (elim disjE) (simp_all add: isspace_def)
qed

lemma hd_white_append: "white ws \<Longrightarrow> c \<in> value_end \<Longrightarrow> hd (ws @ [c] @ xs) \<in> value_end"
  by (cases ws) auto

definition gap :: "nat \<Rightarrow> 32 word \<Rightarrow> string" where
  "gap level flags = (if spaced flags then '' '' else []) @ indent (level + 1) flags"

lemma white_gap [simp]: "white (gap level flags)"
  by (simp add: gap_def)

lemma before_child_eq: "before_child level flags had_children = (if had_children then '','' @ newline flags else []) @ gap level flags"
  by (simp add: before_child_def gap_def)

definition closing :: "bool \<Rightarrow> nat \<Rightarrow> 32 word \<Rightarrow> string" where
  "closing nonempty level flags =
    (if pretty flags then (if nonempty then [NL] else []) @ indent level flags else []) @ (if spaced flags then '' '' else [])"

lemma white_closing [simp]: "white (closing nonempty level flags)"
  by (simp add: closing_def)

lemma array_text_eq:
  "json_object_array_to_json_string es level flags =
    ''['' @ newline flags @ elements_text level flags False es @ closing (es \<noteq> []) level flags @ '']''"
  by (simp add: json_object_array_to_json_string_def closing_def)

lemma object_text_eq:
  "json_object_object_to_json_string es level flags =
    ''{'' @ newline flags @ members_text level flags False es @ closing (es \<noteq> []) level flags @ ''}''"
  by (simp add: json_object_object_to_json_string_def closing_def)

text \<open>The text of a value begins a token that is no closing bracket.\<close>

lemma hd_value:
  assumes "json_readable D v"
  shows "to_json_string D v level flags \<noteq> [] \<and> hd (to_json_string D v level flags) \<in> token_chars - {CHR '']''}"
proof -
  have number: "xs \<noteq> [] \<and> hd xs \<in> token_chars - {CHR '']''}" if "number_reads D st xs w" for st xs w
  proof -
    have xs: "xs \<noteq> []" "set xs \<subseteq> set json_number_chars" "isdigit (hd xs) \<or> hd xs = CHR ''-''"
      using that by (simp_all add: number_reads_def)
    then have "hd xs \<in> token_chars" using number_chars hd_in_set by blast
    then show ?thesis using xs(1,3) by (auto simp: isdigit_def)
  qed
  show ?thesis
  proof (cases v)
    case (J_int i)
    then show ?thesis using number[OF number_reads_int[of D False i]] by (simp add: json_object_int_to_json_string_def)
  next
    case (J_double d ds)
    then obtain s where s: "ds = Some s" "double_text D d s" using assms by (auto split: option.splits)
    moreover have "c_str s = s" using s(2) number_chars by (intro c_str_no_NUL) (auto simp: double_text_def)
    ultimately show ?thesis using number[OF number_reads_double[OF s(2), of False]] J_double
      by (simp add: json_object_userdata_to_json_string_def)
  qed (auto simp: json_object_boolean_to_json_string_def json_object_string_to_json_string_def array_text_eq object_text_eq
      token_chars_def isspace_def)
qed

subsection \<open>Arrays\<close>

text \<open>A value is read as itself, at any place in the text.\<close>

definition value_reads :: "'d c_double \<Rightarrow> int \<Rightarrow> bool \<Rightarrow> 'd srec list \<Rightarrow> string \<Rightarrow> 'd json \<Rightarrow> bool" where
  "value_reads D m st below txt v \<longleftrightarrow> txt \<noteq> [] \<and> hd txt \<in> token_chars - {CHR '']''} \<and>
    reads D value_end (tok_at m st (before state_start J_null) below) txt (tok_at m st (before state_finish v) below)"

text \<open>Behind an element: its value is still on a level of its own.\<close>

definition behind_element :: "int \<Rightarrow> bool \<Rightarrow> 'd json list \<Rightarrow> 'd srec list \<Rightarrow> 'd tokener \<Rightarrow> bool" where
  "behind_element m st vs below tok \<longleftrightarrow>
    (\<exists>s. tok_at m st (before state_finish (last vs)) (lv state_array_add s (J_array (butlast vs)) None # below) tok)"

lemma reads_ex: "(\<And>x. reads D F (P x) txt Q) \<Longrightarrow> reads D F (\<lambda>tok. \<exists>x. P x tok) txt Q"
  unfolding reads_def by blast

lemma reads_element:
  assumes "s = state_array \<or> s = state_array_after_sep" "int (length below) < m - 1" "white ws"
    and "\<And>lev. value_reads D m st (lev # below) txt v"
  shows "reads D value_end (tok_at m st (before s (J_array vs)) below) (ws @ txt) (behind_element m st (vs @ [v]) below)"
proof -
  let ?lev = "lv state_array_add s (J_array vs) None"
  have v: "txt \<noteq> []" "hd txt \<in> token_chars - {CHR '']''}"
      "reads D value_end (tok_at m st (before state_start J_null) (?lev # below)) txt (tok_at m st (before state_finish v) (?lev # below))"
    using assms(4)[of ?lev] by (simp_all add: value_reads_def)
  have "reads D value_end (tok_at m st (before s (J_array vs)) below) txt (behind_element m st (vs @ [v]) below)"
    by (rule reads_mono[OF reads_append[OF reads_push_element[OF assms(1,2)] v(3), simplified]])
      (use v(1,2) in \<open>auto simp: behind_element_def\<close>)
  from reads_append[OF reads_white[OF assms(3), where F = UNIV] this] v(1) show ?thesis by simp
qed

lemma reads_behind_element:
  assumes "vs \<noteq> []"
  shows "reads D token_chars (behind_element m st vs below) [] (tok_at m st (before state_array_sep (J_array vs)) below)"
proof -
  have "butlast vs @ [last vs] = vs" using assms by simp
  then have "reads D token_chars (tok_at m st (before state_finish (last vs)) (lv state_array_add s (J_array (butlast vs)) None # below)) []
      (tok_at m st (before state_array_sep (J_array vs)) below)" for s
    using reads_pop_element[where vs = "butlast vs" and w = "last vs" and s = s] by simp
  then show ?thesis unfolding behind_element_def by (rule reads_ex)
qed

lemma reads_next_element:
  assumes "int (length below) < m - 1" "\<And>lev. value_reads D m st (lev # below) txt v" "vs \<noteq> []"
  shows "reads D value_end (behind_element m st vs below) (before_child level flags True @ txt) (behind_element m st (vs @ [v]) below)"
proof -
  have "reads D value_end (tok_at m st (before state_array_after_sep (J_array vs)) below) ((newline flags @ gap level flags) @ txt)
      (behind_element m st (vs @ [v]) below)"
    by (rule reads_element[OF _ assms(1) _ assms(2)]) simp_all
  then have "reads D value_end (behind_element m st vs below) ('','' @ (newline flags @ gap level flags) @ txt) (behind_element m st (vs @ [v]) below)"
    by (intro reads_Nil_append[OF reads_behind_element[OF assms(3)]] reads_then[OF reads_separator(1)]) simp_all
  then show ?thesis by (simp add: before_child_eq)
qed

lemma reads_elements:
  assumes "int (length below) < m - 1" "\<And>lev v. v \<in> set vs \<Longrightarrow> value_reads D m st (lev # below) (txt v) v" "done \<noteq> []"
  shows "reads D value_end (behind_element m st done below) (elements_text level flags True (map txt vs)) (behind_element m st (done @ vs) below)"
  using assms(2,3)
proof (induction vs arbitrary: "done")
  case Nil
  then show ?case by (simp add: reads_refl)
next
  case (Cons v vs)
  have 1: "reads D value_end (behind_element m st done below) (before_child level flags True @ txt v) (behind_element m st (done @ [v]) below)"
    using Cons.prems by (intro reads_next_element[OF assms(1)]) simp_all
  have 2: "reads D value_end (behind_element m st (done @ [v]) below) (elements_text level flags True (map txt vs))
      (behind_element m st (done @ v # vs) below)"
    using Cons.IH[of "done @ [v]"] Cons.prems by simp
  have "hd (elements_text level flags True (map txt vs)) \<in> value_end" if "elements_text level flags True (map txt vs) \<noteq> []"
    using that by (cases vs) (simp_all add: before_child_eq)
  from reads_append[OF 1 2 this] show ?case by simp
qed

lemma reads_array_end:
  assumes "vs \<noteq> []" "white ws"
  shows "reads D UNIV (behind_element m st vs below) (ws @ '']'') (tok_at m st (before state_finish (J_array vs)) below)"
proof -
  have "reads D UNIV (behind_element m st vs below) ws (behind_element m st vs below)"
    unfolding behind_element_def by (rule reads_ex, rule reads_mono[OF reads_white[OF assms(2)]]) auto
  from reads_then[OF this reads_Nil_append[OF reads_behind_element[OF assms(1)] reads_close(2)]] show ?thesis by simp
qed

lemma reads_array:
  assumes "vs \<noteq> [] \<Longrightarrow> int (length below) < m - 1" "\<And>lev v. v \<in> set vs \<Longrightarrow> value_reads D m st (lev # below) (txt v) v"
  shows "reads D UNIV (tok_at m st (before state_start J_null) below) (json_object_array_to_json_string (map txt vs) level flags)
    (tok_at m st (before state_finish (J_array vs)) below)"
proof (cases vs)
  case Nil
  have "reads D UNIV (tok_at m st (before state_start J_null) below) (''['' @ (newline flags @ closing False level flags) @ '']'')
      (tok_at m st (before state_finish (J_array [])) below)"
    by (intro reads_then[OF reads_bracket(2)] reads_then[OF reads_white] reads_close) simp_all
  then show ?thesis using Nil by (simp add: array_text_eq)
next
  case (Cons v us)
  let ?es = "elements_text level flags True (map txt us)" and ?cl = "closing True level flags @ '']''"
  have below: "int (length below) < m - 1" using assms(1) Cons by simp
  have 1: "reads D value_end (tok_at m st (before state_array (J_array [])) below) ((newline flags @ gap level flags) @ txt v)
      (behind_element m st [v] below)"
    using reads_element[of state_array below m "newline flags @ gap level flags" D st "txt v" v "[]"] assms(2)[of v] Cons below by simp
  have 2: "reads D value_end (behind_element m st [v] below) ?es (behind_element m st ([v] @ us) below)"
    using assms(2) Cons by (intro reads_elements[OF below]) simp_all
  have 3: "reads D UNIV (behind_element m st ([v] @ us) below) ?cl (tok_at m st (before state_finish (J_array ([v] @ us))) below)"
    by (intro reads_array_end) simp_all
  have c: "hd ?cl \<in> value_end" using hd_white_append[of "closing True level flags" "CHR '']''" "[]"] by simp
  have e: "hd (?es @ ?cl) \<in> value_end" using c by (cases us) (simp_all add: before_child_eq)
  have "reads D UNIV (behind_element m st [v] below) (?es @ ?cl) (tok_at m st (before state_finish (J_array ([v] @ us))) below)"
    by (rule reads_then_token[OF 2 3 _ c]) simp
  from reads_then[OF reads_bracket(2) reads_then_token[OF 1 this _ e]]
  show ?thesis using Cons by (simp add: array_text_eq before_child_eq)
qed

subsection \<open>Objects\<close>

text \<open>Behind a member: its value is still on a level of its own.\<close>

definition behind_member :: "int \<Rightarrow> bool \<Rightarrow> (string \<times> 'd json) list \<Rightarrow> 'd srec list \<Rightarrow> 'd tokener \<Rightarrow> bool" where
  "behind_member m st ms below = tok_at m st (before state_finish (snd (last ms)))
    (lv state_object_value_add state_object_value (J_object (butlast ms)) (Some (fst (last ms))) # below)"

definition member_text :: "32 word \<Rightarrow> string \<times> string \<Rightarrow> string" where
  "member_text flags member =
    ([QUOTE] @ json_escape_str (c_str (fst member)) @ [QUOTE]) @ '':'' @ (if spaced flags then '' '' else []) @ snd member"

lemma members_text_Cons:
  "members_text level flags had_children (member # members) =
    before_child level flags had_children @ member_text flags member @ members_text level flags True members"
  by (cases member) (simp add: member_text_def)

declare members_text.simps(2) [simp del]
declare members_text_Cons [simp]

lemma reads_member:
  assumes "s = state_object_field_start \<or> s = state_object_field_start_after_sep" "int (length below) < m - 1" "white ws"
    and "NUL \<notin> set k" "\<And>lev. value_reads D m st (lev # below) txt v"
  shows "reads D value_end (tok_at m st (before s (J_object ms)) below) (ws @ member_text flags (k, txt)) (behind_member m st (ms @ [(k, v)]) below)"
proof -
  let ?lev = "lv state_object_value_add state_object_value (J_object ms) (Some k)"
  have v: "txt \<noteq> []" "hd txt \<in> token_chars"
      "reads D value_end (tok_at m st (before state_start J_null) (?lev # below)) txt (tok_at m st (before state_finish v) (?lev # below))"
    using assms(5)[of ?lev] by (simp_all add: value_reads_def)
  have 1: "reads D value_end (tok_at m st (lv state_eatws state_object_value (J_object ms) (Some k)) below) txt (behind_member m st (ms @ [(k, v)]) below)"
    using reads_Nil_append[OF reads_push_value[OF assms(2)] v(3,1,2)] by (simp add: behind_member_def)
  have sp: "white (if spaced flags then '' '' else [])" by simp
  from reads_then[OF reads_white[OF assms(3)] reads_then[OF reads_key[OF assms(4,1)] reads_then[OF reads_colon reads_then[OF reads_white[OF sp] 1]]]]
  show ?thesis by (simp add: member_text_def)
qed

lemma reads_behind_member:
  assumes "ms \<noteq> []" "distinct (map fst ms)"
  shows "reads D token_chars (behind_member m st ms below) [] (tok_at m st (before state_object_sep (J_object ms)) below)"
proof -
  have e: "butlast ms @ [(fst (last ms), snd (last ms))] = ms" using assms(1) by simp
  have "fst (last ms) \<notin> fst ` set (butlast ms)"
    using assms by (cases ms rule: rev_cases) simp_all
  from reads_pop_value[OF this, where w = "snd (last ms)", unfolded e] show ?thesis by (simp add: behind_member_def)
qed

lemma reads_next_member:
  assumes "int (length below) < m - 1" "NUL \<notin> set k" "\<And>lev. value_reads D m st (lev # below) txt v" "ms \<noteq> []" "distinct (map fst ms)"
  shows "reads D value_end (behind_member m st ms below) (before_child level flags True @ member_text flags (k, txt))
    (behind_member m st (ms @ [(k, v)]) below)"
proof -
  have "reads D value_end (tok_at m st (before state_object_field_start_after_sep (J_object ms)) below)
      ((newline flags @ gap level flags) @ member_text flags (k, txt)) (behind_member m st (ms @ [(k, v)]) below)"
    by (rule reads_member[OF _ assms(1) _ assms(2,3)]) simp_all
  then have "reads D value_end (behind_member m st ms below) ('','' @ (newline flags @ gap level flags) @ member_text flags (k, txt))
      (behind_member m st (ms @ [(k, v)]) below)"
    by (intro reads_Nil_append[OF reads_behind_member[OF assms(4,5)]] reads_then[OF reads_separator(2)]) simp_all
  then show ?thesis by (simp add: before_child_eq)
qed

abbreviation member_texts :: "('d json \<Rightarrow> string) \<Rightarrow> (string \<times> 'd json) list \<Rightarrow> (string \<times> string) list" where
  "member_texts txt ms \<equiv> map (\<lambda>(k, v). (k, txt v)) ms"

lemma reads_members:
  assumes "int (length below) < m - 1" "\<And>lev k v. (k, v) \<in> set ms \<Longrightarrow> NUL \<notin> set k \<and> value_reads D m st (lev # below) (txt v) v"
    "done \<noteq> []" "distinct (map fst (done @ ms))"
  shows "reads D value_end (behind_member m st done below) (members_text level flags True (member_texts txt ms)) (behind_member m st (done @ ms) below)"
  using assms(2-4)
proof (induction ms arbitrary: "done")
  case Nil
  then show ?case by (simp add: reads_refl)
next
  case (Cons e ms)
  obtain k v where e: "e = (k, v)" by (cases e)
  let ?rest = "members_text level flags True (member_texts txt ms)"
  have 1: "reads D value_end (behind_member m st done below) (before_child level flags True @ member_text flags (k, txt v)) (behind_member m st (done @ [e]) below)"
    using Cons.prems e by (auto intro!: reads_next_member[OF assms(1)])
  have each: "NUL \<notin> set k \<and> value_reads D m st (lev # below) (txt v) v" if "(k, v) \<in> set ms" for lev k v
    using that by (intro Cons.prems(1)) simp
  have 2: "reads D value_end (behind_member m st (done @ [e]) below) ?rest (behind_member m st (done @ e # ms) below)"
    using Cons.IH[of "done @ [e]", OF each] Cons.prems(2,3) by simp
  have "hd ?rest \<in> value_end" if "?rest \<noteq> []"
    using that by (cases ms) (auto simp: before_child_eq)
  from reads_append[OF 1 2 this] show ?case using e by simp
qed

lemma reads_object_end:
  assumes "ms \<noteq> []" "distinct (map fst ms)" "white ws"
  shows "reads D UNIV (behind_member m st ms below) (ws @ ''}'') (tok_at m st (before state_finish (J_object ms)) below)"
proof -
  have "reads D UNIV (behind_member m st ms below) ws (behind_member m st ms below)"
    unfolding behind_member_def by (rule reads_white[OF assms(3)])
  from reads_then[OF this reads_Nil_append[OF reads_behind_member[OF assms(1,2)] reads_close(4)]] show ?thesis by simp
qed

lemma reads_object:
  assumes "ms \<noteq> [] \<Longrightarrow> int (length below) < m - 1" "distinct (map fst ms)"
    and "\<And>lev k v. (k, v) \<in> set ms \<Longrightarrow> NUL \<notin> set k \<and> value_reads D m st (lev # below) (txt v) v"
  shows "reads D UNIV (tok_at m st (before state_start J_null) below) (json_object_object_to_json_string (member_texts txt ms) level flags)
    (tok_at m st (before state_finish (J_object ms)) below)"
proof (cases ms)
  case Nil
  have "reads D UNIV (tok_at m st (before state_start J_null) below) (''{'' @ (newline flags @ closing False level flags) @ ''}'')
      (tok_at m st (before state_finish (J_object [])) below)"
    by (intro reads_then[OF reads_bracket(1)] reads_then[OF reads_white] reads_close) simp_all
  then show ?thesis using Nil by (simp add: object_text_eq)
next
  case (Cons e us)
  obtain k v where e: "e = (k, v)" by (cases e)
  let ?es = "members_text level flags True (member_texts txt us)" and ?cl = "closing True level flags @ ''}''"
  have below: "int (length below) < m - 1" using assms(1) Cons by simp
  have each: "NUL \<notin> set k \<and> value_reads D m st (lev # below) (txt v) v" if "(k, v) \<in> set us" for lev k v
    using that Cons by (intro assms(3)) simp
  have 1: "reads D value_end (tok_at m st (before state_object_field_start (J_object [])) below)
      ((newline flags @ gap level flags) @ member_text flags (k, txt v)) (behind_member m st ([] @ [(k, v)]) below)"
    using assms(3)[of k v] Cons e by (intro reads_member[OF _ below]) simp_all
  have 2: "reads D value_end (behind_member m st [e] below) ?es (behind_member m st ([e] @ us) below)"
    using assms(2) Cons each by (intro reads_members[OF below]) simp_all
  have 3: "reads D UNIV (behind_member m st ([e] @ us) below) ?cl (tok_at m st (before state_finish (J_object ([e] @ us))) below)"
    using assms(2) Cons by (intro reads_object_end) simp_all
  have c: "hd ?cl \<in> value_end" using hd_white_append[of "closing True level flags" "CHR ''}''" "[]"] by simp
  have h: "hd (?es @ ?cl) \<in> value_end" using c by (cases us) (auto simp: before_child_eq)
  have "reads D UNIV (behind_member m st [e] below) (?es @ ?cl) (tok_at m st (before state_finish (J_object ([e] @ us))) below)"
    by (rule reads_then_token[OF 2 3 _ c]) simp
  from reads_then[OF reads_bracket(1) reads_then_token[OF 1[unfolded append_Nil] this[unfolded e] _ h]]
  show ?thesis using Cons e by (simp add: object_text_eq before_child_eq)
qed

subsection \<open>All values\<close>

lemma value_reads_scalar:
  assumes "json_readable D v" "reads D F (tok_at m st (before state_start J_null) below) (to_json_string D v level flags) (tok_at m st (before state_finish v) below)"
    "value_end \<subseteq> F"
  shows "value_reads D m st below (to_json_string D v level flags) v"
  using hd_value[OF assms(1), of level flags] reads_mono[OF assms(2) _ _ assms(3)] by (simp add: value_reads_def)

lemma reads_value:
  "json_readable D v \<Longrightarrow> int (length below + json_depth v) \<le> m \<Longrightarrow> value_reads D m st below (to_json_string D v level flags) v"
proof (induction D v level flags arbitrary: below rule: to_json_string.induct)
  case (1 D level flags)
  then show ?case using reads_name[of state_null "''null''" J_null D] by (intro value_reads_scalar[where F = UNIV]) (simp_all add: spelled_def)
next
  case (2 D b level flags)
  then show ?case
    using reads_name[of state_boolean "''true''" "J_boolean True" D] reads_name[of state_boolean "''false''" "J_boolean False" D]
    by (intro value_reads_scalar[where F = UNIV]) (simp_all add: spelled_def json_object_boolean_to_json_string_def)
next
  case (3 D d level flags)
  then show ?case by simp
next
  case (4 D d ds level flags)
  then have ds: "double_text D d ds" by simp
  then have "c_str ds = ds" using number_chars by (intro c_str_no_NUL) (auto simp: double_text_def)
  then have "reads D value_end (tok_at m st (before state_start J_null) below) (to_json_string D (J_double d (Some ds)) level flags)
      (tok_at m st (before state_finish (J_double d (Some ds))) below)"
    using reads_number[OF number_reads_double[OF ds]] by (simp add: value_end_def json_object_userdata_to_json_string_def)
  then show ?case by (rule value_reads_scalar[OF 4(1)]) simp
next
  case (5 D i level flags)
  have "reads D value_end (tok_at m st (before state_start J_null) below) (to_json_string D (J_int i) level flags)
      (tok_at m st (before state_finish (J_int i)) below)"
    using reads_number[OF number_reads_int] by (simp add: value_end_def json_object_int_to_json_string_def)
  then show ?case by (rule value_reads_scalar[OF 5(1)]) simp
next
  case (6 D ms level flags)
  let ?txt = "\<lambda>v. to_json_string D v (level + 1) flags"
  have each: "NUL \<notin> set k \<and> value_reads D m st (lev # below) (?txt v) v" if "(k, v) \<in> set ms" for lev k v
    using 6(1)[OF that refl, of "lev # below"] 6(2,3) json_depth_member[OF that] that by fastforce
  have "int (length below) < m - 1" if "ms \<noteq> []"
    using that 6(3) json_depth_member[of "fst (hd ms)" "snd (hd ms)" ms] by (cases ms; cases "snd (hd ms)") auto
  then have "reads D UNIV (tok_at m st (before state_start J_null) below) (to_json_string D (J_object ms) level flags)
      (tok_at m st (before state_finish (J_object ms)) below)"
    using reads_object[OF _ _ each, where level = level and flags = flags] 6(2) by simp
  then show ?case by (rule value_reads_scalar[OF 6(2)]) simp
next
  case (7 D vs level flags)
  let ?txt = "\<lambda>v. to_json_string D v (level + 1) flags"
  have each: "value_reads D m st (lev # below) (?txt v) v" if "v \<in> set vs" for lev v
    using 7(1)[OF that, of "lev # below"] 7(2,3) json_depth_element[OF that] that by fastforce
  have "int (length below) < m - 1" if "vs \<noteq> []"
    using that 7(3) by (cases vs; cases "hd vs") auto
  then have "reads D UNIV (tok_at m st (before state_start J_null) below) (to_json_string D (J_array vs) level flags)
      (tok_at m st (before state_finish (J_array vs)) below)"
    using reads_array[OF _ each, where level = level and flags = flags] by simp
  then show ?case by (rule value_reads_scalar[OF 7(2)]) simp
next
  case (8 D s level flags)
  show ?case using reads_string by (intro value_reads_scalar[OF 8(1), where F = UNIV]) simp_all
qed

text \<open>No null character within the text.\<close>

lemma NUL_white: "white ws \<Longrightarrow> NUL \<notin> set ws"
proof
  assume "white ws" "NUL \<in> set ws"
  then have "NUL = SPC \<or> NUL = NL" by (simp only: white_def)
  then show False by simp
qed

lemma NUL_before_child [simp]: "NUL \<notin> set (before_child level flags b)"
  using NUL_white[of "newline flags @ gap level flags"] by (simp add: before_child_eq)

lemma NUL_elements_text: "(\<And>e. e \<in> set es \<Longrightarrow> NUL \<notin> set e) \<Longrightarrow> NUL \<notin> set (elements_text level flags b es)"
  by (induction es arbitrary: b) auto

lemma NUL_members_text: "(\<And>e. e \<in> snd ` set es \<Longrightarrow> NUL \<notin> set e) \<Longrightarrow> NUL \<notin> set (members_text level flags b es)"
  by (induction es arbitrary: b) (auto simp: member_text_def json_escape_str_eq)

lemma NUL_text: "json_readable D v \<Longrightarrow> NUL \<notin> set (to_json_string D v level flags)"
proof (induction D v level flags rule: to_json_string.induct)
  case (5 D i level flags)
  then show ?case using show_int_facts(2)[of "sint i"] number_chars by (auto simp: json_object_int_to_json_string_def)
next
  case (6 D ms level flags)
  let ?es = "member_texts (\<lambda>v. to_json_string D v (level + 1) flags) ms"
  have "NUL \<notin> set e" if "e \<in> snd ` set ?es" for e using that 6 by fastforce
  then have "NUL \<notin> set (members_text level flags False ?es)" by (rule NUL_members_text)
  then show ?case
    using NUL_white[of "newline flags"] NUL_white[OF white_closing, of _ level flags] by (simp add: object_text_eq)
next
  case (7 D vs level flags)
  let ?es = "map (\<lambda>v. to_json_string D v (level + 1) flags) vs"
  have "NUL \<notin> set e" if "e \<in> set ?es" for e using that 7 by auto
  then have "NUL \<notin> set (elements_text level flags False ?es)" by (rule NUL_elements_text)
  then show ?case
    using NUL_white[of "newline flags"] NUL_white[OF white_closing, of _ level flags] by (simp add: array_text_eq)
qed (auto simp: json_object_boolean_to_json_string_def json_object_userdata_to_json_string_def json_object_string_to_json_string_def
    json_escape_str_eq)

text \<open>The end of the text.\<close>

lemma loop_end:
  assumes "tok_at m st (before state_finish v) [] tok"
  shows "tok_loop D scan b tok obj c [NUL] = Some (set_state state_finish tok, NUL)"
proof -
  have 1: "tok_step D scan b tok obj [NUL] = Some (Redo (set_state state_finish tok) obj [NUL])"
    using assms step_eatws_token[of tok "[NUL]" D scan b obj] by (simp add: tok_at_def)
  have 2: "tok_step D scan b (set_state state_finish tok) obj [NUL] = Some (Out (set_state state_finish tok) NUL)"
    using assms by (simp add: tok_step_def tok_at_def step_finish_def)
  show ?thesis using loop_redo[OF 1, of c] by (simp, subst tok_loop.simps) (simp add: 2)
qed

lemma text_ext_eq:
  assumes "json_readable D v"
  shows "json_object_to_json_string_ext D v flags = to_json_string D v 0 flags"
  using NUL_text[OF assms] by (simp add: json_object_to_json_string_ext_def c_str_no_NUL)

lemma json_text_parsed:
  assumes "json_readable D v" "int (json_depth v) \<le> tk_max_depth tok" "tk_top tok = json_tokener_reset_level" "tk_below tok = []"
    and "int (length (json_object_to_json_string_ext D v flags)) < 2 ^ 31"
  shows "\<exists>tok'. json_tokener_parse_ex D sscanf_int64 tok (json_object_to_json_string_ext D v flags) (- 1) = Some (tok', v) \<and>
    tk_err tok' = json_tokener_success \<and> tk_top tok' = json_tokener_reset_level \<and> tk_below tok' = [] \<and>
    tk_max_depth tok' = tk_max_depth tok \<and> tk_strict tok' = tk_strict tok"
proof -
  let ?txt = "json_object_to_json_string_ext D v flags" and ?tok = "tok\<lparr>tk_offset := 0, tk_err := json_tokener_success\<rparr>"
  have out: "?txt = to_json_string D v 0 flags" by (rule text_ext_eq[OF assms(1)])
  then have c: "c_str ?txt = ?txt" using NUL_text[OF assms(1)] by (simp add: c_str_no_NUL)
  have "tok_at (tk_max_depth tok) (tk_strict tok) (before state_start J_null) [] ?tok"
    using assms(3,4) by (simp add: tok_at_def json_tokener_reset_level_def)
  moreover have "reads D value_end (tok_at (tk_max_depth tok) (tk_strict tok) (before state_start J_null) []) ?txt
      (tok_at (tk_max_depth tok) (tk_strict tok) (before state_finish v) [])"
    using reads_value[OF assms(1), of "[]" "tk_max_depth tok" "tk_strict tok" 0 flags] assms(2) out by (simp add: value_reads_def)
  ultimately obtain tok1 obj1 c1 where 1: "tok_at (tk_max_depth tok) (tk_strict tok) (before state_finish v) [] tok1"
      "tok_loop D sscanf_int64 False ?tok J_null (CHR 0x01) (?txt @ [NUL]) = tok_loop D sscanf_int64 False tok1 obj1 c1 [NUL]"
    using readsE[where t = "[NUL]" and obj = J_null and c = "CHR 0x01"] value_end(6) list.sel(1) not_Cons_self2 by metis
  have "tok_loop D sscanf_int64 False ?tok J_null (CHR 0x01) (?txt @ [NUL]) = Some (set_state state_finish tok1, NUL)"
    unfolding 1(2) by (rule loop_end[OF 1(1)])
  then show ?thesis
    using 1(1) assms(5) c by (simp add: json_tokener_parse_ex_def tok_out_def tok_at_def strlen_def)
qed

text \<open>
  C3. The text of a value, with any flags, is parsed back to the value, in strict mode or not, by any
  tokener that has no value under way and as many levels as the value; it then has no value under way
  again. This is for values whose objects have distinct keys without null characters, whose doubles all
  carry the text they were read from (digits with a point or an exponent, which \<open>sscanf\<close> reads as the double),
  and whose text is shorter than $2^{31}$. A double without such a text is printed by its value and comes
  back with a text, so it is not among them.
\<close>
theorem json_text_roundtrip:
  assumes "json_readable D v" "int (json_depth v) \<le> tk_max_depth tok" "tk_top tok = json_tokener_reset_level" "tk_below tok = []"
    and "int (length (json_object_to_json_string_ext D v flags)) < 2 ^ 31"
  shows "\<exists>tok'. json_tokener_parse_ex D sscanf_int64 tok (json_object_to_json_string_ext D v flags) (- 1) = Some (tok', v) \<and>
    tk_err tok' = json_tokener_success \<and> tk_top tok' = json_tokener_reset_level \<and> tk_below tok' = [] \<and>
    tk_max_depth tok' = tk_max_depth tok \<and> tk_strict tok' = tk_strict tok"
  using assms by (rule json_text_parsed)

text \<open>Doubles as the texts that are read as them.\<close>

definition text_double :: "string c_double" where
  "text_double = \<lparr>d_isnan = (\<lambda>d. d = ''NaN''), d_isinf = (\<lambda>d. d = ''Infinity'' \<or> d = ''-Infinity''), d_positive = (\<lambda>d. hd d \<noteq> CHR ''-''),
     d_zero = (\<lambda>d. d = ''0.0''), d_format17 = (\<lambda>d. d), d_scan = Some, d_to_int64 = (\<lambda>d. 0), d_to_int32 = (\<lambda>d. 0),
     d_NAN = ''NaN'', d_INFINITY = ''Infinity'', d_NEG_INFINITY = ''-Infinity''\<rparr>"

definition sample_value :: "string json" where
  "sample_value = J_object [(''a'', J_array [J_int (- 12), J_null, J_boolean False]), (''b/'', J_string [CHR ''x'', NUL, QUOTE]), (''c'', J_double ''1.5'' (Some ''1.5''))]"

lemma sample_value_text:
  "json_object_to_json_string_ext text_double sample_value 1 =
     ''{ '' @ [QUOTE] @ ''a'' @ [QUOTE] @ '': [ -12, null, false ], '' @ [QUOTE] @ ''b'' @ [BSL] @ ''/'' @ [QUOTE] @ '': '' @
     [QUOTE] @ ''x'' @ [BSL] @ ''u0000'' @ [BSL, QUOTE, QUOTE] @ '', '' @ [QUOTE] @ ''c'' @ [QUOTE] @ '': 1.5 }''"
  by code_simp

theorem json_text_roundtrip_witness:
  "\<exists>tok'. json_tokener_parse_ex text_double sscanf_int64 (json_tokener_new_ex 3)
      (json_object_to_json_string_ext text_double sample_value 1) (- 1) = Some (tok', sample_value) \<and>
    tk_err tok' = json_tokener_success \<and> tk_top tok' = json_tokener_reset_level \<and> tk_below tok' = [] \<and>
    tk_max_depth tok' = tk_max_depth (json_tokener_new_ex 3 :: string tokener) \<and> tk_strict tok' = tk_strict (json_tokener_new_ex 3 :: string tokener)"
proof (rule json_text_roundtrip)
  show "json_readable text_double sample_value" by code_simp
  show "int (json_depth sample_value) \<le> tk_max_depth (json_tokener_new_ex 3 :: string tokener)" by code_simp
  show "int (length (json_object_to_json_string_ext text_double sample_value 1)) < 2 ^ 31" unfolding sample_value_text by simp
qed (simp_all add: json_tokener_new_ex_def)

end
