(* ===== verification/Json_Safety.thy ===== *)
theory Json_Safety
  imports Json_Roundtrip
begin

text \<open>
  The parser on any text: an invariant of the tokener (the kind of value under way on each level, the
  depth of the stack), kept by every round, and a rank that falls while the same character is parsed
  again. So the parser returns, and what it returns is well formed and no deeper than the stack.
\<close>

section \<open>The invariant\<close>

fun json_ok :: "'d json \<Rightarrow> bool" where
  "json_ok (J_object ms) = (distinct (map fst ms) \<and> (\<forall>(k, v) \<in> set ms. NUL \<notin> set k \<and> json_ok v))"
| "json_ok (J_array vs) = (\<forall>v \<in> set vs. json_ok v)"
| "json_ok _ = True"

definition array_states :: "json_tokener_state set" where
  "array_states = {state_array, state_array_add, state_array_sep, state_array_after_sep}"

definition field_states :: "json_tokener_state set" where
  "field_states = {state_object_field_end, state_object_value, state_object_value_add}"

definition object_states :: "json_tokener_state set" where
  "object_states = field_states \<union> {state_object_field_start, state_object_field_start_after_sep, state_object_field, state_object_sep}"

definition add_states :: "json_tokener_state set" where
  "add_states = {state_array_add, state_object_value_add}"

text \<open>States that come back to the saved one: behind white space and comments, and behind an escape.\<close>

definition ws_states :: "json_tokener_state set" where
  "ws_states = {state_eatws, state_comment_start, state_comment, state_comment_eol, state_comment_end}"

definition escape_states :: "json_tokener_state set" where
  "escape_states = {state_string_escape, state_escape_unicode}"

definition ws_targets :: "json_tokener_state set" where
  "ws_targets = {state_start, state_finish, state_array, state_array_after_sep, state_array_sep, state_object_field_start,
     state_object_field_start_after_sep, state_object_field_end, state_object_value, state_object_sep}"

definition escape_targets :: "json_tokener_state set" where
  "escape_targets = {state_string, state_object_field}"

lemmas state_sets = array_states_def field_states_def object_states_def add_states_def ws_states_def escape_states_def
  ws_targets_def escape_targets_def

definition main_state :: "'d srec \<Rightarrow> json_tokener_state" where
  "main_state l = (if s_state l \<in> ws_states \<union> escape_states then s_saved l else s_state l)"

definition kind_ok :: "json_tokener_state \<Rightarrow> 'd json \<Rightarrow> string option \<Rightarrow> bool" where
  "kind_ok s v f \<longleftrightarrow> (s \<in> array_states \<longrightarrow> (\<exists>vs. v = J_array vs)) \<and> (s \<in> object_states \<longrightarrow> (\<exists>ms. v = J_object ms)) \<and>
    (s \<in> field_states \<longrightarrow> f \<noteq> None)"

definition level_ok :: "int \<Rightarrow> nat \<Rightarrow> 'd srec \<Rightarrow> bool" where
  "level_ok m k l \<longleftrightarrow> json_ok (s_current l) \<and> int (json_depth (s_current l)) + int k \<le> m \<and> (\<forall>key. s_field l = Some key \<longrightarrow> NUL \<notin> set key) \<and>
    kind_ok (main_state l) (s_current l) (s_field l) \<and> (s_state l \<in> ws_states \<longrightarrow> s_saved l \<in> ws_targets) \<and>
    (s_state l \<in> escape_states \<longrightarrow> s_saved l \<in> escape_targets)"

fun levels_ok :: "int \<Rightarrow> 'd srec list \<Rightarrow> bool" where
  "levels_ok m [] \<longleftrightarrow> True"
| "levels_ok m (l # ls) \<longleftrightarrow> level_ok m (length ls) l \<and> s_state l \<in> add_states \<and> levels_ok m ls"

definition tok_inv :: "int \<Rightarrow> 'd tokener \<Rightarrow> 'd json \<Rightarrow> bool" where
  "tok_inv m tok obj \<longleftrightarrow> tk_max_depth tok = m \<and> int (length (tk_below tok)) < m \<and>
    level_ok m (length (tk_below tok)) (tk_top tok) \<and> levels_ok m (tk_below tok) \<and>
    (s_state (tk_top tok) \<in> add_states \<longrightarrow> json_ok obj \<and> int (json_depth obj) + int (length (tk_below tok)) < m)"

text \<open>The text from a character on, in the whole: behind a backslash, or a backslash and \<open>u\<close>, in the states of an escape.\<close>

definition at_text :: "string \<Rightarrow> 'd tokener \<Rightarrow> string \<Rightarrow> bool" where
  "at_text whole tok rest \<longleftrightarrow> (\<exists>pre. whole = pre @ rest \<and>
    (s_state (tk_top tok) = state_string_escape \<longrightarrow> pre \<noteq> [] \<and> last pre = BSL) \<and>
    (s_state (tk_top tok) = state_escape_unicode \<longrightarrow> tk_st_pos tok = 0 \<and> (\<exists>p. pre = p @ [BSL, CHR ''u''])))"

definition inv :: "int \<Rightarrow> string \<Rightarrow> 'd tokener \<Rightarrow> 'd json \<Rightarrow> string \<Rightarrow> bool" where
  "inv m whole tok obj rest \<longleftrightarrow> tok_inv m tok obj \<and> at_text whole tok rest"

fun state_rank :: "json_tokener_state \<Rightarrow> nat" where
  "state_rank state_array = 9" | "state_rank state_array_after_sep = 9" | "state_rank state_object_value = 9"
| "state_rank state_start = 7" | "state_rank state_number = 6" | "state_rank state_inf = 5" | "state_rank state_null = 5"
| "state_rank state_boolean = 5" | "state_rank state_finish = 3" | "state_rank state_array_add = 2"
| "state_rank state_object_value_add = 2" | "state_rank _ = 0"

definition rank :: "'d tokener \<Rightarrow> nat" where
  "rank tok = (if s_state (tk_top tok) = state_eatws then state_rank (s_saved (tk_top tok)) + 1 else state_rank (s_state (tk_top tok)))"

text \<open>What a round does, on a text of \<open>n\<close> characters in a state of rank \<open>r\<close>.\<close>

definition good :: "int \<Rightarrow> string \<Rightarrow> string \<Rightarrow> nat \<Rightarrow> 'd action \<Rightarrow> bool" where
  "good m whole rest r a \<longleftrightarrow> (case a of
      Out tok c \<Rightarrow> json_ok (s_current (tk_top tok)) \<and> int (json_depth (s_current (tk_top tok))) \<le> m
    | Redo tok obj rest' \<Rightarrow> rest' \<noteq> [] \<and> inv m whole tok obj rest' \<and> (length rest' < length rest \<or> rest' = rest \<and> rank tok < r)
    | Advance tok obj rest' \<Rightarrow> rest' \<noteq> [] \<and> length rest' \<le> length rest \<and> inv m whole tok obj (tl rest'))"

section \<open>Rounds\<close>

lemma good_Out: "tok_inv m tok obj \<Longrightarrow> s_current (tk_top tok') = s_current (tk_top tok) \<Longrightarrow> good m whole rest r (Out tok' c)"
  by (auto simp: good_def tok_inv_def level_ok_def)

lemma good_fail: "tok_inv m tok obj \<Longrightarrow> s_current (tk_top tok') = s_current (tk_top tok) \<Longrightarrow> good m whole rest r (fail_out e tok' c)"
  by (auto simp: fail_out_def intro: good_Out)

lemma good_if: "(b \<Longrightarrow> good m whole rest r x) \<Longrightarrow> (\<not> b \<Longrightarrow> good m whole rest r y) \<Longrightarrow> good m whole rest r (if b then x else y)"
  by simp

lemma good_options:
  "(\<And>n. good m whole rest r (f n)) \<Longrightarrow> (\<And>d. good m whole rest r (g d)) \<Longrightarrow> good m whole rest r h \<Longrightarrow>
    good m whole rest r (case (a, b) of (Some n, _) \<Rightarrow> f n | (None, Some d) \<Rightarrow> g d | (None, None) \<Rightarrow> h)"
  by (auto split: option.split)

lemma at_text_later:
  assumes "at_text whole tok (xs @ t)" "s_state (tk_top tok') \<noteq> state_escape_unicode"
    and "s_state (tk_top tok') = state_string_escape \<Longrightarrow> xs \<noteq> [] \<and> last xs = BSL"
  shows "at_text whole tok' t"
proof -
  obtain pre where "whole = pre @ xs @ t" using assms(1) by (auto simp: at_text_def)
  then show ?thesis using assms(2,3) unfolding at_text_def by (intro exI[of _ "pre @ xs"]) auto
qed

text \<open>Behind \<open>xs\<close>: the round goes on to the next character, or parses this one again.\<close>

lemma good_Advance:
  assumes "inv m whole tok0 obj0 rest" "rest = xs @ t" "t \<noteq> []" "tok_inv m tok obj"
    "s_state (tk_top tok) \<noteq> state_escape_unicode" "s_state (tk_top tok) = state_string_escape \<Longrightarrow> hd t = BSL"
  shows "good m whole rest r (Advance tok obj t)"
proof -
  have "at_text whole tok0 ((xs @ [hd t]) @ tl t)" using assms(1-3) by (simp add: inv_def)
  then have "at_text whole tok (tl t)" by (rule at_text_later) (use assms(5,6) in auto)
  then show ?thesis using assms(2-4) by (simp add: good_def inv_def)
qed

lemma good_Redo:
  assumes "inv m whole tok0 obj0 rest" "rest = xs @ t" "t \<noteq> []" "tok_inv m tok obj" "s_state (tk_top tok) \<notin> escape_states" "rank tok < r"
  shows "good m whole rest r (Redo tok obj t)"
proof -
  have "at_text whole tok t" using assms(1,2,5) by (intro at_text_later[of whole tok0 xs t tok]) (auto simp: inv_def escape_states_def)
  then show ?thesis using assms(2-6) by (cases xs) (simp_all add: good_def inv_def)
qed

lemma good_Advance_here:
  assumes "inv m whole tok0 obj0 rest" "rest \<noteq> []" "tok_inv m tok obj"
    "s_state (tk_top tok) \<noteq> state_escape_unicode" "s_state (tk_top tok) = state_string_escape \<Longrightarrow> hd rest = BSL"
  shows "good m whole rest r (Advance tok obj rest)"
  by (rule good_Advance[OF assms(1) _ assms(2-5), of "[]"]) simp_all

lemma good_Redo_here:
  assumes "inv m whole tok0 obj0 rest" "rest \<noteq> []" "tok_inv m tok obj" "s_state (tk_top tok) \<notin> escape_states" "rank tok < r"
  shows "good m whole rest r (Redo tok obj rest)"
  by (rule good_Redo[OF assms(1) _ assms(2-5), of "[]"]) simp

lemmas level_defs = level_ok_def main_state_def kind_ok_def state_sets

lemma tok_inv_top:
  "tok_inv m tok obj \<Longrightarrow> tk_max_depth tok' = tk_max_depth tok \<Longrightarrow> tk_below tok' = tk_below tok \<Longrightarrow>
    level_ok m (length (tk_below tok)) (tk_top tok') \<Longrightarrow> s_state (tk_top tok') \<notin> add_states \<Longrightarrow> tok_inv m tok' obj'"
  by (simp add: tok_inv_def)

lemma read_while_good:
  assumes "tok_inv m tok obj" "rest \<noteq> []"
    and "\<And>xs t. rest = xs @ t \<Longrightarrow> t \<noteq> [] \<Longrightarrow> \<not> p (hd t) \<Longrightarrow> good m whole rest r (k (skip (length xs) (append_pb xs tok)) t)"
  shows "good m whole rest r (read_while p k tok rest)"
proof -
  let ?q = "\<lambda>c. p c \<and> c \<noteq> NUL"
  show ?thesis
  proof (cases "dropWhile ?q rest")
    case Nil
    then show ?thesis unfolding read_while_def Let_def Nil by (simp add: good_Out[OF assms(1)] peek_end_def)
  next
    case (Cons c cs)
    then have "rest = takeWhile ?q rest @ c # cs" by (metis takeWhile_dropWhile_id)
    from assms(3)[OF this]
    have "good m whole rest r (k (skip (length (takeWhile ?q rest)) (append_pb (takeWhile ?q rest) tok)) (c # cs))" if "\<not> p c"
      using that by (simp only: list.sel) simp
    then show ?thesis unfolding read_while_def Let_def Cons by (simp add: good_Out[OF assms(1)])
  qed
qed

text \<open>The steps that go on with the level under way: none but the closing brackets.\<close>

lemma level_steps_good:
  assumes "inv m whole tok obj rest" "rest \<noteq> []"
  shows "s_state (tk_top tok) = state_start \<Longrightarrow> good m whole rest 7 (step_start tok obj rest)"
    and "s_state (tk_top tok) = state_comment_start \<Longrightarrow> good m whole rest r (step_comment_start tok obj rest)"
    and "s_state (tk_top tok) = state_comment_end \<Longrightarrow> good m whole rest r (step_comment_end tok obj rest)"
    and "s_state (tk_top tok) = state_array_sep \<Longrightarrow> good m whole rest r (step_array_sep tok obj rest)"
    and "s_state (tk_top tok) = state_object_field_end \<Longrightarrow> good m whole rest r (step_object_field_end tok obj rest)"
    and "s_state (tk_top tok) = state_object_sep \<Longrightarrow> good m whole rest r (step_object_sep tok obj rest)"
    and "s_state (tk_top tok) = state_inf \<Longrightarrow> good m whole rest 5 (step_inf D tok obj rest)"
    and "s_state (tk_top tok) = state_null \<Longrightarrow> good m whole rest 5 (step_null D tok obj rest)"
    and "s_state (tk_top tok) = state_boolean \<Longrightarrow> good m whole rest 5 (step_boolean tok obj rest)"
    and "s_state (tk_top tok) \<in> {state_object_field_start, state_object_field_start_after_sep} \<Longrightarrow>
      good m whole rest r (step_object_field_start after tok obj rest)"
proof -
  have i: "tok_inv m tok obj" using assms(1) by (simp add: inv_def)
  then have lev: "level_ok m (length (tk_below tok)) (tk_top tok)" "1 + int (length (tk_below tok)) \<le> m" by (simp_all add: tok_inv_def)
  note go = good_if good_Advance_here[OF assms] good_Redo_here[OF assms] tok_inv_top[OF i] good_fail[OF i] good_Out[OF i]
  show "good m whole rest 7 (step_start tok obj rest)" if s: "s_state (tk_top tok) = state_start"
    unfolding step_start_def Let_def by (intro go) (insert lev s, simp_all add: rank_def level_defs set_defs)
  show "good m whole rest r (step_comment_start tok obj rest)" if s: "s_state (tk_top tok) = state_comment_start"
    unfolding step_comment_start_def Let_def by (intro go) (insert lev s, simp_all add: rank_def level_defs set_defs)
  show "good m whole rest r (step_comment_end tok obj rest)" if s: "s_state (tk_top tok) = state_comment_end"
    unfolding step_comment_end_def Let_def by (intro go) (insert lev s, simp_all add: rank_def level_defs set_defs split: if_splits)
  show "good m whole rest r (step_array_sep tok obj rest)" if s: "s_state (tk_top tok) = state_array_sep"
    unfolding step_array_sep_def Let_def by (intro go) (insert lev s, simp_all add: rank_def level_defs set_defs)
  show "good m whole rest r (step_object_field_end tok obj rest)" if s: "s_state (tk_top tok) = state_object_field_end"
    unfolding step_object_field_end_def Let_def by (intro go) (insert lev s, simp_all add: rank_def level_defs set_defs)
  show "good m whole rest r (step_object_sep tok obj rest)" if s: "s_state (tk_top tok) = state_object_sep"
    unfolding step_object_sep_def Let_def by (intro go) (insert lev s, simp_all add: rank_def level_defs set_defs)
  show "good m whole rest 5 (step_inf D tok obj rest)" if s: "s_state (tk_top tok) = state_inf"
    unfolding step_inf_def Let_def by (intro go) (insert lev s, simp_all add: rank_def level_defs set_defs)
  show "good m whole rest 5 (step_null D tok obj rest)" if s: "s_state (tk_top tok) = state_null"
    unfolding step_null_def Let_def by (intro go) (insert lev s, simp_all add: rank_def level_defs set_defs)
  show "good m whole rest 5 (step_boolean tok obj rest)" if s: "s_state (tk_top tok) = state_boolean"
    unfolding step_boolean_def Let_def by (intro go) (insert lev s, simp_all add: rank_def level_defs set_defs)
  show "good m whole rest r (step_object_field_start after tok obj rest)" if s: "s_state (tk_top tok) \<in> {state_object_field_start, state_object_field_start_after_sep}"
    unfolding step_object_field_start_def Let_def using s by (intro go; elim insertE emptyE) (insert lev, simp_all add: rank_def level_defs set_defs)
qed

text \<open>Steps that read a run of characters.\<close>

lemma run_steps_good:
  assumes "inv m whole tok obj rest" "rest \<noteq> []"
  shows "s_state (tk_top tok) = state_comment \<Longrightarrow> good m whole rest r (step_comment tok obj rest)"
    and "s_state (tk_top tok) = state_comment_eol \<Longrightarrow> good m whole rest r (step_comment_eol tok obj rest)"
    and "s_state (tk_top tok) = state_string \<Longrightarrow> good m whole rest r (step_string tok obj rest)"
    and "s_state (tk_top tok) = state_object_field \<Longrightarrow> good m whole rest r (step_object_field tok obj rest)"
    and "s_state (tk_top tok) = state_number \<Longrightarrow> good m whole rest 6 (step_number D scan tok obj rest)"
proof -
  have i: "tok_inv m tok obj" using assms(1) by (simp add: inv_def)
  then have lev: "level_ok m (length (tk_below tok)) (tk_top tok)" "1 + int (length (tk_below tok)) \<le> m" by (simp_all add: tok_inv_def)
  note go = good_if good_Advance[OF assms(1)] tok_inv_top[OF i]
  show "good m whole rest r (step_comment tok obj rest)" if s: "s_state (tk_top tok) = state_comment"
    unfolding step_comment_def by (intro read_while_good[OF i assms(2)] go) (insert lev s, simp_all add: level_defs)
  show "good m whole rest r (step_comment_eol tok obj rest)" if s: "s_state (tk_top tok) = state_comment_eol"
    unfolding step_comment_eol_def by (intro read_while_good[OF i assms(2)] go) (insert lev s, simp_all add: level_defs)
  show "good m whole rest r (step_string tok obj rest)" if s: "s_state (tk_top tok) = state_string"
    unfolding step_string_def by (intro read_while_good[OF i assms(2)] go) (insert lev s, simp_all add: level_defs set_defs)
  show "good m whole rest r (step_object_field tok obj rest)" if s: "s_state (tk_top tok) = state_object_field"
    unfolding step_object_field_def by (intro read_while_good[OF i assms(2)] go) (insert lev s, simp_all add: level_defs set_defs)
  show "good m whole rest 6 (step_number D scan tok obj rest)" if s: "s_state (tk_top tok) = state_number"
  proof (cases "dropWhile (\<lambda>c. c \<in> set json_number_chars) rest")
    case Nil
    then show ?thesis unfolding step_number_def Let_def Nil by (simp add: good_Out[OF i] peek_end_def)
  next
    case (Cons c cs)
    then have rest: "rest = takeWhile (\<lambda>c. c \<in> set json_number_chars) rest @ c # cs" by (metis takeWhile_dropWhile_id)
    show ?thesis unfolding step_number_def Let_def Cons list.case
      by (intro good_if good_options good_Redo[OF assms(1) rest] tok_inv_top[OF i] good_fail[OF i]) (insert lev s, simp_all add: level_defs set_defs rank_def)
  qed
qed

text \<open>White space, and the levels of the stack.\<close>

lemma ws_targets_disjoint: "s \<in> ws_targets \<Longrightarrow> s \<notin> ws_states \<and> s \<notin> escape_states \<and> s \<notin> add_states"
  by (auto simp: state_sets)

lemma level_ok_ws:
  assumes "level_ok m k l" "s_state l = state_eatws"
  shows "level_ok m k (l\<lparr>s_state := s_saved l\<rparr>)" "level_ok m k (l\<lparr>s_state := state_comment_start\<rparr>)" "s_saved l \<in> ws_targets"
proof -
  have ws: "state_eatws \<in> ws_states" "state_comment_start \<in> ws_states" "state_eatws \<notin> escape_states" "state_comment_start \<notin> escape_states"
    by (simp_all add: state_sets)
  then show sv: "s_saved l \<in> ws_targets" using assms by (simp add: level_ok_def)
  show "level_ok m k (l\<lparr>s_state := s_saved l\<rparr>)" "level_ok m k (l\<lparr>s_state := state_comment_start\<rparr>)"
    using assms ws ws_targets_disjoint[OF sv] sv by (simp_all add: level_ok_def main_state_def)
qed

lemma step_eatws_good:
  assumes "inv m whole tok obj rest" "rest \<noteq> []" "s_state (tk_top tok) = state_eatws"
  shows "good m whole rest (rank tok) (step_eatws tok obj rest)"
proof -
  have i: "tok_inv m tok obj" using assms(1) by (simp add: inv_def)
  then have lev: "level_ok m (length (tk_below tok)) (tk_top tok)" by (simp add: tok_inv_def)
  show ?thesis
  proof (cases "dropWhile isspace rest")
    case Nil
    then show ?thesis unfolding step_eatws_def Let_def Nil by (simp add: good_Out[OF i] peek_end_def)
  next
    case (Cons c cs)
    then have rest: "rest = takeWhile isspace rest @ c # cs" by (metis takeWhile_dropWhile_id)
    note sv = level_ok_ws[OF lev assms(3)]
    show ?thesis unfolding step_eatws_def Let_def Cons list.case
      by (intro good_if good_Advance[OF assms(1) rest] good_Redo[OF assms(1) rest] tok_inv_top[OF i])
        (insert assms(3) sv ws_targets_disjoint[OF sv(3)], simp_all add: rank_def add_states_def, simp add: ws_states_def)
  qed
qed

lemma step_finish_good:
  assumes "inv m whole tok obj rest" "rest \<noteq> []" "s_state (tk_top tok) = state_finish"
  shows "good m whole rest 3 (step_finish tok obj rest)"
proof (cases "tk_below tok")
  case Nil
  then show ?thesis using assms(1) good_Out[of m tok obj tok] by (simp add: step_finish_def inv_def)
next
  case (Cons l ls)
  let ?tok = "tok\<lparr>tk_top := l, tk_below := ls\<rparr>"
  have l: "s_state l \<in> add_states" using assms(1) Cons by (simp add: inv_def tok_inv_def)
  have "tok_inv m ?tok (s_current (tk_top tok))"
    using assms(1) Cons by (simp add: inv_def tok_inv_def level_ok_def)
  then show ?thesis using Cons l
    by (auto simp: step_finish_def add_states_def escape_states_def rank_def intro!: good_Redo_here[OF assms(1,2)])
qed

lemma push_level_good:
  assumes "inv m whole tok obj rest" "rest \<noteq> []" "s_state (tk_top tok) \<in> {state_array, state_array_after_sep} \<and> s = state_array_add \<or>
    s_state (tk_top tok) = state_object_value \<and> s = state_object_value_add"
  shows "good m whole rest 9 (push_level s tok obj rest)"
proof -
  have i: "tok_inv m tok obj" using assms(1) by (simp add: inv_def)
  then have lev: "level_ok m (length (tk_below tok)) (tk_top tok)" by (simp add: tok_inv_def)
  let ?tok = "tok\<lparr>tk_top := json_tokener_reset_level, tk_below := (tk_top tok)\<lparr>s_state := s\<rparr> # tk_below tok\<rparr>"
  have add: "s \<in> add_states" using assms(3) by (auto simp: add_states_def)
  have "level_ok m (length (tk_below tok)) ((tk_top tok)\<lparr>s_state := s\<rparr>)"
    using lev assms(3) by (elim disjE conjE insertE emptyE) (simp_all add: level_defs)
  then have "tok_inv m ?tok obj" if "int (length (tk_below tok)) < m - 1"
    using i that add by (simp add: tok_inv_def level_defs json_tokener_reset_level_def)
  moreover have "tk_max_depth tok = m" using i by (simp add: tok_inv_def)
  ultimately show ?thesis unfolding push_level_def
    by (intro good_if good_Redo_here[OF assms(1,2)] good_fail[OF i]) (simp_all add: json_tokener_reset_level_def escape_states_def rank_def)
qed

lemma step_array_good:
  assumes "inv m whole tok obj rest" "rest \<noteq> []" "s_state (tk_top tok) \<in> {state_array, state_array_after_sep}"
  shows "good m whole rest 9 (step_array after tok obj rest)"
proof -
  have i: "tok_inv m tok obj" using assms(1) by (simp add: inv_def)
  then have lev: "level_ok m (length (tk_below tok)) (tk_top tok)" by (simp add: tok_inv_def)
  show ?thesis unfolding step_array_def
    by (intro good_if good_Advance_here[OF assms(1,2)] good_fail[OF i] tok_inv_top[OF i] push_level_good[OF assms(1,2)])
      (insert lev assms(3), simp_all add: level_defs set_defs)
qed

lemma foldr_max_le: "foldr max xs 0 \<le> (b :: nat) \<longleftrightarrow> (\<forall>x \<in> set xs. x \<le> b)"
  by (induction xs) auto

lemma json_depth_le:
  "int (json_depth (J_array vs)) + k \<le> m \<longleftrightarrow> 1 + k \<le> m \<and> (\<forall>v \<in> set vs. int (json_depth v) + k < m)"
  "int (json_depth (J_object ms)) + k \<le> m \<longleftrightarrow> 1 + k \<le> m \<and> (\<forall>(key, v) \<in> set ms. int (json_depth v) + k < m)"
proof -
  have *: "int (Suc (foldr max xs 0)) + k \<le> m \<longleftrightarrow> 1 + k \<le> m \<and> (\<forall>x \<in> set xs. int x + k < m)" for xs
    using foldr_max_le[of xs "nat (m - k - 1)"] by (auto simp: nat_le_eq_zle le_nat_iff; force)
  show "int (json_depth (J_array vs)) + k \<le> m \<longleftrightarrow> 1 + k \<le> m \<and> (\<forall>v \<in> set vs. int (json_depth v) + k < m)"
    using *[of "map json_depth vs"] by simp
  show "int (json_depth (J_object ms)) + k \<le> m \<longleftrightarrow> 1 + k \<le> m \<and> (\<forall>(key, v) \<in> set ms. int (json_depth v) + k < m)"
    using *[of "map (\<lambda>(key, v). json_depth v) ms"] by (auto simp del: json_depth.simps simp: json_depth.simps(1))
qed

lemma step_array_add_good:
  assumes "inv m whole tok obj rest" "rest \<noteq> []" "s_state (tk_top tok) = state_array_add"
  shows "\<exists>a. step_array_add tok obj rest = Some a \<and> good m whole rest 2 a"
proof -
  have i: "tok_inv m tok obj" using assms(1) by (simp add: inv_def)
  then have lev: "level_ok m (length (tk_below tok)) (tk_top tok)" and obj: "json_ok obj" "int (json_depth obj) + int (length (tk_below tok)) < m"
    using assms(3) by (simp_all add: tok_inv_def add_states_def)
  then obtain vs where vs: "s_current (tk_top tok) = J_array vs" using assms(3) by (auto simp: level_defs)
  have "level_ok m (length (tk_below tok)) (tk_top (eat_then state_array_sep (set_current (J_array (vs @ [obj])) tok)))"
    using lev obj vs by (simp add: level_defs set_defs json_depth_le del: json_depth.simps)
  then show ?thesis using vs assms(3)
    by (auto simp: step_array_add_def json_object_array_add_def rank_def set_defs state_sets intro!: good_Redo_here[OF assms(1,2)] tok_inv_top[OF i])
qed

text \<open>A member that is there gets the new value; the other members keep theirs.\<close>

definition put_member :: "(string \<times> 'd json) list \<Rightarrow> string \<Rightarrow> 'd json \<Rightarrow> (string \<times> 'd json) list" where
  "put_member ms k v = (if k \<in> fst ` set ms then map (\<lambda>e. if fst e = k then (k, v) else e) ms else ms @ [(k, v)])"

lemma put_member_eq:
  "map (\<lambda>(k, v). (k, case v of None \<Rightarrow> J_null | Some v \<Rightarrow> v)) (members_add (map (\<lambda>(k, v). (k, Some v)) ms) k (Some v)) = put_member ms k v"
proof -
  have "k \<in> fst ` set (map (\<lambda>(k, v). (k, Some v)) ms) \<longleftrightarrow> k \<in> fst ` set ms" by (auto simp: image_image split_beta)
  then show ?thesis by (auto simp: members_add_def put_member_def split_beta comp_def)
qed

lemma put_member_facts:
  assumes "distinct (map fst ms)"
  shows "distinct (map fst (put_member ms k v))" "(key, w) \<in> set (put_member ms k v) \<Longrightarrow> (key, w) \<in> set ms \<or> key = k \<and> w = v"
proof -
  have keys: "map fst (map (\<lambda>e. if fst e = k then (k, v) else e) ms) = map fst ms" unfolding map_map by (rule map_cong) auto
  show "distinct (map fst (put_member ms k v))"
  proof (cases "k \<in> fst ` set ms")
    case True
    then show ?thesis using assms unfolding put_member_def by (simp only: if_True keys)
  next
    case False
    then show ?thesis using assms unfolding put_member_def by simp
  qed
  show "(key, w) \<in> set ms \<or> key = k \<and> w = v" if "(key, w) \<in> set (put_member ms k v)"
  proof (cases "k \<in> fst ` set ms")
    case True
    then have "(key, w) \<in> (\<lambda>e. if fst e = k then (k, v) else e) ` set ms" using that by (simp only: put_member_def if_True set_map)
    then obtain e where "(key, w) = (if fst e = k then (k, v) else e)" "e \<in> set ms" by (rule imageE)
    then show ?thesis by (cases "fst e = k") auto
  next
    case False
    then show ?thesis using that by (auto simp: put_member_def)
  qed
qed

lemma step_object_value_add_good:
  assumes "inv m whole tok obj rest" "rest \<noteq> []" "s_state (tk_top tok) = state_object_value_add"
  shows "\<exists>a. step_object_value_add tok obj rest = Some a \<and> good m whole rest 2 a"
proof -
  have i: "tok_inv m tok obj" using assms(1) by (simp add: inv_def)
  then have lev: "level_ok m (length (tk_below tok)) (tk_top tok)" and obj: "json_ok obj" "int (json_depth obj) + int (length (tk_below tok)) < m"
    using assms(3) by (simp_all add: tok_inv_def add_states_def)
  then obtain ms k where ms: "s_current (tk_top tok) = J_object ms" "s_field (tk_top tok) = Some k" using assms(3) by (auto simp: level_defs)
  have old: "distinct (map fst ms)" "NUL \<notin> set k" using lev ms by (simp_all add: level_ok_def)
  have each: "NUL \<notin> set key \<and> json_ok w \<and> int (json_depth w) + int (length (tk_below tok)) < m" if "(key, w) \<in> set (put_member ms k obj)" for key w
    using put_member_facts(2)[OF old(1) that] lev ms obj old(2) by (auto simp: level_ok_def json_depth_le simp del: json_depth.simps)
  let ?l = "(tk_top tok)\<lparr>s_current := J_object (put_member ms k obj), s_field := None, s_saved := state_object_sep, s_state := state_eatws\<rparr>"
  have "1 + int (length (tk_below tok)) \<le> m" using i by (simp add: tok_inv_def)
  then have "int (json_depth (J_object (put_member ms k obj))) + int (length (tk_below tok)) \<le> m"
    unfolding json_depth_le using each by auto
  moreover have "json_ok (J_object (put_member ms k obj))" using each put_member_facts(1)[OF old(1)] by auto
  ultimately have "level_ok m (length (tk_below tok)) ?l" by (simp add: level_defs del: json_depth.simps json_ok.simps)
  then have "good m whole rest 2 (Redo (tok\<lparr>tk_top := ?l\<rparr>) obj rest)"
    by (intro good_Redo_here[OF assms(1,2)] tok_inv_top[OF i]) (simp_all add: rank_def add_states_def escape_states_def)
  then show ?thesis using ms by (simp add: step_object_value_add_def put_member_eq eat_then_def)
qed

section \<open>Escapes\<close>

lemma step_string_escape_good:
  assumes "inv m whole tok obj rest" "rest \<noteq> []" "s_state (tk_top tok) = state_string_escape"
  shows "good m whole rest r (step_string_escape tok obj rest)"
proof -
  have i: "tok_inv m tok obj" using assms(1) by (simp add: inv_def)
  then have lev: "level_ok m (length (tk_below tok)) (tk_top tok)" by (simp add: tok_inv_def)
  have sv: "s_saved (tk_top tok) = state_string \<or> s_saved (tk_top tok) = state_object_field"
    using lev assms(3) by (simp add: level_ok_def escape_states_def escape_targets_def)
  obtain pre where pre: "whole = pre @ rest" "pre \<noteq> []" "last pre = BSL" using assms(1,3) by (auto simp: inv_def at_text_def)
  have u: "good m whole rest r (Advance (set_state state_escape_unicode (tok\<lparr>tk_ucs := 0, tk_st_pos := 0\<rparr>)) obj rest)" if "hd rest = CHR ''u''"
  proof -
    have "pre = butlast pre @ [BSL]" using append_butlast_last_id[OF pre(2)] pre(3) by simp
    then have "pre @ [hd rest] = butlast pre @ [BSL, CHR ''u'']" using that by (metis append.assoc append_Cons append_Nil)
    then have "\<exists>p. pre @ [hd rest] = p @ [BSL, CHR ''u'']" ..
    moreover have "whole = (pre @ [hd rest]) @ tl rest" using pre(1) assms(2) by simp
    ultimately have "at_text whole (set_state state_escape_unicode (tok\<lparr>tk_ucs := 0, tk_st_pos := 0\<rparr>)) (tl rest)"
      unfolding at_text_def by (intro exI[of _ "pre @ [hd rest]"]) simp
    moreover have "tok_inv m (set_state state_escape_unicode (tok\<lparr>tk_ucs := 0, tk_st_pos := 0\<rparr>)) obj"
      using i assms(3) sv by (auto simp: tok_inv_def level_defs)
    ultimately show ?thesis using assms(2) by (simp add: good_def inv_def)
  qed
  from sv show ?thesis unfolding step_string_escape_def Let_def
    by (elim disjE; intro good_if u good_Advance_here[OF assms(1,2)] good_fail[OF i] tok_inv_top[OF i])
      (insert lev assms(3), simp_all add: level_defs)
qed

end
