(* ===== verification/Json_Returns.thy ===== *)
theory Json_Returns
  imports Json_Safety
begin

text \<open>
  Escapes with surrogate pairs, all rounds together, and the loop: the parser returns for every text
  but one that ends within an escape it would read behind.
\<close>

section \<open>Texts\<close>

text \<open>A backslash, \<open>u\<close> and three characters at the end: the null character is then taken for the last digit.\<close>

definition ends_in_escape :: "string \<Rightarrow> bool" where
  "ends_in_escape xs \<longleftrightarrow> 5 \<le> length xs \<and> take 2 (drop (length xs - 5) xs) = [BSL, CHR ''u'']"

definition text_ok :: "bool \<Rightarrow> string \<Rightarrow> bool" where
  "text_ok bounded whole \<longleftrightarrow>
    (if bounded then NUL \<notin> set whole else \<exists>xs. whole = xs @ [NUL] \<and> NUL \<notin> set xs \<and> \<not> ends_in_escape xs)"

lemma text_ok_NUL:
  assumes "text_ok b (p @ NUL # cs)"
  shows "\<not> b" "cs = []" "\<not> ends_in_escape p"
proof -
  show b: "\<not> b" using assms by (auto simp: text_ok_def)
  then obtain xs where xs: "p @ NUL # cs = xs @ [NUL]" "NUL \<notin> set xs" "\<not> ends_in_escape xs" using assms by (auto simp: text_ok_def)
  then show cs: "cs = []"
    by (cases cs rule: rev_cases) (auto simp: append_eq_append_conv2 append_eq_Cons_conv Cons_eq_append_conv)
  then show "\<not> ends_in_escape p" using xs by simp
qed

lemma text_ok_more: "text_ok False (p @ [c]) \<Longrightarrow> c = NUL"
  by (auto simp: text_ok_def)

lemma ends_in_escape_append: "length ds = 3 \<Longrightarrow> ends_in_escape (p @ [BSL, CHR ''u''] @ ds)"
  by (simp add: ends_in_escape_def)

lemma pair_follows_total:
  assumes "text_ok b (p @ c # cs)" "c \<noteq> NUL"
  shows "pair_follows b cs = Some False \<or> pair_follows b cs = Some True \<and> cs = BSL # CHR ''u'' # drop 2 cs"
proof (cases b)
  case True
  then show ?thesis
    by (cases cs; cases "tl cs") (auto simp: pair_follows_def)
next
  case False
  then have nb: "text_ok False (p @ c # cs)" using assms(1) by simp
  obtain d ds where cs: "cs = d # ds" using text_ok_more[of p c] nb assms(2) by (cases cs) auto
  have "ds \<noteq> []" if "d = BSL" using text_ok_more[of "p @ [c]" d] nb cs that by (cases ds) auto
  then show ?thesis using False cs by (cases ds) (auto simp: pair_follows_def)
qed

section \<open>Escapes of four digits\<close>

lemma good_back:
  assumes "tok_inv m tok0 obj0" "s_state (tk_top tok0) = state_escape_unicode" "whole = p @ c # cs"
    and "tk_top tok = tk_top tok0" "tk_below tok = tk_below tok0" "tk_max_depth tok = tk_max_depth tok0"
  shows "good m whole (c # cs) r (Advance (set_state (s_saved (tk_top tok)) tok) obj (c # cs))"
proof -
  have lev: "level_ok m (length (tk_below tok0)) (tk_top tok0)" using assms(1) by (simp add: tok_inv_def)
  have sv: "s_saved (tk_top tok0) = state_string \<or> s_saved (tk_top tok0) = state_object_field"
    using lev assms(2) by (simp add: level_ok_def escape_states_def escape_targets_def)
  have "at_text whole (set_state (s_saved (tk_top tok)) tok) cs"
    using sv assms(3,4) unfolding at_text_def by (intro exI[of _ "p @ [c]"]) auto
  moreover have "level_ok m (length (tk_below tok0)) ((tk_top tok0)\<lparr>s_state := s_saved (tk_top tok0)\<rparr>)"
    using sv lev assms(2) by (elim disjE) (simp_all add: level_defs)
  then have "tok_inv m (set_state (s_saved (tk_top tok)) tok) obj"
    using sv assms(4-6) by (intro tok_inv_top[OF assms(1)]) (auto simp: add_states_def)
  ultimately show ?thesis by (simp add: good_def inv_def)
qed

lemma good_longer: "good m whole rest r a \<Longrightarrow> length rest < length rest' \<Longrightarrow> good m whole rest' r a"
  by (auto simp: good_def split: action.splits)

text \<open>The tokener behind a digit: the code so far, with a surrogate pair put together.\<close>

definition same_levels :: "'d tokener \<Rightarrow> 'd tokener \<Rightarrow> bool" where
  "same_levels tok tok' \<longleftrightarrow> tk_top tok' = tk_top tok \<and> tk_below tok' = tk_below tok \<and> tk_max_depth tok' = tk_max_depth tok"

lemma tok_inv_same: "tok_inv m tok obj \<Longrightarrow> same_levels tok tok' \<Longrightarrow> tok_inv m tok' obj"
  by (simp add: tok_inv_def same_levels_def)

lemma unicode_loop_good:
  assumes "text_ok b whole"
  shows "whole = (p @ [BSL, CHR ''u'']) @ ds @ rest \<Longrightarrow> rest \<noteq> [] \<Longrightarrow> length ds = tk_st_pos tok \<Longrightarrow> tk_st_pos tok \<le> 3 \<Longrightarrow>
    tok_inv m tok obj \<Longrightarrow> s_state (tk_top tok) = state_escape_unicode \<Longrightarrow>
    \<exists>a. unicode_loop b hi tok obj rest = Some a \<and> good m whole rest r a"
proof (induction "length rest" arbitrary: rest hi tok ds p rule: less_induct)
  case less
  obtain c cs where rest: "rest = c # cs" using less.prems(2) by (cases rest) auto
  let ?pre = "(p @ [BSL, CHR ''u'']) @ ds"
  have whole: "whole = ?pre @ c # cs" using less.prems(1) rest by simp
  have ok: "text_ok b (?pre @ c # cs)" using assms whole by simp
  have out: "good m whole rest r (Out tok' x)" if "same_levels tok tok'" for tok' x
    using that by (intro good_Out[OF less.prems(5)]) (simp add: same_levels_def)
  define tok1 where "tok1 = tok\<lparr>tk_ucs := tk_ucs tok + push_bit ((3 - tk_st_pos tok) * 4) (jt_hexdigit c), tk_st_pos := tk_st_pos tok + 1\<rparr>"
  have s1: "same_levels tok tok1" by (simp add: tok1_def same_levels_def)
  show ?case
  proof (cases "c \<in> set json_hex_chars \<or> c = NUL")
    case False
    then show ?thesis using good_fail[OF less.prems(5)] by (simp add: rest unicode_loop.simps)
  next
    case digit: True
    show ?thesis
    proof (cases "tk_st_pos tok = 3")
      case False
      then have pos: "tk_st_pos tok1 \<le> 3" "tk_st_pos tok1 \<noteq> 4" "tk_st_pos tok1 = length (ds @ [c])" using less.prems(3,4) by (simp_all add: tok1_def)
      have "unicode_loop b hi tok obj rest =
          (let pending = (if hi = 0 then [] else utf8_replacement_char) in
           if c = NUL then Some (Out (skip 1 (append_pb pending tok1)) NUL)
           else if cs = [] then Some (Out (append_pb pending (peek_end (skip 1 tok1))) c)
           else unicode_loop b hi (skip 1 tok1) obj cs)"
        using digit less.prems(4) pos(2) False unfolding rest unicode_loop.simps(2) tok1_def[symmetric] Let_def by simp
      moreover have "\<exists>a. unicode_loop b hi (skip 1 tok1) obj cs = Some a \<and> good m whole cs r a" if "cs \<noteq> []"
        using rest that pos whole s1 less.prems(6) tok_inv_same[OF less.prems(5) s1]
        by (intro less.hyps[of cs p "ds @ [c]"]) (simp_all add: same_levels_def tok_inv_def)
      ultimately show ?thesis using out s1 good_longer[of m whole cs r _ rest] rest
        by (auto simp: Let_def same_levels_def peek_end_def)
    next
      case True
      have NUL: "c \<noteq> NUL"
        using text_ok_NUL(3)[of b ?pre cs] ok ends_in_escape_append[of ds p] less.prems(3) True by auto
      define tok2 where "tok2 = (if hi = 0 then tok1
          else if IS_LOW_SURROGATE (tk_ucs tok1) then tok1\<lparr>tk_ucs := DECODE_SURROGATE_PAIR hi (tk_ucs tok1)\<rparr>
          else append_pb utf8_replacement_char tok1)"
      have s2: "same_levels tok tok2" using s1 by (simp add: tok2_def same_levels_def)
      have returns: "good m whole rest r (Advance (set_state (s_saved (tk_top tok2)) (append_pb s tok2)) obj rest)" for s
        using good_back[OF less.prems(5,6) whole, of "append_pb s tok2"] s2 rest by (simp add: same_levels_def)
      have "unicode_loop b hi tok obj rest =
          (if 0x800 \<le> tk_ucs tok2 \<and> IS_HIGH_SURROGATE (tk_ucs tok2) then
             (case pair_follows b cs of
                None \<Rightarrow> None
              | Some False \<Rightarrow> Some (Advance (set_state (s_saved (tk_top tok2)) (append_pb utf8_replacement_char tok2)) obj rest)
              | Some True \<Rightarrow>
                  if drop 2 cs = [] then Some (Out (peek_end (skip 3 (append_pb utf8_replacement_char tok2))) c)
                  else unicode_loop b (tk_ucs tok2) (skip 3 (tok2\<lparr>tk_ucs := 0, tk_st_pos := 0\<rparr>)) obj (drop 2 cs))
           else Some (Advance (set_state (s_saved (tk_top tok2)) (append_pb (unescaped_utf (tk_ucs tok2)) tok2)) obj rest))"
        using digit NUL True unfolding rest unicode_loop.simps(2) tok1_def[symmetric] tok2_def[symmetric] Let_def
        by (simp add: tok1_def)
      moreover have "\<exists>a. unicode_loop b (tk_ucs tok2) (skip 3 (tok2\<lparr>tk_ucs := 0, tk_st_pos := 0\<rparr>)) obj (drop 2 cs) = Some a \<and> good m whole (drop 2 cs) r a"
        if "drop 2 cs \<noteq> []" "cs = BSL # CHR ''u'' # drop 2 cs"
      proof (rule less.hyps[of "drop 2 cs" "?pre @ [c]" "[]"])
        show "whole = ((?pre @ [c]) @ [BSL, CHR ''u'']) @ [] @ drop 2 cs" using whole that(2) by (metis append.assoc append_Cons append_Nil)
      qed (use that(1) rest s2 less.prems(5,6) in \<open>auto simp: same_levels_def tok_inv_def\<close>)
      moreover have "good m whole rest r a" if "good m whole (drop 2 cs) r a" for a
        using good_longer[OF that, of rest] rest by simp
      ultimately show ?thesis using pair_follows_total[OF ok NUL] returns out s2
        by (auto simp: same_levels_def peek_end_def)
    qed
  qed
qed

section \<open>The loop\<close>

lemma tok_step_good:
  assumes "text_ok b whole" "inv m whole tok obj rest" "rest \<noteq> []"
  shows "\<exists>a. tok_step D scan b tok obj rest = Some a \<and> good m whole rest (rank tok) a"
proof -
  note level = level_steps_good[OF assms(2,3)] and run = run_steps_good[OF assms(2,3)]
  have uni: "\<exists>a. unicode_loop b 0 tok obj rest = Some a \<and> good m whole rest (rank tok) a" if uni: "s_state (tk_top tok) = state_escape_unicode"
  proof -
    obtain p where "whole = (p @ [BSL, CHR ''u'']) @ rest" "tk_st_pos tok = 0" "tok_inv m tok obj"
      using assms(2) uni by (auto simp: inv_def at_text_def)
    then show ?thesis using unicode_loop_good[OF assms(1), of p "[]" rest tok m obj 0] assms(3) uni by simp
  qed
  show ?thesis
    using level run uni step_eatws_good[OF assms(2,3)] step_finish_good[OF assms(2,3)] push_level_good[OF assms(2,3)]
      step_array_good[OF assms(2,3)] step_array_add_good[OF assms(2,3)] step_object_value_add_good[OF assms(2,3)]
      step_string_escape_good[OF assms(2,3)]
    by (cases "s_state (tk_top tok)") (simp_all add: tok_step_def rank_def)
qed

lemma tok_loop_returns:
  assumes "text_ok b whole"
  shows "inv m whole tok obj rest \<Longrightarrow> \<exists>tok' c'. tok_loop D scan b tok obj c rest = Some (tok', c') \<and>
    json_ok (s_current (tk_top tok')) \<and> int (json_depth (s_current (tk_top tok'))) \<le> m"
proof (induction "(length rest, rank tok)" arbitrary: tok obj c rest rule: wf_induct[OF wf_lex_prod[OF wf_less_than wf_less_than]])
  case 1
  have IH: "\<exists>tok'' c''. tok_loop D scan b tok' obj' c' rest' = Some (tok'', c'') \<and>
      json_ok (s_current (tk_top tok'')) \<and> int (json_depth (s_current (tk_top tok''))) \<le> m"
    if "length rest' < length rest \<or> length rest' = length rest \<and> rank tok' < rank tok" "inv m whole tok' obj' rest'" for tok' obj' c' rest'
    using 1(1) that by auto
  have cur: "json_ok (s_current (tk_top tok'))" "int (json_depth (s_current (tk_top tok'))) \<le> m" if "tok_inv m tok' obj'" for tok' obj'
    using that by (simp_all add: tok_inv_def level_ok_def)
  show ?case
  proof (cases "rest = []")
    case True
    have "tok_inv m tok obj" using 1(2) by (simp add: inv_def)
    then show ?thesis using True cur[of tok obj] by (subst tok_loop.simps) (simp add: peek_end_def)
  next
    case False
    obtain a where a: "tok_step D scan b tok obj rest = Some a" "good m whole rest (rank tok) a"
      using tok_step_good[OF assms 1(2) False] by blast
    show ?thesis
    proof (cases a)
      case (Redo tok' obj' rest')
      then show ?thesis using a False IH[of rest' tok' obj' "hd rest'"] by (subst tok_loop.simps) (auto simp: good_def)
    next
      case (Advance tok' obj' rest')
      then have g: "rest' \<noteq> []" "length rest' \<le> length rest" "inv m whole tok' obj' (tl rest')" using a(2) by (simp_all add: good_def)
      then have "inv m whole (skip 1 tok') obj' (tl rest')" by (simp add: inv_def tok_inv_def at_text_def)
      moreover have "length (tl rest') < length rest" using g(1,2) by (cases rest') simp_all
      ultimately show ?thesis
        using a(1) Advance False IH[of "tl rest'" "skip 1 tok'" obj' "hd rest'"] cur[of tok' obj'] g(3)
        by (subst tok_loop.simps) (simp add: inv_def)
    next
      case (Out tok' c')
      then show ?thesis using a False by (subst tok_loop.simps) (simp add: good_def)
    qed
  qed
qed

text \<open>
  C4. Parsing any text with a tokener that has no value under way returns, with a value or an error: a text
  of given length without null characters, or one up to its null character that does not end within the
  last digits of an escape. The value has distinct keys without null characters in each object, and is no
  deeper than the tokener's stack.
\<close>
theorem json_tokener_parse_ex_returns:
  assumes "tk_top tok = json_tokener_reset_level" "tk_below tok = []" "1 \<le> tk_max_depth tok"
    and "len = - 1 \<Longrightarrow> \<not> ends_in_escape (c_str str)" "0 \<le> len \<Longrightarrow> NUL \<notin> set (take (nat len) str)"
  shows "\<exists>tok' v. json_tokener_parse_ex D scan tok str len = Some (tok', v) \<and> json_ok v \<and> int (json_depth v) \<le> tk_max_depth tok"
proof (cases "len < - 1 \<or> len = - 1 \<and> 2 ^ 31 - 1 < int (strlen str)")
  case True
  then show ?thesis using assms(3) by (auto simp: json_tokener_parse_ex_def)
next
  case False
  let ?tok = "tok\<lparr>tk_offset := 0, tk_err := json_tokener_success\<rparr>" and ?m = "tk_max_depth tok"
  let ?text = "if len = - 1 then c_str str @ [NUL] else take (nat len) str"
  have "text_ok (len \<noteq> - 1) ?text" using False assms(4,5) by (auto simp: text_ok_def)
  moreover have "inv ?m ?text ?tok J_null ?text"
    using assms(1-3) by (simp add: inv_def tok_inv_def at_text_def level_defs json_tokener_reset_level_def)
  ultimately obtain tok' c' where t: "tok_loop D scan (len \<noteq> - 1) ?tok J_null (CHR 0x01) ?text = Some (tok', c')"
      "json_ok (s_current (tk_top tok'))" "int (json_depth (s_current (tk_top tok'))) \<le> ?m"
    using tok_loop_returns by blast
  obtain tok2 v where v: "tok_out tok' c' = (tok2, v)" "v = J_null \<or> v = s_current (tk_top tok')"
    by (cases "tok_out tok' c'") (auto simp: tok_out_def Let_def split: if_splits)
  have "json_tokener_parse_ex D scan tok str len = Some (tok2, v)"
    unfolding json_tokener_parse_ex_def Let_def if_not_P[OF False] t(1) by (simp add: v(1))
  moreover have "json_ok v \<and> int (json_depth v) \<le> ?m" using v(2) t(2,3) assms(3) by auto
  ultimately show ?thesis by blast
qed

theorem json_tokener_parse_ex_returns_witness:
  "\<exists>tok' v. json_tokener_parse_ex text_double sscanf_int64 (json_tokener_new_ex 2) (''[[0], [true, 1.5e, {'' @ [BSL] @ ''ud8'') (- 1) = Some (tok', v) \<and>
    json_ok v \<and> int (json_depth v) \<le> tk_max_depth (json_tokener_new_ex 2 :: string tokener)"
  by (rule json_tokener_parse_ex_returns) (simp_all add: json_tokener_new_ex_def ends_in_escape_def c_str_def)

end
