(* ===== verification/Json_Limits.thy ===== *)
theory Json_Limits
  imports Json_Returns
begin

text \<open>
  Where the parser does not do what JSON or its own comments say, by evaluation: for any treatment of
  numbers.
\<close>

lemma json_open_comment_accepted:
  "json_tokener_parse_verbose (D :: ('d :: equal) c_double) scan ''[true /*'' = Some (J_boolean True, json_tokener_success)"
  by code_simp

lemma json_surrogate_misread:
  "json_tokener_parse (D :: ('d :: equal) c_double) scan ([QUOTE, BSL] @ ''ud836'' @ [BSL] @ ''udc00'' @ [QUOTE]) = Some (J_string utf8_replacement_char)"
  by code_simp

lemma json_infinity_behind_true:
  "json_tokener_parse_verbose (D :: ('d :: equal) c_double) scan ''[true, -Infinity]'' = Some (J_null, json_tokener_error_parse_unexpected)"
  by code_simp

lemma json_escape_cut_reads_behind:
  "json_tokener_parse (D :: ('d :: equal) c_double) scan ([QUOTE, BSL] @ ''ud83'') = None"
  by code_simp

text \<open>A text may be given in pieces; between the two escapes of a pair it may not.\<close>

lemma json_pair_in_pieces:
  "Option.bind (json_tokener_parse_ex (D :: ('d :: equal) c_double) scan (json_tokener_new_ex 32) ([QUOTE, BSL] @ ''ud83d'' @ [BSL] @ ''u'') 9)
    (\<lambda>(tok, obj). json_tokener_parse_ex D scan tok (''de00'' @ [QUOTE]) 5) = None"
  by code_simp

text \<open>Without trailing zeros, those of an exponent are dropped too.\<close>

lemma json_nozero_cuts_exponent:
  assumes "\<not> d_isnan D d" "\<not> d_isinf D d" "d_format17 D d = ''1.5e+20''"
  shows "json_object_double_to_json_string D d JSON_C_TO_STRING_NOZERO = ''1.5e+2''"
  using assms by (simp add: json_object_double_to_json_string_def split_point_def drop_zeros_def nozero_def JSON_C_TO_STRING_NOZERO_def)

end
