(* ===== verification/Json_Iter.thy ===== *)
theory Json_Iter
  imports Json_Table
begin

text \<open>
  Going through the members of an object: the iterators of src/json-c/json_object_iterator.c, which are
  pointers to entries, and the loop of the macro \<open>json_object_object_foreach\<close>, which keeps the pointer to
  the next entry so that its body may delete the current one. \<open>None\<close> is a pointer used that is null or
  outside the table, or a loop that does not end.
\<close>

type_synonym json_object_iterator = "nat option"

definition json_object_iter_begin :: "('k, 'v) lh_table \<Rightarrow> json_object_iterator" where
  "json_object_iter_begin t = lh_head t"

definition json_object_iter_end :: "('k, 'v) lh_table \<Rightarrow> json_object_iterator" where
  "json_object_iter_end t = None"

definition iter_entry :: "('k, 'v) lh_table \<Rightarrow> json_object_iterator \<Rightarrow> ('k, 'v) lh_entry option" where
  "iter_entry t it = (case it of None \<Rightarrow> None | Some i \<Rightarrow> if i < length (lh_tab t) then Some (lh_tab t ! i) else None)"

definition json_object_iter_next :: "('k, 'v) lh_table \<Rightarrow> json_object_iterator \<Rightarrow> json_object_iterator option" where
  "json_object_iter_next t it = map_option e_next (iter_entry t it)"

definition json_object_iter_peek_name :: "('k, 'v) lh_table \<Rightarrow> json_object_iterator \<Rightarrow> 'k lh_key option" where
  "json_object_iter_peek_name t it = map_option e_k (iter_entry t it)"

definition json_object_iter_peek_value :: "('k, 'v) lh_table \<Rightarrow> json_object_iterator \<Rightarrow> 'v option option" where
  "json_object_iter_peek_value t it = map_option e_v (iter_entry t it)"

definition json_object_iter_equal :: "json_object_iterator \<Rightarrow> json_object_iterator \<Rightarrow> bool" where
  "json_object_iter_equal it1 it2 \<longleftrightarrow> it1 = it2"

definition json_object_iter_init_default :: json_object_iterator where
  "json_object_iter_init_default = None"

text \<open>The loop over an object that json_object_iterator.h gives as its use: the names and values seen.\<close>

partial_function (option) iter_loop :: "('k, 'v) lh_table \<Rightarrow> json_object_iterator \<Rightarrow> ('k lh_key \<times> 'v option) list option" where
  [code]: "iter_loop t it =
    (if json_object_iter_equal it (json_object_iter_end t) then Some []
     else do {
       k \<leftarrow> json_object_iter_peek_name t it;
       v \<leftarrow> json_object_iter_peek_value t it;
       it' \<leftarrow> json_object_iter_next t it;
       rest \<leftarrow> iter_loop t it';
       Some ((k, v) # rest)
     })"

text \<open>The loop of the macro, with a body that deletes the current member when \<open>p\<close> holds.\<close>

partial_function (option) foreach_loop :: "('k \<Rightarrow> 'v option \<Rightarrow> bool) \<Rightarrow> ('k, 'v) lh_table \<Rightarrow> nat option \<Rightarrow> ('k, 'v) lh_table option" where
  [code]: "foreach_loop p t e = (case e of
      None \<Rightarrow> Some t
    | Some i \<Rightarrow>
        if length (lh_tab t) \<le> i then None
        else
          let e = lh_tab t ! i; entry_next = e_next e in
          case e_k e of
            Key k \<Rightarrow>
              if p k (e_v e) then Option.bind (json_object_object_del t k) (\<lambda>(t, released). foreach_loop p t entry_next)
              else foreach_loop p t entry_next
          | _ \<Rightarrow> None)"

section \<open>Iterators\<close>

lemma iter_loop_seg:
  "seg (lh_tab t) q xs None \<Longrightarrow> set xs \<subseteq> {..<length (lh_tab t)} \<Longrightarrow>
     iter_loop t (if xs = [] then None else Some (hd xs)) = Some (map (\<lambda>i. (e_k (lh_tab t ! i), e_v (lh_tab t ! i))) xs)"
proof (induction xs arbitrary: q)
  case Nil
  then show ?case by (subst iter_loop.simps) (simp add: json_object_iter_equal_def json_object_iter_end_def)
next
  case (Cons x xs)
  then show ?case
    using Cons.IH[of "Some x"]
    by (subst iter_loop.simps) (auto simp: json_object_iter_equal_def json_object_iter_end_def json_object_iter_peek_name_def
        json_object_iter_peek_value_def json_object_iter_next_def iter_entry_def split: if_splits)
qed

lemma iter_loop_ok:
  assumes "lh_ok t xs"
  shows "iter_loop t (json_object_iter_begin t) = Some (map (\<lambda>(k, v). (Key k, v)) (lh_items t xs))"
proof -
  have xs: "seg (lh_tab t) None xs None" "set xs \<subseteq> {..<length (lh_tab t)}" "lh_head t = (if xs = [] then None else Some (hd xs))"
      "\<And>i. i \<in> set xs \<Longrightarrow> used (lh_tab t ! i)"
    using assms lh_ok_bound[OF assms] by (auto simp: lh_ok_def)
  from iter_loop_seg[OF xs(1,2)] show ?thesis
    using xs(3,4) by (auto simp: json_object_iter_begin_def lh_items_def used_key)
qed

section \<open>The loop that deletes\<close>

text \<open>Deleting the entry in a slot of the list.\<close>

lemma lh_items_simps:
  "lh_items t [] = []" "lh_items t (i # xs) = (the_key (lh_tab t ! i), e_v (lh_tab t ! i)) # lh_items t xs"
  "lh_items t (xs @ ys) = lh_items t xs @ lh_items t ys" "length (lh_items t xs) = length xs"
  by (simp_all add: lh_items_def)

lemma find_first: "(\<And>j. j \<in> set as \<Longrightarrow> \<not> P j) \<Longrightarrow> P i \<Longrightarrow> find P (as @ i # bs) = Some i"
  by (induction as) auto

lemma object_del_slot:
  assumes "lh_ok t (as @ i # bs)" "distinct (map fst (lh_items t (as @ i # bs)))"
  obtains t' rs where "json_object_object_del t (the_key (lh_tab t ! i)) = Some (t', rs)" "lh_ok t' (as @ bs)"
    "lh_items t' (as @ bs) = lh_items t (as @ bs)"
proof -
  let ?k = "the_key (lh_tab t ! i)" and ?t = "t\<lparr>lh_lookups := lh_lookups t + 1\<rparr>"
  have "?k \<notin> set (map fst (lh_items t as))" using assms(2) by (simp add: lh_items_simps)
  then have find: "find (\<lambda>j. the_key (lh_tab t ! j) = ?k) (as @ i # bs) = Some i"
    by (intro find_first) (auto simp: lh_items_def image_iff)
  have "lh_ok ?t (as @ i # bs)" using assms(1) by simp
  then obtain t' where t': "lh_table_delete_entry ?t (int i) = Some (t', 0, if lh_free_fn ?t then [lh_tab ?t ! i] else [])"
      "lh_ok t' (as @ bs)" "lh_items t' (as @ bs) = lh_items ?t (as @ bs)" "same_frame ?t t'"
    by (rule lh_delete_entry_ok)
  have "lh_table_delete t ?k = Some (t', 0, if lh_free_fn ?t then [lh_tab ?t ! i] else [])"
    using lh_lookup_ok[OF assms, of ?k] find t'(1) by (simp add: lh_table_delete_def)
  then have "json_object_object_del t ?k = Some (t', map e_v (if lh_free_fn ?t then [lh_tab ?t ! i] else []))"
    by (simp add: json_object_object_del_def)
  moreover have "lh_items t' (as @ bs) = lh_items t (as @ bs)" using t'(3) by simp
  ultimately show thesis using that t'(2) by blast
qed

lemma foreach_loop_ok:
  assumes "lh_ok t (as @ bs)" "distinct (map fst (lh_items t (as @ bs)))"
  shows "\<exists>t' xs. foreach_loop p t (if bs = [] then None else Some (hd bs)) = Some t' \<and> lh_ok t' xs \<and>
    lh_items t' xs = lh_items t as @ filter (\<lambda>(k, v). \<not> p k v) (lh_items t bs)"
  using assms
proof (induction bs arbitrary: t as)
  case Nil
  then show ?case by (subst foreach_loop.simps) (auto simp: lh_items_def)
next
  case (Cons i bs)
  let ?e = "lh_tab t ! i"
  have i: "i < length (lh_tab t)" "used ?e" "e_next ?e = (if bs = [] then None else Some (hd bs))"
    using Cons.prems(1) by (auto simp: lh_ok_def seg_append)
  have k: "e_k ?e = Key (the_key ?e)" using i(2) used_key by blast
  show ?case
  proof (cases "p (the_key ?e) (e_v ?e)")
    case False
    have "foreach_loop p t (Some i) = foreach_loop p t (if bs = [] then None else Some (hd bs))"
      using i k False by (subst foreach_loop.simps) (simp add: Let_def)
    moreover have "lh_items t (as @ [i]) = lh_items t as @ [(the_key ?e, e_v ?e)]" by (simp add: lh_items_def)
    ultimately show ?thesis
      using Cons.IH[of t "as @ [i]"] Cons.prems False by (auto simp: lh_items_def)
  next
    case True
    obtain t' rs where t': "json_object_object_del t (the_key ?e) = Some (t', rs)" "lh_ok t' (as @ bs)"
        "lh_items t' (as @ bs) = lh_items t (as @ bs)"
      by (rule object_del_slot[OF Cons.prems])
    have step: "foreach_loop p t (Some i) = foreach_loop p t' (if bs = [] then None else Some (hd bs))"
      using i k True t'(1) by (subst foreach_loop.simps) (simp add: Let_def)
    have "distinct (map fst (lh_items t' (as @ bs)))" unfolding t'(3) using Cons.prems(2) by (simp add: lh_items_simps)
    then obtain t2 xs where "foreach_loop p t' (if bs = [] then None else Some (hd bs)) = Some t2" "lh_ok t2 xs"
        "lh_items t2 xs = lh_items t' as @ filter (\<lambda>(k, v). \<not> p k v) (lh_items t' bs)"
      using Cons.IH[OF t'(2)] by blast
    moreover have "lh_items t' as = lh_items t as" "lh_items t' bs = lh_items t bs"
      using t'(3) by (simp_all add: lh_items_simps append_eq_append_conv)
    ultimately show ?thesis using step True by (auto simp: lh_items_simps)
  qed
qed

section \<open>Properties\<close>

text \<open>
  C22. After any operations on a new object, the iterators from begin to end give the members in the order
  of insertion, and the loop of the macro with a body that deletes the current member whenever a
  condition on it holds goes through all of them and leaves exactly the others, in order.
\<close>
theorem json_object_iteration:
  assumes "length ops < 2 ^ 28"
  shows "\<exists>t t'. object_ops json_object_object_add object_get_ex json_object_object_del ops (json_object_new_object hash) =
      Some (t, snd (members_ops ops [])) \<and>
    iter_loop t (json_object_iter_begin t) = Some (map (\<lambda>(k, v). (Key k, v)) (fst (members_ops ops []))) \<and>
    foreach_loop p t (lh_head t) = Some t' \<and>
    iter_loop t' (json_object_iter_begin t') = Some (map (\<lambda>(k, v). (Key k, v)) (filter (\<lambda>(k, v). \<not> p k v) (fst (members_ops ops []))))"
proof -
  let ?new = "json_object_new_object hash :: ('a, 'b) lh_table"
  have "lh_rep ?new [] \<and> lh_free_fn ?new" "lh_size ?new = 16"
    using lh_rep_new[of 16 True hash] by (simp_all add: json_object_new_object_def JSON_OBJECT_DEF_HASH_ENTRIES_def lh_table_new_def)
  then obtain t where t: "object_ops json_object_object_add object_get_ex json_object_object_del ops ?new =
      Some (t, snd (members_ops ops []))" "lh_rep t (fst (members_ops ops []))"
    using objects.ops_refine[of ?new "[]" ops] assms by (auto simp: json_object_object_add_def)
  then obtain xs where xs: "lh_ok t xs" "fst (members_ops ops []) = lh_items t xs" "distinct (map fst (lh_items t xs))"
    by (auto simp: lh_rep_def)
  obtain t' ys where t': "foreach_loop p t (if xs = [] then None else Some (hd xs)) = Some t'" "lh_ok t' ys"
      "lh_items t' ys = filter (\<lambda>(k, v). \<not> p k v) (lh_items t xs)"
    using foreach_loop_ok[of t "[]" xs p] xs by (auto simp: lh_items_def)
  moreover have "lh_head t = (if xs = [] then None else Some (hd xs))" using xs(1) by (simp add: lh_ok_def)
  ultimately show ?thesis using t(1) xs(2) iter_loop_ok[OF xs(1)] iter_loop_ok[OF t'(2)] by auto
qed

theorem json_object_iteration_witness:
  "\<exists>t t'. iter_loop t (json_object_iter_begin t) = Some [(Key ''a'', Some (1 :: nat)), (Key ''b'', Some 2), (Key ''c'', None)] \<and>
    foreach_loop (\<lambda>k v. v = Some 2) t (lh_head t) = Some t' \<and>
    iter_loop t' (json_object_iter_begin t') = Some [(Key ''a'', Some 1), (Key ''c'', None)]"
  using json_object_iteration[of "[Add ''a'' (Some (1 :: nat)), Add ''b'' (Some 2), Add ''c'' None]" "\<lambda>k. of_nat (length k)" "\<lambda>k v. v = Some 2"]
  by (simp add: members_add_def members_get_def) blast

end
