(* ===== verification/Json_Printbuf.thy ===== *)
theory Json_Printbuf
  imports C_Lib "HOL-Library.Monad_Syntax"
begin

text \<open>
  Growing text buffers (src/json-c/printbuf.c, printbuf.h). \<open>None\<close> is undefined behaviour: memory
  outside the buffer, or an \<open>int\<close> that overflows. \<open>mem\<close> says which sizes \<open>realloc\<close> and \<open>vasprintf\<close> get;
  new memory holds the byte \<open>junk\<close>. The arguments of a format and the formatting are its text here.
\<close>

record printbuf =
  pb_buf :: string
  pb_bpos :: int
  pb_size :: int

definition pb_int :: "int \<Rightarrow> int option" where
  "pb_int i = (if - (2 ^ 31) \<le> i \<and> i < 2 ^ 31 then Some i else None)"

definition pb_write :: "printbuf \<Rightarrow> int \<Rightarrow> string \<Rightarrow> printbuf option" where
  "pb_write p off xs =
    (if 0 \<le> off \<and> off + int (length xs) \<le> int (length (pb_buf p)) then Some (p\<lparr>pb_buf := put_at (nat off) xs (pb_buf p)\<rparr>) else None)"

definition printbuf_new :: "char \<Rightarrow> printbuf" where
  "printbuf_new junk = \<lparr>pb_buf = replicate 32 junk, pb_bpos = 0, pb_size = 32\<rparr>"

definition printbuf_extend :: "(int \<Rightarrow> bool) \<Rightarrow> char \<Rightarrow> printbuf \<Rightarrow> int \<Rightarrow> (printbuf \<times> int) option" where
  "printbuf_extend mem junk p min_size =
    (if min_size \<le> pb_size p then Some (p, 0)
     else do {
       twice \<leftarrow> pb_int (pb_size p * 2);
       more \<leftarrow> pb_int (min_size + 8);
       let new_size = (if twice < more then more else twice);
       Some (if mem new_size
             then (p\<lparr>pb_size := new_size, pb_buf := take (nat new_size) (pb_buf p) @ replicate (nat new_size - length (pb_buf p)) junk\<rparr>, 0)
             else (p, - 1))
     })"

text \<open>\<open>buf\<close> is the text of \<open>size\<close> bytes to append.\<close>

definition printbuf_memappend :: "(int \<Rightarrow> bool) \<Rightarrow> char \<Rightarrow> printbuf \<Rightarrow> string \<Rightarrow> (printbuf \<times> int) option" where
  "printbuf_memappend mem junk p buf = do {
     need \<leftarrow> pb_int (pb_bpos p + int (length buf) + 1);
     (p, r) \<leftarrow> (if pb_size p \<le> need then printbuf_extend mem junk p need else Some (p, 0));
     if r < 0 then Some (p, - 1)
     else do {
       p \<leftarrow> pb_write p (pb_bpos p) buf;
       let p = p\<lparr>pb_bpos := pb_bpos p + int (length buf)\<rparr>;
       p \<leftarrow> pb_write p (pb_bpos p) [NUL];
       Some (p, int (length buf))
     }
   }"

definition printbuf_memappend_fast :: "(int \<Rightarrow> bool) \<Rightarrow> char \<Rightarrow> printbuf \<Rightarrow> string \<Rightarrow> printbuf option" where
  "printbuf_memappend_fast mem junk p buf =
    (if int (length buf) < pb_size p - pb_bpos p
     then do {
       p \<leftarrow> pb_write p (pb_bpos p) buf;
       let p = p\<lparr>pb_bpos := pb_bpos p + int (length buf)\<rparr>;
       pb_write p (pb_bpos p) [NUL]
     }
     else map_option fst (printbuf_memappend mem junk p buf))"

definition printbuf_memset :: "(int \<Rightarrow> bool) \<Rightarrow> char \<Rightarrow> printbuf \<Rightarrow> int \<Rightarrow> char \<Rightarrow> int \<Rightarrow> (printbuf \<times> int) option" where
  "printbuf_memset mem junk pb offset charvalue len = do {
     let offset = (if offset = - 1 then pb_bpos pb else offset);
     size_needed \<leftarrow> pb_int (offset + len);
     (pb, r) \<leftarrow> (if pb_size pb < size_needed then printbuf_extend mem junk pb size_needed else Some (pb, 0));
     if r < 0 then Some (pb, - 1)
     else if len < 0 then None
     else do {
       pb \<leftarrow> pb_write pb offset (replicate (nat len) charvalue);
       Some (if pb_bpos pb < size_needed then pb\<lparr>pb_bpos := size_needed\<rparr> else pb, 0)
     }
   }"

text \<open>Texts of 128 bytes and more go through memory of their own. The result of appending is not looked at.\<close>

definition sprintbuf :: "(int \<Rightarrow> bool) \<Rightarrow> char \<Rightarrow> printbuf \<Rightarrow> string \<Rightarrow> (printbuf \<times> int) option" where
  "sprintbuf mem junk p txt =
    (if 127 < length txt \<and> \<not> mem (int (length txt) + 1) then Some (p, - 1)
     else map_option (\<lambda>(p, r). (p, int (length txt))) (printbuf_memappend mem junk p txt))"

definition printbuf_reset :: "printbuf \<Rightarrow> printbuf option" where
  "printbuf_reset p = map_option (pb_bpos_update (\<lambda>_. 0)) (pb_write p 0 [NUL])"

definition printbuf_length :: "printbuf \<Rightarrow> int" where
  "printbuf_length p = pb_bpos p"

section \<open>The text\<close>

definition pb_ok :: "printbuf \<Rightarrow> bool" where
  "pb_ok p \<longleftrightarrow> pb_size p = int (length (pb_buf p)) \<and> 0 < pb_size p \<and> 0 \<le> pb_bpos p \<and> pb_bpos p \<le> pb_size p \<and> pb_size p < 2 ^ 31"

definition pb_text :: "printbuf \<Rightarrow> string" where
  "pb_text p = take (nat (pb_bpos p)) (pb_buf p)"

definition terminated :: "printbuf \<Rightarrow> bool" where
  "terminated p \<longleftrightarrow> pb_bpos p < pb_size p \<and> pb_buf p ! nat (pb_bpos p) = NUL"

lemma pb_ok_new: "pb_ok (printbuf_new junk)" "pb_text (printbuf_new junk) = []"
  by (simp_all add: pb_ok_def pb_text_def printbuf_new_def)

lemma pb_int_ok: "0 \<le> i \<Longrightarrow> i < 2 ^ 31 \<Longrightarrow> pb_int i = Some i"
  by (simp add: pb_int_def)

lemma extend_ok:
  assumes "pb_ok p" "0 \<le> need" "need \<le> 2 ^ 29"
  shows "\<exists>p' r. printbuf_extend mem junk p need = Some (p', r) \<and> pb_ok p' \<and> pb_text p' = pb_text p \<and> pb_bpos p' = pb_bpos p \<and>
    (r = 0 \<and> need \<le> pb_size p' \<and> (pb_size p < need \<longrightarrow> need + 8 \<le> pb_size p') \<or> r = - 1 \<and> p' = p \<and> mem \<noteq> (\<lambda>n. True))"
proof (cases "need \<le> pb_size p")
  case True
  then show ?thesis using assms(1) by (simp add: printbuf_extend_def)
next
  case False
  define n where "n = (if pb_size p * 2 < need + 8 then need + 8 else pb_size p * 2)"
  have n: "need + 8 \<le> n" "n < 2 ^ 31" "pb_size p \<le> n" using False assms by (auto simp: n_def pb_ok_def)
  have "pb_int (pb_size p * 2) = Some (pb_size p * 2)" "pb_int (need + 8) = Some (need + 8)"
    using False assms by (auto intro!: pb_int_ok simp: pb_ok_def)
  then have e: "printbuf_extend mem junk p need = Some (if mem n
      then (p\<lparr>pb_size := n, pb_buf := take (nat n) (pb_buf p) @ replicate (nat n - length (pb_buf p)) junk\<rparr>, 0) else (p, - 1))"
    using False by (simp add: printbuf_extend_def n_def Let_def)
  show ?thesis using e n assms(1,2) by (auto simp: pb_ok_def pb_text_def)
qed

lemma append_at_end:
  assumes "pb_ok p" "pb_bpos p + int (length buf) < pb_size p"
  obtains p' where "(do { p \<leftarrow> pb_write p (pb_bpos p) buf; let p = p\<lparr>pb_bpos := pb_bpos p + int (length buf)\<rparr>; pb_write p (pb_bpos p) [NUL] }) = Some p'"
    "pb_ok p'" "pb_text p' = pb_text p @ buf" "terminated p'"
proof -
  let ?i = "nat (pb_bpos p)"
  let ?p1 = "p\<lparr>pb_buf := put_at ?i buf (pb_buf p), pb_bpos := pb_bpos p + int (length buf)\<rparr>"
  let ?p2 = "?p1\<lparr>pb_buf := put_at (?i + length buf) [NUL] (put_at ?i buf (pb_buf p))\<rparr>"
  have fits: "?i + length buf < length (pb_buf p)" "0 \<le> pb_bpos p" using assms by (auto simp: pb_ok_def)
  have len: "length (pb_buf ?p2) = length (pb_buf p)" using fits by simp
  have "nat (pb_bpos p + int (length buf)) = ?i + length buf" using fits(2) by simp
  then have run: "(do { p \<leftarrow> pb_write p (pb_bpos p) buf; let p = p\<lparr>pb_bpos := pb_bpos p + int (length buf)\<rparr>; pb_write p (pb_bpos p) [NUL] }) = Some ?p2"
    using fits by (simp add: pb_write_def Let_def)
  have "pb_ok ?p2" using assms len by (auto simp: pb_ok_def)
  moreover have "pb_text ?p2 = pb_text p @ buf"
    using fits by (simp add: pb_text_def put_at_def nat_add_distrib min_def)
  moreover have "terminated ?p2" using fits assms by (simp add: terminated_def put_at_def nat_add_distrib nth_append min_def)
  ultimately show thesis using run that by blast
qed

lemma memappend_ok:
  assumes "pb_ok p" "pb_bpos p + int (length buf) + 1 \<le> 2 ^ 29"
  shows "\<exists>p' r. printbuf_memappend mem junk p buf = Some (p', r) \<and> pb_ok p' \<and>
    (if r = - 1 then p' = p \<and> mem \<noteq> (\<lambda>n. True) else r = int (length buf) \<and> pb_text p' = pb_text p @ buf \<and> terminated p')"
proof -
  let ?need = "pb_bpos p + int (length buf) + 1"
  have pos: "0 \<le> pb_bpos p" "pb_int ?need = Some ?need" using assms by (auto simp: pb_ok_def intro!: pb_int_ok)
  obtain p1 r where e: "(if pb_size p \<le> ?need then printbuf_extend mem junk p ?need else Some (p, 0)) = Some (p1, r)"
      "pb_ok p1" "pb_text p1 = pb_text p" "pb_bpos p1 = pb_bpos p" "r = 0 \<and> ?need \<le> pb_size p1 \<or> r = - 1 \<and> p1 = p \<and> mem \<noteq> (\<lambda>n. True)"
  proof -
    have "\<exists>p1 r. (if pb_size p \<le> ?need then printbuf_extend mem junk p ?need else Some (p, 0)) = Some (p1, r) \<and>
      pb_ok p1 \<and> pb_text p1 = pb_text p \<and> pb_bpos p1 = pb_bpos p \<and> (r = 0 \<and> ?need \<le> pb_size p1 \<or> r = - 1 \<and> p1 = p \<and> mem \<noteq> (\<lambda>n. True))"
      using extend_ok[OF assms(1), of ?need mem junk] pos(1) assms by fastforce
    then show thesis using that by blast
  qed
  show ?thesis
  proof (cases "r = - 1")
    case True
    then show ?thesis using e assms(1) pos(2) by (auto simp: printbuf_memappend_def)
  next
    case False
    then have fits: "pb_bpos p1 + int (length buf) < pb_size p1" "r = 0" using e by auto
    obtain p2 where "(do { p \<leftarrow> pb_write p1 (pb_bpos p1) buf; let p = p\<lparr>pb_bpos := pb_bpos p + int (length buf)\<rparr>; pb_write p (pb_bpos p) [NUL] }) = Some p2"
        "pb_ok p2" "pb_text p2 = pb_text p1 @ buf" "terminated p2"
      by (rule append_at_end[OF e(2) fits(1)])
    then show ?thesis using e(1,3) fits(2) pos(2)
      by (intro exI[of _ p2] exI[of _ "int (length buf)"]) (auto simp: printbuf_memappend_def Let_def bind_eq_Some_conv)
  qed
qed

lemma memappend_fast_ok:
  assumes "pb_ok p" "pb_bpos p + int (length buf) + 1 \<le> 2 ^ 29"
  shows "\<exists>p'. printbuf_memappend_fast (\<lambda>n. True) junk p buf = Some p' \<and> pb_ok p' \<and> pb_text p' = pb_text p @ buf \<and> terminated p'"
proof (cases "int (length buf) < pb_size p - pb_bpos p")
  case True
  then have "pb_bpos p + int (length buf) < pb_size p" by simp
  then obtain p' where "(do { p \<leftarrow> pb_write p (pb_bpos p) buf; let p = p\<lparr>pb_bpos := pb_bpos p + int (length buf)\<rparr>; pb_write p (pb_bpos p) [NUL] }) = Some p'"
      "pb_ok p'" "pb_text p' = pb_text p @ buf" "terminated p'"
    by (rule append_at_end[OF assms(1)])
  then show ?thesis using True by (auto simp: printbuf_memappend_fast_def)
next
  case False
  then show ?thesis using memappend_ok[OF assms, of "\<lambda>n. True" junk] by (auto simp: printbuf_memappend_fast_def split: if_splits)
qed

lemma sprintbuf_ok:
  assumes "pb_ok p" "pb_bpos p + int (length txt) + 1 \<le> 2 ^ 29"
  shows "\<exists>p'. sprintbuf (\<lambda>n. True) junk p txt = Some (p', int (length txt)) \<and> pb_ok p' \<and> pb_text p' = pb_text p @ txt \<and> terminated p'"
  using memappend_ok[OF assms, of "\<lambda>n. True" junk] by (auto simp: sprintbuf_def split: if_splits)

lemma memset_ok:
  assumes "pb_ok p" "pb_bpos p + int n + 1 \<le> 2 ^ 29"
  shows "\<exists>p'. printbuf_memset (\<lambda>n. True) junk p (- 1) c (int n) = Some (p', 0) \<and> pb_ok p' \<and> pb_text p' = pb_text p @ replicate n c"
proof -
  let ?need = "pb_bpos p + int n"
  have pos: "0 \<le> pb_bpos p" "pb_int ?need = Some ?need" using assms by (auto simp: pb_ok_def intro!: pb_int_ok)
  obtain p1 where e: "(if pb_size p < ?need then printbuf_extend (\<lambda>n. True) junk p ?need else Some (p, 0)) = Some (p1, 0)"
      "pb_ok p1" "pb_text p1 = pb_text p" "pb_bpos p1 = pb_bpos p" "?need \<le> pb_size p1"
  proof -
    have "\<exists>p1. (if pb_size p < ?need then printbuf_extend (\<lambda>n. True) junk p ?need else Some (p, 0)) = Some (p1, 0) \<and>
      pb_ok p1 \<and> pb_text p1 = pb_text p \<and> pb_bpos p1 = pb_bpos p \<and> ?need \<le> pb_size p1"
      using extend_ok[OF assms(1), of ?need "\<lambda>n. True" junk] pos(1) assms by fastforce
    then show thesis using that by blast
  qed
  let ?p2 = "p1\<lparr>pb_buf := put_at (nat (pb_bpos p1)) (replicate n c) (pb_buf p1), pb_bpos := ?need\<rparr>"
  have fits: "nat (pb_bpos p1) + n \<le> length (pb_buf p1)" using e(2,4,5) pos(1) by (auto simp: pb_ok_def)
  have "printbuf_memset (\<lambda>n. True) junk p (- 1) c (int n) = Some (?p2, 0)"
    using e(1,2,4) fits pos by (auto simp: printbuf_memset_def Let_def pb_write_def pb_ok_def)
  moreover have "pb_ok ?p2" using e(2,5) fits pos(1) by (auto simp: pb_ok_def)
  moreover have "pb_text ?p2 = pb_text p1 @ replicate n c"
    using fits e(4) pos(1) by (simp add: pb_text_def put_at_def nat_add_distrib min_def)
  ultimately show ?thesis using e(3) by auto
qed

lemma reset_ok: "pb_ok p \<Longrightarrow> \<exists>p'. printbuf_reset p = Some p' \<and> pb_ok p' \<and> pb_text p' = [] \<and> terminated p'"
  by (auto simp: printbuf_reset_def pb_write_def pb_ok_def pb_text_def terminated_def put_at_def)

section \<open>Sequences of operations\<close>

datatype pb_op = Append string | Append_fast string | Format string | Pad char nat | Reset

fun pb_run :: "(int \<Rightarrow> bool) \<Rightarrow> char \<Rightarrow> pb_op list \<Rightarrow> printbuf \<Rightarrow> printbuf option" where
  "pb_run mem junk [] p = Some p"
| "pb_run mem junk (Append s # ops) p = Option.bind (printbuf_memappend mem junk p s) (pb_run mem junk ops \<circ> fst)"
| "pb_run mem junk (Append_fast s # ops) p = Option.bind (printbuf_memappend_fast mem junk p s) (pb_run mem junk ops)"
| "pb_run mem junk (Format s # ops) p = Option.bind (sprintbuf mem junk p s) (pb_run mem junk ops \<circ> fst)"
| "pb_run mem junk (Pad c n # ops) p = Option.bind (printbuf_memset mem junk p (- 1) c (int n)) (pb_run mem junk ops \<circ> fst)"
| "pb_run mem junk (Reset # ops) p = Option.bind (printbuf_reset p) (pb_run mem junk ops)"

fun pb_spec :: "pb_op list \<Rightarrow> string \<Rightarrow> string" where
  "pb_spec [] t = t"
| "pb_spec (Append s # ops) t = pb_spec ops (t @ s)"
| "pb_spec (Append_fast s # ops) t = pb_spec ops (t @ s)"
| "pb_spec (Format s # ops) t = pb_spec ops (t @ s)"
| "pb_spec (Pad c n # ops) t = pb_spec ops (t @ replicate n c)"
| "pb_spec (Reset # ops) t = pb_spec ops []"

fun pb_amount :: "pb_op list \<Rightarrow> nat" where
  "pb_amount [] = 0"
| "pb_amount (Append s # ops) = length s + pb_amount ops"
| "pb_amount (Append_fast s # ops) = length s + pb_amount ops"
| "pb_amount (Format s # ops) = length s + pb_amount ops"
| "pb_amount (Pad c n # ops) = n + pb_amount ops"
| "pb_amount (Reset # ops) = pb_amount ops"

lemma pb_bpos_text: "pb_ok p \<Longrightarrow> pb_bpos p = int (length (pb_text p))"
  by (auto simp: pb_ok_def pb_text_def)

lemma pb_run_ok:
  "pb_ok p \<Longrightarrow> length (pb_text p) + pb_amount ops < 2 ^ 29 \<Longrightarrow>
     \<exists>p'. pb_run (\<lambda>n. True) junk ops p = Some p' \<and> pb_ok p' \<and> pb_text p' = pb_spec ops (pb_text p) \<and>
       (if ops = [] then p' = p else (\<forall>c n. last ops \<noteq> Pad c n) \<longrightarrow> terminated p')"
proof (induction ops arbitrary: p)
  case (Cons op ops)
  have step: "\<exists>p'. pb_run (\<lambda>n. True) junk ops p1 = Some p' \<and> pb_ok p' \<and> pb_text p' = pb_spec ops t \<and>
      ((\<forall>c n. last (op # ops) \<noteq> Pad c n) \<longrightarrow> terminated p')"
    if "pb_ok p1" "pb_text p1 = t" "length t + pb_amount ops < 2 ^ 29" "(\<forall>c n. op \<noteq> Pad c n) \<longrightarrow> terminated p1" for p1 t
    using Cons.IH[of p1] that by (auto split: if_splits)
  show ?case
  proof (cases op)
    case (Append s)
    then obtain p1 where "printbuf_memappend (\<lambda>n. True) junk p s = Some (p1, int (length s))" "pb_ok p1" "pb_text p1 = pb_text p @ s" "terminated p1"
      using memappend_ok[of p s "\<lambda>n. True" junk] Cons.prems pb_bpos_text[of p] by (auto split: if_splits)
    then show ?thesis using Append step[of p1] Cons.prems by simp
  next
    case (Append_fast s)
    then obtain p1 where "printbuf_memappend_fast (\<lambda>n. True) junk p s = Some p1" "pb_ok p1" "pb_text p1 = pb_text p @ s" "terminated p1"
      using memappend_fast_ok[of p s junk] Cons.prems pb_bpos_text[of p] by auto
    then show ?thesis using Append_fast step[of p1] Cons.prems by simp
  next
    case (Format s)
    then obtain p1 where "sprintbuf (\<lambda>n. True) junk p s = Some (p1, int (length s))" "pb_ok p1" "pb_text p1 = pb_text p @ s" "terminated p1"
      using sprintbuf_ok[of p s junk] Cons.prems pb_bpos_text[of p] by auto
    then show ?thesis using Format step[of p1] Cons.prems by simp
  next
    case (Pad c n)
    then obtain p1 where "printbuf_memset (\<lambda>n. True) junk p (- 1) c (int n) = Some (p1, 0)" "pb_ok p1" "pb_text p1 = pb_text p @ replicate n c"
      using memset_ok[of p n junk c] Cons.prems pb_bpos_text[of p] by auto
    then show ?thesis using Pad step[of p1] Cons.prems by simp
  next
    case Reset
    then obtain p1 where "printbuf_reset p = Some p1" "pb_ok p1" "pb_text p1 = []" "terminated p1"
      using reset_ok[of p] Cons.prems by auto
    then show ?thesis using Reset step[of p1] Cons.prems by simp
  qed
qed simp

lemma c_str_cut: "c_str (xs @ NUL # ys) = c_str xs"
  by (induction xs) (auto simp: c_str_def)

lemma terminated_c_str:
  assumes "pb_ok p" "terminated p"
  shows "c_str (pb_buf p) = c_str (pb_text p)"
proof -
  have "nat (pb_bpos p) < length (pb_buf p)" using assms by (auto simp: pb_ok_def terminated_def)
  then have "pb_buf p = pb_text p @ NUL # drop (Suc (nat (pb_bpos p))) (pb_buf p)"
    using assms(2) by (metis id_take_nth_drop pb_text_def terminated_def)
  then show ?thesis by (metis c_str_cut)
qed

text \<open>
  C26. A text buffer holds what was put into it: after any sequence of appends (by the function or by
  the macro), formats, pads and resets, with memory and below \<open>2 ^ 29\<close> bytes, no write was outside
  the buffer and the text is theirs, joined; read as a C string it is that text up to its first null,
  unless the last operation was a pad, which leaves no terminator.
\<close>

theorem printbuf_holds_text:
  assumes "pb_amount ops < 2 ^ 29"
  shows "\<exists>p. pb_run (\<lambda>n. True) junk ops (printbuf_new junk) = Some p \<and> printbuf_length p = int (length (pb_spec ops [])) \<and>
    pb_text p = pb_spec ops [] \<and>
    (ops \<noteq> [] \<and> (\<forall>c n. last ops \<noteq> Pad c n) \<longrightarrow> c_str (pb_buf p) = c_str (pb_spec ops []))"
proof -
  obtain p where p: "pb_run (\<lambda>n. True) junk ops (printbuf_new junk) = Some p" "pb_ok p" "pb_text p = pb_spec ops []"
      "if ops = [] then p = printbuf_new junk else (\<forall>c n. last ops \<noteq> Pad c n) \<longrightarrow> terminated p"
    using pb_run_ok[of "printbuf_new junk" ops junk] assms pb_ok_new[of junk] by auto
  then have "ops \<noteq> [] \<and> (\<forall>c n. last ops \<noteq> Pad c n) \<longrightarrow> c_str (pb_buf p) = c_str (pb_spec ops [])"
    using terminated_c_str[of p] by simp
  then show ?thesis using p(1-3) pb_bpos_text[of p] by (intro exI[of _ p]) (simp add: printbuf_length_def)
qed

theorem printbuf_holds_text_witness:
  "\<exists>p. pb_run (\<lambda>n. True) (CHR ''?'') [Format ''{'', Pad SPC 40, Append ''x'', Append_fast ''}''] (printbuf_new (CHR ''?'')) = Some p \<and>
     c_str (pb_buf p) = ''{'' @ replicate 40 SPC @ ''x}''"
proof -
  let ?ops = "[Format ''{'', Pad SPC 40, Append ''x'', Append_fast ''}'']"
  have small: "pb_amount ?ops < 2 ^ 29" by simp
  have joined: "pb_spec ?ops [] = ''{'' @ replicate 40 SPC @ ''x}''" by simp
  have "c_str (''{'' @ replicate 40 SPC @ ''x}'') = ''{'' @ replicate 40 SPC @ ''x}''" by (rule c_str_no_NUL) auto
  then show ?thesis using printbuf_holds_text[OF small, of "CHR ''?''", unfolded joined] by auto
qed

end
