(* ===== verification/Json_File.thy ===== *)
theory Json_File
  imports Json_Printbuf Json_Roundtrip
begin

text \<open>
  Values in files (src/json-c/json_util.c): reading a file in pieces into a text buffer and parsing it,
  and writing the text of a value in as many writes as it takes. What the system answers is a parameter.
\<close>

section \<open>Reading\<close>

text \<open>
  The answers of \<open>read\<close> before the one of 0, which ends the file; a failed read ends the list. Results of
  appending are dropped. The buffer's text is parsed up to a null character, which has to be in it.
\<close>

datatype read_answer = Chunk string | Read_failed

fun read_loop :: "(int \<Rightarrow> bool) \<Rightarrow> char \<Rightarrow> read_answer list \<Rightarrow> printbuf \<Rightarrow> (printbuf \<times> int) option" where
  "read_loop mem junk [] pb = Some (pb, 0)"
| "read_loop mem junk (Read_failed # answers) pb = Some (pb, - 1)"
| "read_loop mem junk (Chunk buf # answers) pb = do {
     (pb, r) \<leftarrow> printbuf_memappend mem junk pb buf;
     read_loop mem junk answers pb
   }"

definition json_object_from_file ::
  "'d c_double \<Rightarrow> int_scan \<Rightarrow> bool \<Rightarrow> (int \<Rightarrow> bool) \<Rightarrow> char \<Rightarrow> read_answer list \<Rightarrow> 'd json option" where
  "json_object_from_file D scan opened mem junk answers =
    (if \<not> opened then Some J_null
     else if \<not> mem 32 then Some J_null
     else do {
       (pb, ret) \<leftarrow> read_loop mem junk answers (printbuf_new junk);
       if ret < 0 then Some J_null
       else if NUL \<in> set (pb_buf pb) then json_tokener_parse D scan (pb_buf pb) else None
     })"

section \<open>Writing\<close>

text \<open>
  \<open>wr i n\<close> is what the \<open>i\<close>-th write of \<open>n\<close> bytes returns; so many of them are then in the file. A write that
  returns 0 is repeated. The result is the returned code and the contents of the file, if it was opened.
\<close>

partial_function (option) write_loop :: "(nat \<Rightarrow> nat \<Rightarrow> int) \<Rightarrow> nat \<Rightarrow> string \<Rightarrow> nat \<Rightarrow> nat \<Rightarrow> string \<Rightarrow> (int \<times> string) option" where
  [code]: "write_loop wr i json_str wsize wpos contents =
    (if wsize \<le> wpos then Some (0, contents)
     else
       let ret = wr i (wsize - wpos) in
       if ret < 0 then Some (- 1, contents)
       else write_loop wr (i + 1) json_str wsize ((wpos + nat ret) mod 2 ^ 32) (contents @ take (nat ret) (drop wpos json_str)))"

definition json_object_to_file_ext ::
  "'d c_double \<Rightarrow> bool \<Rightarrow> (nat \<Rightarrow> nat \<Rightarrow> int) \<Rightarrow> 'd json \<Rightarrow> 32 word \<Rightarrow> (int \<times> string option) option" where
  "json_object_to_file_ext D opened wr obj flags =
    (if obj = J_null then Some (- 1, None)
     else if \<not> opened then Some (- 1, None)
     else
       let json_str = json_object_to_json_string_ext D obj flags in
       map_option (\<lambda>(r, contents). (r, Some contents)) (write_loop wr 0 json_str (strlen json_str mod 2 ^ 32) 0 []))"

definition json_object_to_file :: "'d c_double \<Rightarrow> bool \<Rightarrow> (nat \<Rightarrow> nat \<Rightarrow> int) \<Rightarrow> 'd json \<Rightarrow> (int \<times> string option) option" where
  "json_object_to_file D opened wr obj = json_object_to_file_ext D opened wr obj JSON_C_TO_STRING_PLAIN"

section \<open>A value comes back\<close>

lemma read_loop_pb_run:
  "read_loop mem junk (map Chunk chunks) pb = map_option (\<lambda>p. (p, 0)) (pb_run mem junk (map Append chunks) pb)"
proof (induction chunks arbitrary: pb)
  case (Cons c chunks)
  then show ?case by (cases "printbuf_memappend mem junk pb c") auto
qed simp

lemma pb_spec_Append: "pb_spec (map Append chunks) s = s @ concat chunks"
  by (induction chunks arbitrary: s) auto

lemma pb_amount_Append: "pb_amount (map Append chunks) = length (concat chunks)"
  by (induction chunks) auto

lemma read_loop_text:
  assumes "concat chunks \<noteq> []" "length (concat chunks) < 2 ^ 29" "NUL \<notin> set (concat chunks)"
  shows "\<exists>pb. read_loop (\<lambda>n. True) junk (map Chunk chunks) (printbuf_new junk) = Some (pb, 0) \<and> c_str (pb_buf pb) = concat chunks \<and>
    NUL \<in> set (pb_buf pb)"
proof -
  let ?ops = "map Append chunks"
  have ne: "?ops \<noteq> []" using assms(1) by auto
  have no_pad: "\<forall>c n. last ?ops \<noteq> Pad c n" using ne by (auto simp: last_map)
  obtain pb where pb: "pb_run (\<lambda>n. True) junk ?ops (printbuf_new junk) = Some pb" "pb_ok pb" "pb_text pb = concat chunks" "terminated pb"
    using pb_run_ok[of "printbuf_new junk" ?ops junk] assms(2) ne no_pad pb_ok_new[of junk]
    by (auto simp: pb_amount_Append pb_spec_Append)
  have "c_str (pb_buf pb) = concat chunks" using terminated_c_str[OF pb(2,4)] pb(3) assms(3) by (simp add: c_str_no_NUL)
  moreover have "NUL \<in> set (pb_buf pb)"
  proof -
    have "nat (pb_bpos pb) < length (pb_buf pb)" using pb(2,4) by (auto simp: pb_ok_def terminated_def)
    then show ?thesis using pb(4) nth_mem[of "nat (pb_bpos pb)" "pb_buf pb"] by (simp add: terminated_def)
  qed
  ultimately show ?thesis using pb(1) by (simp add: read_loop_pb_run)
qed

lemma write_loop_all:
  assumes "\<And>i n. 0 < n \<Longrightarrow> 0 < wr i n \<and> wr i n \<le> int n" "length str < 2 ^ 32"
  shows "wpos \<le> length str \<Longrightarrow> contents = take wpos str \<Longrightarrow> write_loop wr i str (length str) wpos contents = Some (0, str)"
proof (induction "length str - wpos" arbitrary: wpos i contents rule: less_induct)
  case less
  show ?case
  proof (cases "length str \<le> wpos")
    case True
    then show ?thesis using less.prems by (subst write_loop.simps) simp
  next
    case False
    let ?ret = "wr i (length str - wpos)" and ?m = "nat (wr i (length str - wpos))"
    have r: "0 < ?ret" "?m \<le> length str - wpos" "0 < ?m" using assms(1)[of "length str - wpos" i] False by auto
    then have next_pos: "(wpos + ?m) mod 4294967296 = wpos + ?m" using assms(2) False by simp
    have c: "contents @ take ?m (drop wpos str) = take (wpos + ?m) str" using less.prems(2) by (simp add: take_add)
    have "write_loop wr (i + 1) str (length str) (wpos + ?m) (take (wpos + ?m) str) = Some (0, str)"
      using r False by (intro less.hyps) auto
    then show ?thesis using False r(1) by (subst write_loop.simps) (simp add: Let_def next_pos c)
  qed
qed

lemma json_tokener_parse_c_str: "json_tokener_parse D scan str = json_tokener_parse D scan (c_str str)"
proof -
  have "json_tokener_parse_ex D scan tok str (- 1) = json_tokener_parse_ex D scan tok (c_str str) (- 1)" for tok
    unfolding json_tokener_parse_ex_def strlen_def c_str_idem by simp
  then show ?thesis by (simp add: json_tokener_parse_def json_tokener_parse_verbose_def)
qed

lemma json_tokener_parse_text:
  assumes "json_readable D v" "json_depth v \<le> 32" "length (json_object_to_json_string_ext D v flags) < 2 ^ 29"
  shows "json_tokener_parse D sscanf_int64 (json_object_to_json_string_ext D v flags) = Some v"
proof -
  let ?tok = "json_tokener_new_ex JSON_TOKENER_DEFAULT_DEPTH :: 'a tokener"
  have "tk_top ?tok = json_tokener_reset_level" "tk_below ?tok = []" "int (json_depth v) \<le> tk_max_depth ?tok"
    using assms(2) by (simp_all add: json_tokener_new_ex_def JSON_TOKENER_DEFAULT_DEPTH_def)
  then obtain tok' where "json_tokener_parse_ex D sscanf_int64 ?tok (json_object_to_json_string_ext D v flags) (- 1) = Some (tok', v)"
      "tk_err tok' = json_tokener_success"
    using json_text_parsed[OF assms(1), of ?tok flags] assms(3) by auto
  then show ?thesis by (simp add: json_tokener_parse_def json_tokener_parse_verbose_def)
qed

text \<open>
  C27. A value written to a file and read again: as long as every write makes progress the file holds its text,
  whatever pieces it was written in, and reading it in any pieces gives the value back. This is for values
  other than the null pointer whose text is parsed back (distinct keys without null characters, doubles
  that carry the text they were read from), nested at most 32 deep, and with a text shorter than $2^{29}$ bytes,
  with memory for the buffer.
\<close>
theorem json_file_roundtrip:
  assumes "json_readable D v" "json_depth v \<le> 32" "length (json_object_to_json_string_ext D v flags) < 2 ^ 29" "v \<noteq> J_null"
    and "\<And>i n. 0 < n \<Longrightarrow> 0 < wr i n \<and> wr i n \<le> int n"
    and "concat chunks = json_object_to_json_string_ext D v flags"
  shows "json_object_to_file_ext D True wr v flags = Some (0, Some (concat chunks)) \<and>
    json_object_from_file D sscanf_int64 True (\<lambda>n. True) junk (map Chunk chunks) = Some v"
proof -
  let ?text = "json_object_to_json_string_ext D v flags"
  have printed: "?text = to_json_string D v 0 flags" by (rule text_ext_eq[OF assms(1)])
  have NUL: "NUL \<notin> set ?text" unfolding printed by (rule NUL_text[OF assms(1)])
  have ne: "?text \<noteq> []" unfolding printed using hd_value[OF assms(1)] by blast
  have len: "strlen ?text mod 2 ^ 32 = length ?text" using assms(3) by (simp add: strlen_def c_str_no_NUL[OF NUL])
  have "write_loop wr 0 ?text (length ?text) 0 [] = Some (0, ?text)"
    using assms(3) by (intro write_loop_all[OF assms(5)]) simp_all
  then have "json_object_to_file_ext D True wr v flags = Some (0, Some (concat chunks))"
    using assms(4,6) len by (simp add: json_object_to_file_ext_def)
  moreover obtain pb where "read_loop (\<lambda>n. True) junk (map Chunk chunks) (printbuf_new junk) = Some (pb, 0)" "c_str (pb_buf pb) = ?text"
      "NUL \<in> set (pb_buf pb)"
    using read_loop_text[of chunks junk] assms(3,6) NUL ne by auto
  then have "json_object_from_file D sscanf_int64 True (\<lambda>n. True) junk (map Chunk chunks) = Some v"
    using json_tokener_parse_text[OF assms(1-3)] json_tokener_parse_c_str[of D sscanf_int64 "pb_buf pb"]
    by (simp add: json_object_from_file_def)
  ultimately show ?thesis by blast
qed

theorem json_file_roundtrip_witness:
  "json_object_to_file_ext text_double True (\<lambda>i n. int ((n + 1) div 2)) (J_array [J_boolean True, J_null]) 0 = Some (0, Some ''[true,null]'') \<and>
    json_object_from_file text_double sscanf_int64 True (\<lambda>n. True) (CHR ''?'') [Chunk ''[tru'', Chunk ''e,null]''] = Some (J_array [J_boolean True, J_null])"
proof -
  have printed: "json_object_to_json_string_ext text_double (J_array [J_boolean True, J_null]) 0 = ''[true,null]''" by code_simp
  show ?thesis
    using json_file_roundtrip[of text_double "J_array [J_boolean True, J_null]" 0 "\<lambda>i n. int ((n + 1) div 2)" "[''[tru'', ''e,null]'']" "CHR ''?''"]
    by (simp add: printed)
qed

text \<open>The buffer of an empty file is new memory, which is parsed as it is.\<close>

lemma json_object_from_file_empty:
  "junk \<noteq> NUL \<Longrightarrow> json_object_from_file D scan True (\<lambda>n. True) junk [] = None"
  by (simp add: json_object_from_file_def printbuf_new_def)

end
