(* ===== verification/Json_Array.thy ===== *)
theory Json_Array
  imports "HOL-Library.Word"
begin

text \<open>
  Arrays that grow (src/json-c/arraylist.c). Elements are pointers, \<open>None\<close> the null pointer; the
  elements passed to the free function are a result. \<open>None\<close> as a result is undefined behaviour: an
  index outside the array, or an \<open>int\<close> that overflows. \<open>mem\<close> says whether \<open>realloc\<close> gives a size.
\<close>

record 'v array_list =
  al_array :: "'v option list"
  al_length :: int
  al_size :: int

definition ARRAY_LIST_DEFAULT_SIZE :: int where
  "ARRAY_LIST_DEFAULT_SIZE = 32"

definition INT_MAX :: int where
  "INT_MAX = 2 ^ 31 - 1"

definition array_list_new :: "'v array_list" where
  "array_list_new = \<lparr>al_array = replicate (nat ARRAY_LIST_DEFAULT_SIZE) None, al_length = 0, al_size = ARRAY_LIST_DEFAULT_SIZE\<rparr>"

definition array_list_free :: "'v array_list \<Rightarrow> 'v list option" where
  "array_list_free arr =
    (if al_length arr \<le> int (length (al_array arr))
     then Some (map the (filter (\<lambda>v. v \<noteq> None) (take (nat (al_length arr)) (al_array arr)))) else None)"

definition array_list_get_idx :: "'v array_list \<Rightarrow> int \<Rightarrow> 'v option option" where
  "array_list_get_idx arr i =
    (if al_length arr \<le> i then Some None
     else if i < 0 \<or> int (length (al_array arr)) \<le> i then None
     else Some (al_array arr ! nat i))"

definition array_list_expand_internal :: "(int \<Rightarrow> bool) \<Rightarrow> 'v array_list \<Rightarrow> int \<Rightarrow> ('v array_list \<times> int) option" where
  "array_list_expand_internal mem arr mx =
    (if mx < al_size arr then Some (arr, 0)
     else if INT_MAX < 2 * al_size arr then None
     else
       let new_size = 2 * al_size arr; new_size = (if new_size < mx then mx else new_size) in
       if \<not> mem new_size then Some (arr, - 1)
       else Some (arr\<lparr>al_array := al_array arr @ replicate (nat (new_size - al_size arr)) None, al_size := new_size\<rparr>, 0))"

text \<open>The result is the array, the returned code and the element that was freed.\<close>

definition array_list_put_idx :: "(int \<Rightarrow> bool) \<Rightarrow> 'v array_list \<Rightarrow> int \<Rightarrow> 'v option \<Rightarrow> ('v array_list \<times> int \<times> 'v option) option" where
  "array_list_put_idx mem arr idx data =
    (if INT_MAX < idx + 1 then None
     else case array_list_expand_internal mem arr (idx + 1) of
       None \<Rightarrow> None
     | Some (arr, r) \<Rightarrow>
         if r \<noteq> 0 then Some (arr, - 1, None)
         else if idx < 0 \<or> int (length (al_array arr)) \<le> idx then None
         else Some (arr\<lparr>al_array := (al_array arr)[nat idx := data],
                        al_length := if al_length arr \<le> idx then idx + 1 else al_length arr\<rparr>, 0, al_array arr ! nat idx))"

definition array_list_add :: "(int \<Rightarrow> bool) \<Rightarrow> 'v array_list \<Rightarrow> 'v option \<Rightarrow> ('v array_list \<times> int \<times> 'v option) option" where
  "array_list_add mem arr data = array_list_put_idx mem arr (al_length arr) data"

text \<open>\<open>qsort\<close> on the first elements; the sorting is a parameter, a function of the elements.\<close>

definition array_list_sort :: "('v option list \<Rightarrow> 'v option list) \<Rightarrow> 'v array_list \<Rightarrow> 'v array_list" where
  "array_list_sort sort_fn arr =
    arr\<lparr>al_array := sort_fn (take (nat (al_length arr)) (al_array arr)) @ drop (nat (al_length arr)) (al_array arr)\<rparr>"

definition array_list_length :: "'v array_list \<Rightarrow> int" where
  "array_list_length arr = al_length arr"

section \<open>The array as a list\<close>

text \<open>The elements below the length; the rest of the memory is null.\<close>

definition al_ok :: "'v array_list \<Rightarrow> bool" where
  "al_ok arr \<longleftrightarrow> al_size arr = int (length (al_array arr)) \<and> 0 < al_size arr \<and> al_size arr \<le> INT_MAX \<and> 0 \<le> al_length arr \<and>
     al_length arr \<le> al_size arr \<and> (\<forall>i < length (al_array arr). al_length arr \<le> int i \<longrightarrow> al_array arr ! i = None)"

definition al_list :: "'v array_list \<Rightarrow> 'v option list" where
  "al_list arr = take (nat (al_length arr)) (al_array arr)"

lemma al_ok_new: "al_ok array_list_new" "al_list array_list_new = []"
  by (simp_all add: al_ok_def al_list_def array_list_new_def ARRAY_LIST_DEFAULT_SIZE_def INT_MAX_def)

lemma al_list_length: "al_ok arr \<Longrightarrow> length (al_list arr) = nat (al_length arr)"
  by (auto simp: al_ok_def al_list_def)

lemma expand_ok:
  assumes "al_ok arr" "array_list_expand_internal mem arr m = Some (arr', r)" "m \<le> INT_MAX"
  shows "al_ok arr' \<and> al_list arr' = al_list arr \<and> al_length arr' = al_length arr \<and> (r = 0 \<longrightarrow> m \<le> al_size arr') \<and> r \<in> {0, - 1}"
  using assms
  by (auto simp: array_list_expand_internal_def al_ok_def al_list_def Let_def nth_append split: if_splits)

text \<open>Writing at an index, as on a list that is filled with nulls up to it.\<close>

definition list_put :: "'v option list \<Rightarrow> nat \<Rightarrow> 'v option \<Rightarrow> 'v option list" where
  "list_put xs i v = (xs @ replicate (Suc i - length xs) None)[i := v]"

lemma put_idx_ok:
  assumes "al_ok arr" "0 \<le> idx" "idx < INT_MAX" "2 * al_size arr \<le> INT_MAX"
  shows "\<exists>arr' r old. array_list_put_idx mem arr idx data = Some (arr', r, old) \<and> al_ok arr' \<and>
    (if r = 0 then al_list arr' = list_put (al_list arr) (nat idx) data \<and>
         old = (if idx < al_length arr then al_list arr ! nat idx else None)
     else r = - 1 \<and> al_list arr' = al_list arr \<and> old = None) \<and>
    (mem = (\<lambda>n. True) \<longrightarrow> r = 0)"
proof -
  obtain a r where e: "array_list_expand_internal mem arr (idx + 1) = Some (a, r)" "mem = (\<lambda>n. True) \<longrightarrow> r = 0"
  proof -
    have "\<exists>a r. array_list_expand_internal mem arr (idx + 1) = Some (a, r) \<and> (mem = (\<lambda>n. True) \<longrightarrow> r = 0)"
      using assms(4) by (auto simp: array_list_expand_internal_def Let_def)
    then show thesis using that by blast
  qed
  have a: "al_ok a" "al_list a = al_list arr" "al_length a = al_length arr" "r = 0 \<longrightarrow> idx + 1 \<le> al_size a" "r \<in> {0, - 1}"
    using expand_ok[OF assms(1) e(1)] assms(3) by auto
  show ?thesis
  proof (cases "r = 0")
    case False
    then show ?thesis using e a assms(3) by (auto simp: array_list_put_idx_def)
  next
    case True
    let ?a = "a\<lparr>al_array := (al_array a)[nat idx := data], al_length := if al_length a \<le> idx then idx + 1 else al_length a\<rparr>"
    have in_range: "idx < int (length (al_array a))" using a True by (simp add: al_ok_def)
    have put: "array_list_put_idx mem arr idx data = Some (?a, 0, al_array a ! nat idx)"
      using e(1) True assms(2,3) in_range by (simp add: array_list_put_idx_def)
    have ok: "al_ok ?a" using a(1,4) True assms(2) by (auto simp: al_ok_def nth_list_update)
    have old: "al_array a ! nat idx = (if idx < al_length arr then al_list arr ! nat idx else None)"
    proof -
      have "al_array a ! nat idx = (if idx < al_length a then al_list a ! nat idx else None)"
        using a(1) in_range assms(2) by (auto simp: al_ok_def al_list_def)
      then show ?thesis using a(2,3) by simp
    qed
    have "al_list ?a = list_put (al_list a) (nat idx) data"
    proof (rule nth_equalityI)
      show len: "length (al_list ?a) = length (list_put (al_list a) (nat idx) data)"
        using a(1) al_list_length[OF ok] al_list_length[OF a(1)] assms(2) by (auto simp: list_put_def al_ok_def)
      fix i assume i: "i < length (al_list ?a)"
      have nulls: "replicate (Suc m - l) None ! (j - l) = (None :: 'a option)" if "j < Suc m" "\<not> j < l" for j l m :: nat
        using that by (intro nth_replicate) simp
      show "al_list ?a ! i = list_put (al_list a) (nat idx) data ! i"
        using i a(1) in_range assms(2) len by (auto simp: list_put_def al_list_def al_ok_def nth_list_update nth_append nulls split: if_splits)
    qed
    then show ?thesis using put ok old a(2) e(2) True by auto
  qed
qed

lemma list_put_behind: "list_put xs (length xs) v = xs @ [v]"
  by (simp add: list_put_def)

text \<open>
  C25. Putting an element at an index from 0 on, below the largest \<open>int\<close>, of an array in order whose memory is at
  most half of that: when the memory is there the element takes its place, the array is filled with nulls
  up to it, the element that was there is freed and all others are kept; when the array has to grow and there
  is no memory it is unchanged and the result is -1. Adding an element appends it and frees none. The
  array stays in order, so that its memory behind the length is null and nothing stale is freed.
\<close>

theorem array_list_put_idx_updates:
  assumes "al_ok arr" "0 \<le> idx" "idx < INT_MAX" "2 * al_size arr \<le> INT_MAX"
  shows "(\<exists>arr' r old. array_list_put_idx mem arr idx data = Some (arr', r, old) \<and> al_ok arr' \<and>
      (if r = 0 then al_list arr' = list_put (al_list arr) (nat idx) data \<and>
           old = (if idx < al_length arr then al_list arr ! nat idx else None)
       else r = - 1 \<and> al_list arr' = al_list arr \<and> old = None) \<and>
      (mem = (\<lambda>n. True) \<longrightarrow> r = 0)) \<and>
    (\<exists>arr' r. array_list_add mem arr data = Some (arr', r, None) \<and> al_ok arr' \<and>
      (if r = 0 then al_list arr' = al_list arr @ [data] else r = - 1 \<and> al_list arr' = al_list arr) \<and>
      (mem = (\<lambda>n. True) \<longrightarrow> r = 0))"
proof
  have len: "0 \<le> al_length arr" "al_length arr < INT_MAX" "nat (al_length arr) = length (al_list arr)"
    using assms(1,4) by (auto simp: al_ok_def al_list_def INT_MAX_def)
  obtain arr' r old where "array_list_put_idx mem arr (al_length arr) data = Some (arr', r, old)" "al_ok arr'" "mem = (\<lambda>n. True) \<longrightarrow> r = 0"
    "if r = 0 then al_list arr' = list_put (al_list arr) (length (al_list arr)) data \<and> old = None
     else r = - 1 \<and> al_list arr' = al_list arr \<and> old = None"
    using put_idx_ok[OF assms(1) len(1,2) assms(4), of mem data] by (simp only: len(3)) (elim exE conjE, simp split: if_splits)
  then show "\<exists>arr' r. array_list_add mem arr data = Some (arr', r, None) \<and> al_ok arr' \<and>
      (if r = 0 then al_list arr' = al_list arr @ [data] else r = - 1 \<and> al_list arr' = al_list arr) \<and> (mem = (\<lambda>n. True) \<longrightarrow> r = 0)"
    by (intro exI[of _ arr'] exI[of _ r]) (cases "r = 0"; simp add: array_list_add_def list_put_behind)
qed (rule put_idx_ok[OF assms])

theorem array_list_put_idx_updates_witness:
  "\<exists>arr' r old. array_list_put_idx (\<lambda>n. True) array_list_new 2 (Some (7 :: nat)) = Some (arr', r, old) \<and> al_ok arr' \<and>
     al_list arr' = [None, None, Some 7]"
proof -
  have new: "al_list (array_list_new :: nat array_list) = []" "al_size (array_list_new :: nat array_list) = 32" by (simp_all add: al_ok_new) (simp add: array_list_new_def ARRAY_LIST_DEFAULT_SIZE_def)
  have "list_put [] (nat 2) (Some 7) = [None, None, Some (7 :: nat)]" by (simp add: list_put_def eval_nat_numeral)
  then show ?thesis
    using array_list_put_idx_updates[OF al_ok_new(1), of 2 "\<lambda>n. True" "Some (7 :: nat)"] new by (auto simp: INT_MAX_def)
qed

end
