(* ===== verification/Json_Refs.thy ===== *)
theory Json_Refs
  imports Json_Table Json_Array "HOL-Library.Multiset"
begin

text \<open>
  Reference counts (src/json-c/json_object.c): values as cells of a heap that point to each other, and the
  operations that take, give and drop references. Objects are the list of their members and arrays the
  list of their elements (\<open>Json_Table\<close>, \<open>Json_Array\<close>); pointers are addresses, \<open>None\<close> the null pointer. \<open>None\<close>
  as a result is undefined behaviour: memory used that was freed, or a count that overflows.
\<close>

section \<open>Operations\<close>

datatype ref_data = R_scalar | R_object "(string \<times> nat option) list" | R_array "nat option list"

text \<open>\<open>c_user\<close> is the user data that a delete function of the user's goes with.\<close>

record cell =
  c_refs :: int
  c_data :: ref_data
  c_user :: "nat option"

text \<open>\<open>h_deleted\<close> are the user data their delete functions were called on.\<close>

record jheap =
  h_cells :: "nat \<Rightarrow> cell option"
  h_next :: nat
  h_deleted :: "nat list"

definition empty_heap :: jheap where
  "empty_heap = \<lparr>h_cells = (\<lambda>a. None), h_next = 0, h_deleted = []\<rparr>"

definition set_cell :: "nat \<Rightarrow> cell option \<Rightarrow> jheap \<Rightarrow> jheap" where
  "set_cell a c h = h\<lparr>h_cells := (h_cells h)(a := c)\<rparr>"

text \<open>The values a container gives up with itself, in the order of its list.\<close>

fun kids :: "ref_data \<Rightarrow> nat list" where
  "kids R_scalar = []"
| "kids (R_object ms) = List.map_filter snd ms"
| "kids (R_array vs) = List.map_filter id vs"

definition json_object_new :: "ref_data \<Rightarrow> jheap \<Rightarrow> jheap \<times> nat" where
  "json_object_new d h = (set_cell (h_next h) (Some \<lparr>c_refs = 1, c_data = d, c_user = None\<rparr>) h\<lparr>h_next := h_next h + 1\<rparr>, h_next h)"

definition json_object_get :: "nat option \<Rightarrow> jheap \<Rightarrow> jheap option" where
  "json_object_get jso h = (case jso of
      None \<Rightarrow> Some h
    | Some a \<Rightarrow> Option.bind (h_cells h a) (\<lambda>c. if INT_MAX \<le> c_refs c then None else Some (set_cell a (Some (c\<lparr>c_refs := c_refs c + 1\<rparr>)) h)))"

fun fold_option :: "('s \<Rightarrow> 'a \<Rightarrow> 's option) \<Rightarrow> 's \<Rightarrow> 'a list \<Rightarrow> 's option" where
  "fold_option f s [] = Some s"
| "fold_option f s (x # xs) = Option.bind (f s x) (\<lambda>s. fold_option f s xs)"

definition delete_user :: "nat option \<Rightarrow> jheap \<Rightarrow> jheap" where
  "delete_user u h = (case u of None \<Rightarrow> h | Some d \<Rightarrow> h\<lparr>h_deleted := h_deleted h @ [d]\<rparr>)"

text \<open>
  Dropping a reference: with the last one the user's delete function is called, then the references to the
  parts are dropped, then the memory is freed. The first argument bounds the depth.
\<close>

primrec put_cell :: "nat \<Rightarrow> jheap \<Rightarrow> nat \<Rightarrow> jheap option" where
  "put_cell 0 h a = None"
| "put_cell (Suc n) h a = (case h_cells h a of
      None \<Rightarrow> None
    | Some c \<Rightarrow>
        if c_refs c \<le> - INT_MAX - 1 then None
        else
          let h = set_cell a (Some (c\<lparr>c_refs := c_refs c - 1\<rparr>)) h in
          if c_refs c - 1 \<noteq> 0 then Some h
          else map_option (set_cell a None) (fold_option (put_cell n) (delete_user (c_user c) h) (kids (c_data c))))"

definition json_object_put :: "nat option \<Rightarrow> jheap \<Rightarrow> jheap option" where
  "json_object_put jso h = (case jso of None \<Rightarrow> Some h | Some a \<Rightarrow> put_cell (h_next h + 1) h a)"

definition json_object_set_serializer :: "nat \<Rightarrow> nat option \<Rightarrow> jheap \<Rightarrow> jheap option" where
  "json_object_set_serializer a u h =
    map_option (\<lambda>c. set_cell a (Some (c\<lparr>c_user := u\<rparr>)) (delete_user (c_user c) h)) (h_cells h a)"

text \<open>A place of a container is taken: the value that was there is dropped first.\<close>

definition replace_value :: "nat \<Rightarrow> nat option \<Rightarrow> (ref_data \<Rightarrow> ref_data) \<Rightarrow> jheap \<Rightarrow> jheap option" where
  "replace_value a old upd h =
    Option.bind (json_object_put old h) (\<lambda>h. map_option (\<lambda>c. set_cell a (Some (c\<lparr>c_data := upd (c_data c)\<rparr>)) h) (h_cells h a))"

fun data_members :: "ref_data \<Rightarrow> (string \<times> nat option) list option" where
  "data_members (R_object ms) = Some ms"
| "data_members _ = None"

fun data_elements :: "ref_data \<Rightarrow> nat option list option" where
  "data_elements (R_array vs) = Some vs"
| "data_elements _ = None"

fun add_member :: "string \<Rightarrow> nat option \<Rightarrow> ref_data \<Rightarrow> ref_data" where
  "add_member k v (R_object ms) = R_object (members_add ms k v)"
| "add_member k v d = d"

fun del_member :: "string \<Rightarrow> ref_data \<Rightarrow> ref_data" where
  "del_member k (R_object ms) = R_object (filter (\<lambda>e. fst e \<noteq> k) ms)"
| "del_member k d = d"

fun put_element :: "nat \<Rightarrow> nat option \<Rightarrow> ref_data \<Rightarrow> ref_data" where
  "put_element i v (R_array vs) = R_array (list_put vs i v)"
| "put_element i v d = d"

definition ref_object_add :: "nat \<Rightarrow> string \<Rightarrow> nat option \<Rightarrow> jheap \<Rightarrow> jheap option" where
  "ref_object_add a key val h = do {
     c \<leftarrow> h_cells h a;
     ms \<leftarrow> data_members (c_data c);
     replace_value a (members_get ms key) (add_member key val) h
   }"

definition ref_object_del :: "nat \<Rightarrow> string \<Rightarrow> jheap \<Rightarrow> jheap option" where
  "ref_object_del a key h = do {
     c \<leftarrow> h_cells h a;
     ms \<leftarrow> data_members (c_data c);
     replace_value a (members_get ms key) (del_member key) h
   }"

definition json_object_array_put_idx :: "nat \<Rightarrow> nat \<Rightarrow> nat option \<Rightarrow> jheap \<Rightarrow> jheap option" where
  "json_object_array_put_idx a idx val h = do {
     c \<leftarrow> h_cells h a;
     vs \<leftarrow> data_elements (c_data c);
     replace_value a (if idx < length vs then vs ! idx else None) (put_element idx val) h
   }"

definition ref_array_add :: "nat \<Rightarrow> nat option \<Rightarrow> jheap \<Rightarrow> jheap option" where
  "ref_array_add a val h = do {
     c \<leftarrow> h_cells h a;
     vs \<leftarrow> data_elements (c_data c);
     json_object_array_put_idx a (length vs) val h
   }"

section \<open>What a caller may do\<close>

text \<open>
  A caller holds references, a multiset of addresses: a new value and \<open>json_object_get\<close> give it one, adding
  a value to a container gives one away, \<open>json_object_put\<close> drops one. A value may be got that is in some
  container; a container that is changed is held by the caller.
\<close>

datatype ref_op = New ref_data | Get_ref nat | Put_ref nat | Add_member nat string "nat option" | Del_member nat string
  | Put_element nat nat "nat option" | Add_element nat "nat option" | Set_user nat "nat option"

fun exec_ref :: "ref_op \<Rightarrow> jheap \<Rightarrow> jheap option" where
  "exec_ref (New d) h = Some (fst (json_object_new d h))"
| "exec_ref (Get_ref a) h = json_object_get (Some a) h"
| "exec_ref (Put_ref a) h = json_object_put (Some a) h"
| "exec_ref (Add_member a k v) h = ref_object_add a k v h"
| "exec_ref (Del_member a k) h = ref_object_del a k h"
| "exec_ref (Put_element a i v) h = json_object_array_put_idx a i v h"
| "exec_ref (Add_element a v) h = ref_array_add a v h"
| "exec_ref (Set_user a u) h = json_object_set_serializer a u h"

fun given :: "nat option \<Rightarrow> nat multiset" where
  "given None = {#}"
| "given (Some a) = {#a#}"

fun held_after :: "ref_op \<Rightarrow> jheap \<Rightarrow> nat multiset \<Rightarrow> nat multiset" where
  "held_after (New d) h R = add_mset (h_next h) R"
| "held_after (Get_ref a) h R = add_mset a R"
| "held_after (Put_ref a) h R = R - {#a#}"
| "held_after (Add_member a k v) h R = R - given v"
| "held_after (Put_element a i v) h R = R - given v"
| "held_after (Add_element a v) h R = R - given v"
| "held_after _ h R = R"

definition is_data :: "(ref_data \<Rightarrow> 'a option) \<Rightarrow> nat \<Rightarrow> jheap \<Rightarrow> bool" where
  "is_data sel a h \<longleftrightarrow> (case h_cells h a of None \<Rightarrow> False | Some c \<Rightarrow> sel (c_data c) \<noteq> None)"

fun may :: "ref_op \<Rightarrow> jheap \<Rightarrow> nat multiset \<Rightarrow> bool" where
  "may (New d) h R = (d = R_scalar \<or> d = R_object [] \<or> d = R_array [])"
| "may (Get_ref a) h R = (case h_cells h a of None \<Rightarrow> False | Some c \<Rightarrow> c_refs c < INT_MAX)"
| "may (Put_ref a) h R = (a \<in># R)"
| "may (Add_member a k v) h R = (given v \<subseteq># R \<and> a \<in># R - given v \<and> is_data data_members a h)"
| "may (Del_member a k) h R = (a \<in># R \<and> is_data data_members a h)"
| "may (Put_element a i v) h R = (given v \<subseteq># R \<and> a \<in># R - given v \<and> is_data data_elements a h)"
| "may (Add_element a v) h R = (given v \<subseteq># R \<and> a \<in># R - given v \<and> is_data data_elements a h)"
| "may (Set_user a u) h R = (a \<in># R)"

fun run_refs :: "ref_op list \<Rightarrow> jheap \<Rightarrow> jheap option" where
  "run_refs [] h = Some h"
| "run_refs (op # ops) h = Option.bind (exec_ref op h) (run_refs ops)"

fun may_run :: "ref_op list \<Rightarrow> jheap \<Rightarrow> nat multiset \<Rightarrow> bool" where
  "may_run [] h R = True"
| "may_run (op # ops) h R = (may op h R \<and> (case exec_ref op h of None \<Rightarrow> True | Some h' \<Rightarrow> may_run ops h' (held_after op h R)))"

fun held_at_end :: "ref_op list \<Rightarrow> jheap \<Rightarrow> nat multiset \<Rightarrow> nat multiset" where
  "held_at_end [] h R = R"
| "held_at_end (op # ops) h R = (case exec_ref op h of None \<Rightarrow> R | Some h' \<Rightarrow> held_at_end ops h' (held_after op h R))"

end
