(* ===== verification/Json_Refs_Spec.thy ===== *)
theory Json_Refs_Spec
  imports Json_Refs
begin

text \<open>
  The invariant of reference counts: each count is the number of references to the cell, in containers and
  held by the caller, and no freed cell is referenced. While a cell dies, its memory is still there; those
  cells are kept apart (\<open>Z\<close>), and the references of the dying are the caller's.
\<close>

section \<open>The invariant\<close>

definition live :: "jheap \<Rightarrow> nat set \<Rightarrow> nat set" where
  "live h Z = {b. b < h_next h \<and> h_cells h b \<noteq> None} - Z"

definition cell_kids :: "jheap \<Rightarrow> nat \<Rightarrow> nat multiset" where
  "cell_kids h b = (case h_cells h b of None \<Rightarrow> {#} | Some c \<Rightarrow> mset (kids (c_data c)))"

definition held_in :: "jheap \<Rightarrow> nat set \<Rightarrow> nat multiset" where
  "held_in h Z = (\<Sum>b \<in> live h Z. cell_kids h b)"

definition keys_ok :: "ref_data \<Rightarrow> bool" where
  "keys_ok d \<longleftrightarrow> (\<forall>ms. d = R_object ms \<longrightarrow> distinct (map fst ms))"

text \<open>A cell with \<open>n\<close> references to it.\<close>

definition cell_inv :: "jheap \<Rightarrow> nat set \<Rightarrow> nat \<Rightarrow> nat \<Rightarrow> bool" where
  "cell_inv h Z a n \<longleftrightarrow> (case h_cells h a of
      None \<Rightarrow> a \<notin> Z \<and> n = 0
    | Some c \<Rightarrow> a < h_next h \<and> keys_ok (c_data c) \<and> (if a \<in> Z then n = 0 else c_refs c = int n \<and> 0 < n))"

definition ref_inv :: "jheap \<Rightarrow> nat set \<Rightarrow> nat multiset \<Rightarrow> bool" where
  "ref_inv h Z R \<longleftrightarrow> (\<forall>a. cell_inv h Z a (count (held_in h Z + R) a))"

lemma finite_live [simp]: "finite (live h Z)"
  by (simp add: live_def)

lemma held_in_insert:
  assumes "a \<in> live h Z"
  shows "held_in h Z = cell_kids h a + held_in h (insert a Z)"
proof -
  have "live h (insert a Z) = live h Z - {a}" by (auto simp: live_def)
  then show ?thesis using sum.remove[OF finite_live assms, of "cell_kids h"] by (simp add: held_in_def)
qed

lemma held_in_cong:
  assumes "live h' Z' = live h Z" "\<And>b. b \<in> live h Z \<Longrightarrow> cell_kids h' b = cell_kids h b"
  shows "held_in h' Z' = held_in h Z"
  using assms by (simp add: held_in_def)

text \<open>What dropping references leaves alone.\<close>

definition shrinks :: "nat set \<Rightarrow> jheap \<Rightarrow> jheap \<Rightarrow> bool" where
  "shrinks Z h h' \<longleftrightarrow> h_next h' = h_next h \<and> (\<forall>z \<in> Z. h_cells h' z = h_cells h z) \<and>
    (\<forall>b c'. h_cells h' b = Some c' \<longrightarrow> (\<exists>c. h_cells h b = Some c \<and> c_data c' = c_data c))"

lemma shrinks_refl: "shrinks Z h h"
  by (simp add: shrinks_def)

lemma shrinks_trans: "shrinks Z h h1 \<Longrightarrow> shrinks Z h1 h2 \<Longrightarrow> shrinks Z h h2"
  unfolding shrinks_def by fastforce

lemma shrinks_live: "shrinks Z h h' \<Longrightarrow> live h' Z \<subseteq> live h Z"
  by (fastforce simp: shrinks_def live_def)

lemma set_cell_simps [simp]:
  "h_cells (set_cell a c h) = (h_cells h)(a := c)" "h_next (set_cell a c h) = h_next h" "h_deleted (set_cell a c h) = h_deleted h"
  "h_cells (delete_user u h) = h_cells h" "h_next (delete_user u h) = h_next h"
  by (simp_all add: set_cell_def delete_user_def split: option.split)

lemma held_in_same_cells: "h_cells h' = h_cells h \<Longrightarrow> h_next h' = h_next h \<Longrightarrow> held_in h' Z = held_in h Z"
  by (simp add: held_in_def live_def cell_kids_def)

lemma cell_inv_same:
  "h_cells h' a = h_cells h a \<Longrightarrow> h_next h' = h_next h \<Longrightarrow> (a \<in> Z' \<longleftrightarrow> a \<in> Z) \<Longrightarrow> cell_inv h' Z' a n = cell_inv h Z a n"
  by (simp add: cell_inv_def cong: option.case_cong)

lemma ref_inv_same_cells: "h_cells h' = h_cells h \<Longrightarrow> h_next h' = h_next h \<Longrightarrow> ref_inv h' Z R = ref_inv h Z R"
  using held_in_same_cells[of h' h Z] cell_inv_same[of h' _ h Z Z] by (simp add: ref_inv_def)

text \<open>Another heap with as many references to every other cell.\<close>

lemma ref_inv_other:
  assumes "ref_inv h Z R" "\<And>b. b \<noteq> a \<Longrightarrow> h_cells h' b = h_cells h b \<and> (b \<in> Z' \<longleftrightarrow> b \<in> Z)" "h_next h' = h_next h"
    "\<And>b. b \<noteq> a \<Longrightarrow> count (held_in h' Z' + R') b = count (held_in h Z + R) b" "cell_inv h' Z' a (count (held_in h' Z' + R') a)"
  shows "ref_inv h' Z' R'"
  unfolding ref_inv_def
proof
  fix b
  show "cell_inv h' Z' b (count (held_in h' Z' + R') b)"
  proof (cases "b = a")
    case False
    have "cell_inv h Z b (count (held_in h Z + R) b)" using assms(1) by (simp add: ref_inv_def)
    then show ?thesis unfolding assms(4)[OF False] using assms(2)[OF False] assms(3) cell_inv_same[of h' b h Z' Z] by simp
  qed (use assms(5) in simp)
qed

section \<open>Dropping a reference\<close>

lemma ref_inv_cell:
  assumes "ref_inv h Z (add_mset a R)"
  obtains c where "h_cells h a = Some c" "a \<notin> Z" "a \<in> live h Z" "c_refs c = int (count (held_in h Z + R) a) + 1" "keys_ok (c_data c)"
proof -
  have "cell_inv h Z a (Suc (count (held_in h Z + R) a))" using assms by (auto simp: ref_inv_def dest: spec[of _ a])
  then show thesis by (auto simp: cell_inv_def live_def split: option.splits if_splits intro: that)
qed

lemma ref_inv_decrease:
  assumes "ref_inv h Z (add_mset a R)" "h_cells h a = Some c" "c_refs c \<noteq> 1" "a \<notin> Z"
  shows "ref_inv (set_cell a (Some (c\<lparr>c_refs := c_refs c - 1\<rparr>)) h) Z R"
proof -
  let ?h = "set_cell a (Some (c\<lparr>c_refs := c_refs c - 1\<rparr>)) h"
  have held: "held_in ?h Z = held_in h Z" using assms(2) by (intro held_in_cong) (auto simp: live_def cell_kids_def)
  have dec: "cell_inv h Z a (Suc n) \<Longrightarrow> cell_inv ?h Z a n" for n using assms(2-4) by (auto simp: cell_inv_def)
  have "cell_inv h Z a (Suc (count (held_in h Z + R) a))" using assms(1) by (auto simp: ref_inv_def dest: spec[of _ a])
  then have "cell_inv ?h Z a (count (held_in ?h Z + R) a)" unfolding held by (rule dec)
  then show ?thesis by (intro ref_inv_other[OF assms(1), of a]) (simp_all add: held)
qed

lemma ref_inv_die:
  assumes "ref_inv h Z (add_mset a R)" "h_cells h a = Some c" "c_refs c = 1" "a \<notin> Z"
  shows "ref_inv (set_cell a (Some (c\<lparr>c_refs := r\<rparr>)) h) (insert a Z) (mset (kids (c_data c)) + R)"
proof -
  let ?h = "set_cell a (Some (c\<lparr>c_refs := r\<rparr>)) h"
  have i: "cell_inv h Z a (Suc (count (held_in h Z + R) a))" using assms(1) by (auto simp: ref_inv_def dest: spec[of _ a])
  then have a: "a \<in> live h Z" using assms by (auto simp: cell_inv_def live_def)
  have "held_in ?h (insert a Z) = held_in h (insert a Z)"
    using assms(2) by (intro held_in_cong) (auto simp: live_def cell_kids_def)
  then have eq: "held_in ?h (insert a Z) + (mset (kids (c_data c)) + R) = held_in h Z + R"
    using held_in_insert[OF a] assms(2) by (simp add: cell_kids_def ac_simps)
  have "cell_inv ?h (insert a Z) a (count (held_in h Z + R) a)" using i assms(2-4) by (auto simp: cell_inv_def)
  then show ?thesis by (intro ref_inv_other[OF assms(1), of a]) (simp_all add: eq)
qed

lemma ref_inv_freed:
  assumes "ref_inv h (insert a Z) R" "a \<notin> Z"
  shows "ref_inv (set_cell a None h) Z R"
proof -
  have held: "held_in (set_cell a None h) Z = held_in h (insert a Z)"
    using assms(2) by (intro held_in_cong) (auto simp: live_def cell_kids_def)
  have "cell_inv h (insert a Z) a (count (held_in h (insert a Z) + R) a)" using assms(1) by (simp add: ref_inv_def)
  then have "cell_inv (set_cell a None h) Z a (count (held_in h (insert a Z) + R) a)"
    using assms(2) by (auto simp: cell_inv_def split: option.splits)
  then show ?thesis by (intro ref_inv_other[OF assms(1), of a]) (auto simp: held)
qed

lemma puts_ok:
  assumes "\<And>h R a. ref_inv h Z (add_mset a R) \<Longrightarrow> card (live h Z) < n \<Longrightarrow>
      \<exists>h'. put_cell n h a = Some h' \<and> ref_inv h' Z R \<and> shrinks Z h h'"
  shows "ref_inv h Z (mset as + R) \<Longrightarrow> card (live h Z) < n \<Longrightarrow>
      \<exists>h'. fold_option (put_cell n) h as = Some h' \<and> ref_inv h' Z R \<and> shrinks Z h h'"
proof (induction as arbitrary: h)
  case Nil
  then show ?case by (simp add: shrinks_refl)
next
  case (Cons a as)
  then obtain h1 where h1: "put_cell n h a = Some h1" "ref_inv h1 Z (mset as + R)" "shrinks Z h h1"
    using assms[of h a "mset as + R"] by auto
  have "card (live h1 Z) < n" using card_mono[OF finite_live shrinks_live[OF h1(3)]] Cons.prems(2) by simp
  then show ?case using Cons.IH[OF h1(2)] h1 shrinks_trans by fastforce
qed

lemma put_cell_ok:
  "ref_inv h Z (add_mset a R) \<Longrightarrow> card (live h Z) < n \<Longrightarrow>
     \<exists>h'. put_cell n h a = Some h' \<and> ref_inv h' Z R \<and> shrinks Z h h'"
proof (induction n arbitrary: h Z R a)
  case 0
  then show ?case by simp
next
  case (Suc n)
  obtain c where c: "h_cells h a = Some c" "a \<notin> Z" "a \<in> live h Z" "c_refs c = int (count (held_in h Z + R) a) + 1"
    by (rule ref_inv_cell[OF Suc.prems(1)])
  let ?h = "set_cell a (Some (c\<lparr>c_refs := c_refs c - 1\<rparr>)) h"
  have pos: "\<not> c_refs c \<le> - INT_MAX - 1" using c(4) by (simp add: INT_MAX_def)
  show ?case
  proof (cases "c_refs c = 1")
    case False
    have "shrinks Z h ?h" using c(1,2) by (auto simp: shrinks_def)
    then show ?thesis using False c(1) pos ref_inv_decrease[OF Suc.prems(1) c(1) False c(2)] by (simp add: Let_def)
  next
    case True
    let ?h2 = "delete_user (c_user c) ?h"
    have inv: "ref_inv ?h2 (insert a Z) (mset (kids (c_data c)) + R)"
      using ref_inv_die[OF Suc.prems(1) c(1) True c(2)] ref_inv_same_cells[of ?h2 ?h] by simp
    have "live ?h2 (insert a Z) = live h Z - {a}" using c(1) by (auto simp: live_def)
    then have card: "card (live ?h2 (insert a Z)) < n" using Suc.prems(2) card_Suc_Diff1[OF finite_live c(3)] by simp
    obtain h3 where h3: "fold_option (put_cell n) ?h2 (kids (c_data c)) = Some h3" "ref_inv h3 (insert a Z) R" "shrinks (insert a Z) ?h2 h3"
      using puts_ok[OF Suc.IH inv card] by blast
    have "shrinks Z h (set_cell a None h3)"
      using h3(3) c(1,2) by (auto simp: shrinks_def split: if_splits)
    then show ?thesis using True c(1) pos h3(1) ref_inv_freed[OF h3(2) c(2)] by (simp add: Let_def)
  qed
qed

lemma live_next: "card (live h Z) < h_next h + 1"
proof -
  have "live h Z \<subseteq> {..<h_next h}" by (auto simp: live_def)
  then have "card (live h Z) \<le> h_next h" using card_mono[of "{..<h_next h}" "live h Z"] by simp
  then show ?thesis by simp
qed

lemma json_object_put_ok:
  "ref_inv h {} (given p + R) \<Longrightarrow> \<exists>h'. json_object_put p h = Some h' \<and> ref_inv h' {} R \<and> shrinks {} h h'"
  using put_cell_ok[of h "{}" _ R "h_next h + 1", OF _ live_next] by (cases p) (auto simp: json_object_put_def shrinks_refl)

section \<open>The data of a cell that stays\<close>

text \<open>Dropping references does not look at the parts of a cell that stays.\<close>

definition redata :: "nat \<Rightarrow> ref_data \<Rightarrow> jheap \<Rightarrow> jheap" where
  "redata a d h = (case h_cells h a of None \<Rightarrow> h | Some c \<Rightarrow> set_cell a (Some (c\<lparr>c_data := d\<rparr>)) h)"

lemma redata_cell: "h_cells (redata a d h) b = (if b = a then map_option (c_data_update (\<lambda>_. d)) (h_cells h a) else h_cells h b)"
  by (simp add: redata_def split: option.split)

lemma redata_own:
  "h_cells h a = Some c \<Longrightarrow>
     set_cell a (Some (c\<lparr>c_data := d, c_refs := r\<rparr>)) (redata a d h) = redata a d (set_cell a (Some (c\<lparr>c_refs := r\<rparr>)) h)"
  by (cases c) (simp add: redata_def set_cell_def)

lemma redata_commutes:
  "b \<noteq> a \<Longrightarrow> set_cell b x (redata a d h) = redata a d (set_cell b x h)"
  "delete_user u (redata a d h) = redata a d (delete_user u h)"
  "redata a d (redata a d' h) = redata a d h"
  "h_next (redata a d h) = h_next h"
  by (auto simp: redata_def set_cell_def delete_user_def fun_upd_twist split: option.splits)

lemma redata_same: "h_cells h a = Some c \<Longrightarrow> redata a (c_data c) h = h"
  by (simp add: redata_def set_cell_def fun_upd_idem)

lemma fold_option_none:
  assumes "\<And>h h' a. put_cell n h a = Some h' \<Longrightarrow> h_cells h b = None \<Longrightarrow> h_cells h' b = None"
  shows "fold_option (put_cell n) h as = Some h' \<Longrightarrow> h_cells h b = None \<Longrightarrow> h_cells h' b = None"
proof (induction as arbitrary: h)
  case (Cons a as)
  then obtain h1 where "put_cell n h a = Some h1" "fold_option (put_cell n) h1 as = Some h'" by (auto split: bind_splits)
  then show ?case using assms Cons by blast
qed simp

lemma put_cell_none: "put_cell n h a = Some h' \<Longrightarrow> h_cells h b = None \<Longrightarrow> h_cells h' b = None"
proof (induction n arbitrary: h h' a)
  case (Suc n)
  obtain c where c: "h_cells h a = Some c" using Suc.prems(1) by (auto split: option.splits)
  let ?h = "set_cell a (Some (c\<lparr>c_refs := c_refs c - 1\<rparr>)) h"
  have none: "h_cells ?h b = None" using Suc.prems(2) c by auto
  show ?case
  proof (cases "c_refs c = 1")
    case False
    then have "h' = ?h" using Suc.prems(1) c by (auto simp: Let_def split: if_splits)
    then show ?thesis using none by simp
  next
    case True
    then obtain h3 where "fold_option (put_cell n) (delete_user (c_user c) ?h) (kids (c_data c)) = Some h3" "h' = set_cell a None h3"
      using Suc.prems(1) c by (auto simp: Let_def split: if_splits)
    then show ?thesis using fold_option_none[OF Suc.IH] none by fastforce
  qed
qed simp

lemma fold_put_none: "fold_option (put_cell n) h as = Some h' \<Longrightarrow> h_cells h b = None \<Longrightarrow> h_cells h' b = None"
  by (rule fold_option_none[OF put_cell_none])

lemma fold_option_redata:
  assumes "\<And>h h' a. put_cell n h a = Some h' \<Longrightarrow> h_cells h' b \<noteq> None \<Longrightarrow> put_cell n (redata b d h) a = Some (redata b d h')"
  shows "fold_option (put_cell n) h as = Some h' \<Longrightarrow> h_cells h' b \<noteq> None \<Longrightarrow>
    fold_option (put_cell n) (redata b d h) as = Some (redata b d h')"
proof (induction as arbitrary: h)
  case (Cons a as)
  then obtain h1 where h1: "put_cell n h a = Some h1" "fold_option (put_cell n) h1 as = Some h'" by (auto split: bind_splits)
  then have "h_cells h1 b \<noteq> None" using fold_put_none[of n h1 as h' b] Cons.prems(2) by blast
  then show ?case using assms[OF h1(1)] Cons.IH[OF h1(2) Cons.prems(2)] by simp
qed simp

lemma put_cell_redata:
  "put_cell n h a = Some h' \<Longrightarrow> h_cells h' b \<noteq> None \<Longrightarrow> put_cell n (redata b d h) a = Some (redata b d h')"
proof (induction n arbitrary: h h' a)
  case (Suc n)
  obtain c where c: "h_cells h a = Some c" "\<not> c_refs c \<le> - INT_MAX - 1" using Suc.prems(1) by (auto split: option.splits if_splits)
  let ?h = "set_cell a (Some (c\<lparr>c_refs := c_refs c - 1\<rparr>)) h"
  show ?case
  proof (cases "c_refs c = 1")
    case False
    then have h': "h' = ?h" using Suc.prems(1) c by (auto simp: Let_def)
    show ?thesis
    proof (cases "a = b")
      case True
      then show ?thesis using False c h' redata_own[OF c(1), of "c_refs c - 1" d] by (simp add: redata_cell Let_def)
    next
      case other: False
      then show ?thesis using False c h' redata_commutes(1)[of a b] by (simp add: redata_cell Let_def)
    qed
  next
    case True
    then obtain h3 where h3: "fold_option (put_cell n) (delete_user (c_user c) ?h) (kids (c_data c)) = Some h3" "h' = set_cell a None h3"
      using Suc.prems(1) c by (auto simp: Let_def)
    then have ab: "a \<noteq> b" "h_cells h3 b \<noteq> None" using Suc.prems(2) by (auto split: if_splits)
    have "fold_option (put_cell n) (redata b d (delete_user (c_user c) ?h)) (kids (c_data c)) = Some (redata b d h3)"
      by (rule fold_option_redata[OF Suc.IH h3(1) ab(2)])
    then show ?thesis using True c h3(2) ab(1) redata_commutes(1)[of a b] redata_commutes(2)[of _ b d] by (simp add: redata_cell Let_def)
  qed
qed simp

lemma redata_twice: "redata a d (redata a d' h) = redata a d h"
  by (rule redata_commutes)

lemma json_object_put_redata:
  assumes "json_object_put p h = Some h'" "h_cells h' b \<noteq> None"
  shows "json_object_put p (redata b d h) = Some (redata b d h')"
  using assms put_cell_redata[of "h_next h + 1" h _ h' b d] redata_commutes(4)[of b d h]
  by (cases p) (simp_all add: json_object_put_def)

section \<open>Taking a place of a container\<close>

lemma ref_inv_redata:
  assumes "ref_inv h {} R" "h_cells h a = Some c" "keys_ok d" "mset (kids d) + R' = mset (kids (c_data c)) + R"
  shows "ref_inv (redata a d h) {} R'"
proof -
  let ?h = "redata a d h"
  have inv: "cell_inv h {} b (count (held_in h {} + R) b)" for b using assms(1) by (simp add: ref_inv_def)
  have a: "a \<in> live h {}" using inv[of a] assms(2) by (auto simp: cell_inv_def live_def)
  have live: "live ?h Z = live h Z" for Z using assms(2) by (auto simp: live_def redata_cell redata_commutes)
  have "held_in ?h {a} = held_in h {a}"
    by (rule held_in_cong[OF live]) (simp add: cell_kids_def live_def redata_cell)
  moreover have "cell_kids ?h a = mset (kids d)" using assms(2) by (simp add: cell_kids_def redata_cell)
  moreover have "cell_kids h a = mset (kids (c_data c))" using assms(2) by (simp add: cell_kids_def)
  ultimately have eq: "held_in ?h {} + R' = held_in h {} + R"
    using held_in_insert[of a ?h "{}"] held_in_insert[OF a] a assms(4) by (simp add: live ac_simps)
  have "cell_inv ?h {} a (count (held_in h {} + R) a)"
    using inv[of a] assms(2,3) by (simp add: cell_inv_def redata_cell redata_commutes)
  then show ?thesis by (intro ref_inv_other[OF assms(1), of a]) (simp_all add: eq redata_commutes redata_cell del: count_union)
qed

lemma ref_inv_alive:
  assumes "ref_inv h {} R" "a \<in># R"
  obtains c where "h_cells h a = Some c" "keys_ok (c_data c)"
proof -
  have "cell_inv h {} a (count (held_in h {} + R) a)" using assms(1) by (simp add: ref_inv_def)
  moreover have "count R a \<noteq> 0" using assms(2) by simp
  ultimately show thesis by (auto simp: cell_inv_def count_eq_zero_iff split: option.splits intro: that)
qed

lemma replace_value_ok:
  assumes "ref_inv h {} (given v + R)" "h_cells h a = Some c" "a \<in># R" "keys_ok (upd (c_data c))"
    "mset (kids (upd (c_data c))) + given old = mset (kids (c_data c)) + given v"
  shows "\<exists>h'. replace_value a old upd h = Some h' \<and> ref_inv h' {} R"
proof -
  let ?h = "redata a (upd (c_data c)) h"
  have "mset (kids (upd (c_data c))) + (given old + R) = mset (kids (c_data c)) + (given v + R)"
    using assms(5) by (simp flip: add.assoc)
  then have "ref_inv ?h {} (given old + R)" by (rule ref_inv_redata[OF assms(1,2,4)])
  then obtain h1 where h1: "json_object_put old ?h = Some h1" "ref_inv h1 {} R" "shrinks {} ?h h1"
    using json_object_put_ok by blast
  obtain c1 where c1: "h_cells h1 a = Some c1" by (rule ref_inv_alive[OF h1(2) assms(3)])
  have "\<exists>c'. h_cells ?h a = Some c' \<and> c_data c1 = c_data c'" using h1(3) c1 unfolding shrinks_def by blast
  then have data: "c_data c1 = upd (c_data c)" using assms(2) by (auto simp: redata_cell)
  have "json_object_put old h = Some (redata a (c_data c) h1)"
    using json_object_put_redata[OF h1(1), of a "c_data c"] c1 by (simp add: redata_twice redata_same[OF assms(2)])
  moreover have "set_cell a (Some (c1\<lparr>c_data := upd (c_data c)\<rparr>)) (redata a (c_data c) h1) = h1"
    using c1 data by (simp add: redata_def set_cell_def fun_upd_idem)
  ultimately have "replace_value a old upd h = Some h1" using c1 by (simp add: replace_value_def redata_cell)
  then show ?thesis using h1(2) by blast
qed

end
