(* ===== verification/Json_Refs_Ops.thy ===== *)
theory Json_Refs_Ops
  imports Json_Refs_Spec
begin

text \<open>
  Every operation of \<open>Json_Refs\<close> keeps the invariant of \<open>Json_Refs_Spec\<close> when its caller gives away
  only references of its own, and with it the property of reference counts.
\<close>

section \<open>The parts of a container\<close>

lemma map_filter_append: "List.map_filter f (xs @ ys) = List.map_filter f xs @ List.map_filter f ys"
  by (simp add: List.map_filter_def)

lemma map_filter_Cons: "mset (List.map_filter f (x # xs)) = given (f x) + mset (List.map_filter f xs)"
  by (cases "f x") (simp_all add: List.map_filter_def)

declare List.map_filter_simps(2) [simp del]

lemma members_get_Cons: "members_get ((k', w) # ms) k = (if k' = k then w else members_get ms k)"
  by (simp add: members_get_def)

lemma members_get_absent: "k \<notin> fst ` set ms \<Longrightarrow> members_get ms k = None"
  by (simp add: members_get_def map_of_eq_None_iff[THEN iffD2])

lemma kids_replace:
  assumes "distinct (map fst ms)" "k \<in> fst ` set ms"
  shows "mset (List.map_filter snd (map (\<lambda>e. if fst e = k then (k, v) else e) ms)) + given (members_get ms k) =
    mset (List.map_filter snd ms) + given v"
  using assms
proof (induction ms)
  case (Cons m ms)
  obtain k' w where m: "m = (k', w)" by (cases m)
  show ?case
  proof (cases "k' = k")
    case True
    then have "map (\<lambda>e. if fst e = k then (k, v) else e) ms = ms" using Cons.prems(1) m by (intro map_idI) force
    then show ?thesis using True m by (simp add: map_filter_Cons members_get_Cons)
  next
    case False
    then show ?thesis using Cons m by (simp add: map_filter_Cons members_get_Cons add.assoc)
  qed
qed simp

lemma kids_add_member:
  assumes "distinct (map fst ms)"
  shows "mset (kids (add_member k v (R_object ms))) + given (members_get ms k) = mset (kids (R_object ms)) + given v"
proof (cases "k \<in> fst ` set ms")
  case True
  then show ?thesis using kids_replace[OF assms True] by (simp add: members_add_def)
next
  case False
  then show ?thesis using members_get_absent[OF False] map_filter_Cons[of snd "(k, v)" "[]"]
    by (simp add: members_add_def map_filter_append)
qed

lemma keys_replace: "map fst (map (\<lambda>e. if fst e = k then (k, v) else e) ms) = map fst ms"
  by (induction ms) simp_all

lemma keys_add_member: "distinct (map fst ms) \<Longrightarrow> keys_ok (add_member k v (R_object ms))"
proof (cases "k \<in> fst ` set ms")
  case True
  then show "distinct (map fst ms) \<Longrightarrow> keys_ok (add_member k v (R_object ms))"
    by (simp add: keys_ok_def members_add_def keys_replace del: map_map)
next
  case False
  then show "distinct (map fst ms) \<Longrightarrow> keys_ok (add_member k v (R_object ms))"
    by (simp add: keys_ok_def members_add_def)
qed

lemma kids_del_member:
  "distinct (map fst ms) \<Longrightarrow> mset (kids (del_member k (R_object ms))) + given (members_get ms k) = mset (kids (R_object ms))"
proof (induction ms)
  case (Cons m ms)
  obtain k' w where m: "m = (k', w)" by (cases m)
  have "filter (\<lambda>e. fst e \<noteq> k) ms = ms" if "k \<notin> fst ` set ms" using that by (intro filter_True) force
  then show ?case using Cons m by (auto simp: map_filter_Cons members_get_Cons add.assoc)
qed (simp add: members_get_def)

lemma keys_del_member: "distinct (map fst ms) \<Longrightarrow> keys_ok (del_member k (R_object ms))"
  by (simp add: keys_ok_def distinct_map_filter)

lemma kids_put_element:
  "mset (kids (put_element i v (R_array vs))) + given (if i < length vs then vs ! i else None) = mset (kids (R_array vs)) + given v"
proof -
  have fill: "List.map_filter id (replicate n None) = []" for n by (induction n) (simp_all add: List.map_filter_def)
  have upd: "mset (List.map_filter id (ws[i := v])) + given (ws ! i) = mset (List.map_filter id ws) + given v" if "i < length ws" for ws
    using that
  proof (induction ws arbitrary: i)
    case (Cons w ws)
    then show ?case by (cases i) (simp_all add: map_filter_Cons add.assoc)
  qed simp
  let ?ws = "vs @ replicate (Suc i - length vs) None"
  have "?ws ! i = (if i < length vs then vs ! i else None)" by (simp add: nth_append)
  then show ?thesis using upd[of ?ws] by (simp add: list_put_def map_filter_append fill)
qed

section \<open>The operations keep the invariant\<close>

lemma replace_member_ok:
  assumes "ref_inv h {} R" "given v \<subseteq># R" "a \<in># R - given v" "h_cells h a = Some c" "keys_ok (upd (c_data c))"
    "mset (kids (upd (c_data c))) + given old = mset (kids (c_data c)) + given v"
  shows "\<exists>h'. replace_value a old upd h = Some h' \<and> ref_inv h' {} (R - given v)"
proof -
  have "ref_inv h {} (given v + (R - given v))" using assms(1,2) by simp
  then show ?thesis by (rule replace_value_ok[where upd = upd and old = old, OF _ assms(4,3,5,6)])
qed

lemma is_data_cell:
  assumes "is_data sel a h" "ref_inv h {} R"
  obtains c x where "h_cells h a = Some c" "sel (c_data c) = Some x" "keys_ok (c_data c)"
proof -
  obtain c x where c: "h_cells h a = Some c" "sel (c_data c) = Some x" using assms(1) by (auto simp: is_data_def split: option.splits)
  have "cell_inv h {} a (count (held_in h {} + R) a)" using assms(2) by (simp add: ref_inv_def)
  then have "keys_ok (c_data c)" using c(1) by (simp add: cell_inv_def)
  then show thesis using c that by blast
qed

lemma data_sel: "data_members d = Some ms \<Longrightarrow> d = R_object ms" "data_elements d = Some vs \<Longrightarrow> d = R_array vs"
  by (cases d; simp)+

lemma add_member_ok:
  assumes "ref_inv h {} R" "may (Add_member a k v) h R"
  shows "\<exists>h'. ref_object_add a k v h = Some h' \<and> ref_inv h' {} (R - given v)"
proof -
  obtain c ms where c: "h_cells h a = Some c" "data_members (c_data c) = Some ms" "keys_ok (c_data c)"
    by (rule is_data_cell[OF _ assms(1), of data_members a]) (use assms(2) in simp)
  have ms: "c_data c = R_object ms" "distinct (map fst ms)" using data_sel(1)[OF c(2)] c(3) by (auto simp: keys_ok_def)
  show ?thesis
    using replace_member_ok[OF assms(1) _ _ c(1), of v "add_member k v" "members_get ms k"] assms(2) c
      kids_add_member[OF ms(2)] keys_add_member[OF ms(2)] by (simp add: ref_object_add_def ms del: add_member.simps)
qed

lemma del_member_ok:
  assumes "ref_inv h {} R" "may (Del_member a k) h R"
  shows "\<exists>h'. ref_object_del a k h = Some h' \<and> ref_inv h' {} R"
proof -
  obtain c ms where c: "h_cells h a = Some c" "data_members (c_data c) = Some ms" "keys_ok (c_data c)"
    by (rule is_data_cell[OF _ assms(1), of data_members a]) (use assms(2) in simp)
  have ms: "c_data c = R_object ms" "distinct (map fst ms)" using data_sel(1)[OF c(2)] c(3) by (auto simp: keys_ok_def)
  show ?thesis
    using replace_member_ok[OF assms(1) _ _ c(1), of None "del_member k" "members_get ms k"] assms(2) c
      kids_del_member[OF ms(2)] keys_del_member[OF ms(2)] by (simp add: ref_object_del_def ms del: del_member.simps)
qed

lemma put_element_ok:
  assumes "ref_inv h {} R" "may (Put_element a i v) h R"
  shows "\<exists>h'. json_object_array_put_idx a i v h = Some h' \<and> ref_inv h' {} (R - given v)"
proof -
  obtain c vs where c: "h_cells h a = Some c" "data_elements (c_data c) = Some vs"
    by (rule is_data_cell[OF _ assms(1), of data_elements a]) (use assms(2) in simp)
  have vs: "c_data c = R_array vs" by (rule data_sel(2)[OF c(2)])
  have "keys_ok (put_element i v (R_array vs))" by (simp add: keys_ok_def)
  then show ?thesis
    using replace_member_ok[OF assms(1) _ _ c(1), of v "put_element i v" "if i < length vs then vs ! i else None"] assms(2) c
      kids_put_element[of i v vs] by (simp add: json_object_array_put_idx_def vs del: put_element.simps)
qed

lemma array_add_ok:
  assumes "ref_inv h {} R" "may (Add_element a v) h R"
  shows "\<exists>h'. ref_array_add a v h = Some h' \<and> ref_inv h' {} (R - given v)"
proof -
  obtain c vs where "h_cells h a = Some c" "data_elements (c_data c) = Some vs"
    by (rule is_data_cell[OF _ assms(1), of data_elements a]) (use assms(2) in simp)
  then show ?thesis using put_element_ok[OF assms(1), of a "length vs" v] assms(2) by (simp add: ref_array_add_def)
qed

lemma get_ref_ok:
  assumes "ref_inv h {} R" "may (Get_ref a) h R"
  shows "\<exists>h'. json_object_get (Some a) h = Some h' \<and> ref_inv h' {} (add_mset a R)"
proof -
  obtain c where c: "h_cells h a = Some c" "c_refs c < INT_MAX" using assms(2) by (auto split: option.splits)
  let ?h = "set_cell a (Some (c\<lparr>c_refs := c_refs c + 1\<rparr>)) h"
  have held: "held_in ?h {} = held_in h {}" using c(1) by (intro held_in_cong) (auto simp: live_def cell_kids_def)
  have inc: "cell_inv h {} a n \<Longrightarrow> cell_inv ?h {} a (Suc n)" for n using c(1) by (simp add: cell_inv_def)
  have "cell_inv h {} a (count (held_in h {} + R) a)" using assms(1) by (simp add: ref_inv_def)
  from inc[OF this] have "cell_inv ?h {} a (count (held_in ?h {} + add_mset a R) a)" unfolding held by simp
  then have "ref_inv ?h {} (add_mset a R)" by (intro ref_inv_other[OF assms(1), of a]) (simp_all add: held)
  then show ?thesis using c by (simp add: json_object_get_def)
qed

lemma set_user_ok:
  assumes "ref_inv h {} R" "a \<in># R"
  shows "\<exists>h'. json_object_set_serializer a u h = Some h' \<and> ref_inv h' {} R"
proof -
  obtain c where c: "h_cells h a = Some c" by (rule ref_inv_alive[OF assms])
  let ?h = "set_cell a (Some (c\<lparr>c_user := u\<rparr>)) (delete_user (c_user c) h)"
  have held: "held_in ?h {} = held_in h {}" using c(1) by (intro held_in_cong) (auto simp: live_def cell_kids_def)
  have same: "cell_inv h {} a n \<Longrightarrow> cell_inv ?h {} a n" for n using c(1) by (simp add: cell_inv_def)
  have "cell_inv h {} a (count (held_in h {} + R) a)" using assms(1) by (simp add: ref_inv_def)
  from same[OF this] have "cell_inv ?h {} a (count (held_in ?h {} + R) a)" unfolding held by simp
  then have "ref_inv ?h {} R" by (intro ref_inv_other[OF assms(1), of a]) (simp_all add: held)
  then show ?thesis using c by (simp add: json_object_set_serializer_def)
qed

lemma new_ok:
  assumes "ref_inv h {} R" "kids d = []" "keys_ok d"
  shows "ref_inv (fst (json_object_new d h)) {} (add_mset (h_next h) R)"
proof -
  let ?a = "h_next h" and ?h = "fst (json_object_new d h)"
  have inv: "cell_inv h {} b (count (held_in h {} + R) b)" for b using assms(1) by (simp add: ref_inv_def)
  have fresh: "h_cells h ?a = None" "count (held_in h {} + R) ?a = 0"
    using inv[of ?a] by (auto simp: cell_inv_def split: option.splits)
  have cells: "h_cells ?h = (h_cells h)(?a := Some \<lparr>c_refs = 1, c_data = d, c_user = None\<rparr>)" "h_next ?h = ?a + 1"
    by (simp_all add: json_object_new_def)
  have "live ?h {} = insert ?a (live h {})" by (auto simp: live_def cells)
  moreover have "?a \<notin> live h {}" by (simp add: live_def)
  ultimately have "held_in ?h {} = cell_kids ?h ?a + (\<Sum>b \<in> live h {}. cell_kids ?h b)" by (simp add: held_in_def)
  also have "(\<Sum>b \<in> live h {}. cell_kids ?h b) = held_in h {}"
    unfolding held_in_def by (intro sum.cong) (auto simp: live_def cell_kids_def cells)
  finally have held: "held_in ?h {} = held_in h {}" using assms(2) by (simp add: cell_kids_def cells)
  show ?thesis
    unfolding ref_inv_def
  proof
    fix b
    show "cell_inv ?h {} b (count (held_in ?h {} + add_mset ?a R) b)"
    proof (cases "b = ?a")
      case True
      then show ?thesis using fresh(2) assms(3) by (simp add: cell_inv_def cells held)
    next
      case False
      then show ?thesis using inv[of b] by (auto simp: cell_inv_def cells held split: option.splits)
    qed
  qed
qed

lemma exec_ref_ok:
  assumes "ref_inv h {} R" "may op h R"
  shows "\<exists>h'. exec_ref op h = Some h' \<and> ref_inv h' {} (held_after op h R)"
proof (cases op)
  case (New d)
  then have "kids d = []" "keys_ok d" using assms(2) by (auto simp: keys_ok_def)
  then show ?thesis using New new_ok[OF assms(1)] by simp
next
  case (Put_ref a)
  then have "ref_inv h {} (given (Some a) + (R - {#a#}))" using assms by simp
  then show ?thesis using Put_ref json_object_put_ok by fastforce
qed (use assms get_ref_ok add_member_ok del_member_ok put_element_ok array_add_ok set_user_ok in simp_all)

lemma run_refs_ok:
  "ref_inv h {} R \<Longrightarrow> may_run ops h R \<Longrightarrow> \<exists>h'. run_refs ops h = Some h' \<and> ref_inv h' {} (held_at_end ops h R)"
proof (induction ops arbitrary: h R)
  case (Cons op ops)
  then obtain h1 where "exec_ref op h = Some h1" "ref_inv h1 {} (held_after op h R)" using exec_ref_ok by fastforce
  then show ?case using Cons by simp
qed simp

section \<open>Reference counts are exact\<close>

text \<open>The references to a cell: those the caller holds and those in all containers of the heap.\<close>

definition parts_of :: "jheap \<Rightarrow> nat \<Rightarrow> nat list" where
  "parts_of h b = (case h_cells h b of None \<Rightarrow> [] | Some c \<Rightarrow> kids (c_data c))"

definition references :: "jheap \<Rightarrow> nat multiset \<Rightarrow> nat \<Rightarrow> nat" where
  "references h R a = count R a + (\<Sum>b \<leftarrow> [0..<h_next h]. count_list (parts_of h b) a)"

lemma references_held: "references h R a = count (held_in h {} + R) a"
proof -
  have part: "count_list (parts_of h b) a = count (cell_kids h b) a" for b
    by (simp add: parts_of_def cell_kids_def count_mset split: option.split)
  have "(\<Sum>b \<in> {0..<h_next h}. count (cell_kids h b) a) = (\<Sum>b \<in> live h {}. count (cell_kids h b) a)"
    by (rule sum.mono_neutral_right) (auto simp: live_def cell_kids_def)
  then show ?thesis by (simp add: references_def part held_in_def interv_sum_list_conv_sum_set_nat count_sum)
qed

lemma empty_heap_inv: "ref_inv empty_heap {} {#}"
  by (simp add: ref_inv_def cell_inv_def held_in_def live_def empty_heap_def)

text \<open>
  C6. Reference counts are exact: for any sequence of new values, gets, puts, and changes of objects and
  arrays in which a caller gives away only references it holds and changes only containers it holds a
  reference to besides those given away, and no count is raised to the limit of its type, no freed memory is
  used, every value that is alive has as its count the references to it from containers and from the
  caller, at least one, and no reference to a freed value is left; a value that nothing refers to is freed.
  Without a reference of its own to the container a caller may free it by its change.
\<close>

theorem json_refs_exact:
  assumes "may_run ops empty_heap {#}"
  shows "\<exists>h. run_refs ops empty_heap = Some h \<and>
    (\<forall>a. case h_cells h a of
        None \<Rightarrow> references h (held_at_end ops empty_heap {#}) a = 0
      | Some c \<Rightarrow> c_refs c = int (references h (held_at_end ops empty_heap {#}) a) \<and> 0 < c_refs c)"
proof -
  let ?R = "held_at_end ops empty_heap {#}"
  obtain h where h: "run_refs ops empty_heap = Some h" "ref_inv h {} ?R"
    using run_refs_ok[OF empty_heap_inv assms] by blast
  have "case h_cells h a of None \<Rightarrow> references h ?R a = 0 | Some c \<Rightarrow> c_refs c = int (references h ?R a) \<and> 0 < c_refs c" for a
  proof -
    have "cell_inv h {} a (references h ?R a)" using h(2) by (simp add: ref_inv_def references_held)
    then show ?thesis by (simp add: cell_inv_def split: option.splits)
  qed
  then show ?thesis using h(1) by blast
qed

text \<open>An array as a member is shared, its object is freed and the member is replaced.\<close>

definition sample_ops :: "ref_op list" where
  "sample_ops = [New (R_object []), New (R_array []), New R_scalar, Add_element 1 (Some 2), Get_ref 1,
     Add_member 0 ''a'' (Some 1), Set_user 0 (Some 7), New R_scalar, Add_member 0 ''a'' (Some 3), Put_ref 0]"

theorem json_refs_exact_witness:
  "\<exists>h. run_refs sample_ops empty_heap = Some h \<and> h_cells h 0 = None \<and> h_cells h 3 = None \<and> h_deleted h = [7] \<and>
    map_option c_refs (h_cells h 1) = Some 1 \<and> map_option c_refs (h_cells h 2) = Some 1 \<and>
    (\<forall>a. case h_cells h a of
        None \<Rightarrow> references h {#1#} a = 0
      | Some c \<Rightarrow> c_refs c = int (references h {#1#} a) \<and> 0 < c_refs c)"
proof -
  note evaluate = sample_ops_def empty_heap_def json_object_new_def json_object_get_def json_object_put_def put_cell.simps
    json_object_set_serializer_def delete_user_def replace_value_def ref_object_add_def json_object_array_put_idx_def
    ref_array_add_def is_data_def members_get_def members_add_def list_put_def INT_MAX_def numeral_2_eq_2 numeral_3_eq_3
    List.map_filter_def
  have may: "may_run sample_ops empty_heap {#}" by (simp add: evaluate)
  have run: "\<exists>h. run_refs sample_ops empty_heap = Some h \<and> h_cells h 0 = None \<and> h_cells h 3 = None \<and> h_deleted h = [7] \<and>
      map_option c_refs (h_cells h 1) = Some 1 \<and> map_option c_refs (h_cells h 2) = Some 1"
    by (simp add: evaluate)
  have held: "held_at_end sample_ops empty_heap {#} = {#1#}" by (simp add: evaluate)
  show ?thesis using json_refs_exact[OF may] run unfolding held by auto
qed

end
