(* ===== verification/Spec2Isabelle.thy ===== *)
theory Spec2Isabelle
  imports Rmnet_Api Rmnet_Rt_Api Rmnet_Cli_Api Dt_Files_Spec Dt_Dirs_Spec Dt_Iptable_Spec Dt_Program_Api Dt_Release
    Json_Hash Json_Access Json_Limits Json_Iter Json_File Json_Refs_Ops
begin

text \<open>
  Verification library of the C programs of the SDM845 device tree: the data services under
  src/dataservices and the JSON library under src/json-c. The rest of the repository is device
  configuration, kernel headers and HAL glue.

  The programs. \<^bold>\<open>librmnetctl\<close> (rmnetctl/src/librmnetctl.c) configures the kernel's RmNet
  devices: an older API over a private netlink protocol (\<open>rmnet_*\<close>) and a newer one over rtnetlink
  (\<open>rtrmnet_*\<close>). \<^bold>\<open>rmnetcli\<close> (rmnetctl/cli/rmnetcli.c) is a command line program for both.
  \<^bold>\<open>datatop\<close> (datatop/src) finds numbers in files under /proc and /sys, polls them, and prints
  their values and differences. \<^bold>\<open>json-c\<close> (json-c) keeps JSON values as counted objects, prints
  them into text buffers, parses them with a state machine that takes texts in pieces, and has its
  own hash tables (objects) and arrays.

  \<^bold>\<open>Conventions.\<close> Machine integers are words of their width; memory that is read back in
  another layout (messages, attributes, the union of a data point) is a list of bytes; text is a list
  of characters with the C terminator written out. \<open>None\<close> as the result of a function is undefined
  behaviour of the C code: a read or write outside its object, a signed overflow, a null or unset
  pointer used. Error results are the code's own integers. A call that may end the program gives what
  it returns or the exit status (\<open>call\<close>), and nothing is run after an exit. What the program asks of its surroundings
  is a parameter: for librmnetctl an environment \<open>K\<close> answers each system call from the trace of all
  calls so far, so that theorems hold for any kernel; for datatop a \<open>world\<close> gives the files, fresh
  memory and the answers of the file system, and \<open>W\<close> says which writes succeed; for json-c the sizes
  for which memory is there, the library's floating-point operations (\<open>c_double\<close>), its \<open>sscanf\<close> of
  integers (\<open>int_scan\<close>), hash functions, and the answers of \<open>open\<close>, \<open>read\<close> and \<open>write\<close>.

  \<^bold>\<open>Theories\<close>, in the order of their imports:
  \<^item> \<open>C_Base\<close>, \<open>C_Lib\<close>: slices of memory and little-endian images, C strings, the conversions of
    \<open>strtol\<close>, \<open>sscanf\<close> and \<open>printf\<close>, and that numbers printed are read back.
  \<^item> \<open>Rmnet_Msg\<close>: \<open>struct rmnet_nl_msg_s\<close> and its image (kernel-headers/linux/rmnet_data.h).
    \<open>Rmnet_Sys\<close>: the environment, the trace and the handle. \<open>Rmnet_Legacy\<close>: the older API,
    \<open>rmnetctl_init\<close> to \<open>rmnet_add_del_vnd_tc_flow\<close>, with \<open>rmnetctl_transact\<close>.
  \<^item> \<open>Rmnet_Contract\<close>: the kernel's side of the protocol as a function from request to reply; the
    locales \<open>code_call\<close> (calls answered by a code) and \<open>query_call\<close> (calls answered by data).
    \<open>Rmnet_Commands\<close>: every call as a request of the abstract driver, and the interpretations of
    \<open>code_call\<close> on each. \<open>Rmnet_Api\<close>: its properties.
  \<^item> \<open>Rta\<close>: attributes in a message buffer (\<open>rta_put\<close>, \<open>rta_find\<close>, \<open>rta_parse\<close>,
    \<open>rmnet_fill_newlink_msg\<close>, \<open>rmnet_fill_flow_msg\<close>). \<open>Rta_Spec\<close>: attribute trees and their images.
  \<^item> \<open>Rmnet_Rt\<close>: the newer API. \<open>Rmnet_Rt_Spec\<close>: each request function as one message built from an
    attribute list. \<open>Rmnet_Rt_Api\<close>: the locale \<open>request_call\<close> with its interpretation, and properties.
  \<^item> \<open>Rmnet_Cli\<close>, \<open>Rmnet_Cli_Api\<close>: the command line program and its properties; it ends with a return
    or with the use of the handle it has freed (\<open>cli_exit\<close>).
  \<^item> \<open>Dt_Str\<close>, \<open>Dt_Str_Spec\<close>: datatop's parsers (datatop_str.c) and what they find in a line.
  \<^item> \<open>Dt_Point\<close>: data points, gatherers, printing, differences, resetting (datatop_helpers.c,
    datatop_interface.h, datatop_linked_list.c, whose allocation of a node may end the program). \<open>Dt_File\<close>: datatop_fileops.c.
  \<^item> \<open>Dt_Files\<close>: the searches and polls of /proc/meminfo, /proc/stat and /proc/net/dev
    (datatop_meminfo_file_poll.c, datatop_stat_poll.c, datatop_dev_poll.c). \<open>Dt_Files_Spec\<close>: what their
    parsers find, as words of the line. \<open>Dt_Poll\<close>: the other files of values
    (datatop_value_only_poll.c, datatop_gen_poll.c, datatop_single_line_poll.c,
    datatop_dual_line_poll.c), and the dispatch through the poll pointer.
  \<^item> \<open>Dt_Contract\<close>: the locale \<open>poll_op\<close>, what a program may rely on when it calls through that
    pointer, interpreted on each poll function and on the dispatch. \<open>Dt_Values\<close>: storing, printing and
    subtracting values, and polls from the file's text to the points.
  \<^item> \<open>Dt_Dirs\<close>: directories and the working directory, \<open>dtop_register\<close>, the recursive \<open>dtop_search\<close>
    and the processors' files (datatop_gen_poll.c, datatop_cpu_stats_poll.c). \<open>Dt_Dirs_Spec\<close>: a tree of
    directories, its regular files in order, and that the search registers exactly these.
  \<^item> \<open>Dt_Snap\<close>: the system snapshot (datatop_sys_snap.c); what a child process appends and returns
    is a parameter.
  \<^item> \<open>Dt_Iptable\<close>: IP tables, rules and routes (datatop_ip_table_poll.c): the gatherers, the files, a
    poll, with the stream's buffer and the command's standard error going to the same file; the polling
    thread and the exit handler are the two processes of the step relation \<open>ip_step\<close>,
    with the mutex as its holder. \<open>Dt_Iptable_Spec\<close>: its invariant, mutual exclusion, that the exit
    handler always gets to its end, and what goes wrong after it.
  \<^item> \<open>Dt_Main\<close>, \<open>Dt_Api\<close>: options and the periodic session (datatop_opt.c, datatop.c), and their
    properties. \<open>Dt_Program\<close>: \<open>main\<close> of datatop.c, from the options to the exit status.
    \<open>Dt_Program_Api\<close>: the locale \<open>search_op\<close>, what a search adds to the list of gatherers,
    interpreted on the searches; the list of \<open>main\<close>, its default run and its exit statuses.
  \<^item> \<open>Dt_Release\<close>: the heap blocks every search, poll and deconstructor of datatop takes and gives
    back, and that they balance.
  \<^item> \<open>Json_Linkhash\<close>: the hash table (linkhash.c), slots with keys, values and the links of the order.
    \<open>Json_Linkhash_Spec\<close>: its invariant, and the list of entries a table stands for (\<open>lh_rep\<close>).
    \<open>Json_Table\<close>: objects over tables, the locale \<open>entry_table\<close> between them, interpreted on the hash
    table. \<open>Json_Iter\<close>: iterators and the loop macro (json_object_iterator.c). \<open>Json_Hash\<close>: the hash
    functions and a reference definition they agree with.
  \<^item> \<open>Json_Array\<close>, \<open>Json_Printbuf\<close>: growing arrays (arraylist.c) and text buffers (printbuf.c).
  \<^item> \<open>Json_Value\<close>: values as trees, conversions, and their text (json_object.c, json_util.c).
    \<open>Json_Access\<close>: constructors and contents.
    \<open>Json_Escape\<close>: what escaping does to each character.
  \<^item> \<open>Json_Tokener\<close>: the parser (json_tokener.c), one function per state and the loop over them.
    \<open>Json_Reads\<close>, \<open>Json_Scalars\<close>, \<open>Json_Roundtrip\<close>: which texts it reads as which tokens and values, up
    to the text of every value. \<open>Json_Safety\<close>, \<open>Json_Returns\<close>: the invariant of its states and stack, a
    rank that falls while it stays on a character, and that it returns. \<open>Json_Limits\<close>: texts it
    misreads, by evaluation.
  \<^item> \<open>Json_File\<close>: values in files (json_util.c). \<open>Json_Refs\<close>: values as counted cells of a heap;
    \<open>Json_Refs_Spec\<close>, \<open>Json_Refs_Ops\<close>: that the counts are exact, whatever is shared.

  \<^bold>\<open>Refinement.\<close> For the older API, each call on any environment that behaves like a driver
  (a function from requests to replies) equals the driver applied to the request the call stands for,
  with the results the code derives from the reply. For the newer API each function equals a
  specification that resolves the device names, sends one message whose attributes are given as a
  list, and reads the acknowledgement. For datatop, polls are related to the fields of the file's
  lines. For json-c, tables are related to lists of members, arrays and buffers to what they hold, the
  three readings of a key to one on its bytes, and texts to the values they are the text of.

  \<^bold>\<open>Bounds.\<close> Loops over buffers recurse on the bytes that are left (with a termination proof where
  an attribute's length decides), on the number of rounds of a \<open>for\<close> statement (\<open>for_loop\<close>), or on the
  list of rounds of a session. Depth bounds are first arguments: of \<open>dtop_search\<close>, where as many levels
  as the tree has are enough and the theorem on it asks for no more; of \<open>lh_table_insert\<close>, 2, as the
  inserts of a table being resized resize no further; of \<open>put_cell\<close>, one more than the cells of the
  heap, as a cell that dies is not met again. The loop of the parser is a partial function, with the
  theorem that it returns.

  \<^bold>\<open>Not modelled:\<close> of json-c the random seed, debug output, versions, the switching of locales,
  user-defined serializers, and failures of memory in the parser and in reference counting; the HALs in
  C++ (light, USB, power, perf client), which pass calls on to files of the kernel; kernel headers but
  for the message structure; the text of rmnetcli's usage message, and messages to the standard error
  stream but for those of the capture, which go to its files.
\<close>

end
